(* ===== verification/Prelude.thy ===== *)
theory Prelude
  imports Complex_Main "HOL-Library.AList"
begin

text \<open>
  Shared vocabulary of the development: the exceptions the program raises, the result
  type of an operation that may raise, sequencing of such operations and of loops over
  them, object identity (Python's \<open>is\<close>), and the lemmas about them that carry the
  component proofs.  The collections \<open>res_simps\<close> and \<open>obj_simps\<close> gather the
  rewrite rules every component uses.
\<close>

named_theorems res_simps \<open>evaluation of results that may be exceptions\<close>
named_theorems obj_simps \<open>object identity\<close>

section \<open>Exceptions and results\<close>

text \<open>
  One constructor per exception class the modelled code raises.  Where callers read data
  from the exception (a job error's code, a parameter error's message, the two revisions
  of a conflict, the code and advice of an HTTP error), the constructor carries it.
\<close>

datatype exn =
    TypeError | ValueError | KeyError | IndexError | RuntimeError | OverflowError | AttributeError | AssertionError
  | ParameterError string
  | RegistryError
  | InvalidInvocation | InvocationExpired | AccessDenied | ServiceUnavailable
  | AdmissionError | InvalidAdmissionLease | CapabilityUnavailable | MutationReentryError
  | ScopeClosedError | ScopeCancelled | ScopeDeadlineExceeded | ScopeStopTimeout
  | LifecycleError | ModuleNotFound | ModuleDisabled | ModuleStopping | StaleEpochError | LifecycleStopTimeout
  | LifecycleOperationTimeout | CancelledError
  | JobError string
  | RevisionConflict int int
  | IntegrityError | UniqueConstraintViolation | RootOutputConflict
  | SourceHttpError string "int option" "rat option"
  | HostError nat

type_synonym 'a res = "exn + 'a"

text \<open>The subclass relations that decide which \<open>except\<close> clause catches what.\<close>

fun is_InvalidInvocation :: "exn \<Rightarrow> bool" where
  "is_InvalidInvocation InvalidInvocation = True"
| "is_InvalidInvocation InvocationExpired = True"
| "is_InvalidInvocation _ = False"

fun is_AdmissionError :: "exn \<Rightarrow> bool" where
  "is_AdmissionError AdmissionError = True"
| "is_AdmissionError InvalidAdmissionLease = True"
| "is_AdmissionError CapabilityUnavailable = True"
| "is_AdmissionError _ = False"

fun is_LifecycleError :: "exn \<Rightarrow> bool" where
  "is_LifecycleError LifecycleError = True"
| "is_LifecycleError ModuleNotFound = True"
| "is_LifecycleError ModuleDisabled = True"
| "is_LifecycleError ModuleStopping = True"
| "is_LifecycleError StaleEpochError = True"
| "is_LifecycleError LifecycleStopTimeout = True"
| "is_LifecycleError LifecycleOperationTimeout = True"
| "is_LifecycleError _ = False"

definition rbind :: "'a res \<Rightarrow> ('a \<Rightarrow> 'b res) \<Rightarrow> 'b res" where
  "rbind r f = (case r of Inl e \<Rightarrow> Inl e | Inr x \<Rightarrow> f x)"

text \<open>\<open>try: r except P: raise e\<close>.\<close>

definition reraise :: "(exn \<Rightarrow> bool) \<Rightarrow> exn \<Rightarrow> 'a res \<Rightarrow> 'a res" where
  "reraise P e r = (case r of Inl e' \<Rightarrow> if P e' then Inl e else Inl e' | Inr x \<Rightarrow> Inr x)"

text \<open>A guard: raise \<open>e\<close> unless the condition holds.\<close>

definition ensure :: "bool \<Rightarrow> exn \<Rightarrow> unit res" where
  "ensure c e = (if c then Inr () else Inl e)"

lemma rbind_Inl [simp, res_simps]: "rbind (Inl e) f = Inl e"
  by (simp add: rbind_def)

lemma rbind_Inr [simp, res_simps]: "rbind (Inr x) f = f x"
  by (simp add: rbind_def)

lemma rbind_eq_Inr: "rbind r f = Inr y \<longleftrightarrow> (\<exists>x. r = Inr x \<and> f x = Inr y)"
  by (cases r) simp_all

lemma rbind_eq_Inl: "rbind r f = Inl e \<longleftrightarrow> r = Inl e \<or> (\<exists>x. r = Inr x \<and> f x = Inl e)"
  by (cases r) simp_all

lemma rbind_cong [fundef_cong]:
  "r = r' \<Longrightarrow> (\<And>x. r' = Inr x \<Longrightarrow> f x = g x) \<Longrightarrow> rbind r f = rbind r' g"
  by (cases r') simp_all

lemma ensure_True [simp, res_simps]: "ensure True e = Inr ()"
  and ensure_False [simp, res_simps]: "ensure False e = Inl e"
  by (simp_all add: ensure_def)

lemma ensure_eq_Inr [simp]: "ensure c e = Inr u \<longleftrightarrow> c"
  by (simp add: ensure_def)

lemma ensure_eq_Inl [simp]: "ensure c e = Inl e' \<longleftrightarrow> \<not> c \<and> e' = e"
  by (auto simp: ensure_def)

lemma reraise_eq_Inr [simp]: "reraise P e r = Inr x \<longleftrightarrow> r = Inr x"
  by (cases r) (simp_all add: reraise_def)

lemma reraise_Inr [simp, res_simps]: "reraise P e (Inr x) = Inr x"
  by (simp add: reraise_def)

lemma reraise_Inl [simp, res_simps]: "reraise P e (Inl e') = Inl (if P e' then e else e')"
  by (simp add: reraise_def)

lemmas res_iffs = rbind_eq_Inr rbind_eq_Inl

section \<open>Loops that may raise\<close>

text \<open>\<open>[f x for x in xs]\<close> where \<open>f\<close> may raise: the first exception ends the loop.\<close>

fun rmap :: "('a \<Rightarrow> 'b res) \<Rightarrow> 'a list \<Rightarrow> 'b list res" where
  "rmap f [] = Inr []"
| "rmap f (x # xs) = rbind (f x) (\<lambda>y. rbind (rmap f xs) (\<lambda>ys. Inr (y # ys)))"

text \<open>\<open>for x in xs: f x\<close>, for its exceptions only.\<close>

fun for_each :: "('a \<Rightarrow> unit res) \<Rightarrow> 'a list \<Rightarrow> unit res" where
  "for_each f [] = Inr ()"
| "for_each f (x # xs) = rbind (f x) (\<lambda>_. for_each f xs)"

text \<open>A loop that threads a state.\<close>

fun rfold :: "('a \<Rightarrow> 's \<Rightarrow> 's res) \<Rightarrow> 'a list \<Rightarrow> 's \<Rightarrow> 's res" where
  "rfold f [] s = Inr s"
| "rfold f (x # xs) s = rbind (f x s) (rfold f xs)"

lemma rmap_cong [fundef_cong]:
  "xs = ys \<Longrightarrow> (\<And>x. x \<in> set ys \<Longrightarrow> f x = g x) \<Longrightarrow> rmap f xs = rmap g ys"
proof (induction ys arbitrary: xs)
  case (Cons y ys)
  then show ?case by (cases xs) (auto intro!: rbind_cong)
qed simp

lemma for_each_cong [fundef_cong]:
  "xs = ys \<Longrightarrow> (\<And>x. x \<in> set ys \<Longrightarrow> f x = g x) \<Longrightarrow> for_each f xs = for_each g ys"
proof (induction ys arbitrary: xs)
  case (Cons y ys)
  then show ?case by (cases xs) (auto intro!: rbind_cong)
qed simp

lemma rfold_cong [fundef_cong]:
  "xs = ys \<Longrightarrow> s = t \<Longrightarrow> (\<And>x u. x \<in> set ys \<Longrightarrow> f x u = g x u) \<Longrightarrow> rfold f xs s = rfold g ys t"
proof (induction ys arbitrary: xs s t)
  case (Cons y ys)
  then show ?case by (cases xs) (auto intro!: rbind_cong)
qed simp

lemma rmap_eq_Inr: "rmap f xs = Inr ys \<longleftrightarrow> list_all2 (\<lambda>x y. f x = Inr y) xs ys"
proof (induction xs arbitrary: ys)
  case (Cons x xs)
  then show ?case by (cases ys) (auto simp: rbind_eq_Inr)
qed auto

lemma rmap_eq_Inl: "rmap f xs = Inl e \<Longrightarrow> \<exists>x \<in> set xs. f x = Inl e"
  by (induction xs) (auto simp: rbind_eq_Inl)

lemma for_each_eq_Inr: "for_each f xs = Inr u \<longleftrightarrow> (\<forall>x \<in> set xs. f x = Inr ())"
  by (induction xs) (auto simp: rbind_eq_Inr)

lemma for_each_eq_Inl: "for_each f xs = Inl e \<Longrightarrow> \<exists>x \<in> set xs. f x = Inl e"
  by (induction xs) (auto simp: rbind_eq_Inl)

lemma rmap_id: "(\<And>x. x \<in> set xs \<Longrightarrow> f x = Inr x) \<Longrightarrow> rmap f xs = Inr xs"
  by (induction xs) auto

lemma rfold_invariant:
  assumes "rfold f xs s = Inr t" "I s"
    and "\<And>x s s'. x \<in> set xs \<Longrightarrow> I s \<Longrightarrow> f x s = Inr s' \<Longrightarrow> I s'"
  shows "I t"
  using assms by (induction xs arbitrary: s) (auto simp: rbind_eq_Inr)

section \<open>Object identity\<close>

text \<open>
  The program compares objects with \<open>is\<close>: a copied record with equal fields is a
  different object.  An object is its address together with its contents.  The contents
  are immutable (frozen dataclasses), so one address always goes with one contents, and two
  references denote the same object exactly when both parts agree.
\<close>

datatype 'a obj = Obj (addr: nat) (contents: 'a)

definition is_same :: "'a obj \<Rightarrow> 'a obj \<Rightarrow> bool" where
  "is_same a b \<longleftrightarrow> a = b"

text \<open>\<open>x is y\<close> where the left operand may be \<open>None\<close> (the result of \<open>dict.get\<close>).\<close>

definition opt_is :: "'a obj option \<Rightarrow> 'a obj \<Rightarrow> bool" where
  "opt_is x y \<longleftrightarrow> (case x of None \<Rightarrow> False | Some a \<Rightarrow> is_same a y)"

lemma is_same_refl [simp, obj_simps]: "is_same a a"
  by (simp add: is_same_def)

lemma is_same_sym: "is_same a b \<longleftrightarrow> is_same b a"
  by (auto simp: is_same_def)

lemma opt_is_None [simp, obj_simps]: "\<not> opt_is None y"
  and opt_is_Some [simp, obj_simps]: "opt_is (Some x) y \<longleftrightarrow> is_same x y"
  by (simp_all add: opt_is_def)

lemma opt_is_iff: "opt_is x y \<longleftrightarrow> x = Some y"
  by (auto simp: opt_is_def is_same_def split: option.splits)

lemma opt_isE: "opt_is x y \<Longrightarrow> (\<And>a. x = Some a \<Longrightarrow> is_same a y \<Longrightarrow> P) \<Longrightarrow> P"
  by (auto simp: opt_is_def split: option.splits)

section \<open>Text\<close>

text \<open>
  Text is a list of characters; \<open>str.strip\<close> removes the characters Python counts as
  white space (in the range of \<^typ>\<open>char\<close>) from both ends, so \<open>not s.strip()\<close> holds
  exactly when every character is white space.
\<close>

definition is_space :: "char \<Rightarrow> bool" where
  "is_space c \<longleftrightarrow> (let n = (of_char c :: nat) in
     (9 \<le> n \<and> n \<le> 13) \<or> (28 \<le> n \<and> n \<le> 32) \<or> n = 133 \<or> n = 160)"

definition blank :: "string \<Rightarrow> bool" where
  "blank s \<longleftrightarrow> list_all is_space s"

lemma blank_Nil [simp]: "blank []"
  by (simp add: blank_def)

section \<open>Maps\<close>

lemma map_upd_eq_Some: "(m(k \<mapsto> v)) x = Some y \<longleftrightarrow> (if x = k then y = v else m x = Some y)"
  by auto

lemma map_del_eq_Some: "(m(k := None)) x = Some y \<longleftrightarrow> x \<noteq> k \<and> m x = Some y"
  by auto

section \<open>Dictionaries\<close>

text \<open>
  A Python \<open>dict\<close> that is iterated keeps its insertion order: it is an association
  list with distinct keys, read by \<open>map_of\<close>, written by \<open>AList.update\<close> (in place for
  an existing key, at the end for a new one) and by \<open>AList.delete\<close>.
\<close>

definition dict_ok :: "('k \<times> 'v) list \<Rightarrow> bool" where
  "dict_ok d \<longleftrightarrow> distinct (map fst d)"

lemma dict_ok_Nil [simp]: "dict_ok []"
  by (simp add: dict_ok_def)

lemma dict_ok_update [simp]: "dict_ok d \<Longrightarrow> dict_ok (AList.update k v d)"
  by (simp add: dict_ok_def distinct_update)

lemma dict_ok_delete [simp]: "dict_ok d \<Longrightarrow> dict_ok (AList.delete k d)"
  by (simp add: dict_ok_def distinct_delete)

lemma dict_ok_filter [simp]: "dict_ok d \<Longrightarrow> dict_ok (filter P d)"
  by (simp add: dict_ok_def distinct_map_filter)

lemma dict_ok_in: "dict_ok d \<Longrightarrow> (k, v) \<in> set d \<longleftrightarrow> map_of d k = Some v"
  by (simp add: dict_ok_def)

lemma map_of_update [simp]: "map_of (AList.update k v d) = (map_of d)(k \<mapsto> v)"
  by (rule update_conv')

lemma map_of_delete [simp]: "map_of (AList.delete k d) = (map_of d)(k := None)"
  by (rule delete_conv')

lemma update_fresh_key: "k \<notin> fst ` set xs \<Longrightarrow> AList.update k v xs = xs @ [(k, v)]"
  by (induction xs) auto

lemma update_absent_key: "map_of xs k = None \<Longrightarrow> AList.update k v xs = xs @ [(k, v)]"
  by (simp add: map_of_eq_None_iff update_fresh_key)

lemma map_of_filter_keep:
  assumes "dict_ok d"
  shows "map_of (filter P d) k = (case map_of d k of None \<Rightarrow> None | Some v \<Rightarrow> if P (k, v) then Some v else None)"
proof -
  have key: "map_of (filter P d) k = Some v \<longleftrightarrow> map_of d k = Some v \<and> P (k, v)" for v
    using dict_ok_in [OF assms, of k v] dict_ok_in [OF dict_ok_filter [OF assms], of k v P] by auto
  show ?thesis
  proof (cases "map_of (filter P d) k")
    case None
    then show ?thesis using key by (simp split: option.splits)
  next
    case (Some v)
    then show ?thesis using key [of v] by simp
  qed
qed

section \<open>Transition systems\<close>

text \<open>
  A component whose state changes one operation at a time: an initial state, a step
  relation and an invariant that the initial state has and every step keeps.  The runs of
  a component are the reflexive transitive closure of its steps.
\<close>

locale transition_system =
  fixes initial :: "'s \<Rightarrow> bool"
    and step :: "'s \<Rightarrow> 's \<Rightarrow> bool"
    and inv :: "'s \<Rightarrow> bool"
  assumes initial_inv: "initial s \<Longrightarrow> inv s"
    and step_inv: "step s t \<Longrightarrow> inv s \<Longrightarrow> inv t"
begin

lemma run_inv: "step\<^sup>*\<^sup>* s t \<Longrightarrow> inv s \<Longrightarrow> inv t"
  by (induction rule: rtranclp_induct) (auto intro: step_inv)

lemma reachable_inv: "initial s \<Longrightarrow> step\<^sup>*\<^sup>* s t \<Longrightarrow> inv t"
  by (rule run_inv) (auto intro: initial_inv)

lemma run_lift:
  assumes "\<And>s t. inv s \<Longrightarrow> step s t \<Longrightarrow> R s t"
    and "\<And>s. R s s" "\<And>s t u. R s t \<Longrightarrow> R t u \<Longrightarrow> R s u"
  shows "step\<^sup>*\<^sup>* s t \<Longrightarrow> inv s \<Longrightarrow> R s t"
proof (induction rule: rtranclp_induct)
  case (step t u)
  then show ?case using run_inv [of s t] assms by blast
qed (rule assms)

end

text \<open>
  A component that numbers the versions of its published content: a step that changes the
  content raises the revision.
\<close>

locale revisioned_system = transition_system initial step inv
  for initial :: "'s \<Rightarrow> bool" and step :: "'s \<Rightarrow> 's \<Rightarrow> bool" and inv :: "'s \<Rightarrow> bool" +
  fixes rev_of :: "'s \<Rightarrow> int"
    and content_of :: "'s \<Rightarrow> 'c"
  assumes step_revision: "inv s \<Longrightarrow> step s t \<Longrightarrow>
      rev_of s < rev_of t \<or> rev_of s = rev_of t \<and> content_of s = content_of t"
begin

lemma run_revision:
  assumes "step\<^sup>*\<^sup>* s t" "inv s"
  shows "rev_of s \<le> rev_of t \<and> (rev_of s = rev_of t \<longrightarrow> content_of s = content_of t)"
  using run_lift [where R = "\<lambda>s t. rev_of s \<le> rev_of t \<and> (rev_of s = rev_of t \<longrightarrow> content_of s = content_of t)"]
    step_revision assms by (smt (verit) order.refl)

lemma same_revision_same_content:
  "step\<^sup>*\<^sup>* s t \<Longrightarrow> inv s \<Longrightarrow> rev_of s = rev_of t \<Longrightarrow> content_of s = content_of t"
  using run_revision by blast

end

text \<open>
  A component that implements an abstract machine: every step is a step of the machine on
  the abstraction of the state, so every run is a run of the machine.
\<close>

locale simulation = transition_system initial step inv
  for initial :: "'s \<Rightarrow> bool" and step :: "'s \<Rightarrow> 's \<Rightarrow> bool" and inv :: "'s \<Rightarrow> bool" +
  fixes abs :: "'s \<Rightarrow> 'a"
    and astep :: "'a \<Rightarrow> 'a \<Rightarrow> bool"
  assumes step_sim: "inv s \<Longrightarrow> step s t \<Longrightarrow> astep (abs s) (abs t)"
begin

lemma run_sim: "step\<^sup>*\<^sup>* s t \<Longrightarrow> inv s \<Longrightarrow> astep\<^sup>*\<^sup>* (abs s) (abs t)"
proof (induction rule: rtranclp_induct)
  case (step t u)
  then have "inv t" using run_inv by blast
  with step show ?case using step_sim by (meson rtranclp.rtrancl_into_rtrancl)
qed simp

end

end
