(* ===== verification/Schema.thy ===== *)
theory Schema
  imports Prelude
begin

text \<open>
  The closed schema vocabulary of capability parameters: \<open>core/contracts/schema.py\<close>
  (validation and freezing of a declared schema), \<open>core/contracts/validation.py\<close>
  (validation of parameters against a frozen schema) and \<open>freeze_json\<close> of
  \<open>core/contracts/storage.py\<close>.  Schemas and parameters are dynamically typed Python
  values, so the model keeps them as such.
\<close>

section \<open>Dynamically typed values\<close>

text \<open>
  A finite float is the rational number it denotes; \<open>list\<close> and \<open>tuple\<close> are kept
  apart because freezing turns the first into the second.  A mapping is its items in
  insertion order.  \<open>VObj\<close> is any other object.
\<close>

datatype pyfloat = Fin rat | PosInf | NegInf | NaN

datatype pyval =
    VNone | VBool bool | VInt int | VFloat pyfloat | VStr string
  | VList "pyval list" | VTuple "pyval list" | VMap "(pyval \<times> pyval) list" | VObj nat

type_synonym dict = "(pyval \<times> pyval) list"

fun isfinite :: "pyfloat \<Rightarrow> bool" where
  "isfinite (Fin q) = True"
| "isfinite _ = False"

fun is_str :: "pyval \<Rightarrow> bool" where
  "is_str (VStr s) = True"
| "is_str _ = False"

fun is_map :: "pyval \<Rightarrow> bool" where
  "is_map (VMap m) = True"
| "is_map _ = False"

text \<open>\<open>m.get(k)\<close> and \<open>k in m\<close> for a text key.\<close>

definition dict_get :: "dict \<Rightarrow> string \<Rightarrow> pyval option" where
  "dict_get m k = map_of m (VStr k)"

definition dict_has :: "dict \<Rightarrow> string \<Rightarrow> bool" where
  "dict_has m k \<longleftrightarrow> dict_get m k \<noteq> None"

text \<open>\<open>m[k]\<close>.\<close>

definition getitem :: "dict \<Rightarrow> string \<Rightarrow> pyval res" where
  "getitem m k = (case dict_get m k of None \<Rightarrow> Inl KeyError | Some v \<Rightarrow> Inr v)"

text \<open>Reading a value as a mapping, a tuple or a list, raising \<open>e\<close> otherwise.\<close>

definition as_map :: "exn \<Rightarrow> pyval \<Rightarrow> dict res" where
  "as_map e v = (case v of VMap m \<Rightarrow> Inr m | _ \<Rightarrow> Inl e)"

definition as_tuple :: "exn \<Rightarrow> pyval \<Rightarrow> pyval list res" where
  "as_tuple e v = (case v of VTuple vs \<Rightarrow> Inr vs | _ \<Rightarrow> Inl e)"

definition as_sequence :: "exn \<Rightarrow> pyval \<Rightarrow> pyval list res" where
  "as_sequence e v = (case v of VList vs \<Rightarrow> Inr vs | VTuple vs \<Rightarrow> Inr vs | _ \<Rightarrow> Inl e)"

text \<open>\<open>set(m) - allowed\<close> is empty.\<close>

definition keys_within :: "dict \<Rightarrow> string list \<Rightarrow> bool" where
  "keys_within m allowed \<longleftrightarrow> list_all (\<lambda>(k, _). k \<in> VStr ` set allowed) m"

text \<open>
  Equality of hashable values: numbers (and booleans, which are numbers) are equal when
  they denote the same number, whatever their types.
\<close>

fun canon :: "pyval \<Rightarrow> pyval" where
  "canon (VBool b) = VFloat (Fin (if b then 1 else 0))"
| "canon (VInt i) = VFloat (Fin (of_int i))"
| "canon (VTuple vs) = VTuple (map canon vs)"
| "canon v = v"

definition py_eq :: "pyval \<Rightarrow> pyval \<Rightarrow> bool" where
  "py_eq a b \<longleftrightarrow> canon a = canon b"

fun hashable :: "pyval \<Rightarrow> bool" where
  "hashable (VMap _) = False"
| "hashable (VList _) = False"
| "hashable (VTuple vs) = list_all hashable vs"
| "hashable _ = True"

text \<open>\<open>len(vs) == len(set(vs))\<close>, which raises when an element is not hashable.\<close>

definition distinct_values :: "pyval list \<Rightarrow> bool res" where
  "distinct_values vs = (if list_all hashable vs then Inr (distinct (map canon vs)) else Inl TypeError)"

section \<open>Freezing values\<close>

text \<open>\<open>_freeze_value\<close> of \<open>schema.py\<close>.\<close>

fun freeze_value :: "pyval \<Rightarrow> pyval res" where
  "freeze_value (VMap kvs) =
     rbind (rmap (\<lambda>kv. rbind (ensure (is_str (fst kv)) TypeError)
                  (\<lambda>_. rbind (freeze_value (snd kv)) (\<lambda>v. Inr (fst kv, v)))) kvs)
       (\<lambda>kvs'. Inr (VMap kvs'))"
| "freeze_value (VList vs) = rbind (rmap freeze_value vs) (\<lambda>vs'. Inr (VTuple vs'))"
| "freeze_value (VTuple vs) = rbind (rmap freeze_value vs) (\<lambda>vs'. Inr (VTuple vs'))"
| "freeze_value (VFloat f) = (if isfinite f then Inr (VFloat f) else Inl ValueError)"
| "freeze_value (VObj n) = Inl TypeError"
| "freeze_value v = Inr v"

text \<open>\<open>freeze_json\<close> of \<open>storage.py\<close>: the same traversal with its tests in another order.\<close>

function (sequential) freeze_json :: "pyval \<Rightarrow> pyval res" where
  "freeze_json v =
     (if (case v of VFloat f \<Rightarrow> \<not> isfinite f | _ \<Rightarrow> False) then Inl ValueError
      else case v of
        VNone \<Rightarrow> Inr v | VStr _ \<Rightarrow> Inr v | VInt _ \<Rightarrow> Inr v | VFloat _ \<Rightarrow> Inr v | VBool _ \<Rightarrow> Inr v
      | VMap kvs \<Rightarrow>
          rbind (rmap (\<lambda>kv. if \<not> is_str (fst kv) then Inl TypeError
                            else rbind (freeze_json (snd kv)) (\<lambda>x. Inr (fst kv, x))) kvs)
            (\<lambda>frozen. Inr (VMap frozen))
      | VList vs \<Rightarrow> rbind (rmap freeze_json vs) (\<lambda>frozen. Inr (VTuple frozen))
      | VTuple vs \<Rightarrow> rbind (rmap freeze_json vs) (\<lambda>frozen. Inr (VTuple frozen))
      | VObj _ \<Rightarrow> Inl TypeError)"
  by pat_completeness auto
termination
  by (relation "measure size")
    (auto simp: less_Suc_eq_le intro: size_list_estimation' [where f = size]
       size_list_estimation' [where f = "size_prod size size"])

section \<open>Numbers and lengths\<close>

text \<open>
  Comparison of numbers is exact across \<open>int\<close> and \<open>float\<close>.  Only finite numbers are
  ever compared by the code below; anything else is a \<open>TypeError\<close>.
\<close>

fun num_of :: "pyval \<Rightarrow> rat option" where
  "num_of (VInt i) = Some (of_int i)"
| "num_of (VFloat (Fin q)) = Some q"
| "num_of (VBool b) = Some (if b then 1 else 0)"
| "num_of _ = None"

definition py_less :: "pyval \<Rightarrow> pyval \<Rightarrow> bool res" where
  "py_less a b = (case (num_of a, num_of b) of (Some x, Some y) \<Rightarrow> Inr (x < y) | _ \<Rightarrow> Inl TypeError)"

definition py_len :: "pyval \<Rightarrow> pyval res" where
  "py_len v = (case v of VStr s \<Rightarrow> Inr (VInt (int (length s))) | _ \<Rightarrow> Inl TypeError)"

text \<open>\<open>float(i)\<close> raises when the integer rounds beyond the largest double.\<close>

definition float_overflows :: "int \<Rightarrow> bool" where
  "float_overflows i \<longleftrightarrow> \<bar>i\<bar> \<ge> 2 ^ 1024 - 2 ^ 970"

section \<open>Freezing a schema\<close>

definition schema_types :: "string list" where
  "schema_types = [''object'', ''array'', ''string'', ''integer'', ''number'', ''boolean'']"

definition schema_keys :: "string list" where
  "schema_keys = [''type'', ''properties'', ''required'', ''items'', ''enum'', ''description'',
     ''minimum'', ''maximum'', ''minLength'', ''maxLength'', ''additionalProperties'']"

text \<open>\<open>_text\<close>.\<close>

definition text_ok :: "pyval \<Rightarrow> unit res" where
  "text_ok v = ensure (case v of VStr s \<Rightarrow> \<not> blank s | _ \<Rightarrow> False) ValueError"

text \<open>\<open>_matches_schema_type\<close>.\<close>

definition matches_schema_type :: "string \<Rightarrow> pyval \<Rightarrow> bool res" where
  "matches_schema_type t v =
     (if t = ''string'' then Inr (is_str v)
      else if t = ''integer'' then Inr (case v of VInt _ \<Rightarrow> True | _ \<Rightarrow> False)
      else if t = ''number'' then
        (case v of VInt i \<Rightarrow> if float_overflows i then Inl OverflowError else Inr True
         | VFloat f \<Rightarrow> Inr (isfinite f) | _ \<Rightarrow> Inr False)
      else Inr (t = ''boolean'' \<and> (case v of VBool _ \<Rightarrow> True | _ \<Rightarrow> False)))"

text \<open>\<open>raise ValueError\<close> at the first element for which the (possibly raising) test fails.\<close>

definition require_all :: "('a \<Rightarrow> bool res) \<Rightarrow> 'a list \<Rightarrow> unit res" where
  "require_all f = for_each (\<lambda>x. rbind (f x) (\<lambda>b. ensure b ValueError))"

text \<open>\<open>_validate_enum_bounds\<close>: the bounds that are present must admit every choice.\<close>

definition not_below :: "pyval option \<Rightarrow> pyval \<Rightarrow> bool res" where
  "not_below lo v = (case lo of None \<Rightarrow> Inr True | Some m \<Rightarrow> rbind (py_less v m) (\<lambda>b. Inr (\<not> b)))"

definition not_above :: "pyval option \<Rightarrow> pyval \<Rightarrow> bool res" where
  "not_above hi v = (case hi of None \<Rightarrow> Inr True | Some m \<Rightarrow> rbind (py_less m v) (\<lambda>b. Inr (\<not> b)))"

definition validate_enum_bounds :: "dict \<Rightarrow> string \<Rightarrow> unit res" where
  "validate_enum_bounds frozen t =
     (case dict_get frozen ''enum'' of
        Some (VTuple vs) \<Rightarrow>
          if t = ''integer'' \<or> t = ''number'' then
            rbind (require_all (not_below (dict_get frozen ''minimum'')) vs)
              (\<lambda>_. require_all (not_above (dict_get frozen ''maximum'')) vs)
          else if t = ''string'' then
            rbind (require_all (\<lambda>v. rbind (py_len v) (not_below (dict_get frozen ''minLength''))) vs)
              (\<lambda>_. require_all (\<lambda>v. rbind (py_len v) (not_above (dict_get frozen ''maxLength''))) vs)
          else Inr ()
      | _ \<Rightarrow> Inr ())"

text \<open>\<open>_bounded_pair\<close>: \<open>floats\<close> says whether \<open>expected\<close> includes \<open>float\<close>.\<close>

definition bounded_field :: "dict \<Rightarrow> bool \<Rightarrow> bool \<Rightarrow> string \<Rightarrow> dict \<Rightarrow> dict res" where
  "bounded_field schema floats non_negative field frozen =
     (case dict_get schema field of
        None \<Rightarrow> Inr frozen
      | Some v \<Rightarrow>
          rbind (case v of VInt _ \<Rightarrow> Inr () | VFloat f \<Rightarrow>
                   if \<not> floats then Inl TypeError else ensure (isfinite f) ValueError
                 | _ \<Rightarrow> Inl TypeError) (\<lambda>_.
          rbind (if non_negative then rbind (py_less v (VInt 0)) (\<lambda>b. ensure (\<not> b) ValueError) else Inr ()) (\<lambda>_.
          Inr (frozen @ [(VStr field, v)]))))"

definition bounded_pair ::
  "dict \<Rightarrow> dict \<Rightarrow> string \<Rightarrow> string \<Rightarrow> bool \<Rightarrow> bool \<Rightarrow> dict res" where
  "bounded_pair schema frozen lower upper floats non_negative =
     rbind (rfold (bounded_field schema floats non_negative) [lower, upper] frozen) (\<lambda>frozen'.
     rbind (case (dict_get frozen' lower, dict_get frozen' upper) of
              (Some lo, Some hi) \<Rightarrow> rbind (py_less hi lo) (\<lambda>b. ensure (\<not> b) ValueError)
            | _ \<Rightarrow> Inr ()) (\<lambda>_.
     Inr frozen'))"

text \<open>The \<open>enum\<close> block of \<open>_freeze_scalar_constraints\<close>.\<close>

definition freeze_enum :: "pyval \<Rightarrow> string \<Rightarrow> pyval list res" where
  "freeze_enum e t =
     rbind (as_sequence ValueError e) (\<lambda>vs.
     rbind (ensure (vs \<noteq> []) ValueError) (\<lambda>_.
     rbind (rmap freeze_value vs) (\<lambda>fs.
     rbind (distinct_values fs) (\<lambda>d.
     rbind (ensure d ValueError) (\<lambda>_.
     rbind (require_all (matches_schema_type t) fs) (\<lambda>_. Inr fs))))))"

text \<open>The constraint keys a scalar type admits.\<close>

definition scalar_keys :: "string \<Rightarrow> string list" where
  "scalar_keys t = [''type'', ''description'', ''enum'']
     @ (if t = ''integer'' \<or> t = ''number'' then [''minimum'', ''maximum''] else [])
     @ (if t = ''string'' then [''minLength'', ''maxLength''] else [])"

definition freeze_scalar_enum :: "dict \<Rightarrow> string \<Rightarrow> dict res" where
  "freeze_scalar_enum schema t =
     (case dict_get schema ''enum'' of None \<Rightarrow> Inr []
      | Some e \<Rightarrow> rbind (freeze_enum e t) (\<lambda>fs. Inr [(VStr ''enum'', VTuple fs)]))"

definition freeze_scalar_bounds :: "dict \<Rightarrow> string \<Rightarrow> dict \<Rightarrow> dict res" where
  "freeze_scalar_bounds schema t frozen =
     (if t = ''integer'' then bounded_pair schema frozen ''minimum'' ''maximum'' False False
      else if t = ''number'' then bounded_pair schema frozen ''minimum'' ''maximum'' True False
      else if t = ''string'' then bounded_pair schema frozen ''minLength'' ''maxLength'' False True
      else Inr frozen)"

definition freeze_scalar_constraints :: "dict \<Rightarrow> string \<Rightarrow> dict \<Rightarrow> dict res" where
  "freeze_scalar_constraints schema t frozen =
     rbind (ensure (keys_within schema (scalar_keys t)) ValueError) (\<lambda>_.
     rbind (freeze_scalar_enum schema t) (\<lambda>enum.
     rbind (freeze_scalar_bounds schema t (frozen @ enum)) (\<lambda>frozen2.
     rbind (if dict_has frozen2 ''enum'' then validate_enum_bounds frozen2 t else Inr ()) (\<lambda>_.
     Inr frozen2))))"

text \<open>The object branch: \<open>required\<close> and \<open>additionalProperties\<close>.\<close>

definition freeze_required :: "dict \<Rightarrow> dict \<Rightarrow> pyval list res" where
  "freeze_required schema properties =
     rbind (as_sequence ValueError (case dict_get schema ''required'' of None \<Rightarrow> VTuple [] | Some r \<Rightarrow> r)) (\<lambda>names.
     rbind (ensure (list_all (\<lambda>n. is_str n \<and> n \<in> fst ` set properties) names) ValueError) (\<lambda>_.
     rbind (ensure (distinct names) ValueError) (\<lambda>_. Inr names)))"

definition freeze_additional :: "dict \<Rightarrow> bool res" where
  "freeze_additional schema =
     (case dict_get schema ''additionalProperties'' of
        None \<Rightarrow> Inr False
      | Some (VBool b) \<Rightarrow> if b then Inl ValueError else Inr b
      | Some _ \<Rightarrow> Inl TypeError)"

definition freeze_description :: "dict \<Rightarrow> dict res" where
  "freeze_description schema =
     (case dict_get schema ''description'' of
        None \<Rightarrow> Inr []
      | Some d \<Rightarrow> rbind (text_ok d) (\<lambda>_. Inr [(VStr ''description'', d)]))"

text \<open>\<open>schema.get("type")\<close> with its check, \<open>schema.get("properties", {})\<close>, \<open>schema.get("items")\<close>.\<close>

definition schema_type :: "dict \<Rightarrow> string res" where
  "schema_type schema =
     (case dict_get schema ''type'' of
        Some (VStr t) \<Rightarrow> if t \<in> set schema_types then Inr t else Inl ValueError
      | _ \<Rightarrow> Inl ValueError)"

definition properties_of :: "dict \<Rightarrow> dict res" where
  "properties_of schema =
     (case dict_get schema ''properties'' of None \<Rightarrow> Inr [] | Some p \<Rightarrow> as_map TypeError p)"

definition items_of :: "dict \<Rightarrow> dict res" where
  "items_of schema = (case dict_get schema ''items'' of None \<Rightarrow> Inl ValueError | Some p \<Rightarrow> as_map ValueError p)"

lemma as_map_eq_Inr [simp]: "as_map e v = Inr m \<longleftrightarrow> v = VMap m"
  by (cases v) (simp_all add: as_map_def)

lemma as_tuple_eq_Inr [simp]: "as_tuple e v = Inr vs \<longleftrightarrow> v = VTuple vs"
  by (cases v) (simp_all add: as_tuple_def)

lemma as_sequence_eq_Inr [simp]: "as_sequence e v = Inr vs \<longleftrightarrow> v = VList vs \<or> v = VTuple vs"
  by (cases v) (simp_all add: as_sequence_def)

lemma dict_get_size: "dict_get m k = Some v \<Longrightarrow> size v < size (VMap m)"
  by (auto simp: dict_get_def less_Suc_eq_le dest!: map_of_SomeD
      intro: size_list_estimation' [where f = "size_prod size size"])

lemma properties_of_size:
  assumes "properties_of schema = Inr ps" "kv \<in> set ps"
  shows "size (snd kv) < size (VMap schema)"
proof -
  from assms(2) have "size (snd kv) \<le> size_list (size_prod size size) ps"
    by (auto intro: size_list_estimation' [where f = "size_prod size size"] simp: size_prod_simp)
  moreover from assms have "size (VMap ps) < size (VMap schema)"
    by (auto simp: properties_of_def split: option.splits dest: dict_get_size)
  ultimately show ?thesis by simp
qed

lemma items_of_size: "items_of schema = Inr item \<Longrightarrow> size (VMap item) < size (VMap schema)"
  unfolding items_of_def by (auto split: option.splits dest: dict_get_size simp del: pyval.size)

function (sequential) freeze_input_schema :: "pyval \<Rightarrow> dict res" where
  "freeze_input_schema (VMap schema) =
     rbind (ensure (keys_within schema schema_keys) ValueError) (\<lambda>_.
     rbind (schema_type schema) (\<lambda>t.
     rbind (freeze_description schema) (\<lambda>desc.
       let frozen = (VStr ''type'', VStr t) # desc in
       if t = ''object'' then
         rbind (properties_of schema) (\<lambda>ps.
         rbind (rmap (\<lambda>kv.
                  rbind (text_ok (fst kv)) (\<lambda>_.
                  rbind (ensure (is_map (snd kv)) TypeError) (\<lambda>_.
                  rbind (freeze_input_schema (snd kv)) (\<lambda>c. Inr (fst kv, VMap c))))) ps) (\<lambda>fps.
         rbind (freeze_required schema ps) (\<lambda>req.
         rbind (freeze_additional schema) (\<lambda>add.
         rbind (ensure (keys_within schema
                  [''type'', ''properties'', ''required'', ''description'', ''additionalProperties'']) ValueError) (\<lambda>_.
         Inr (frozen @ [(VStr ''properties'', VMap fps), (VStr ''required'', VTuple req),
                        (VStr ''additionalProperties'', VBool add)]))))))
       else if t = ''array'' then
         rbind (items_of schema) (\<lambda>item.
         rbind (freeze_input_schema (VMap item)) (\<lambda>c.
         rbind (ensure (keys_within schema [''type'', ''items'', ''description'']) ValueError) (\<lambda>_.
         Inr (frozen @ [(VStr ''items'', VMap c)]))))
       else freeze_scalar_constraints schema t frozen)))"
| "freeze_input_schema _ = Inl TypeError"
  by pat_completeness auto
termination
  by (relation "measure size") (auto dest: items_of_size properties_of_size)

declare freeze_input_schema.simps(1) [simp del]

section \<open>Validating parameters\<close>

text \<open>\<open>value in m\<close> and \<open>m[value]\<close> for the key objects themselves.\<close>

definition key_in :: "dict \<Rightarrow> pyval \<Rightarrow> bool" where
  "key_in m k \<longleftrightarrow> k \<in> fst ` set m"

definition key_text :: "pyval \<Rightarrow> string" where
  "key_text k = (case k of VStr s \<Rightarrow> s | _ \<Rightarrow> [])"

text \<open>The scalar part of \<open>_validate\<close>: type, choices, range and length.\<close>

definition scalar_type_ok :: "string \<Rightarrow> pyval \<Rightarrow> bool" where
  "scalar_type_ok kind v \<longleftrightarrow>
     (case v of
        VStr _ \<Rightarrow> kind = ''string''
      | VBool _ \<Rightarrow> kind = ''boolean''
      | VInt _ \<Rightarrow> kind = ''integer'' \<or> kind = ''number''
      | VFloat f \<Rightarrow> kind = ''number'' \<and> isfinite f
      | _ \<Rightarrow> False)"

definition validate_enum :: "dict \<Rightarrow> pyval \<Rightarrow> string \<Rightarrow> unit res" where
  "validate_enum schema v path =
     (case dict_get schema ''enum'' of
        None \<Rightarrow> Inr ()
      | Some e \<Rightarrow>
          rbind (as_tuple TypeError e) (\<lambda>choices.
          ensure (list_ex (py_eq v) choices) (ParameterError (path @ '': value outside allowed choices''))))"

definition validate_range :: "dict \<Rightarrow> pyval \<Rightarrow> string \<Rightarrow> unit res" where
  "validate_range schema v path =
     (let err = ParameterError (path @ '': value outside allowed range'') in
      rbind (not_below (dict_get schema ''minimum'') v) (\<lambda>b. rbind (ensure b err) (\<lambda>_.
      rbind (not_above (dict_get schema ''maximum'') v) (\<lambda>b. ensure b err))))"

definition validate_length :: "dict \<Rightarrow> pyval \<Rightarrow> string \<Rightarrow> unit res" where
  "validate_length schema v path =
     (let err = ParameterError (path @ '': text outside allowed length'') in
      rbind (if dict_has schema ''minLength''
             then rbind (py_len v) (\<lambda>n. rbind (not_below (dict_get schema ''minLength'') n) (\<lambda>b. ensure b err))
             else Inr ()) (\<lambda>_.
      if dict_has schema ''maxLength''
      then rbind (py_len v) (\<lambda>n. rbind (not_above (dict_get schema ''maxLength'') n) (\<lambda>b. ensure b err))
      else Inr ()))"

definition validate_scalar :: "dict \<Rightarrow> string \<Rightarrow> pyval \<Rightarrow> string \<Rightarrow> unit res" where
  "validate_scalar schema kind v path =
     rbind (ensure (scalar_type_ok kind v) (ParameterError (path @ '': expected finite '' @ kind))) (\<lambda>_.
     rbind (validate_enum schema v path) (\<lambda>_.
     rbind (validate_range schema v path) (\<lambda>_.
     validate_length schema v path)))"

text \<open>\<open>_validate\<close>.  The path only occurs in messages.\<close>

function (sequential) validate :: "dict \<Rightarrow> pyval \<Rightarrow> string \<Rightarrow> nat \<Rightarrow> unit res" where
  "validate schema v path depth =
     rbind (ensure (depth \<le> 64) (ParameterError ''parameters exceed supported nesting depth'')) (\<lambda>_.
     rbind (getitem schema ''type'') (\<lambda>kind.
       if kind = VStr ''object'' then
         rbind (as_map (ParameterError (path @ '': expected object with string keys'')) v) (\<lambda>fields.
         rbind (ensure (list_all (\<lambda>kv. is_str (fst kv)) fields)
                  (ParameterError (path @ '': expected object with string keys''))) (\<lambda>_.
         rbind (rbind (getitem schema ''properties'') (as_map TypeError)) (\<lambda>props.
         rbind (ensure (list_all (\<lambda>kv. key_in props (fst kv)) fields)
                  (ParameterError (path @ '': unexpected or missing fields''))) (\<lambda>_.
         rbind (rbind (getitem schema ''required'') (as_tuple TypeError)) (\<lambda>names.
         rbind (ensure (list_all (key_in fields) names)
                  (ParameterError (path @ '': unexpected or missing fields''))) (\<lambda>_.
         for_each (\<lambda>nc.
           case map_of fields (fst nc) of
             None \<Rightarrow> Inr ()
           | Some x \<Rightarrow>
               rbind (as_map TypeError (snd nc)) (\<lambda>child.
               validate child x (path @ ''.'' @ key_text (fst nc)) (Suc depth))) props))))))
       else if kind = VStr ''array'' then
         rbind (as_sequence (ParameterError (path @ '': expected array'')) v) (\<lambda>xs.
         for_each (\<lambda>x.
           rbind (rbind (getitem schema ''items'') (as_map TypeError)) (\<lambda>child.
           validate child x (path @ ''[]'') (Suc depth))) xs)
       else validate_scalar schema (key_text kind) v path))"
  by pat_completeness auto
termination
  by (relation "measure (\<lambda>(_, _, _, depth). 65 - depth)") auto

declare validate.simps [simp del]

text \<open>\<open>validate_parameters\<close>, for a descriptor whose \<open>input_schema\<close> is given.\<close>

definition validate_parameters :: "dict \<Rightarrow> pyval \<Rightarrow> dict res" where
  "validate_parameters input_schema parameters =
     rbind (validate input_schema parameters ''parameters'' 0) (\<lambda>_.
     rbind (freeze_json parameters) (\<lambda>result.
     as_map AssertionError result))"

end
