(* ===== verification/Schema_Correct.thy ===== *)
theory Schema_Correct
  imports Schema
begin

text \<open>
  Correctness of the schema vocabulary: freezing a schema yields a well-formed schema and
  is idempotent, validation accepts exactly the conforming parameters and returns their
  frozen copy, and error messages are built from the schema alone.
\<close>

declare freeze_json.simps [simp del]

lemma freeze_json_eq_freeze_value: "freeze_json v = freeze_value v"
proof (induction v rule: freeze_value.induct)
  case (1 kvs)
  have "rmap (\<lambda>kv. if \<not> is_str (fst kv) then Inl TypeError
           else rbind (freeze_json (snd kv)) (\<lambda>x. Inr (fst kv, x))) kvs
      = rmap (\<lambda>kv. rbind (ensure (is_str (fst kv)) TypeError)
           (\<lambda>_. rbind (freeze_value (snd kv)) (\<lambda>v. Inr (fst kv, v)))) kvs"
    by (rule rmap_cong) (auto simp: 1 ensure_def)
  then show ?case by (simp add: freeze_json.simps [of "VMap kvs"])
next
  case (2 vs)
  then have "rmap freeze_json vs = rmap freeze_value vs" by (intro rmap_cong) auto
  then show ?case by (simp add: freeze_json.simps [of "VList vs"])
next
  case (3 vs)
  then have "rmap freeze_json vs = rmap freeze_value vs" by (intro rmap_cong) auto
  then show ?case by (simp add: freeze_json.simps [of "VTuple vs"])
qed (simp_all add: freeze_json.simps)

lemma list_all2_right: "list_all2 P xs ys \<Longrightarrow> y \<in> set ys \<Longrightarrow> \<exists>x \<in> set xs. P x y"
  by (induction rule: list_all2_induct) auto

lemma list_all2_left: "list_all2 P xs ys \<Longrightarrow> x \<in> set xs \<Longrightarrow> \<exists>y \<in> set ys. P x y"
  by (induction rule: list_all2_induct) auto

lemma rmap_freeze_idem:
  "(\<And>x w. x \<in> set vs \<Longrightarrow> f x = Inr w \<Longrightarrow> f w = Inr w) \<Longrightarrow> rmap f vs = Inr ws \<Longrightarrow> rmap f ws = Inr ws"
  by (rule rmap_id) (auto simp: rmap_eq_Inr dest: list_all2_right)

lemma freeze_value_idem: "freeze_value v = Inr w \<Longrightarrow> freeze_value w = Inr w"
proof (induction v arbitrary: w rule: freeze_value.induct)
  case (1 kvs)
  from "1.prems" obtain kvs' where w: "w = VMap kvs'"
    and raw: "rmap (\<lambda>kv. rbind (ensure (is_str (fst kv)) TypeError)
         (\<lambda>_. rbind (freeze_value (snd kv)) (\<lambda>v. Inr (fst kv, v)))) kvs = Inr kvs'"
    by (auto simp: rbind_eq_Inr)
  from raw have all2: "list_all2 (\<lambda>kv kv'. is_str (fst kv) \<and> fst kv' = fst kv \<and> freeze_value (snd kv) = Inr (snd kv')) kvs kvs'"
    unfolding rmap_eq_Inr by (rule list_all2_mono) (auto simp: rbind_eq_Inr)
  have "rmap (\<lambda>kv. rbind (ensure (is_str (fst kv)) TypeError)
         (\<lambda>_. rbind (freeze_value (snd kv)) (\<lambda>v. Inr (fst kv, v)))) kvs' = Inr kvs'"
  proof (rule rmap_id)
    fix kv' assume "kv' \<in> set kvs'"
    with all2 obtain kv where kv: "kv \<in> set kvs" "is_str (fst kv)" "fst kv' = fst kv"
      "freeze_value (snd kv) = Inr (snd kv')"
      by (blast dest: list_all2_right)
    from "1.IH" [OF kv(1) _ kv(4)] kv have "freeze_value (snd kv') = Inr (snd kv')"
      by simp
    with kv show "rbind (ensure (is_str (fst kv')) TypeError)
         (\<lambda>_. rbind (freeze_value (snd kv')) (\<lambda>v. Inr (fst kv', v))) = Inr kv'"
      by (simp add: prod_eq_iff)
  qed
  with w show ?case by simp
next
  case (2 vs)
  then show ?case by (fastforce simp: rbind_eq_Inr intro: rmap_freeze_idem)
next
  case (3 vs)
  then show ?case by (fastforce simp: rbind_eq_Inr intro: rmap_freeze_idem)
qed (auto split: if_splits)

section \<open>Frozen schemas\<close>

text \<open>The schemas freezing produces.\<close>

inductive wf_schema :: "dict \<Rightarrow> bool" where
  wf_object: "dict_get S ''type'' = Some (VStr ''object'') \<Longrightarrow>
     dict_get S ''properties'' = Some (VMap props) \<Longrightarrow> dict_get S ''required'' = Some (VTuple names) \<Longrightarrow>
     (\<And>k c. (k, c) \<in> set props \<Longrightarrow> is_str k \<and> (\<exists>child. c = VMap child \<and> wf_schema child)) \<Longrightarrow>
     (\<And>n. n \<in> set names \<Longrightarrow> key_in props n) \<Longrightarrow> wf_schema S"
| wf_array: "dict_get S ''type'' = Some (VStr ''array'') \<Longrightarrow>
     dict_get S ''items'' = Some (VMap child) \<Longrightarrow> wf_schema child \<Longrightarrow> wf_schema S"
| wf_scalar: "dict_get S ''type'' = Some (VStr t) \<Longrightarrow> t \<in> {''string'', ''integer'', ''number'', ''boolean''} \<Longrightarrow>
     (\<And>e. dict_get S ''enum'' = Some e \<Longrightarrow> \<exists>vs. e = VTuple vs) \<Longrightarrow>
     (\<And>k m. k \<in> {''minimum'', ''maximum''} \<Longrightarrow> dict_get S k = Some m \<Longrightarrow>
        t \<in> {''integer'', ''number''} \<and> num_of m \<noteq> None) \<Longrightarrow>
     (\<And>k m. k \<in> {''minLength'', ''maxLength''} \<Longrightarrow> dict_get S k = Some m \<Longrightarrow>
        t = ''string'' \<and> num_of m \<noteq> None) \<Longrightarrow> wf_schema S"

lemma dict_get_Nil [simp]: "dict_get [] k = None"
  by (simp add: dict_get_def)

lemma dict_get_Cons [simp]: "dict_get ((k', v) # m) k = (if k' = VStr k then Some v else dict_get m k)"
  by (simp add: dict_get_def)

lemma dict_get_append: "dict_get (m @ n) k = (case dict_get m k of None \<Rightarrow> dict_get n k | Some v \<Rightarrow> Some v)"
  by (auto simp: dict_get_def map_add_def split: option.splits)

lemma freeze_description_get:
  "freeze_description S = Inr d \<Longrightarrow>
     dict_get d k = (if k = ''description'' then dict_get S k else None)"
  by (auto simp: freeze_description_def rbind_eq_Inr split: option.splits)

lemma freeze_description_keys: "freeze_description S = Inr d \<Longrightarrow> keys_within d [''description'']"
  by (auto simp: freeze_description_def keys_within_def rbind_eq_Inr split: option.splits)

lemma bounded_field_get:
  "bounded_field S fl nn f fr = Inr fr' \<Longrightarrow>
     fr' = fr @ (case dict_get S f of None \<Rightarrow> [] | Some v \<Rightarrow> [(VStr f, v)]) \<and>
     (\<forall>v. dict_get S f = Some v \<longrightarrow> num_of v \<noteq> None)"
  by (auto simp: bounded_field_def rbind_eq_Inr split: option.splits pyval.splits pyfloat.splits if_splits
       elim: isfinite.elims)

lemma bounded_pair_get:
  assumes "bounded_pair S fr lo hi fl nn = Inr fr'"
  shows "\<exists>bs. fr' = fr @ bs \<and> (\<forall>(k, v) \<in> set bs. k \<in> {VStr lo, VStr hi} \<and> num_of v \<noteq> None)"
  using assms
  by (auto simp: bounded_pair_def rbind_eq_Inr dest!: bounded_field_get split: option.splits)

lemma dict_get_in: "dict_get m k = Some v \<Longrightarrow> (VStr k, v) \<in> set m"
  by (auto simp: dict_get_def dest: map_of_SomeD)

definition bound_keys :: "string \<Rightarrow> pyval set" where
  "bound_keys t = (if t = ''integer'' \<or> t = ''number'' then {VStr ''minimum'', VStr ''maximum''}
                   else if t = ''string'' then {VStr ''minLength'', VStr ''maxLength''} else {})"

lemma freeze_scalar_enum_shape:
  "freeze_scalar_enum S t = Inr es \<Longrightarrow> es = [] \<or> (\<exists>fs. es = [(VStr ''enum'', VTuple fs)])"
  by (auto simp: freeze_scalar_enum_def rbind_eq_Inr split: option.splits)

lemma freeze_scalar_bounds_shape:
  assumes "freeze_scalar_bounds S t fr = Inr fr'"
  shows "\<exists>bs. fr' = fr @ bs \<and> (\<forall>(k, v) \<in> set bs. k \<in> bound_keys t \<and> num_of v \<noteq> None)"
proof (cases "t = ''integer'' \<or> t = ''number'' \<or> t = ''string''")
  case True
  then obtain lo hi fl nn where "bounded_pair S fr lo hi fl nn = Inr fr'" "bound_keys t = {VStr lo, VStr hi}"
    using assms by (elim disjE) (simp_all add: freeze_scalar_bounds_def bound_keys_def)
  then show ?thesis using bounded_pair_get by metis
next
  case False
  with assms show ?thesis by (simp add: freeze_scalar_bounds_def)
qed

lemma freeze_scalar_shape:
  assumes "freeze_scalar_constraints S t fr = Inr fr'"
  obtains es bs where "fr' = fr @ es @ bs"
    and "es = [] \<or> (\<exists>fs. es = [(VStr ''enum'', VTuple fs)])"
    and "\<forall>(k, v) \<in> set bs. k \<in> bound_keys t \<and> num_of v \<noteq> None"
proof -
  from assms obtain es where es: "freeze_scalar_enum S t = Inr es"
    and fr': "freeze_scalar_bounds S t (fr @ es) = Inr fr'"
    by (simp add: freeze_scalar_constraints_def rbind_eq_Inr) blast
  from freeze_scalar_bounds_shape [OF fr'] obtain bs where bs: "fr' = (fr @ es) @ bs"
    "\<forall>(k, v) \<in> set bs. k \<in> bound_keys t \<and> num_of v \<noteq> None" by (elim exE conjE)
  show thesis
  proof (rule that)
    show "fr' = fr @ es @ bs" using bs(1) by simp
    show "es = [] \<or> (\<exists>fs. es = [(VStr ''enum'', VTuple fs)])" by (rule freeze_scalar_enum_shape [OF es])
    show "\<forall>(k, v) \<in> set bs. k \<in> bound_keys t \<and> num_of v \<noteq> None" by (rule bs(2))
  qed
qed

lemma bound_keysE:
  assumes "VStr k \<in> bound_keys t"
  shows "k \<noteq> ''enum''"
    and "k \<in> {''minimum'', ''maximum''} \<Longrightarrow> t \<in> {''integer'', ''number''}"
    and "k \<in> {''minLength'', ''maxLength''} \<Longrightarrow> t = ''string''"
  using assms by (auto simp: bound_keys_def split: if_splits)

lemma freeze_scalar_wf:
  assumes "freeze_scalar_constraints S t fr = Inr fr'"
    and ty: "dict_get fr ''type'' = Some (VStr t)" "t \<in> {''string'', ''integer'', ''number'', ''boolean''}"
    and keys: "fst ` set fr \<subseteq> {VStr ''type'', VStr ''description''}"
  shows "wf_schema fr'"
proof -
  obtain es bs where fr': "fr' = fr @ es @ bs"
    and es: "es = [] \<or> (\<exists>fs. es = [(VStr ''enum'', VTuple fs)])"
    and bs': "\<forall>(k, v) \<in> set bs. k \<in> bound_keys t \<and> num_of v \<noteq> None"
    by (rule freeze_scalar_shape [OF assms(1)])
  have bs: "k \<in> bound_keys t \<and> num_of v \<noteq> None" if "(k, v) \<in> set bs" for k v using bs' that by auto
  have in_fr': "(VStr k, v) \<in> set bs \<or> k = ''enum'' \<and> (VStr k, v) \<in> set es"
    if "dict_get fr' k = Some v" "k \<notin> {''type'', ''description''}" for k v
  proof -
    from that(1) have "(VStr k, v) \<in> set fr \<union> set es \<union> set bs"
      unfolding fr' by (auto dest: dict_get_in)
    moreover have "(VStr k, v) \<notin> set fr" using keys that(2) by force
    ultimately show ?thesis using es by auto
  qed
  have bk: "VStr k \<in> bound_keys t \<and> num_of v \<noteq> None"
    if "dict_get fr' k = Some v" "k \<notin> {''type'', ''description'', ''enum''}" for k v
    using in_fr' [OF that(1)] that(2) bs by auto
  show ?thesis
  proof (rule wf_scalar [OF _ ty(2)])
    show "dict_get fr' ''type'' = Some (VStr t)"
      using ty by (simp add: fr' dict_get_append)
    show "\<exists>vs. x = VTuple vs" if "dict_get fr' ''enum'' = Some x" for x
      using in_fr' [OF that] es bs [of "VStr ''enum''" x] bound_keysE(1) [of "''enum''" t] by auto
    show "t \<in> {''integer'', ''number''} \<and> num_of m \<noteq> None"
      if "k \<in> {''minimum'', ''maximum''}" "dict_get fr' k = Some m" for k m
      using bk [OF that(2)] that(1) bound_keysE(2) [of k t] by auto
    show "t = ''string'' \<and> num_of m \<noteq> None"
      if "k \<in> {''minLength'', ''maxLength''}" "dict_get fr' k = Some m" for k m
      using bk [OF that(2)] that(1) bound_keysE(3) [of k t] by auto
  qed
qed

lemma schema_type_eq_Inr: "schema_type S = Inr t \<longleftrightarrow> dict_get S ''type'' = Some (VStr t) \<and> t \<in> set schema_types"
  by (auto simp: schema_type_def split: option.splits pyval.splits)

lemma schema_typesE:
  "t \<in> set schema_types \<Longrightarrow> t \<noteq> ''object'' \<Longrightarrow> t \<noteq> ''array'' \<Longrightarrow> t \<in> {''string'', ''integer'', ''number'', ''boolean''}"
  by (simp add: schema_types_def)

definition freeze_property :: "pyval \<times> pyval \<Rightarrow> (pyval \<times> pyval) res" where
  "freeze_property kv =
     rbind (text_ok (fst kv)) (\<lambda>_.
     rbind (ensure (is_map (snd kv)) TypeError) (\<lambda>_.
     rbind (freeze_input_schema (snd kv)) (\<lambda>c. Inr (fst kv, VMap c))))"

definition freeze_by_type :: "dict \<Rightarrow> string \<Rightarrow> dict \<Rightarrow> dict res" where
  "freeze_by_type schema t frozen =
     (if t = ''object'' then
        rbind (properties_of schema) (\<lambda>ps.
        rbind (rmap freeze_property ps) (\<lambda>fps.
        rbind (freeze_required schema ps) (\<lambda>req.
        rbind (freeze_additional schema) (\<lambda>add.
        rbind (ensure (keys_within schema
                 [''type'', ''properties'', ''required'', ''description'', ''additionalProperties'']) ValueError) (\<lambda>_.
        Inr (frozen @ [(VStr ''properties'', VMap fps), (VStr ''required'', VTuple req),
                       (VStr ''additionalProperties'', VBool add)]))))))
      else if t = ''array'' then
        rbind (items_of schema) (\<lambda>item.
        rbind (freeze_input_schema (VMap item)) (\<lambda>c.
        rbind (ensure (keys_within schema [''type'', ''items'', ''description'']) ValueError) (\<lambda>_.
        Inr (frozen @ [(VStr ''items'', VMap c)]))))
      else freeze_scalar_constraints schema t frozen)"

lemma freeze_input_schema_unfold:
  "freeze_input_schema (VMap schema) =
     rbind (ensure (keys_within schema schema_keys) ValueError) (\<lambda>_.
     rbind (schema_type schema) (\<lambda>t.
     rbind (freeze_description schema) (\<lambda>desc.
     freeze_by_type schema t ((VStr ''type'', VStr t) # desc))))"
  unfolding freeze_by_type_def freeze_property_def
  by (subst freeze_input_schema.simps) (simp only: Let_def)

lemma freeze_input_schema_eq_Inr:
  "freeze_input_schema (VMap schema) = Inr S \<longleftrightarrow>
     keys_within schema schema_keys \<and> (\<exists>t desc. schema_type schema = Inr t \<and> freeze_description schema = Inr desc
       \<and> freeze_by_type schema t ((VStr ''type'', VStr t) # desc) = Inr S)"
  by (auto simp: freeze_input_schema_unfold rbind_eq_Inr)


lemma freeze_property_eq_Inr:
  "freeze_property kv = Inr kv' \<longleftrightarrow>
     text_ok (fst kv) = Inr () \<and> (\<exists>m c. snd kv = VMap m \<and> freeze_input_schema (VMap m) = Inr c \<and> kv' = (fst kv, VMap c))"
  by (cases "snd kv") (auto simp: freeze_property_def rbind_eq_Inr)

lemma text_ok_eq_Inr: "text_ok k = Inr () \<longleftrightarrow> (\<exists>s. k = VStr s \<and> \<not> blank s)"
  by (cases k) (simp_all add: text_ok_def)

lemma freeze_required_eq_Inr:
  "freeze_required schema ps = Inr req \<Longrightarrow> n \<in> set req \<Longrightarrow> is_str n \<and> n \<in> fst ` set ps"
  by (auto simp: freeze_required_def rbind_eq_Inr list_all_iff)

lemma freeze_description_keys': "freeze_description S = Inr d \<Longrightarrow> fst ` set d \<subseteq> {VStr ''description''}"
  by (auto simp: freeze_description_def rbind_eq_Inr split: option.splits)

lemma rmap_freeze_property_keys: "rmap freeze_property ps = Inr fps \<Longrightarrow> map fst fps = map fst ps"
  by (auto simp: rmap_eq_Inr freeze_property_eq_Inr list_all2_conv_all_nth intro!: nth_equalityI)

lemma freeze_desc_lookup:
  assumes "freeze_description S = Inr d" "k \<noteq> ''description''"
  shows "dict_get d k = None"
  using freeze_description_get [OF assms(1)] assms(2) by simp

lemma freeze_by_type_wf:
  assumes "freeze_by_type schema t ((VStr ''type'', VStr t) # desc) = Inr S"
    and t: "t \<in> set schema_types" and desc: "freeze_description schema = Inr desc"
    and IH_obj: "\<And>ps k m c. t = ''object'' \<Longrightarrow> properties_of schema = Inr ps \<Longrightarrow> (k, VMap m) \<in> set ps \<Longrightarrow>
         freeze_input_schema (VMap m) = Inr c \<Longrightarrow> wf_schema c"
    and IH_arr: "\<And>item c. t = ''array'' \<Longrightarrow> items_of schema = Inr item \<Longrightarrow> freeze_input_schema (VMap item) = Inr c \<Longrightarrow> wf_schema c"
  shows "wf_schema S"
proof -
  have none: "dict_get desc k = None" if "k \<noteq> ''description''" for k
    using freeze_desc_lookup [OF desc that] .
  consider "t = ''object''" | "t = ''array''" | "t \<noteq> ''object''" "t \<noteq> ''array''" by blast
  then show ?thesis
  proof cases
    case 1
    with assms(1) obtain ps fps req add where ps: "properties_of schema = Inr ps"
      and fps: "rmap freeze_property ps = Inr fps" and req: "freeze_required schema ps = Inr req"
      and S: "S = ((VStr ''type'', VStr t) # desc) @ [(VStr ''properties'', VMap fps), (VStr ''required'', VTuple req),
                    (VStr ''additionalProperties'', VBool add)]"
      by (simp add: freeze_by_type_def rbind_eq_Inr) blast
    show ?thesis
    proof (rule wf_object)
      show "dict_get S ''type'' = Some (VStr ''object'')" using S 1 by simp
      show "dict_get S ''properties'' = Some (VMap fps)" "dict_get S ''required'' = Some (VTuple req)"
        by (simp_all add: S dict_get_append none)
      show "is_str k \<and> (\<exists>child. c = VMap child \<and> wf_schema child)" if kc: "(k, c) \<in> set fps" for k c
      proof -
        from fps kc obtain kv where "kv \<in> set ps" "freeze_property kv = Inr (k, c)"
          unfolding rmap_eq_Inr by (blast dest: list_all2_right)
        moreover obtain a b where "kv = (a, b)" by (rule prod.exhaust)
        ultimately obtain m child where m: "(k, VMap m) \<in> set ps" "freeze_input_schema (VMap m) = Inr child"
          "c = VMap child" "is_str k"
          by (auto simp: freeze_property_eq_Inr text_ok_eq_Inr)
        then show ?thesis using IH_obj [OF 1 ps m(1,2)] by simp
      qed
      show "key_in fps n" if "n \<in> set req" for n
      proof -
        have "set (map fst fps) = set (map fst ps)" by (simp only: rmap_freeze_property_keys [OF fps])
        with freeze_required_eq_Inr [OF req that] show ?thesis by (simp add: key_in_def)
      qed
    qed
  next
    case 2
    with assms(1) obtain item c where item: "items_of schema = Inr item" "freeze_input_schema (VMap item) = Inr c"
      and S: "S = ((VStr ''type'', VStr t) # desc) @ [(VStr ''items'', VMap c)]"
      by (simp add: freeze_by_type_def rbind_eq_Inr) blast
    show ?thesis
      by (rule wf_array [OF _ _ IH_arr [OF 2 item]]) (simp_all add: S dict_get_append none 2)
  next
    case 3
    with assms(1) have "freeze_scalar_constraints schema t ((VStr ''type'', VStr t) # desc) = Inr S"
      by (simp add: freeze_by_type_def)
    then show ?thesis
      using schema_typesE [OF t 3] freeze_description_keys' [OF desc]
      by (intro freeze_scalar_wf [of schema t "(VStr ''type'', VStr t) # desc"]) auto
  qed
qed

lemma freeze_input_schema_wf: "freeze_input_schema v = Inr S \<Longrightarrow> wf_schema S"
proof (induction "size v" arbitrary: v S rule: less_induct)
  case less
  show ?case
  proof (cases v)
    case (VMap schema)
    from less.prems [unfolded VMap freeze_input_schema_eq_Inr schema_type_eq_Inr] obtain t desc
      where *: "freeze_by_type schema t ((VStr ''type'', VStr t) # desc) = Inr S"
        "t \<in> set schema_types" "freeze_description schema = Inr desc" by blast
    show ?thesis
    proof (rule freeze_by_type_wf [OF *])
      show "wf_schema c" if "properties_of schema = Inr ps" "(k, VMap m) \<in> set ps"
        "freeze_input_schema (VMap m) = Inr c" for ps k m c
        using less.hyps [OF _ that(3)] properties_of_size [OF that(1,2)] VMap by simp
      show "wf_schema c" if "items_of schema = Inr item" "freeze_input_schema (VMap item) = Inr c" for item c
        using less.hyps [OF _ that(2)] items_of_size [OF that(1)] VMap by simp
    qed
  qed (use less.prems in simp_all)
qed


section \<open>Freezing is idempotent\<close>

definition opt_entry :: "dict \<Rightarrow> string \<Rightarrow> dict" where
  "opt_entry S k = (case dict_get S k of None \<Rightarrow> [] | Some v \<Rightarrow> [(VStr k, v)])"

lemma dict_get_opt_entry: "dict_get (opt_entry S k) k' = (if k = k' then dict_get S k else None)"
  by (simp add: opt_entry_def split: option.splits)

lemma bounded_pair_shape:
  "bounded_pair S fr lo hi fl nn = Inr fr' \<Longrightarrow> fr' = fr @ opt_entry S lo @ opt_entry S hi"
  unfolding opt_entry_def by (auto simp: bounded_pair_def rbind_eq_Inr dest!: bounded_field_get)

lemma bounded_pair_idem:
  assumes "bounded_pair S fr lo hi fl nn = Inr fr'" "lo \<noteq> hi" "dict_get fr lo = None" "dict_get fr hi = None"
  shows "bounded_pair fr' fr lo hi fl nn = Inr fr'"
proof -
  note shape = bounded_pair_shape [OF assms(1)]
  have same: "dict_get fr' lo = dict_get S lo" "dict_get fr' hi = dict_get S hi"
    using assms(2-4) by (simp_all add: shape dict_get_append dict_get_opt_entry split: option.splits)
  have "bounded_pair fr' fr lo hi fl nn = bounded_pair S fr lo hi fl nn"
    unfolding bounded_pair_def
    by (rule rbind_cong [OF rfold_cong]) (auto simp: bounded_field_def same)
  with assms(1) show ?thesis by simp
qed

lemma rmap_length: "rmap f xs = Inr ys \<Longrightarrow> length ys = length xs"
  by (auto simp: rmap_eq_Inr dest: list_all2_lengthD)

lemma freeze_enum_idem:
  assumes "freeze_enum e t = Inr fs"
  shows "freeze_enum (VTuple fs) t = Inr fs"
proof -
  from assms obtain vs where vs: "vs \<noteq> []" "rmap freeze_value vs = Inr fs"
    and rest: "distinct_values fs = Inr True" "require_all (matches_schema_type t) fs = Inr ()"
    by (auto simp: freeze_enum_def rbind_eq_Inr)
  from rmap_length [OF vs(2)] vs(1) have "fs \<noteq> []" by auto
  moreover from vs(2) have "rmap freeze_value fs = Inr fs"
    by (rule rmap_freeze_idem [rotated]) (rule freeze_value_idem)
  ultimately show ?thesis using rest by (simp add: freeze_enum_def as_sequence_def)
qed

lemma keys_within_iff: "keys_within m ks \<longleftrightarrow> fst ` set m \<subseteq> VStr ` set ks"
  by (auto simp: keys_within_def list_all_iff)

lemma freeze_scalar_bounds_idem:
  assumes "freeze_scalar_bounds S t fr = Inr fr'" "\<And>k. VStr k \<in> bound_keys t \<Longrightarrow> dict_get fr k = None"
  shows "freeze_scalar_bounds fr' t fr = Inr fr'"
proof (cases "t = ''integer'' \<or> t = ''number'' \<or> t = ''string''")
  case True
  then obtain lo hi fl nn where b: "\<And>S. freeze_scalar_bounds S t fr = bounded_pair S fr lo hi fl nn"
    and lh: "lo \<noteq> hi" and "bound_keys t = {VStr lo, VStr hi}"
    by (elim disjE) (simp_all add: freeze_scalar_bounds_def bound_keys_def)
  then show ?thesis using bounded_pair_idem [OF assms(1) [unfolded b] lh] assms(2) by simp
next
  case False
  with assms show ?thesis by (simp add: freeze_scalar_bounds_def)
qed

lemma freeze_scalar_idem:
  assumes "freeze_scalar_constraints schema t fr = Inr S"
    and keys: "fst ` set fr \<subseteq> {VStr ''type'', VStr ''description''}"
  shows "freeze_scalar_constraints S t fr = Inr S"
proof -
  from assms obtain es where es: "freeze_scalar_enum schema t = Inr es"
    and b: "freeze_scalar_bounds schema t (fr @ es) = Inr S"
    and veb: "(if dict_has S ''enum'' then validate_enum_bounds S t else Inr ()) = Inr ()"
    by (auto simp: freeze_scalar_constraints_def rbind_eq_Inr simp del: split_paired_Ex)
  from freeze_scalar_bounds_shape [OF b] obtain bs where S: "S = fr @ es @ bs"
    and bs: "\<forall>(k, v) \<in> set bs. k \<in> bound_keys t" by auto
  note ess = freeze_scalar_enum_shape [OF es]
  have bk: "bound_keys t \<subseteq> VStr ` set (scalar_keys t)"
    by (auto simp: bound_keys_def scalar_keys_def)
  have k1: "keys_within S (scalar_keys t)"
  proof -
    have "fst ` set fr \<subseteq> VStr ` set (scalar_keys t)" "fst ` set es \<subseteq> VStr ` set (scalar_keys t)"
      using keys ess by (auto simp: scalar_keys_def)
    moreover have "fst ` set bs \<subseteq> VStr ` set (scalar_keys t)" using bs bk by auto
    ultimately show ?thesis unfolding keys_within_iff S set_append image_Un by blast
  qed
  have fr_none: "dict_get fr k = None" if "k \<notin> {''type'', ''description''}" for k
  proof (cases "dict_get fr k")
    case (Some v)
    then have "VStr k \<in> fst ` set fr" by (force dest: dict_get_in)
    with keys that show ?thesis by auto
  qed
  have enum_none: "dict_get bs ''enum'' = None"
  proof (cases "dict_get bs ''enum''")
    case (Some v)
    with bs have "VStr ''enum'' \<in> bound_keys t" by (blast dest: dict_get_in)
    then show ?thesis using bound_keysE(1) by blast
  qed
  have S_enum: "dict_get S ''enum'' = dict_get es ''enum''"
    by (simp add: S dict_get_append fr_none enum_none split: option.split)
  have e2: "freeze_scalar_enum S t = Inr es"
  proof (cases "dict_get schema ''enum''")
    case None
    with es have "es = []" by (simp add: freeze_scalar_enum_def)
    then show ?thesis by (simp add: freeze_scalar_enum_def S_enum)
  next
    case (Some e)
    with es obtain fs where "freeze_enum e t = Inr fs" "es = [(VStr ''enum'', VTuple fs)]"
      by (auto simp: freeze_scalar_enum_def rbind_eq_Inr)
    then show ?thesis by (simp add: freeze_scalar_enum_def S_enum freeze_enum_idem)
  qed
  have b2: "freeze_scalar_bounds S t (fr @ es) = Inr S"
  proof (rule freeze_scalar_bounds_idem [OF b])
    fix k assume k: "VStr k \<in> bound_keys t"
    then have "k \<notin> {''type'', ''description''}" "k \<noteq> ''enum''" by (auto simp: bound_keys_def split: if_splits)
    moreover have "dict_get es k = None" using ess \<open>k \<noteq> ''enum''\<close> by fastforce
    ultimately show "dict_get (fr @ es) k = None" by (simp add: dict_get_append fr_none)
  qed
  show ?thesis using k1 e2 b2 veb by (simp add: freeze_scalar_constraints_def)
qed


lemma freeze_description_of:
  "dict_get A ''description'' = dict_get B ''description'' \<Longrightarrow> freeze_description A = freeze_description B"
  by (simp add: freeze_description_def)

lemma freeze_input_schema_idemI:
  assumes "freeze_description schema = Inr desc" "t \<in> set schema_types"
    and S: "S = ((VStr ''type'', VStr t) # desc) @ rest"
    and rest: "fst ` set rest \<subseteq> VStr ` (set schema_keys - {''description''})"
    and body: "freeze_by_type S t ((VStr ''type'', VStr t) # desc) = Inr S"
  shows "freeze_input_schema (VMap S) = Inr S"
proof -
  have "dict_get rest ''description'' = None"
    using rest by (auto simp: dict_get_def map_of_eq_None_iff)
  then have "dict_get S ''description'' = dict_get schema ''description''"
    using freeze_description_get [OF assms(1), of "''description''"]
    by (simp add: S dict_get_append split: option.split)
  then have d: "freeze_description S = Inr desc"
    using freeze_description_of assms(1) by metis
  have "fst ` set desc \<subseteq> VStr ` set schema_keys"
    using freeze_description_keys' [OF assms(1)] by (auto simp: schema_keys_def)
  then have "keys_within S schema_keys"
    using rest unfolding keys_within_iff S by (auto simp: schema_keys_def)
  moreover have "schema_type S = Inr t" using assms(2) by (simp add: schema_type_eq_Inr S)
  ultimately show ?thesis using d body by (simp add: freeze_input_schema_unfold)
qed

lemma keys_within_append: "keys_within (a @ b) ks \<longleftrightarrow> keys_within a ks \<and> keys_within b ks"
  by (simp add: keys_within_def)

lemma freeze_additional_eq_Inr: "freeze_additional schema = Inr add \<Longrightarrow> add = False"
  by (auto simp: freeze_additional_def split: option.splits pyval.splits if_splits)

lemma freeze_idem_object:
  assumes bt: "freeze_by_type schema t ((VStr ''type'', VStr t) # desc) = Inr S"
    and t: "t = ''object''" and desc: "freeze_description schema = Inr desc"
    and IH: "\<And>ps kv m c. properties_of schema = Inr ps \<Longrightarrow> kv \<in> set ps \<Longrightarrow> snd kv = VMap m \<Longrightarrow>
         freeze_input_schema (VMap m) = Inr c \<Longrightarrow> freeze_input_schema (VMap c) = Inr c"
  shows "freeze_input_schema (VMap S) = Inr S"
proof -
  from bt obtain ps fps req add where ps: "properties_of schema = Inr ps"
    and fps: "rmap freeze_property ps = Inr fps" and req: "freeze_required schema ps = Inr req"
    and add: "freeze_additional schema = Inr add"
    and S: "S = ((VStr ''type'', VStr t) # desc) @ [(VStr ''properties'', VMap fps), (VStr ''required'', VTuple req),
                  (VStr ''additionalProperties'', VBool add)]"
    using t by (simp add: freeze_by_type_def rbind_eq_Inr) blast
  have "rmap freeze_property fps = Inr fps"
  proof (rule rmap_id)
    fix kc assume "kc \<in> set fps"
    with fps obtain kv where kv: "kv \<in> set ps" "freeze_property kv = Inr kc"
      unfolding rmap_eq_Inr by (blast dest: list_all2_right)
    then show "freeze_property kc = Inr kc"
      using IH [OF ps kv(1)] by (auto simp: freeze_property_eq_Inr)
  qed
  moreover have "fst ` set fps = fst ` set ps"
    using rmap_freeze_property_keys [OF fps] by (metis list.set_map)
  moreover have "properties_of S = Inr fps" "freeze_additional S = Inr add"
    "dict_get S ''required'' = Some (VTuple req)"
    using freeze_additional_eq_Inr [OF add]
    by (simp_all add: properties_of_def freeze_additional_def S dict_get_append freeze_desc_lookup [OF desc])
  moreover have "keys_within S [''type'', ''properties'', ''required'', ''description'', ''additionalProperties'']"
    using freeze_description_keys [OF desc] unfolding S keys_within_append by (auto simp: keys_within_def list_all_iff)
  moreover have "distinct req" "list_all (\<lambda>n. is_str n \<and> n \<in> fst ` set ps) req"
    using req by (auto simp: freeze_required_def rbind_eq_Inr)
  ultimately have body: "freeze_by_type S t ((VStr ''type'', VStr t) # desc) = Inr S"
    using t by (simp add: freeze_by_type_def freeze_required_def as_sequence_def S)
  show ?thesis
    by (rule freeze_input_schema_idemI [OF desc _ S _ body]) (simp_all add: t schema_keys_def schema_types_def)
qed

lemma freeze_idem_array:
  assumes bt: "freeze_by_type schema t ((VStr ''type'', VStr t) # desc) = Inr S"
    and t: "t = ''array''" and desc: "freeze_description schema = Inr desc"
    and IH: "\<And>item c. items_of schema = Inr item \<Longrightarrow> freeze_input_schema (VMap item) = Inr c \<Longrightarrow>
         freeze_input_schema (VMap c) = Inr c"
  shows "freeze_input_schema (VMap S) = Inr S"
proof -
  from bt obtain item c where item: "items_of schema = Inr item" "freeze_input_schema (VMap item) = Inr c"
    and S: "S = ((VStr ''type'', VStr t) # desc) @ [(VStr ''items'', VMap c)]"
    using t by (simp add: freeze_by_type_def rbind_eq_Inr) blast
  have "items_of S = Inr c" by (simp add: items_of_def S dict_get_append freeze_desc_lookup [OF desc])
  moreover have "keys_within S [''type'', ''items'', ''description'']"
    using freeze_description_keys [OF desc] unfolding S keys_within_append by (auto simp: keys_within_def list_all_iff)
  ultimately have body: "freeze_by_type S t ((VStr ''type'', VStr t) # desc) = Inr S"
    using t IH [OF item] by (simp add: freeze_by_type_def S)
  show ?thesis
    by (rule freeze_input_schema_idemI [OF desc _ S _ body]) (simp_all add: t schema_keys_def schema_types_def)
qed

lemma freeze_idem_scalar:
  assumes bt: "freeze_by_type schema t ((VStr ''type'', VStr t) # desc) = Inr S"
    and t: "t \<noteq> ''object''" "t \<noteq> ''array''" "t \<in> set schema_types"
    and desc: "freeze_description schema = Inr desc"
  shows "freeze_input_schema (VMap S) = Inr S"
proof -
  let ?fr = "(VStr ''type'', VStr t) # desc"
  from bt t have sc: "freeze_scalar_constraints schema t ?fr = Inr S" by (simp add: freeze_by_type_def)
  obtain es bs where S: "S = ?fr @ es @ bs" and es: "es = [] \<or> (\<exists>fs. es = [(VStr ''enum'', VTuple fs)])"
    and bs: "\<forall>(k, v) \<in> set bs. k \<in> bound_keys t \<and> num_of v \<noteq> None"
    by (rule freeze_scalar_shape [OF sc])
  have "fst ` set bs \<subseteq> bound_keys t" using bs by auto
  also have "\<dots> \<subseteq> VStr ` (set schema_keys - {''description''})"
    by (simp add: schema_keys_def bound_keys_def)
  finally have rest: "fst ` set (es @ bs) \<subseteq> VStr ` (set schema_keys - {''description''})"
    using es by (elim disjE exE) (simp_all add: schema_keys_def)
  have "fst ` set ?fr \<subseteq> {VStr ''type'', VStr ''description''}"
    using freeze_description_keys' [OF desc] by auto
  then have "freeze_by_type S t ?fr = Inr S"
    using freeze_scalar_idem [OF sc] t by (simp add: freeze_by_type_def)
  then show ?thesis by (rule freeze_input_schema_idemI [OF desc t(3) S rest])
qed

lemma freeze_input_schema_idem: "freeze_input_schema v = Inr S \<Longrightarrow> freeze_input_schema (VMap S) = Inr S"
proof (induction "size v" arbitrary: v S rule: less_induct)
  case less
  show ?case
  proof (cases v)
    case (VMap schema)
    from less.prems [unfolded VMap freeze_input_schema_eq_Inr schema_type_eq_Inr] obtain t desc
      where bt: "freeze_by_type schema t ((VStr ''type'', VStr t) # desc) = Inr S"
        and t: "t \<in> set schema_types" and desc: "freeze_description schema = Inr desc" by blast
    consider "t = ''object''" | "t = ''array''" | "t \<noteq> ''object''" "t \<noteq> ''array''" by blast
    then show ?thesis
    proof cases
      case 1
      show ?thesis
        by (rule freeze_idem_object [OF bt 1 desc], rule less.hyps)
          (use VMap properties_of_size in fastforce)+
    next
      case 2
      show ?thesis
        by (rule freeze_idem_array [OF bt 2 desc], rule less.hyps)
          (use VMap items_of_size in fastforce)+
    next
      case 3
      then show ?thesis by (rule freeze_idem_scalar [OF bt _ _ t desc])
    qed
  qed (use less.prems in simp_all)
qed

section \<open>Conformance\<close>

text \<open>
  What it means for a value to conform to a schema, stated without the validator: a scalar
  has the declared type, is one of the choices and lies within the bounds; an object has
  exactly declared fields, all the required ones, and conforming members; an array has
  conforming elements.  The number is the nesting depth still allowed.
\<close>

definition scalar_conforms :: "dict \<Rightarrow> string \<Rightarrow> pyval \<Rightarrow> bool" where
  "scalar_conforms S kind v \<longleftrightarrow> scalar_type_ok kind v
     \<and> (\<forall>cs. dict_get S ''enum'' = Some (VTuple cs) \<longrightarrow> (\<exists>c \<in> set cs. py_eq v c))
     \<and> (\<forall>m. dict_get S ''minimum'' = Some m \<longrightarrow> the (num_of m) \<le> the (num_of v))
     \<and> (\<forall>m. dict_get S ''maximum'' = Some m \<longrightarrow> the (num_of v) \<le> the (num_of m))
     \<and> (\<forall>m s. dict_get S ''minLength'' = Some m \<longrightarrow> v = VStr s \<longrightarrow> the (num_of m) \<le> of_nat (length s))
     \<and> (\<forall>m s. dict_get S ''maxLength'' = Some m \<longrightarrow> v = VStr s \<longrightarrow> of_nat (length s) \<le> the (num_of m))"

inductive conforms :: "nat \<Rightarrow> dict \<Rightarrow> pyval \<Rightarrow> bool" where
  conforms_object: "dict_get S ''type'' = Some (VStr ''object'') \<Longrightarrow>
     dict_get S ''properties'' = Some (VMap props) \<Longrightarrow> dict_get S ''required'' = Some (VTuple names) \<Longrightarrow>
     \<forall>k \<in> fst ` set fields. is_str k \<and> key_in props k \<Longrightarrow>
     \<forall>n \<in> set names. key_in fields n \<Longrightarrow>
     (\<And>k c x. (k, VMap c) \<in> set props \<Longrightarrow> map_of fields k = Some x \<Longrightarrow> \<exists>m. n = Suc m \<and> conforms m c x) \<Longrightarrow>
     conforms n S (VMap fields)"
| conforms_array: "dict_get S ''type'' = Some (VStr ''array'') \<Longrightarrow>
     dict_get S ''items'' = Some (VMap c) \<Longrightarrow> v = VList xs \<or> v = VTuple xs \<Longrightarrow>
     (\<And>x. x \<in> set xs \<Longrightarrow> \<exists>m. n = Suc m \<and> conforms m c x) \<Longrightarrow> conforms n S v"
| conforms_scalar: "dict_get S ''type'' = Some (VStr t) \<Longrightarrow> t \<notin> {''object'', ''array''} \<Longrightarrow>
     scalar_conforms S t v \<Longrightarrow> conforms n S v"

lemma py_less_num: "num_of a \<noteq> None \<Longrightarrow> num_of b \<noteq> None \<Longrightarrow> py_less a b = Inr (the (num_of a) < the (num_of b))"
  by (auto simp: py_less_def)

lemma scalar_type_num: "scalar_type_ok t v \<Longrightarrow> t \<in> {''integer'', ''number''} \<Longrightarrow> num_of v \<noteq> None"
  by (cases v) (auto simp: scalar_type_ok_def elim: isfinite.elims)

lemma scalar_type_str: "scalar_type_ok ''string'' v \<Longrightarrow> \<exists>s. v = VStr s"
  by (cases v) (auto simp: scalar_type_ok_def)

lemma not_below_num:
  "(\<And>m. lo = Some m \<Longrightarrow> num_of m \<noteq> None \<and> num_of v \<noteq> None) \<Longrightarrow>
     not_below lo v = Inr (\<forall>m. lo = Some m \<longrightarrow> the (num_of m) \<le> the (num_of v))"
  by (auto simp: not_below_def py_less_num split: option.splits)

lemma not_above_num:
  "(\<And>m. hi = Some m \<Longrightarrow> num_of m \<noteq> None \<and> num_of v \<noteq> None) \<Longrightarrow>
     not_above hi v = Inr (\<forall>m. hi = Some m \<longrightarrow> the (num_of v) \<le> the (num_of m))"
  by (auto simp: not_above_def py_less_num split: option.splits)


definition enum_ok :: "dict \<Rightarrow> pyval \<Rightarrow> bool" where
  "enum_ok S v \<longleftrightarrow> (\<forall>cs. dict_get S ''enum'' = Some (VTuple cs) \<longrightarrow> (\<exists>c \<in> set cs. py_eq v c))"

definition range_ok :: "dict \<Rightarrow> pyval \<Rightarrow> bool" where
  "range_ok S v \<longleftrightarrow> (\<forall>m. dict_get S ''minimum'' = Some m \<longrightarrow> the (num_of m) \<le> the (num_of v))
     \<and> (\<forall>m. dict_get S ''maximum'' = Some m \<longrightarrow> the (num_of v) \<le> the (num_of m))"

definition length_ok :: "dict \<Rightarrow> pyval \<Rightarrow> bool" where
  "length_ok S v \<longleftrightarrow> (\<forall>m s. dict_get S ''minLength'' = Some m \<longrightarrow> v = VStr s \<longrightarrow> the (num_of m) \<le> of_nat (length s))
     \<and> (\<forall>m s. dict_get S ''maxLength'' = Some m \<longrightarrow> v = VStr s \<longrightarrow> of_nat (length s) \<le> the (num_of m))"

lemma scalar_conforms_alt:
  "scalar_conforms S t v \<longleftrightarrow> scalar_type_ok t v \<and> enum_ok S v \<and> range_ok S v \<and> length_ok S v"
  by (simp add: scalar_conforms_def enum_ok_def range_ok_def length_ok_def)

text \<open>The side conditions of a frozen scalar schema, as one predicate.\<close>

definition scalar_wf :: "dict \<Rightarrow> string \<Rightarrow> bool" where
  "scalar_wf S t \<longleftrightarrow> t \<in> {''string'', ''integer'', ''number'', ''boolean''}
     \<and> (\<forall>e. dict_get S ''enum'' = Some e \<longrightarrow> (\<exists>vs. e = VTuple vs))
     \<and> (\<forall>k \<in> {''minimum'', ''maximum''}. \<forall>m. dict_get S k = Some m \<longrightarrow> t \<in> {''integer'', ''number''} \<and> num_of m \<noteq> None)
     \<and> (\<forall>k \<in> {''minLength'', ''maxLength''}. \<forall>m. dict_get S k = Some m \<longrightarrow> t = ''string'' \<and> num_of m \<noteq> None)"

lemma scalar_wf_range:
  "scalar_wf S t \<Longrightarrow> dict_get S k = Some m \<Longrightarrow> k \<in> {''minimum'', ''maximum''} \<Longrightarrow>
     t \<in> {''integer'', ''number''} \<and> num_of m \<noteq> None"
  unfolding scalar_wf_def by (elim conjE, drule (1) bspec [where x = k], elim allE, erule (1) mp)

lemma scalar_wf_length:
  "scalar_wf S t \<Longrightarrow> dict_get S k = Some m \<Longrightarrow> k \<in> {''minLength'', ''maxLength''} \<Longrightarrow>
     t = ''string'' \<and> num_of m \<noteq> None"
  unfolding scalar_wf_def by (elim conjE, drule (1) bspec [where x = k], elim allE, erule (1) mp)

lemma validate_enum_eq:
  "scalar_wf S t \<Longrightarrow> validate_enum S v path =
     ensure (enum_ok S v) (ParameterError (path @ '': value outside allowed choices''))"
  by (auto simp: scalar_wf_def validate_enum_def enum_ok_def as_tuple_def list_ex_iff split: option.splits)

lemma validate_range_eq:
  assumes "scalar_wf S t" "scalar_type_ok t v"
  shows "validate_range S v path = ensure (range_ok S v) (ParameterError (path @ '': value outside allowed range''))"
proof -
  have num: "num_of m \<noteq> None \<and> num_of v \<noteq> None" if "dict_get S k = Some m" "k \<in> {''minimum'', ''maximum''}" for k m
    using scalar_wf_range [OF assms(1) that] scalar_type_num [OF assms(2)] by (simp only: simp_thms)
  show ?thesis
    by (simp add: validate_range_def range_ok_def not_below_num [OF num] not_above_num [OF num] ensure_def Let_def)
qed

lemma validate_length_eq:
  assumes "scalar_wf S t" "scalar_type_ok t v"
  shows "validate_length S v path = ensure (length_ok S v) (ParameterError (path @ '': text outside allowed length''))"
proof (cases "\<exists>s. v = VStr s")
  case True
  then obtain s where v: "v = VStr s" by blast
  have num: "num_of m \<noteq> None" if "dict_get S k = Some m" "k \<in> {''minLength'', ''maxLength''}" for k m
    using scalar_wf_length [OF assms(1) that] by simp
  have "not_below (dict_get S ''minLength'') (VInt (int (length s))) =
      Inr (\<forall>m. dict_get S ''minLength'' = Some m \<longrightarrow> the (num_of m) \<le> of_nat (length s))"
    using num by (subst not_below_num) auto
  moreover have "not_above (dict_get S ''maxLength'') (VInt (int (length s))) =
      Inr (\<forall>m. dict_get S ''maxLength'' = Some m \<longrightarrow> of_nat (length s) \<le> the (num_of m))"
    using num by (subst not_above_num) auto
  ultimately show ?thesis
    by (auto simp: validate_length_def length_ok_def v py_len_def dict_has_def ensure_def Let_def)
next
  case False
  with assms have "t \<noteq> ''string''" using scalar_type_str by blast
  with assms(1) have "dict_get S k = None" if "k \<in> {''minLength'', ''maxLength''}" for k
    using scalar_wf_length [OF assms(1) _ that] by (cases "dict_get S k") simp_all
  then show ?thesis by (simp add: validate_length_def length_ok_def dict_has_def)
qed

lemma validate_scalar_eq:
  assumes "scalar_wf S t"
  shows "validate_scalar S t v path =
     rbind (ensure (scalar_type_ok t v) (ParameterError (path @ '': expected finite '' @ t))) (\<lambda>_.
     rbind (ensure (enum_ok S v) (ParameterError (path @ '': value outside allowed choices''))) (\<lambda>_.
     rbind (ensure (range_ok S v) (ParameterError (path @ '': value outside allowed range''))) (\<lambda>_.
     ensure (length_ok S v) (ParameterError (path @ '': text outside allowed length'')))))"
  using validate_enum_eq [OF assms] validate_range_eq [OF assms] validate_length_eq [OF assms]
  by (simp add: validate_scalar_def ensure_def)

lemma wf_schema_cases:
  assumes "wf_schema S"
  obtains (object) props names where "dict_get S ''type'' = Some (VStr ''object'')"
      "dict_get S ''properties'' = Some (VMap props)" "dict_get S ''required'' = Some (VTuple names)"
      "\<forall>(k, c) \<in> set props. is_str k \<and> (\<exists>child. c = VMap child \<and> wf_schema child)"
  | (array) child where "dict_get S ''type'' = Some (VStr ''array'')" "dict_get S ''items'' = Some (VMap child)"
      "wf_schema child"
  | (scalar) t where "dict_get S ''type'' = Some (VStr t)" "scalar_wf S t" "t \<notin> {''object'', ''array''}"
  using assms
proof cases
  case (wf_scalar t)
  then show thesis by (intro scalar [of t]) (auto simp: scalar_wf_def)
qed (use object array in blast)+

lemma getitem_Some [simp]: "dict_get S k = Some v \<Longrightarrow> getitem S k = Inr v"
  by (simp add: getitem_def)

lemma validate_object:
  assumes "dict_get S ''type'' = Some (VStr ''object'')"
      "dict_get S ''properties'' = Some (VMap props)" "dict_get S ''required'' = Some (VTuple names)" "depth \<le> 64"
  shows "validate S v path depth =
     rbind (as_map (ParameterError (path @ '': expected object with string keys'')) v) (\<lambda>fields.
     rbind (ensure (list_all (\<lambda>kv. is_str (fst kv)) fields)
              (ParameterError (path @ '': expected object with string keys''))) (\<lambda>_.
     rbind (ensure (list_all (\<lambda>kv. key_in props (fst kv)) fields)
              (ParameterError (path @ '': unexpected or missing fields''))) (\<lambda>_.
     rbind (ensure (list_all (key_in fields) names)
              (ParameterError (path @ '': unexpected or missing fields''))) (\<lambda>_.
     for_each (\<lambda>nc.
       case map_of fields (fst nc) of
         None \<Rightarrow> Inr ()
       | Some x \<Rightarrow>
           rbind (as_map TypeError (snd nc)) (\<lambda>child.
           validate child x (path @ ''.'' @ key_text (fst nc)) (Suc depth))) props))))"
  by (subst validate.simps) (simp add: assms as_map_def as_tuple_def)

lemma validate_array:
  assumes "dict_get S ''type'' = Some (VStr ''array'')" "dict_get S ''items'' = Some (VMap child)" "depth \<le> 64"
  shows "validate S v path depth =
     rbind (as_sequence (ParameterError (path @ '': expected array'')) v) (\<lambda>xs.
       for_each (\<lambda>x. validate child x (path @ ''[]'') (Suc depth)) xs)"
  by (subst validate.simps) (simp add: assms as_map_def)

lemma validate_scalar_schema:
  assumes "dict_get S ''type'' = Some (VStr t)" "t \<notin> {''object'', ''array''}" "depth \<le> 64"
  shows "validate S v path depth = validate_scalar S t v path"
  using assms by (subst validate.simps) (simp add: key_text_def)

lemma validate_deep: "\<not> depth \<le> 64 \<Longrightarrow>
   validate S v path depth = Inl (ParameterError ''parameters exceed supported nesting depth'')"
  by (subst validate.simps) simp


inductive_simps conforms_iff: "conforms n S v"

lemma conforms_object_iff:
  assumes "dict_get S ''type'' = Some (VStr ''object'')"
      "dict_get S ''properties'' = Some (VMap props)" "dict_get S ''required'' = Some (VTuple names)"
  shows "conforms n S v \<longleftrightarrow> (\<exists>fields. v = VMap fields \<and> (\<forall>k \<in> fst ` set fields. is_str k \<and> key_in props k)
     \<and> (\<forall>m \<in> set names. key_in fields m)
     \<and> (\<forall>k c x. (k, VMap c) \<in> set props \<longrightarrow> map_of fields k = Some x \<longrightarrow> (\<exists>m. n = Suc m \<and> conforms m c x)))"
  by (subst conforms_iff) (simp add: assms)

lemma conforms_array_iff:
  assumes "dict_get S ''type'' = Some (VStr ''array'')" "dict_get S ''items'' = Some (VMap c)"
  shows "conforms n S v \<longleftrightarrow> (\<exists>xs. (v = VList xs \<or> v = VTuple xs)
     \<and> (\<forall>x \<in> set xs. \<exists>m. n = Suc m \<and> conforms m c x))"
  by (subst conforms_iff) (simp add: assms Ball_def)

lemma conforms_scalar_iff:
  assumes "dict_get S ''type'' = Some (VStr t)" "t \<notin> {''object'', ''array''}"
  shows "conforms n S v \<longleftrightarrow> scalar_conforms S t v"
  using assms by (subst conforms_iff) auto

lemma child_depth: "(\<exists>m. 64 - d = Suc m \<and> P m) \<longleftrightarrow> Suc d \<le> 64 \<and> P (64 - Suc d)" if "d \<le> 64" for d :: nat
proof -
  have "64 - d = Suc m \<longleftrightarrow> Suc d \<le> 64 \<and> m = 64 - Suc d" for m using that by arith
  then show ?thesis by simp
qed

lemma wf_schema_scalar_wf:
  assumes "wf_schema S" "dict_get S ''type'' = Some (VStr t)" "t \<notin> {''object'', ''array''}"
  shows "scalar_wf S t"
  using assms by (cases rule: wf_schema_cases) auto

lemma validate_iff_conforms:
  "wf_schema S \<Longrightarrow> validate S v path d = Inr () \<longleftrightarrow> d \<le> 64 \<and> conforms (64 - d) S v"
proof (induction S arbitrary: v path d rule: wf_schema.induct)
  case (wf_object S props names)
  show ?case
  proof (cases "d \<le> 64")
    case True
    note eq = validate_object [OF wf_object.hyps(1-3) True]
    have step: "(case map_of fields (fst nc) of None \<Rightarrow> Inr () | Some x \<Rightarrow>
             rbind (as_map TypeError (snd nc)) (\<lambda>child.
             validate child x (path @ ''.'' @ key_text (fst nc)) (Suc d))) = Inr () \<longleftrightarrow>
          (\<forall>c x. snd nc = VMap c \<longrightarrow> map_of fields (fst nc) = Some x \<longrightarrow> (\<exists>m. 64 - d = Suc m \<and> conforms m c x))"
      if "nc \<in> set props" for nc fields
    proof -
      obtain k c where nc: "nc = (k, c)" by (rule prod.exhaust)
      with that obtain child where c: "c = VMap child"
        and IH: "\<And>v path d. validate child v path d = Inr () \<longleftrightarrow> d \<le> 64 \<and> conforms (64 - d) child v"
        using wf_object.IH [of k c] by blast
      show ?thesis
        by (cases "map_of fields k") (simp_all add: nc c as_map_def IH child_depth [OF True])
    qed
    show ?thesis
      unfolding conforms_object_iff [OF wf_object.hyps(1-3)] eq
      using True by (cases v) (auto simp: rbind_eq_Inr for_each_eq_Inr step list_all_iff as_map_def)
  next
    case False
    then show ?thesis by (simp add: validate_deep)
  qed
next
  case (wf_array S child)
  show ?case
  proof (cases "d \<le> 64")
    case True
    show ?thesis
      unfolding conforms_array_iff [OF wf_array.hyps(1,2)] validate_array [OF wf_array.hyps(1,2) True]
      using True by (auto simp: rbind_eq_Inr for_each_eq_Inr wf_array.IH child_depth)
  next
    case False
    then show ?thesis by (simp add: validate_deep)
  qed
next
  case (wf_scalar S t)
  then have t: "t \<notin> {''object'', ''array''}" by auto
  have wf: "wf_schema S" by (rule wf_schema.wf_scalar) (fact wf_scalar)+
  show ?case
  proof (cases "d \<le> 64")
    case True
    show ?thesis
      unfolding conforms_scalar_iff [OF wf_scalar.hyps(1) t] validate_scalar_schema [OF wf_scalar.hyps(1) t True]
        validate_scalar_eq [OF wf_schema_scalar_wf [OF wf wf_scalar.hyps(1) t]] scalar_conforms_alt
      using True by (simp add: rbind_eq_Inr)
  next
    case False
    then show ?thesis by (simp add: validate_deep)
  qed
qed


section \<open>Messages never carry input values\<close>

text \<open>The messages a schema can give rise to at a path; no parameter value occurs.\<close>

inductive message_of :: "dict \<Rightarrow> string \<Rightarrow> string \<Rightarrow> bool" where
  m_depth: "message_of S path ''parameters exceed supported nesting depth''"
| m_object: "message_of S path (path @ '': expected object with string keys'')"
| m_fields: "message_of S path (path @ '': unexpected or missing fields'')"
| m_array: "message_of S path (path @ '': expected array'')"
| m_kind: "dict_get S ''type'' = Some (VStr t) \<Longrightarrow> message_of S path (path @ '': expected finite '' @ t)"
| m_choices: "message_of S path (path @ '': value outside allowed choices'')"
| m_range: "message_of S path (path @ '': value outside allowed range'')"
| m_length: "message_of S path (path @ '': text outside allowed length'')"
| m_property: "dict_get S ''properties'' = Some (VMap props) \<Longrightarrow> (k, VMap c) \<in> set props \<Longrightarrow>
     message_of c (path @ ''.'' @ key_text k) m \<Longrightarrow> message_of S path m"
| m_item: "dict_get S ''items'' = Some (VMap c) \<Longrightarrow> message_of c (path @ ''[]'') m \<Longrightarrow> message_of S path m"

lemma deep_message:
  assumes "\<not> d \<le> 64" "validate S v path d = Inl e"
  shows "\<exists>m. e = ParameterError m \<and> message_of S path m"
proof -
  have "(Inl e :: unit res) = Inl (ParameterError ''parameters exceed supported nesting depth'')"
    using assms(2) [symmetric] validate_deep [OF assms(1), of S v path] by (rule trans)
  then have "e = ParameterError ''parameters exceed supported nesting depth''" by (simp only: sum.inject)
  then show ?thesis using m_depth [of S path] by (intro exI conjI)
qed

lemma validate_error_message:
  "wf_schema S \<Longrightarrow> validate S v path d = Inl e \<Longrightarrow> \<exists>m. e = ParameterError m \<and> message_of S path m"
proof (induction S arbitrary: v path d rule: wf_schema.induct)
  case (wf_object S props names)
  show ?case
  proof (cases "d \<le> 64")
    case True
    have child: "\<exists>m. e = ParameterError m \<and> message_of S path m"
      if "for_each (\<lambda>nc. case map_of fields (fst nc) of None \<Rightarrow> Inr () | Some x \<Rightarrow>
             rbind (as_map TypeError (snd nc)) (\<lambda>child.
             validate child x (path @ ''.'' @ key_text (fst nc)) (Suc d))) props = Inl e" for fields
    proof -
      from for_each_eq_Inl [OF that] obtain k c x where kc: "(k, c) \<in> set props"
        and err: "rbind (as_map TypeError c) (\<lambda>child. validate child x (path @ ''.'' @ key_text k) (Suc d)) = Inl e"
        by (auto split: option.splits)
      from wf_object.IH [OF kc] obtain ch where c: "c = VMap ch"
        and IH: "validate ch x (path @ ''.'' @ key_text k) (Suc d) = Inl e \<Longrightarrow>
          \<exists>m. e = ParameterError m \<and> message_of ch (path @ ''.'' @ key_text k) m"
        by (elim conjE exE) simp
      with err obtain m where "e = ParameterError m" "message_of ch (path @ ''.'' @ key_text k) m"
        by (auto simp: as_map_def)
      then show ?thesis using m_property [OF wf_object.hyps(2)] kc c by blast
    qed
    from wf_object.prems show ?thesis
      unfolding validate_object [OF wf_object.hyps(1-3) True]
      by (cases v) (auto simp: rbind_eq_Inl as_map_def dest!: child intro: message_of.intros)
  next
    case False
    then show ?thesis by (rule deep_message) (rule wf_object.prems)
  qed
next
  case (wf_array S child)
  show ?case
  proof (cases "d \<le> 64")
    case True
    have child: "\<exists>m. e = ParameterError m \<and> message_of S path m"
      if "for_each (\<lambda>x. validate child x (path @ ''[]'') (Suc d)) xs = Inl e" for xs
    proof -
      from for_each_eq_Inl [OF that] obtain x where "validate child x (path @ ''[]'') (Suc d) = Inl e" ..
      from wf_array.IH [OF this] obtain m where "e = ParameterError m" "message_of child (path @ ''[]'') m"
        by (elim exE conjE)
      from this(1) m_item [OF wf_array.hyps(2) this(2)] show ?thesis by (intro exI conjI)
    qed
    from wf_array.prems show ?thesis
      unfolding validate_array [OF wf_array.hyps(1,2) True]
      by (cases v) (auto simp: rbind_eq_Inl as_sequence_def dest!: child intro: message_of.intros)
  next
    case False
    then show ?thesis by (rule deep_message) (rule wf_array.prems)
  qed
next
  case (wf_scalar S t)
  then have t: "t \<notin> {''object'', ''array''}" by auto
  have wf: "wf_schema S" by (rule wf_schema.wf_scalar) (fact wf_scalar)+
  show ?case
  proof (cases "d \<le> 64")
    case True
    from wf_scalar.prems show ?thesis
      unfolding validate_scalar_schema [OF wf_scalar.hyps(1) t True]
        validate_scalar_eq [OF wf_schema_scalar_wf [OF wf wf_scalar.hyps(1) t]]
      by (auto simp: rbind_eq_Inl intro: message_of.intros m_kind [OF wf_scalar.hyps(1), simplified])
  next
    case False
    then show ?thesis by (rule deep_message) (rule wf_scalar.prems)
  qed
qed


section \<open>Accepted parameters are returned frozen\<close>

text \<open>A Python mapping never holds the same key twice.\<close>

fun wf_val :: "pyval \<Rightarrow> bool" where
  "wf_val (VMap m) \<longleftrightarrow> distinct (map fst m) \<and> list_all (\<lambda>kv. wf_val (snd kv)) m"
| "wf_val (VList vs) \<longleftrightarrow> list_all wf_val vs"
| "wf_val (VTuple vs) \<longleftrightarrow> list_all wf_val vs"
| "wf_val _ = True"

lemma rmap_total: "(\<And>x. x \<in> set xs \<Longrightarrow> \<exists>y. f x = Inr y) \<Longrightarrow> \<exists>ys. rmap f xs = Inr ys"
proof (induction xs)
  case (Cons x xs)
  from Cons.prems [of x] obtain y where "f x = Inr y" by auto
  moreover from Cons obtain ys where "rmap f xs = Inr ys" by auto
  ultimately show ?case by simp
qed simp

lemma freeze_scalar_value: "scalar_type_ok t v \<Longrightarrow> freeze_value v = Inr v"
  by (cases v) (auto simp: scalar_type_ok_def)

lemma conforming_value_freezes:
  "wf_schema S \<Longrightarrow> conforms n S v \<Longrightarrow> wf_val v \<Longrightarrow> \<exists>w. freeze_value v = Inr w"
proof (induction S arbitrary: n v rule: wf_schema.induct)
  case (wf_object S props names)
  from wf_object.prems(1) obtain fields where v: "v = VMap fields"
    and keys: "\<forall>k \<in> fst ` set fields. is_str k \<and> key_in props k"
    and sub: "\<forall>k c x. (k, VMap c) \<in> set props \<longrightarrow> map_of fields k = Some x \<longrightarrow> (\<exists>m. n = Suc m \<and> conforms m c x)"
    unfolding conforms_object_iff [OF wf_object.hyps(1-3)] by blast
  have "\<exists>y. rbind (ensure (is_str (fst kv)) TypeError)
       (\<lambda>_. rbind (freeze_value (snd kv)) (\<lambda>v. Inr (fst kv, v))) = Inr y" (is "\<exists>y. ?f kv = Inr y") if kv: "kv \<in> set fields" for kv
  proof -
    have k: "is_str (fst kv)" "key_in props (fst kv)" using keys kv by auto
    then obtain c where c: "(fst kv, c) \<in> set props" by (auto simp: key_in_def)
    have x: "map_of fields (fst kv) = Some (snd kv)"
      using wf_object.prems(2) kv v by (cases kv) simp
    from wf_object.IH [OF c] obtain ch where ch: "c = VMap ch"
      and IH: "\<And>n v. conforms n ch v \<Longrightarrow> wf_val v \<Longrightarrow> \<exists>w. freeze_value v = Inr w"
      by (elim conjE exE) simp
    from sub [rule_format, OF c [unfolded ch] x] obtain m where "conforms m ch (snd kv)" by (elim exE conjE)
    moreover have "wf_val (snd kv)" using wf_object.prems(2) kv v by (auto simp: list_all_iff)
    ultimately obtain w where "freeze_value (snd kv) = Inr w" using IH by blast
    with k show ?thesis by simp
  qed
  from rmap_total [where xs = fields and f = ?f, OF this] obtain ws where "rmap (\<lambda>kv. rbind (ensure (is_str (fst kv)) TypeError)
       (\<lambda>_. rbind (freeze_value (snd kv)) (\<lambda>v. Inr (fst kv, v)))) fields = Inr ws" by blast
  then show ?case by (simp add: v)
next
  case (wf_array S child)
  from wf_array.prems(1) obtain xs where v: "v = VList xs \<or> v = VTuple xs"
    and sub: "\<forall>x \<in> set xs. \<exists>m. n = Suc m \<and> conforms m child x"
    unfolding conforms_array_iff [OF wf_array.hyps(1,2)] by blast
  have "\<exists>y. freeze_value x = Inr y" if "x \<in> set xs" for x
    using sub that wf_array.IH wf_array.prems(2) v by (auto simp: list_all_iff)
  from rmap_total [where xs = xs and f = freeze_value, OF this] obtain ws where "rmap freeze_value xs = Inr ws" by blast
  then show ?case using v by auto
next
  case (wf_scalar S t)
  from wf_scalar.hyps(2) have t: "t \<notin> {''object'', ''array''}" by auto
  with wf_scalar.prems(1) have "scalar_type_ok t v"
    unfolding conforms_scalar_iff [OF wf_scalar.hyps(1) t] by (simp add: scalar_conforms_alt)
  then show ?case using freeze_scalar_value by blast
qed

lemma validate_parameters_iff:
  assumes "wf_schema S" "dict_get S ''type'' = Some (VStr ''object'')" "wf_val p"
  shows "validate_parameters S p = Inr m \<longleftrightarrow> conforms 64 S p \<and> freeze_value p = Inr (VMap m)"
    and "(\<exists>m. validate_parameters S p = Inr m) \<longleftrightarrow> conforms 64 S p"
proof -
  have v: "validate S p ''parameters'' 0 = Inr () \<longleftrightarrow> conforms 64 S p"
    using validate_iff_conforms [OF assms(1), of p "''parameters''" 0] by simp
  show a: "validate_parameters S p = Inr m \<longleftrightarrow> conforms 64 S p \<and> freeze_value p = Inr (VMap m)" for m
    by (auto simp: validate_parameters_def rbind_eq_Inr v freeze_json_eq_freeze_value)
  have "\<exists>m. freeze_value p = Inr (VMap m)" if c: "conforms 64 S p"
  proof -
    from c obtain fields where "p = VMap fields"
      using assms(2) by (cases rule: conforms.cases) auto
    moreover obtain w where "freeze_value p = Inr w"
      using conforming_value_freezes [OF assms(1) c assms(3)] by blast
    ultimately show ?thesis by (auto simp: rbind_eq_Inr)
  qed
  then show "(\<exists>m. validate_parameters S p = Inr m) \<longleftrightarrow> conforms 64 S p" unfolding a by blast
qed

section \<open>Properties\<close>

text \<open>A declared input schema that is accepted comes back well-formed (an object
  has property schemas that are themselves well-formed and its required names are declared
  properties, an array has a well-formed item schema, a scalar has a tuple of choices and
  numeric bounds only where its type admits them), and the frozen schema passes the same
  freezing again and comes back unchanged.\<close>

theorem frozen_schema_sound:
  assumes "freeze_input_schema v = Inr S"
  shows "wf_schema S \<and> freeze_input_schema (VMap S) = Inr S"
  using freeze_input_schema_wf [OF assms] freeze_input_schema_idem [OF assms] by (rule conjI)

definition example_schema :: pyval where
  "example_schema = VMap [(VStr ''type'', VStr ''object''),
     (VStr ''properties'', VMap [(VStr ''n'', VMap [(VStr ''type'', VStr ''integer''), (VStr ''minimum'', VInt 1)])]),
     (VStr ''required'', VList [VStr ''n''])]"

definition example_frozen :: dict where
  "example_frozen = [(VStr ''type'', VStr ''object''),
     (VStr ''properties'', VMap [(VStr ''n'', VMap [(VStr ''type'', VStr ''integer''), (VStr ''minimum'', VInt 1)])]),
     (VStr ''required'', VTuple [VStr ''n'']), (VStr ''additionalProperties'', VBool False)]"

lemma example_schema_freezes: "freeze_input_schema example_schema = Inr example_frozen"
  by code_simp

theorem frozen_schema_sound_witness:
  "wf_schema example_frozen \<and> freeze_input_schema (VMap example_frozen) = Inr example_frozen"
  by (rule frozen_schema_sound [OF example_schema_freezes])

text \<open>C39: Validation of parameters against a frozen object schema accepts exactly the
  parameters that conform to the schema within the supported nesting depth, and returns
  their deep immutable copy, the same one \<open>_freeze_value\<close> makes.\<close>

theorem validate_parameters_correct:
  assumes "freeze_input_schema v = Inr S" "dict_get S ''type'' = Some (VStr ''object'')" "wf_val p"
  shows "((\<exists>m. validate_parameters S p = Inr m) \<longleftrightarrow> conforms 64 S p)
    \<and> (validate_parameters S p = Inr m \<longleftrightarrow> conforms 64 S p \<and> freeze_value p = Inr (VMap m))"
  using validate_parameters_iff [OF freeze_input_schema_wf [OF assms(1)] assms(2,3)] by (intro conjI)

theorem validate_parameters_correct_witness:
  "conforms 64 example_frozen (VMap [(VStr ''n'', VInt 2)]) \<and> \<not> conforms 64 example_frozen (VMap [(VStr ''n'', VInt 0)])"
proof -
  have o: "dict_get example_frozen ''type'' = Some (VStr ''object'')" by code_simp
  have a: "validate_parameters example_frozen (VMap [(VStr ''n'', VInt 2)]) = Inr [(VStr ''n'', VInt 2)]" by code_simp
  have b: "validate_parameters example_frozen (VMap [(VStr ''n'', VInt 0)])
      = Inl (ParameterError ''parameters.n: value outside allowed range'')" by code_simp
  have wf: "wf_val (VMap [(VStr ''n'', VInt i)])" for i by simp
  note iff = validate_parameters_correct [OF example_schema_freezes o wf, THEN conjunct1]
  from iff [of 2] iff [of 0] show ?thesis by (simp only: a b sum.distinct not_ex sum.inject) simp
qed

text \<open>Whatever the parameters, validation against a frozen schema fails only with a
  parameter error, and its message is assembled from the path of declared property names
  and fixed phrases: no parameter value reaches it.\<close>

theorem validate_reports_schema_only:
  assumes "freeze_input_schema v = Inr S" "validate S p path d = Inl e"
  shows "\<exists>m. e = ParameterError m \<and> message_of S path m"
  by (rule validate_error_message [OF freeze_input_schema_wf [OF assms(1)] assms(2)])

theorem validate_reports_schema_only_witness:
  "\<exists>m. ParameterError ''parameters.n: value outside allowed range'' = ParameterError m
      \<and> message_of example_frozen ''parameters'' m"
proof (rule validate_reports_schema_only [OF example_schema_freezes])
  show "validate example_frozen (VMap [(VStr ''n'', VInt 0)]) ''parameters'' 0
      = Inl (ParameterError ''parameters.n: value outside allowed range'')" by code_simp
qed

text \<open>The two freezing routines of the contracts agree on every value, and a frozen
  value is a fixed point of both.\<close>

theorem freeze_routines_agree:
  "freeze_json v = freeze_value v \<and> (freeze_value v = Inr w \<longrightarrow> freeze_json w = Inr w)"
  using freeze_json_eq_freeze_value freeze_value_idem by simp

theorem freeze_routines_agree_witness:
  "freeze_json (VTuple [VInt 1]) = Inr (VTuple [VInt 1])"
  using freeze_routines_agree [of "VList [VInt 1]" "VTuple [VInt 1]"] by simp

text \<open>An integer beyond the range of a double in the choices of a \<open>number\<close> schema
  makes freezing end in an \<open>OverflowError\<close>, which is not one of the declared schema
  errors.\<close>

theorem number_enum_overflow:
  "freeze_input_schema (VMap [(VStr ''type'', VStr ''number''), (VStr ''enum'', VList [VInt (2 ^ 1024)])])
     = Inl OverflowError"
  by code_simp

end
