(* ===== verification/Text.thy ===== *)
theory Text
  imports Prelude
begin

text \<open>
  Text operations of the language that the declarations and identifiers rely on: regular
  expressions with \<open>re.fullmatch\<close>, \<open>str.split\<close>, \<open>str.rsplit\<close>, \<open>str.count\<close>,
  \<open>str.casefold\<close>, \<open>str.isidentifier\<close> and the identifier patterns of the contracts.
  Characters are the 256 code points of \<^typ>\<open>char\<close>.
\<close>

section \<open>Regular expressions\<close>

text \<open>The patterns of the source only use classes, sequence, alternatives and repetition.\<close>

datatype regex = Never | Eps | Cls "(nat \<times> nat) list" | Seq regex regex | Alt regex regex | Star regex

definition in_class :: "(nat \<times> nat) list \<Rightarrow> char \<Rightarrow> bool" where
  "in_class cs c \<longleftrightarrow> list_ex (\<lambda>(lo, hi). lo \<le> of_char c \<and> of_char c \<le> hi) cs"

fun nullable :: "regex \<Rightarrow> bool" where
  "nullable Never = False"
| "nullable Eps = True"
| "nullable (Cls cs) = False"
| "nullable (Seq r s) = (nullable r \<and> nullable s)"
| "nullable (Alt r s) = (nullable r \<or> nullable s)"
| "nullable (Star r) = True"

text \<open>Sequence and alternative with dead branches removed.\<close>

fun mk_seq :: "regex \<Rightarrow> regex \<Rightarrow> regex" where
  "mk_seq Never s = Never"
| "mk_seq Eps s = s"
| "mk_seq r s = Seq r s"

definition mk_alt :: "regex \<Rightarrow> regex \<Rightarrow> regex" where
  "mk_alt r s = (if r = Never then s else if s = Never then r else Alt r s)"

fun deriv :: "char \<Rightarrow> regex \<Rightarrow> regex" where
  "deriv c Never = Never"
| "deriv c Eps = Never"
| "deriv c (Cls cs) = (if in_class cs c then Eps else Never)"
| "deriv c (Seq r s) =
     (if nullable r then mk_alt (mk_seq (deriv c r) s) (deriv c s) else mk_seq (deriv c r) s)"
| "deriv c (Alt r s) = mk_alt (deriv c r) (deriv c s)"
| "deriv c (Star r) = mk_seq (deriv c r) (Star r)"

fun fullmatch :: "regex \<Rightarrow> string \<Rightarrow> bool" where
  "fullmatch r [] = nullable r"
| "fullmatch r (c # cs) = fullmatch (deriv c r) cs"

inductive in_lang :: "regex \<Rightarrow> string \<Rightarrow> bool" where
  eps: "in_lang Eps []"
| cls: "in_class cs c \<Longrightarrow> in_lang (Cls cs) [c]"
| seq: "in_lang r x \<Longrightarrow> in_lang s y \<Longrightarrow> in_lang (Seq r s) (x @ y)"
| altl: "in_lang r x \<Longrightarrow> in_lang (Alt r s) x"
| altr: "in_lang s x \<Longrightarrow> in_lang (Alt r s) x"
| star0: "in_lang (Star r) []"
| star1: "in_lang r x \<Longrightarrow> in_lang (Star r) y \<Longrightarrow> in_lang (Star r) (x @ y)"

inductive_simps in_lang_Never [simp]: "in_lang Never s"
inductive_simps in_lang_Eps [simp]: "in_lang Eps s"
inductive_simps in_lang_Cls [simp]: "in_lang (Cls cs) s"
inductive_simps in_lang_Seq: "in_lang (Seq r q) s"
inductive_simps in_lang_Alt [simp]: "in_lang (Alt r q) s"

lemma in_lang_mk_seq [simp]: "in_lang (mk_seq r q) s \<longleftrightarrow> in_lang (Seq r q) s"
  by (cases r) (auto simp: in_lang_Seq)

lemma in_lang_mk_alt [simp]: "in_lang (mk_alt r q) s \<longleftrightarrow> in_lang r s \<or> in_lang q s"
  by (auto simp: mk_alt_def)

lemma in_lang_star_Cons:
  "in_lang q z \<Longrightarrow> q = Star r \<Longrightarrow> z = c # s \<Longrightarrow> \<exists>x y. s = x @ y \<and> in_lang r (c # x) \<and> in_lang (Star r) y"
proof (induction q z arbitrary: s rule: in_lang.induct)
  case (star1 r' x y)
  then show ?case
  proof (cases x)
    case (Cons a x')
    with star1 show ?thesis by auto
  qed simp
qed auto

lemma nullable_iff: "nullable r \<longleftrightarrow> in_lang r []"
  by (induction r) (auto simp: in_lang_Seq intro: in_lang.intros)

lemma deriv_iff: "in_lang (deriv c r) s \<longleftrightarrow> in_lang r (c # s)"
proof (induction r arbitrary: s)
  case (Seq r1 r2)
  then show ?case
    by (auto simp: in_lang_Seq nullable_iff Cons_eq_append_conv)
next
  case (Star r)
  show ?case
  proof
    assume "in_lang (deriv c (Star r)) s"
    then obtain x y where "s = x @ y" "in_lang r (c # x)" "in_lang (Star r) y"
      by (auto simp: in_lang_Seq Star)
    then show "in_lang (Star r) (c # s)" using in_lang.star1 [of r "c # x" y] by simp
  next
    assume "in_lang (Star r) (c # s)"
    from in_lang_star_Cons [OF this refl refl] show "in_lang (deriv c (Star r)) s"
      by (auto simp: in_lang_Seq Star)
  qed
qed auto

lemma fullmatch_iff: "fullmatch r s \<longleftrightarrow> in_lang r s"
  by (induction s arbitrary: r) (simp_all add: nullable_iff deriv_iff)

text \<open>The characters a pattern can match.\<close>

fun letter :: "regex \<Rightarrow> char \<Rightarrow> bool" where
  "letter (Cls cs) c = in_class cs c"
| "letter (Seq r s) c = (letter r c \<or> letter s c)"
| "letter (Alt r s) c = (letter r c \<or> letter s c)"
| "letter (Star r) c = letter r c"
| "letter _ c = False"

lemma in_lang_letters: "in_lang r s \<Longrightarrow> c \<in> set s \<Longrightarrow> letter r c"
  by (induction rule: in_lang.induct) auto

text \<open>Derived forms: \<open>r?\<close>, \<open>r+\<close>, \<open>r{m,n}\<close>, a literal character.\<close>

definition opt :: "regex \<Rightarrow> regex" where "opt r = Alt r Eps"

definition plus :: "regex \<Rightarrow> regex" where "plus r = Seq r (Star r)"

fun upto_times :: "nat \<Rightarrow> regex \<Rightarrow> regex" where
  "upto_times 0 r = Eps"
| "upto_times (Suc n) r = Alt Eps (Seq r (upto_times n r))"

fun times :: "nat \<Rightarrow> regex \<Rightarrow> regex" where
  "times 0 r = Eps"
| "times (Suc n) r = Seq r (times n r)"

definition between :: "nat \<Rightarrow> nat \<Rightarrow> regex \<Rightarrow> regex" where
  "between m n r = Seq (times m r) (upto_times (n - m) r)"

definition lit :: "char \<Rightarrow> regex" where
  "lit c = Cls [(of_char c, of_char c)]"

lemma in_class_lit [simp]: "in_class [(of_char a, of_char a)] c \<longleftrightarrow> c = a"
  by (auto simp: in_class_def dest: order_antisym)

section \<open>Splitting and joining\<close>

text \<open>\<open>s.split(sep)\<close> for a one-character separator.\<close>

fun split_on :: "char \<Rightarrow> string \<Rightarrow> string list" where
  "split_on sep [] = [[]]"
| "split_on sep (c # cs) =
     (if c = sep then [] # split_on sep cs
      else case split_on sep cs of [] \<Rightarrow> [[c]] | w # ws \<Rightarrow> (c # w) # ws)"

text \<open>\<open>s.split(sep, 1)[0]\<close> and \<open>s.rsplit(sep, 1)[-1]\<close>.\<close>

definition before_first :: "char \<Rightarrow> string \<Rightarrow> string" where
  "before_first sep s = takeWhile (\<lambda>c. c \<noteq> sep) s"

definition after_last :: "char \<Rightarrow> string \<Rightarrow> string" where
  "after_last sep s = rev (takeWhile (\<lambda>c. c \<noteq> sep) (rev s))"

definition occurrences :: "char \<Rightarrow> string \<Rightarrow> nat" where
  "occurrences c s = length (filter (\<lambda>d. d = c) s)"

definition starts_with :: "string \<Rightarrow> string \<Rightarrow> bool" where
  "starts_with p s \<longleftrightarrow> take (length p) s = p"

definition ends_with :: "string \<Rightarrow> string \<Rightarrow> bool" where
  "ends_with p s \<longleftrightarrow> starts_with (rev p) (rev s)"

text \<open>\<open>s != s.strip()\<close>: a white space character at either end.\<close>

definition stripped :: "string \<Rightarrow> bool" where
  "stripped s \<longleftrightarrow> s = [] \<or> (\<not> is_space (hd s) \<and> \<not> is_space (last s))"

lemma split_on_not_Nil [simp]: "split_on sep s \<noteq> []"
  by (induction s) (auto split: list.splits)

lemma split_on_single: "sep \<notin> set s \<Longrightarrow> split_on sep s = [s]"
  by (induction s) auto

lemma split_on_append: "sep \<notin> set s \<Longrightarrow> split_on sep (s @ sep # t) = s # split_on sep t"
  by (induction s) auto

lemma before_first_append: "sep \<notin> set s \<Longrightarrow> before_first sep (s @ sep # t) = s"
  by (induction s) (auto simp: before_first_def)

lemma starts_with_iff: "starts_with p s \<longleftrightarrow> (\<exists>t. s = p @ t)"
  unfolding starts_with_def by (metis append_eq_conv_conj append_take_drop_id)

lemma ends_with_iff: "ends_with p s \<longleftrightarrow> (\<exists>t. s = t @ p)"
proof -
  have "(\<exists>t. rev s = rev p @ t) \<longleftrightarrow> (\<exists>t. s = t @ p)"
    by (metis rev_append rev_rev_ident)
  then show ?thesis by (simp add: ends_with_def starts_with_iff)
qed

section \<open>Character properties\<close>

text \<open>
  \<open>casefold\<close> and \<open>upper\<close> on the ASCII letters: the code applies them to page resource
  paths and display locales, whose patterns admit no other letters.
\<close>

definition fold_char :: "char \<Rightarrow> char" where
  "fold_char c = (let n = (of_char c :: nat) in if 65 \<le> n \<and> n \<le> 90 then char_of (n + 32) else c)"

definition casefold :: "string \<Rightarrow> string" where
  "casefold s = map fold_char s"

definition upper_char :: "char \<Rightarrow> char" where
  "upper_char c = (let n = (of_char c :: nat) in if 97 \<le> n \<and> n \<le> 122 then char_of (n - 32) else c)"

definition upper :: "string \<Rightarrow> string" where
  "upper s = map upper_char s"

text \<open>\<open>unicodedata.category(c) in {"Cc", "Cf", "Cs"}\<close>: the control characters and the soft hyphen.\<close>

definition unprintable :: "char \<Rightarrow> bool" where
  "unprintable c \<longleftrightarrow> in_class [(0, 31), (127, 159), (173, 173)] c"

text \<open>\<open>str.isidentifier\<close>.\<close>

definition id_start :: "(nat \<times> nat) list" where
  "id_start = [(65, 90), (95, 95), (97, 122), (170, 170), (181, 181), (186, 186),
     (192, 214), (216, 246), (248, 255)]"

definition id_continue :: "(nat \<times> nat) list" where
  "id_continue = id_start @ [(48, 57), (183, 183)]"

definition isidentifier :: "string \<Rightarrow> bool" where
  "isidentifier s \<longleftrightarrow> fullmatch (Seq (Cls id_start) (Star (Cls id_continue))) s"

section \<open>Identifiers of the contracts\<close>

text \<open>\<open>[a-z][a-z0-9_]*(?:[.-][a-z0-9_]+)*\<close>\<close>

definition word_class :: regex where
  "word_class = Cls [(97, 122), (48, 57), (95, 95)]"

definition IDENTIFIER :: regex where
  "IDENTIFIER = Seq (Cls [(97, 122)]) (Seq (Star word_class)
     (Star (Seq (Cls [(46, 46), (45, 45)]) (plus word_class))))"

text \<open>\<open>[0-9]+\.[0-9]+\.[0-9]+(?:[-+][0-9A-Za-z.-]+)?\<close>\<close>

definition VERSION :: regex where
  "VERSION = (let num = plus (Cls [(48, 57)]); dot = lit (CHR ''.'') in
     Seq num (Seq dot (Seq num (Seq dot (Seq num
       (opt (Seq (Cls [(45, 45), (43, 43)]) (plus (Cls [(48, 57), (65, 90), (97, 122), (46, 46), (45, 45)])))))))))"

definition GLOBAL_MODULE_ID :: regex where
  "GLOBAL_MODULE_ID = Seq IDENTIFIER (Seq (lit (CHR ''/'')) IDENTIFIER)"

definition is_identifier :: "string \<Rightarrow> bool" where
  "is_identifier s \<longleftrightarrow> fullmatch IDENTIFIER s"

lemma IDENTIFIER_letter: "letter IDENTIFIER c \<Longrightarrow> c \<noteq> CHR ''/'' \<and> \<not> is_space c"
  by (auto simp: IDENTIFIER_def word_class_def plus_def in_class_def is_space_def)

lemma identifier_char: "is_identifier s \<Longrightarrow> c \<in> set s \<Longrightarrow> c \<noteq> CHR ''/'' \<and> \<not> is_space c"
  unfolding is_identifier_def fullmatch_iff by (rule IDENTIFIER_letter) (rule in_lang_letters)

lemma identifier_no_slash: "is_identifier s \<Longrightarrow> CHR ''/'' \<notin> set s"
  using identifier_char by blast

lemma identifier_not_Nil: "is_identifier s \<Longrightarrow> s \<noteq> []"
  by (auto simp: is_identifier_def IDENTIFIER_def)

text \<open>A package-qualified identifier determines its package and its module.\<close>

definition global_id :: "string \<Rightarrow> string \<Rightarrow> string" where
  "global_id package_id module_id = package_id @ ''/'' @ module_id"

lemma global_id_package: "is_identifier p \<Longrightarrow> before_first (CHR ''/'') (global_id p m) = p"
  by (simp add: global_id_def before_first_append identifier_no_slash)

lemma global_id_inject:
  assumes "is_identifier p" "is_identifier p'"
  shows "global_id p m = global_id p' m' \<longleftrightarrow> p = p' \<and> m = m'"
proof
  assume q: "global_id p m = global_id p' m'"
  then have "p = p'" using global_id_package [OF assms(1), of m] global_id_package [OF assms(2), of m'] by simp
  with q show "p = p' \<and> m = m'" by (simp add: global_id_def)
qed simp

end
