(* ===== verification/Manifests.thy ===== *)
theory Manifests
  imports Schema_Correct Text
begin

text \<open>
  Static declarations of an extension package: the descriptors of
  \<open>yomihime_game_link_sdk/declarations.py\<close>, their checks in
  \<open>core/contracts/manifests.py\<close>, the traversal that applies the checks to a whole
  manifest (\<open>core/contracts/validation_boundary.py\<close>) and the invocation policies of
  \<open>core/policy.py\<close> that read the declarations.

  Fields have the types the declarations give them, so the \<open>isinstance\<close> tests of the
  checks hold by typing; schema and default values stay dynamically typed.  A check that
  replaces a field by its frozen form returns the updated descriptor.  The descriptors of
  schedules, subscriptions, sources, collections and diagnostics carry the fields the
  manifest check and the admission gate read; their own checks are not part of this theory.
\<close>

section \<open>Declarations\<close>

datatype invocation_origin = COMMAND | WEB_PUBLIC | LLM_TOOL | SCHEDULER | SUBSCRIPTION | ADMIN | JOB

datatype invocation_policy = COMMAND_ONLY | COMMAND_AND_PUBLIC_WEB | NATURAL_LANGUAGE_ALLOWED

datatype capability_effect = READ_ONLY | WRITE

datatype privacy_floor = PUBLIC | PRIVATE | OWNER

datatype module_category = GAME | PLATFORM

datatype schedule_trigger = PERIODIC | BACKGROUND | ON_DEMAND

text \<open>A dependency is a module-local name or a \<open>CapabilityReference\<close>.\<close>

datatype capability_dependency = LocalCapability string | CapabilityReference string string

record capability_descriptor =
  cap_id :: string
  input_schema :: dict
  policy_of :: invocation_policy
  effect :: capability_effect
  output_version :: string
  privacy :: privacy_floor
  required_config :: "string list"
  required_sources :: "string list"
  required_capabilities :: "capability_dependency list"
  invocation_origins :: "invocation_origin list option"

record command_descriptor =
  operation_path :: string
  cmd_capability :: string
  cmd_mapping :: "(string \<times> string) list"
  help_text :: string
  parameter_mode :: string
  raw_tail_parameter :: "string option"

record page_resource =
  res_path :: string
  sha256 :: string

record page_descriptor =
  route_id :: string
  title :: string
  entry :: string
  order :: int
  page_access :: string
  page_capability :: "string option"
  styles :: "string list"
  page_role :: string
  page_config_fields :: "string list"
  page_credential_fields :: "string list"

record tool_descriptor =
  tool_name :: string
  tool_capability :: string
  tool_mapping :: "(string \<times> string) list"
  tool_description :: string
  tool_action :: "string option"

record module_display =
  default_name :: string
  localized_names :: "(string \<times> string) list"
  short_name :: "string option"
  logo_resource :: "string option"
  summary :: "string option"

record config_field =
  cfg_name :: string
  sensitive :: bool
  cfg_required :: bool
  cfg_default :: pyval
  cfg_description :: string
  value_schema :: "dict option"
  cfg_group :: "string option"

datatype ownership_kind = PublicKind | UserKind | AuthorizedKind

record schedule_descriptor =
  sched_collector :: string
  sched_version :: int
  sched_source :: string
  shared_scope :: ownership_kind
  sched_trigger :: schedule_trigger

record job_descriptor =
  job_name :: string
  parameter_schema :: dict
  timeout_seconds :: int
  max_active_per_owner :: int

record subscription_descriptor =
  type_id :: string
  sub_collector :: string
  matcher_id :: string
  enabled_config_key :: "string option"

record module_manifest =
  local_id :: string
  route :: string
  category :: module_category
  factory_entry :: string
  module_version :: string
  capabilities :: "capability_descriptor list"
  commands :: "command_descriptor list"
  tools :: "tool_descriptor list"
  schedules :: "schedule_descriptor list"
  subscriptions :: "subscription_descriptor list"
  config_fields :: "config_field list"
  source_ids :: "string list"
  collection_names :: "string list"
  pages :: "page_descriptor list"
  resources :: "page_resource list"
  display :: "module_display option"
  diagnostic_events :: "string list"
  jobs :: "job_descriptor list"
  model_tool_name :: "string option"
  model_tool_description :: "string option"

record package_manifest =
  package_id :: string
  package_version :: string
  contract_version :: string
  modules :: "module_manifest list"
  author :: string
  license :: string
  pkg_source :: string
  display_name :: "string option"
  module_order :: "string list option"

text \<open>\<open>CapabilityDescriptor.effective_origins\<close>.\<close>

fun policy_origins :: "invocation_policy \<Rightarrow> invocation_origin list" where
  "policy_origins COMMAND_ONLY = [COMMAND]"
| "policy_origins COMMAND_AND_PUBLIC_WEB = [COMMAND, WEB_PUBLIC]"
| "policy_origins NATURAL_LANGUAGE_ALLOWED = [COMMAND, LLM_TOOL]"

definition effective_origins :: "capability_descriptor \<Rightarrow> invocation_origin list" where
  "effective_origins c =
     (case invocation_origins c of Some os \<Rightarrow> os | None \<Rightarrow> policy_origins (policy_of c))"

text \<open>\<open>PackageManifest.global_module_id\<close>.\<close>

definition global_module_id :: "package_manifest \<Rightarrow> string \<Rightarrow> string res" where
  "global_module_id p m =
     (if m \<in> local_id ` set (modules p) then Inr (global_id (package_id p) m) else Inl ValueError)"

section \<open>Field checks\<close>

definition require_identifier :: "string \<Rightarrow> unit res" where
  "require_identifier s = ensure (is_identifier s) ValueError"

definition global_module_identifier :: "string \<Rightarrow> unit res" where
  "global_module_identifier s =
     rbind (ensure (occurrences (CHR ''/'') s = 1) ValueError) (\<lambda>_.
     for_each require_identifier (split_on (CHR ''/'') s))"

definition nonblank_text :: "string \<Rightarrow> unit res" where
  "nonblank_text s = ensure (\<not> blank s) ValueError"

definition semantic_version :: "string \<Rightarrow> unit res" where
  "semantic_version s = ensure (fullmatch VERSION s) ValueError"

definition unique :: "'a list \<Rightarrow> unit res" where
  "unique xs = ensure (distinct xs) ValueError"

definition optional :: "('a \<Rightarrow> unit res) \<Rightarrow> 'a option \<Rightarrow> unit res" where
  "optional f x = (case x of None \<Rightarrow> Inr () | Some a \<Rightarrow> f a)"

definition control_char :: "char \<Rightarrow> bool" where
  "control_char c \<longleftrightarrow> is_space c \<or> (of_char c :: nat) < 32"

definition field_name :: "string \<Rightarrow> unit res" where
  "field_name s = rbind (ensure (s \<noteq> [] \<and> length s \<le> 128) ValueError) (\<lambda>_.
     ensure (\<not> list_ex control_char s) ValueError)"

text \<open>\<open>_frozen_mapping\<close> of a mapping of text to text, followed by the test that no value is empty.\<close>

definition parameter_mapping_ok :: "(string \<times> string) list \<Rightarrow> unit res" where
  "parameter_mapping_ok m =
     rbind (for_each (\<lambda>(k, _). field_name k) m) (\<lambda>_.
     ensure (list_all (\<lambda>(_, v). v \<noteq> []) m) ValueError)"

definition identifier_tuple :: "string list \<Rightarrow> unit res" where
  "identifier_tuple xs = rbind (for_each require_identifier xs) (\<lambda>_. unique xs)"

definition dependency_ok :: "capability_dependency \<Rightarrow> unit res" where
  "dependency_ok d = (case d of
     CapabilityReference m c \<Rightarrow>
       reraise (\<lambda>e. e \<in> {AttributeError, TypeError, ValueError}) ValueError
         (rbind (global_module_identifier m) (\<lambda>_. require_identifier c))
   | LocalCapability c \<Rightarrow> require_identifier c)"

text \<open>\<open>_capability_dependency_tuple\<close>: the loop with its set of keys already seen.\<close>

fun dependency_tuple :: "capability_dependency list \<Rightarrow> capability_dependency list \<Rightarrow> unit res" where
  "dependency_tuple seen [] = Inr ()"
| "dependency_tuple seen (d # ds) =
     rbind (dependency_ok d) (\<lambda>_.
     rbind (ensure (d \<notin> set seen) ValueError) (\<lambda>_.
     dependency_tuple (d # seen) ds))"

definition route_ok :: "string \<Rightarrow> unit res" where
  "route_ok s = rbind (require_identifier s) (\<lambda>_. ensure (s \<noteq> ''help'') ValueError)"

definition operation_path_ok :: "string \<Rightarrow> unit res" where
  "operation_path_ok s =
     rbind (ensure (s \<noteq> [] \<and> stripped s \<and> CHR ''/'' \<notin> set s) ValueError) (\<lambda>_.
     let parts = split_on (CHR '' '') s in
     rbind (ensure (list_all (\<lambda>p. p \<noteq> [] \<and> \<not> list_ex control_char p) parts) ValueError) (\<lambda>_.
     ensure (''help'' \<notin> set parts) ValueError))"

definition entry_point :: "string \<Rightarrow> unit res" where
  "entry_point s =
     rbind (ensure (occurrences (CHR '':'') s = 1) ValueError) (\<lambda>_.
     case split_on (CHR '':'') s of
       [m, a] \<Rightarrow>
         rbind (ensure (m \<noteq> [] \<and> a \<noteq> [] \<and> list_all isidentifier (split_on (CHR ''.'') m)) ValueError) (\<lambda>_.
         ensure (isidentifier a) ValueError)
     | _ \<Rightarrow> Inl ValueError)"

definition plain_name :: "nat \<Rightarrow> string \<Rightarrow> unit res" where
  "plain_name limit s =
     ensure (\<not> blank s \<and> length s \<le> limit \<and> \<not> list_ex unprintable s) ValueError"

section \<open>Descriptor checks\<close>

definition CONTRACT_VERSION :: string where "CONTRACT_VERSION = ''1.8.0''"

definition MODULE_ABI_VERSION :: string where "MODULE_ABI_VERSION = ''2.0''"

text \<open>The block on \<open>invocation_origins\<close>.\<close>

definition origins_ok :: "capability_descriptor \<Rightarrow> unit res" where
  "origins_ok c = (case invocation_origins c of
     None \<Rightarrow> Inr ()
   | Some os \<Rightarrow>
       rbind (ensure (os \<noteq> [] \<and> list_all (\<lambda>x. x \<in> {COMMAND, WEB_PUBLIC, LLM_TOOL}) os
                \<and> distinct os \<and> COMMAND \<in> set os) ValueError) (\<lambda>_.
       rbind (ensure (length os \<le> 1 \<or> (privacy c = PUBLIC \<and> effect c = READ_ONLY)) ValueError) (\<lambda>_.
       ensure (set (policy_origins (policy_of c)) \<subseteq> set os) ValueError)))"

definition check_CapabilityDescriptor :: "capability_descriptor \<Rightarrow> capability_descriptor res" where
  "check_CapabilityDescriptor c =
     rbind (require_identifier (cap_id c)) (\<lambda>_.
     rbind (origins_ok c) (\<lambda>_.
     rbind (ensure (privacy c \<in> {PRIVATE, OWNER} \<longrightarrow> policy_of c = COMMAND_ONLY) ValueError) (\<lambda>_.
     rbind (ensure (policy_of c = COMMAND_AND_PUBLIC_WEB \<longrightarrow>
                      privacy c = PUBLIC \<and> effect c = READ_ONLY) ValueError) (\<lambda>_.
     rbind (ensure (output_version c = CONTRACT_VERSION) ValueError) (\<lambda>_.
     rbind (freeze_input_schema (VMap (input_schema c))) (\<lambda>frozen.
     rbind (ensure (dict_get frozen ''type'' = Some (VStr ''object'')) ValueError) (\<lambda>_.
     rbind (identifier_tuple (required_config c)) (\<lambda>_.
     rbind (identifier_tuple (required_sources c)) (\<lambda>_.
     rbind (dependency_tuple [] (required_capabilities c)) (\<lambda>_.
     Inr (c\<lparr>input_schema := frozen\<rparr>)))))))))))"

definition check_CommandDescriptor :: "command_descriptor \<Rightarrow> unit res" where
  "check_CommandDescriptor c =
     rbind (operation_path_ok (operation_path c)) (\<lambda>_.
     rbind (require_identifier (cmd_capability c)) (\<lambda>_.
     rbind (nonblank_text (help_text c)) (\<lambda>_.
     rbind (parameter_mapping_ok (cmd_mapping c)) (\<lambda>_.
     rbind (ensure (parameter_mode c \<in> {''structured'', ''raw_tail''}) ValueError) (\<lambda>_.
     if parameter_mode c = ''structured'' then ensure (raw_tail_parameter c = None) ValueError
     else case raw_tail_parameter c of
        None \<Rightarrow> Inl ValueError
      | Some p \<Rightarrow> rbind (require_identifier p) (\<lambda>_. ensure (cmd_mapping c = []) ValueError))))))"

definition resource_extensions :: "string list" where
  "resource_extensions = [''js'', ''css'', ''svg'', ''png'', ''jpg'', ''jpeg'', ''webp'', ''woff'', ''woff2'']"

definition reserved_names :: "string list" where
  "reserved_names = [''CON'', ''PRN'', ''AUX'', ''NUL'']
     @ map (\<lambda>d. ''COM'' @ [d]) ''123456789'' @ map (\<lambda>d. ''LPT'' @ [d]) ''123456789''"

text \<open>\<open>[A-Za-z0-9_-][A-Za-z0-9_.-]*\<close>\<close>

definition PATH_PART :: regex where
  "PATH_PART = Seq (Cls [(65, 90), (97, 122), (48, 57), (95, 95), (45, 45)])
     (Star (Cls [(65, 90), (97, 122), (48, 57), (95, 95), (46, 46), (45, 45)]))"

definition validate_page_resource_path :: "string \<Rightarrow> unit res" where
  "validate_page_resource_path s =
     rbind (ensure (length s \<le> 240) ValueError) (\<lambda>_.
     let parts = split_on (CHR ''/'') s in
     rbind (ensure (list_all (\<lambda>p. p \<noteq> [] \<and> \<not> ends_with ''.'' p \<and> p \<notin> {''.'', ''..''}
              \<and> fullmatch PATH_PART p) parts) ValueError) (\<lambda>_.
     rbind (ensure (after_last (CHR ''.'') s \<in> set resource_extensions) ValueError) (\<lambda>_.
     ensure (list_all (\<lambda>p. upper (before_first (CHR ''.'') p) \<notin> set reserved_names) parts) ValueError)))"

definition check_PageResource :: "page_resource \<Rightarrow> unit res" where
  "check_PageResource r =
     rbind (validate_page_resource_path (res_path r)) (\<lambda>_.
     ensure (fullmatch (times 64 (Cls [(48, 57), (97, 102)])) (sha256 r)) ValueError)"

definition page_names_ok :: "string list \<Rightarrow> unit res" where
  "page_names_ok names =
     rbind (ensure (length names \<le> 128 \<and> distinct names) ValueError) (\<lambda>_. for_each require_identifier names)"

definition check_PageDescriptor :: "page_descriptor \<Rightarrow> unit res" where
  "check_PageDescriptor p =
     rbind (ensure (page_role p \<in> {''home'', ''config'', ''aux''}) ValueError) (\<lambda>_.
     rbind (for_each page_names_ok [page_config_fields p, page_credential_fields p]) (\<lambda>_.
     rbind (ensure (set (page_config_fields p) \<inter> set (page_credential_fields p) = {}) ValueError) (\<lambda>_.
     rbind (require_identifier (route_id p)) (\<lambda>_.
     rbind (nonblank_text (title p)) (\<lambda>_.
     rbind (validate_page_resource_path (entry p)) (\<lambda>_.
     rbind (ensure (ends_with ''.js'' (entry p)) ValueError) (\<lambda>_.
     rbind (ensure (-10000 \<le> order p \<and> order p \<le> 10000) ValueError) (\<lambda>_.
     rbind (ensure (page_access p = ''public_web'') ValueError) (\<lambda>_.
     rbind (optional require_identifier (page_capability p)) (\<lambda>_.
     rbind (for_each (\<lambda>s. rbind (validate_page_resource_path s) (\<lambda>_.
              ensure (ends_with ''.css'' s) ValueError)) (styles p)) (\<lambda>_.
     unique (styles p))))))))))))"

definition check_ToolDescriptor :: "tool_descriptor \<Rightarrow> unit res" where
  "check_ToolDescriptor t =
     rbind (require_identifier (tool_name t)) (\<lambda>_.
     rbind (require_identifier (tool_capability t)) (\<lambda>_.
     rbind (nonblank_text (tool_description t)) (\<lambda>_.
     rbind (parameter_mapping_ok (tool_mapping t)) (\<lambda>_.
     optional require_identifier (tool_action t)))))"

text \<open>The display locale pattern.\<close>

definition LOCALE :: regex where
  "LOCALE = (let alpha = Cls [(65, 90), (97, 122)]; digit = Cls [(48, 57)];
       alnum = Cls [(65, 90), (97, 122), (48, 57)]; dash = lit (CHR ''-'') in
     Seq (between 2 8 alpha) (Seq (opt (Seq dash (times 4 alpha)))
       (Seq (opt (Seq dash (Alt (times 2 alpha) (times 3 digit))))
         (upto_times 4 (Seq dash (Alt (between 5 8 alnum) (Seq digit (times 3 alnum))))))))"

fun locales_ok :: "string list \<Rightarrow> (string \<times> string) list \<Rightarrow> unit res" where
  "locales_ok folded [] = Inr ()"
| "locales_ok folded ((loc, name) # rest) =
     rbind (ensure (fullmatch LOCALE loc) ValueError) (\<lambda>_.
     let key = casefold loc in
     rbind (ensure (key \<notin> set folded \<and> distinct (split_on (CHR ''-'') key)) ValueError) (\<lambda>_.
     rbind (plain_name 128 name) (\<lambda>_.
     locales_ok (key # folded) rest)))"

definition check_ModuleDisplay :: "module_display \<Rightarrow> unit res" where
  "check_ModuleDisplay d =
     rbind (optional (plain_name 160) (summary d)) (\<lambda>_.
     rbind (optional (\<lambda>l. rbind (validate_page_resource_path l) (\<lambda>_.
              ensure (after_last (CHR ''.'') l \<in> {''svg'', ''png'', ''jpg'', ''jpeg''}) ValueError))
            (logo_resource d)) (\<lambda>_.
     rbind (plain_name 128 (default_name d)) (\<lambda>_.
     rbind (optional (plain_name 32) (short_name d)) (\<lambda>_.
     rbind (ensure (length (localized_names d) \<le> 16) ValueError) (\<lambda>_.
     locales_ok [] (localized_names d))))))"

text \<open>\<open>check_ConfigField\<close> with \<open>ConfigField_validate_value\<close>.\<close>

definition check_ConfigField :: "config_field \<Rightarrow> config_field res" where
  "check_ConfigField f =
     rbind (field_name (cfg_name f)) (\<lambda>_.
     rbind (optional require_identifier (cfg_group f)) (\<lambda>_.
     rbind (ensure (sensitive f \<longrightarrow> cfg_default f = VNone) ValueError) (\<lambda>_.
     rbind (if cfg_default f = VNone then Inr VNone else freeze_json (cfg_default f)) (\<lambda>def.
     rbind (if cfg_description f = [] then Inr () else nonblank_text (cfg_description f)) (\<lambda>_.
     case value_schema f of
       None \<Rightarrow> Inr (f\<lparr>cfg_default := def\<rparr>)
     | Some sch \<Rightarrow>
         rbind (ensure (\<not> sensitive f) ValueError) (\<lambda>_.
         rbind (freeze_input_schema (VMap sch)) (\<lambda>frozen.
         rbind (if def = VNone then Inr () else validate frozen def ''config'' 0) (\<lambda>_.
         Inr (f\<lparr>cfg_default := def, value_schema := Some frozen\<rparr>)))))))))"

text \<open>\<open>check_JobDescriptor\<close> with the identifier check of the job contracts.\<close>

definition job_identifier :: "string \<Rightarrow> unit res" where
  "job_identifier s = ensure (is_identifier s \<and> length s \<le> 128) ValueError"

definition check_JobDescriptor :: "job_descriptor \<Rightarrow> job_descriptor res" where
  "check_JobDescriptor j =
     rbind (job_identifier (job_name j)) (\<lambda>_.
     rbind (freeze_input_schema (VMap (parameter_schema j))) (\<lambda>frozen.
     rbind (ensure (1 \<le> timeout_seconds j \<and> timeout_seconds j \<le> 3600) ValueError) (\<lambda>_.
     rbind (ensure (1 \<le> max_active_per_owner j \<and> max_active_per_owner j \<le> 4) ValueError) (\<lambda>_.
     Inr (j\<lparr>parameter_schema := frozen\<rparr>)))))"

section \<open>Module and package checks\<close>

text \<open>\<open>{item.capability_id: item for item in self.capabilities}\<close>.\<close>

definition capability_index :: "module_manifest \<Rightarrow> string \<Rightarrow> capability_descriptor option" where
  "capability_index m = map_of (rev (map (\<lambda>c. (cap_id c, c)) (capabilities m)))"

definition schema_properties :: "dict \<Rightarrow> dict res" where
  "schema_properties s = rbind (getitem s ''properties'') (as_map ValueError)"

definition schema_required :: "dict \<Rightarrow> pyval list res" where
  "schema_required s = rbind (getitem s ''required'') (as_tuple ValueError)"

definition validate_parameter_mapping :: "(string \<times> string) list \<Rightarrow> capability_descriptor \<Rightarrow> unit res" where
  "validate_parameter_mapping m c =
     rbind (schema_properties (input_schema c)) (\<lambda>props.
     rbind (schema_required (input_schema c)) (\<lambda>required.
     let targets = map snd m in
     rbind (ensure (distinct targets) ValueError) (\<lambda>_.
     rbind (ensure (list_all (\<lambda>t. key_in props (VStr t)) targets) ValueError) (\<lambda>_.
     ensure (set required \<subseteq> VStr ` set targets) ValueError))))"

text \<open>The publication of model tools.\<close>

definition model_tool_ok :: "module_manifest \<Rightarrow> unit res" where
  "model_tool_ok m =
     rbind (ensure ((model_tool_name m = None) = (model_tool_description m = None)) ValueError) (\<lambda>_.
     case (model_tool_name m, model_tool_description m) of
       (Some n, Some d) \<Rightarrow>
         rbind (require_identifier n) (\<lambda>_.
         rbind (nonblank_text d) (\<lambda>_.
         rbind (ensure (tools m \<noteq> [] \<and> list_all (\<lambda>t. tool_action t \<noteq> None) (tools m)) ValueError) (\<lambda>_.
         rbind (unique (map tool_action (tools m))) (\<lambda>_.
         ensure (n \<notin> tool_name ` set (tools m)) ValueError))))
     | _ \<Rightarrow> ensure (list_all (\<lambda>t. tool_action t = None) (tools m)) ValueError)"

definition page_fields_ok :: "module_manifest \<Rightarrow> page_descriptor \<Rightarrow> bool" where
  "page_fields_ok m p \<longleftrightarrow>
     (let declared = map_of (rev (map (\<lambda>f. (cfg_name f, sensitive f)) (config_fields m))) in
      list_all (\<lambda>n. n = ''reply_theme'' \<or> declared n = Some False) (page_config_fields p)
      \<and> list_all (\<lambda>n. declared n = Some True) (page_credential_fields p))"

definition pages_ok :: "module_manifest \<Rightarrow> unit res" where
  "pages_ok m =
     rbind (ensure (length (pages m) \<le> 128 \<and> length (resources m) \<le> 128) ValueError) (\<lambda>_.
     rbind (for_each (\<lambda>r. ensure (length (filter (\<lambda>p. page_role p = r) (pages m)) \<le> 1) ValueError)
              [''home'', ''config'']) (\<lambda>_.
     rbind (unique (map route_id (pages m))) (\<lambda>_.
     rbind (unique (map (\<lambda>r. casefold (res_path r)) (resources m))) (\<lambda>_.
     rbind (case display m of
              Some d \<Rightarrow> (case logo_resource d of
                  Some l \<Rightarrow> ensure (l \<in> res_path ` set (resources m)) ValueError | None \<Rightarrow> Inr ())
            | None \<Rightarrow> Inr ()) (\<lambda>_.
     for_each (\<lambda>p.
       rbind (ensure (list_all (\<lambda>f. f \<in> res_path ` set (resources m)) (entry p # styles p)) ValueError) (\<lambda>_.
       ensure (page_fields_ok m p) ValueError)) (pages m))))))"

definition gate_field_ok :: "module_manifest \<Rightarrow> string \<Rightarrow> bool" where
  "gate_field_ok m key = (case find (\<lambda>f. cfg_name f = key) (config_fields m) of
     None \<Rightarrow> False
   | Some f \<Rightarrow> \<not> sensitive f \<and> cfg_default f = VBool True
       \<and> (case value_schema f of None \<Rightarrow> False | Some s \<Rightarrow> dict_get s ''type'' = Some (VStr ''boolean'')))"

definition subscription_gates_ok :: "module_manifest \<Rightarrow> unit res" where
  "subscription_gates_ok m =
     (let keys = remdups (map enabled_config_key (subscriptions m)) in
      rbind (ensure (length keys \<le> 1) ValueError) (\<lambda>_.
      for_each (\<lambda>k. case k of None \<Rightarrow> Inr () | Some key \<Rightarrow> ensure (gate_field_ok m key) ValueError) keys))"

definition collectors_ok :: "module_manifest \<Rightarrow> unit res" where
  "collectors_ok m =
     rbind (ensure (list_all (\<lambda>s. sub_collector s \<in> sched_collector ` set (schedules m)) (subscriptions m)) ValueError) (\<lambda>_.
     ensure (\<not> list_ex (\<lambda>s. sub_collector s \<in> sched_collector `
              set (filter (\<lambda>d. sched_trigger d = BACKGROUND) (schedules m))) (subscriptions m)) ValueError)"

definition command_target_ok :: "module_manifest \<Rightarrow> command_descriptor \<Rightarrow> unit res" where
  "command_target_ok m c = (case capability_index m (cmd_capability c) of
     None \<Rightarrow> Inl ValueError
   | Some cap \<Rightarrow>
       if parameter_mode c = ''raw_tail'' then
         rbind (schema_properties (input_schema cap)) (\<lambda>props.
         rbind (ensure (case raw_tail_parameter c of None \<Rightarrow> False | Some p \<Rightarrow>
                  (case map_of props (VStr p) of
                     Some (VMap field) \<Rightarrow> dict_get field ''type'' = Some (VStr ''string'')
                   | _ \<Rightarrow> False)) ValueError) (\<lambda>_.
         rbind (schema_required (input_schema cap)) (\<lambda>required.
         ensure (set required \<subseteq> VStr ` set_option (raw_tail_parameter c)) ValueError)))
       else validate_parameter_mapping (cmd_mapping c) cap)"

definition page_target_ok :: "module_manifest \<Rightarrow> page_descriptor \<Rightarrow> unit res" where
  "page_target_ok m p = (case page_capability p of
     None \<Rightarrow> Inr ()
   | Some cid \<Rightarrow> (case capability_index m cid of
       None \<Rightarrow> Inl ValueError
     | Some cap \<Rightarrow> ensure (WEB_PUBLIC \<in> set (effective_origins cap)) ValueError))"

definition tool_target_ok :: "module_manifest \<Rightarrow> tool_descriptor \<Rightarrow> unit res" where
  "tool_target_ok m t = (case capability_index m (tool_capability t) of
     None \<Rightarrow> Inl ValueError
   | Some cap \<Rightarrow>
       rbind (ensure (privacy cap \<notin> {PRIVATE, OWNER}) ValueError) (\<lambda>_.
       rbind (ensure (LLM_TOOL \<in> set (effective_origins cap)) ValueError) (\<lambda>_.
       rbind (ensure (effect cap \<noteq> WRITE) ValueError) (\<lambda>_.
       validate_parameter_mapping (tool_mapping t) cap))))"

definition check_ModuleManifest :: "module_manifest \<Rightarrow> unit res" where
  "check_ModuleManifest m =
     rbind (ensure (length (jobs m) \<le> 16) ValueError) (\<lambda>_.
     rbind (unique (map job_name (jobs m))) (\<lambda>_.
     rbind (require_identifier (local_id m)) (\<lambda>_.
     rbind (route_ok (route m)) (\<lambda>_.
     rbind (entry_point (factory_entry m)) (\<lambda>_.
     rbind (semantic_version (module_version m)) (\<lambda>_.
     rbind (ensure (length (diagnostic_events m) \<le> 32) ValueError) (\<lambda>_.
     rbind (unique (diagnostic_events m)) (\<lambda>_.
     rbind (model_tool_ok m) (\<lambda>_.
     rbind (pages_ok m) (\<lambda>_.
     rbind (subscription_gates_ok m) (\<lambda>_.
     rbind (unique (map cap_id (capabilities m))) (\<lambda>_.
     rbind (unique (map operation_path (commands m))) (\<lambda>_.
     rbind (unique (map tool_name (tools m))) (\<lambda>_.
     rbind (unique (map sched_collector (schedules m))) (\<lambda>_.
     rbind (unique (map type_id (subscriptions m))) (\<lambda>_.
     rbind (unique (map cfg_name (config_fields m))) (\<lambda>_.
     rbind (unique (source_ids m)) (\<lambda>_.
     rbind (unique (collection_names m)) (\<lambda>_.
     rbind (collectors_ok m) (\<lambda>_.
     rbind (for_each (command_target_ok m) (commands m)) (\<lambda>_.
     rbind (for_each (page_target_ok m) (pages m)) (\<lambda>_.
     for_each (tool_target_ok m) (tools m)))))))))))))))))))))))"

definition normalize_package_display_name :: "string option \<Rightarrow> string option res" where
  "normalize_package_display_name n = (case n of
     None \<Rightarrow> Inr None
   | Some s \<Rightarrow>
       if length s > 128 \<or> list_ex unprintable s then Inl ValueError
       else Inr (if blank s then None else Some s))"

definition module_order_ok :: "package_manifest \<Rightarrow> string list \<Rightarrow> unit res" where
  "module_order_ok p ord =
     rbind (ensure (length ord \<le> length (modules p)) ValueError) (\<lambda>_.
     rbind (for_each (\<lambda>i. rbind (require_identifier i) (\<lambda>_.
              ensure (i \<in> local_id ` set (modules p)) ValueError)) ord) (\<lambda>_.
     unique ord))"

definition check_PackageManifest :: "package_manifest \<Rightarrow> package_manifest res" where
  "check_PackageManifest p =
     rbind (require_identifier (package_id p)) (\<lambda>_.
     rbind (semantic_version (package_version p)) (\<lambda>_.
     rbind (ensure (contract_version p = MODULE_ABI_VERSION) ValueError) (\<lambda>_.
     rbind (nonblank_text (author p)) (\<lambda>_.
     rbind (nonblank_text (license p)) (\<lambda>_.
     rbind (nonblank_text (pkg_source p)) (\<lambda>_.
     rbind (normalize_package_display_name (display_name p)) (\<lambda>name.
     rbind (unique (map local_id (modules p))) (\<lambda>_.
     let ord = (case module_order p of None \<Rightarrow> [] | Some xs \<Rightarrow> xs);
         legacy_names = concat (map (\<lambda>m. map tool_name (tools m)) (modules p));
         model_names = concat (map (\<lambda>m. case model_tool_name m of None \<Rightarrow> [] | Some n \<Rightarrow> [n]) (modules p)) in
     rbind (module_order_ok p ord) (\<lambda>_.
     rbind (unique (map route (modules p))) (\<lambda>_.
     rbind (unique (concat (map (\<lambda>m. map (\<lambda>r. casefold (res_path r)) (resources m)) (modules p)))) (\<lambda>_.
     rbind (unique (concat (map (\<lambda>m. map (\<lambda>c. route m @ [CHR 0x00] @ operation_path c) (commands m)) (modules p)))) (\<lambda>_.
     rbind (unique legacy_names) (\<lambda>_.
     rbind (unique (legacy_names @ model_names)) (\<lambda>_.
     Inr (p\<lparr>display_name := name, module_order := Some ord\<rparr>)))))))))))))))"

section \<open>The receiving boundary\<close>

text \<open>
  \<open>validate_contract\<close> visits the fields of a declaration before it applies the
  declaration's own check, and rejects nesting beyond depth 64.  The dynamically typed
  fields (schemas, defaults) are visited value by value.
\<close>

function (sequential) visit :: "nat \<Rightarrow> pyval \<Rightarrow> unit res" where
  "visit depth v =
     (if depth > 64 then Inl ValueError
      else case v of
        VMap kvs \<Rightarrow> for_each (\<lambda>kv. rbind (visit (Suc depth) (fst kv)) (\<lambda>_. visit (Suc depth) (snd kv))) kvs
      | VList vs \<Rightarrow> for_each (visit (Suc depth)) vs
      | VTuple vs \<Rightarrow> for_each (visit (Suc depth)) vs
      | _ \<Rightarrow> Inr ())"
  by pat_completeness auto
termination
  by (relation "measure (\<lambda>(depth, _). 65 - depth)") auto

declare visit.simps [simp del]

definition validate_capability :: "nat \<Rightarrow> capability_descriptor \<Rightarrow> capability_descriptor res" where
  "validate_capability depth c =
     rbind (visit (Suc depth) (VMap (input_schema c))) (\<lambda>_. check_CapabilityDescriptor c)"

definition validate_config_field :: "nat \<Rightarrow> config_field \<Rightarrow> config_field res" where
  "validate_config_field depth f =
     rbind (visit (Suc depth) (cfg_default f)) (\<lambda>_.
     rbind (case value_schema f of None \<Rightarrow> Inr () | Some s \<Rightarrow> visit (Suc depth) (VMap s)) (\<lambda>_.
     check_ConfigField f))"

definition validate_job :: "nat \<Rightarrow> job_descriptor \<Rightarrow> job_descriptor res" where
  "validate_job depth j =
     rbind (visit (Suc depth) (VMap (parameter_schema j))) (\<lambda>_. check_JobDescriptor j)"

text \<open>The contents of a module are visited in the order of its fields; its tuples lie one level below it.\<close>

definition validate_module :: "nat \<Rightarrow> module_manifest \<Rightarrow> module_manifest res" where
  "validate_module depth m =
     rbind (rmap (validate_capability (depth + 2)) (capabilities m)) (\<lambda>caps.
     rbind (for_each check_CommandDescriptor (commands m)) (\<lambda>_.
     rbind (for_each check_ToolDescriptor (tools m)) (\<lambda>_.
     rbind (rmap (validate_config_field (depth + 2)) (config_fields m)) (\<lambda>cfgs.
     rbind (for_each check_PageDescriptor (pages m)) (\<lambda>_.
     rbind (for_each check_PageResource (resources m)) (\<lambda>_.
     rbind (optional check_ModuleDisplay (display m)) (\<lambda>_.
     rbind (rmap (validate_job (depth + 2)) (jobs m)) (\<lambda>js.
     let m' = m\<lparr>capabilities := caps, config_fields := cfgs, jobs := js\<rparr> in
     rbind (check_ModuleManifest m') (\<lambda>_. Inr m')))))))))"

definition validate_package :: "package_manifest \<Rightarrow> package_manifest res" where
  "validate_package p =
     rbind (rmap (validate_module 2) (modules p)) (\<lambda>ms.
     check_PackageManifest (p\<lparr>modules := ms\<rparr>))"

section \<open>Invocation policy\<close>

definition origin_allowed :: "invocation_origin \<Rightarrow> invocation_origin \<Rightarrow> bool" where
  "origin_allowed actual expected \<longleftrightarrow> actual = expected"

definition supports_public_read_only :: "capability_descriptor \<Rightarrow> bool" where
  "supports_public_read_only c \<longleftrightarrow> privacy c = PUBLIC \<and> effect c = READ_ONLY"

definition tool_allowed :: "capability_descriptor \<Rightarrow> bool" where
  "tool_allowed c \<longleftrightarrow> supports_public_read_only c \<and> LLM_TOOL \<in> set (effective_origins c)"

definition public_web_allowed :: "string \<Rightarrow> capability_descriptor \<Rightarrow> (string \<times> string) set \<Rightarrow> bool" where
  "public_web_allowed module_id c deployment \<longleftrightarrow>
     supports_public_read_only c \<and> WEB_PUBLIC \<in> set (effective_origins c)
     \<and> (module_id, cap_id c) \<in> deployment"

section \<open>What an accepted manifest guarantees\<close>

lemma unique_eq_Inr [simp]: "unique xs = Inr u \<longleftrightarrow> distinct xs"
  by (simp add: unique_def)

lemma require_identifier_eq_Inr [simp]: "require_identifier s = Inr u \<longleftrightarrow> is_identifier s"
  by (simp add: require_identifier_def)

lemma capability_index_eq_Some: "capability_index m i = Some c \<Longrightarrow> c \<in> set (capabilities m) \<and> cap_id c = i"
  by (auto simp: capability_index_def dest!: map_of_SomeD)

text \<open>A capability whose check passed.\<close>

definition checked_capability :: "capability_descriptor \<Rightarrow> bool" where
  "checked_capability c \<longleftrightarrow> is_identifier (cap_id c) \<and> origins_ok c = Inr ()
     \<and> (privacy c \<in> {PRIVATE, OWNER} \<longrightarrow> policy_of c = COMMAND_ONLY)
     \<and> (policy_of c = COMMAND_AND_PUBLIC_WEB \<longrightarrow> privacy c = PUBLIC \<and> effect c = READ_ONLY)
     \<and> freeze_input_schema (VMap (input_schema c)) = Inr (input_schema c)
     \<and> dict_get (input_schema c) ''type'' = Some (VStr ''object'')"

lemma check_CapabilityDescriptor_checked:
  assumes "check_CapabilityDescriptor c = Inr c'"
  shows "checked_capability c'"
proof -
  from assms obtain frozen where c': "c' = c\<lparr>input_schema := frozen\<rparr>"
    and fr: "freeze_input_schema (VMap (input_schema c)) = Inr frozen"
    and ob: "dict_get frozen ''type'' = Some (VStr ''object'')"
    and i: "is_identifier (cap_id c)" and o: "origins_ok c = Inr ()"
    and p: "privacy c \<in> {PRIVATE, OWNER} \<longrightarrow> policy_of c = COMMAND_ONLY"
    and w: "policy_of c = COMMAND_AND_PUBLIC_WEB \<longrightarrow> privacy c = PUBLIC \<and> effect c = READ_ONLY"
    unfolding check_CapabilityDescriptor_def
    by (simp only: rbind_eq_Inr ensure_eq_Inr require_identifier_eq_Inr sum.inject)
      (elim exE conjE, hypsubst, rule that, (rule refl | assumption | simp)+)
  have "origins_ok c' = Inr ()" using o by (cases "invocation_origins c") (simp_all add: c' origins_ok_def)
  moreover have "input_schema c' = frozen" "cap_id c' = cap_id c" "privacy c' = privacy c"
    "policy_of c' = policy_of c" "effect c' = effect c" by (simp_all add: c')
  ultimately show ?thesis unfolding checked_capability_def
    using freeze_input_schema_idem [OF fr] ob i p w by (simp only: simp_thms)
qed

lemma checked_origins:
  assumes "checked_capability c"
  shows "privacy c \<noteq> PUBLIC \<Longrightarrow> set (effective_origins c) = {COMMAND}"
    and "WEB_PUBLIC \<in> set (effective_origins c) \<Longrightarrow> supports_public_read_only c"
    and "LLM_TOOL \<in> set (effective_origins c) \<Longrightarrow> privacy c = PUBLIC"
    and "COMMAND \<in> set (effective_origins c)"
proof -
  have single: "set os = {COMMAND}" if "COMMAND \<in> set os" "length os \<le> 1" for os
    using that by (cases os) auto
  show "privacy c \<noteq> PUBLIC \<Longrightarrow> set (effective_origins c) = {COMMAND}"
    using assms single
    by (cases "privacy c") (auto simp: checked_capability_def effective_origins_def origins_ok_def rbind_eq_Inr split: option.splits)
  show "WEB_PUBLIC \<in> set (effective_origins c) \<Longrightarrow> supports_public_read_only c"
    using assms single
    by (cases "policy_of c") (auto simp: checked_capability_def effective_origins_def origins_ok_def supports_public_read_only_def
        rbind_eq_Inr split: option.splits)
  show "LLM_TOOL \<in> set (effective_origins c) \<Longrightarrow> privacy c = PUBLIC"
    using assms single
    by (cases "privacy c") (auto simp: checked_capability_def effective_origins_def origins_ok_def rbind_eq_Inr split: option.splits)
  show "COMMAND \<in> set (effective_origins c)"
    using assms
    by (cases "policy_of c") (auto simp: checked_capability_def effective_origins_def origins_ok_def rbind_eq_Inr split: option.splits)
qed

lemma validate_capability_checked: "validate_capability d c = Inr c' \<Longrightarrow> checked_capability c'"
  unfolding validate_capability_def by (auto simp: rbind_eq_Inr dest: check_CapabilityDescriptor_checked)

text \<open>The parts of an accepted module that other components rely on.\<close>

definition checked_module :: "module_manifest \<Rightarrow> bool" where
  "checked_module m \<longleftrightarrow> is_identifier (local_id m)
     \<and> (\<forall>c \<in> set (capabilities m). checked_capability c)
     \<and> distinct (map cap_id (capabilities m)) \<and> distinct (map tool_name (tools m))
     \<and> for_each (command_target_ok m) (commands m) = Inr ()
     \<and> for_each (page_target_ok m) (pages m) = Inr ()
     \<and> for_each (tool_target_ok m) (tools m) = Inr ()"

lemma check_ModuleManifest_facts:
  assumes "check_ModuleManifest m = Inr u"
  shows "is_identifier (local_id m)" "distinct (map cap_id (capabilities m))" "distinct (map tool_name (tools m))"
    "for_each (command_target_ok m) (commands m) = Inr ()"
    "for_each (page_target_ok m) (pages m) = Inr ()" "for_each (tool_target_ok m) (tools m) = Inr ()"
  using assms unfolding check_ModuleManifest_def
  by (simp_all only: rbind_eq_Inr ensure_eq_Inr require_identifier_eq_Inr unique_eq_Inr) (elim exE conjE, simp)+

lemma validate_module_checked:
  assumes "validate_module d m = Inr m'"
  shows "checked_module m'" "local_id m' = local_id m" "route m' = route m" "tools m' = tools m"
    "model_tool_name m' = model_tool_name m" "schedules m' = schedules m" "subscriptions m' = subscriptions m"
    "map cap_id (capabilities m') = map cap_id (capabilities m)"
proof -
  from assms obtain caps cfgs js where caps: "rmap (validate_capability (d + 2)) (capabilities m) = Inr caps"
    and m': "m' = m\<lparr>capabilities := caps, config_fields := cfgs, jobs := js\<rparr>"
    and ok: "check_ModuleManifest m' = Inr ()"
    unfolding validate_module_def Let_def by (auto simp: rbind_eq_Inr)
  have rel: "list_all2 (\<lambda>c c'. validate_capability (d + 2) c = Inr c') (capabilities m) caps"
    using caps by (simp only: rmap_eq_Inr)
  have "\<forall>c \<in> set caps. checked_capability c"
    using list_all2_right [OF rel] validate_capability_checked by blast
  then show "checked_module m'"
    using check_ModuleManifest_facts [OF ok] by (simp add: checked_module_def m')
  show "local_id m' = local_id m" "route m' = route m" "tools m' = tools m"
    "model_tool_name m' = model_tool_name m" "schedules m' = schedules m" "subscriptions m' = subscriptions m"
    by (simp_all add: m')
  have "map cap_id caps = map cap_id (capabilities m)"
    using rel by (induction rule: list_all2_induct)
      (auto simp: validate_capability_def check_CapabilityDescriptor_def rbind_eq_Inr)
  then show "map cap_id (capabilities m') = map cap_id (capabilities m)" by (simp add: m')
qed

lemma check_PackageManifest_facts:
  assumes "check_PackageManifest p = Inr p'"
  shows "is_identifier (package_id p)" "distinct (map local_id (modules p))" "distinct (map route (modules p))"
    "distinct (concat (map (\<lambda>m. map tool_name (tools m)) (modules p)))"
    "package_id p' = package_id p" "modules p' = modules p"
  using assms unfolding check_PackageManifest_def Let_def
  by (simp_all only: rbind_eq_Inr ensure_eq_Inr require_identifier_eq_Inr unique_eq_Inr sum.inject)
    (elim exE conjE, hypsubst, simp)+

lemma validate_package_checked:
  assumes "validate_package p = Inr p'"
  shows "is_identifier (package_id p')" "distinct (map local_id (modules p'))" "distinct (map route (modules p'))"
    "distinct (concat (map (\<lambda>m. map tool_name (tools m)) (modules p')))"
    "\<forall>m \<in> set (modules p'). checked_module m" "package_id p' = package_id p"
proof -
  from assms obtain ms where ms: "rmap (validate_module 2) (modules p) = Inr ms"
    and p': "check_PackageManifest (p\<lparr>modules := ms\<rparr>) = Inr p'"
    unfolding validate_package_def by (auto simp: rbind_eq_Inr)
  note facts = check_PackageManifest_facts [OF p']
  from facts show "is_identifier (package_id p')" "distinct (map local_id (modules p'))" "distinct (map route (modules p'))"
    "distinct (concat (map (\<lambda>m. map tool_name (tools m)) (modules p')))" "package_id p' = package_id p"
    by simp_all
  show "\<forall>m \<in> set (modules p'). checked_module m"
    using facts(6) list_all2_right [OF ms [unfolded rmap_eq_Inr]] validate_module_checked(1) by fastforce
qed

lemma checked_tool_target:
  assumes m: "checked_module m" and t: "t \<in> set (tools m)"
  obtains c where "c \<in> set (capabilities m)" "cap_id c = tool_capability t" "tool_allowed c"
    "validate_parameter_mapping (tool_mapping t) c = Inr ()"
proof -
  from m have "tool_target_ok m t = Inr ()" using t by (simp add: checked_module_def for_each_eq_Inr)
  then obtain c where c: "capability_index m (tool_capability t) = Some c"
    and ok: "privacy c \<notin> {PRIVATE, OWNER}" "LLM_TOOL \<in> set (effective_origins c)" "effect c \<noteq> WRITE"
      "validate_parameter_mapping (tool_mapping t) c = Inr ()"
    by (auto simp: tool_target_ok_def rbind_eq_Inr split: option.splits)
  from capability_index_eq_Some [OF c] have in_m: "c \<in> set (capabilities m)" "cap_id c = tool_capability t" by auto
  with m have "checked_capability c" by (auto simp: checked_module_def)
  with ok have "tool_allowed c"
    by (cases "effect c") (auto simp: tool_allowed_def supports_public_read_only_def dest: checked_origins(3))
  from that [OF in_m this ok(4)] show thesis .
qed

section \<open>Properties\<close>

text \<open>C40: Every LLM tool of an accepted package reaches a capability that the same module
  declares, that is public and read-only and admits the LLM origin (so the gateway's
  \<open>tool_allowed\<close> holds for it), and the tool's parameter mapping is injective, targets
  declared fields only and covers every required field.\<close>

theorem accepted_tools_are_safe:
  assumes "validate_package p = Inr p'" "m \<in> set (modules p')" "t \<in> set (tools m)"
  shows "\<exists>c props required. c \<in> set (capabilities m) \<and> cap_id c = tool_capability t \<and> tool_allowed c
    \<and> dict_get (input_schema c) ''properties'' = Some (VMap props)
    \<and> dict_get (input_schema c) ''required'' = Some (VTuple required)
    \<and> distinct (map snd (tool_mapping t)) \<and> (\<forall>v \<in> snd ` set (tool_mapping t). key_in props (VStr v))
    \<and> set required \<subseteq> VStr ` snd ` set (tool_mapping t)"
proof -
  from validate_package_checked(5) [OF assms(1)] assms(2) have "checked_module m" by blast
  from checked_tool_target [OF this assms(3)] obtain c where "c \<in> set (capabilities m)"
    "cap_id c = tool_capability t" "tool_allowed c" "validate_parameter_mapping (tool_mapping t) c = Inr ()" .
  then show ?thesis
    by (auto simp: validate_parameter_mapping_def schema_properties_def schema_required_def getitem_def
        rbind_eq_Inr list_all_iff image_image split: option.splits)
qed

text \<open>In an accepted package a capability that is not public can be invoked by a
  command only, every capability can be invoked by a command, and one that admits the
  public web origin is public and read-only; this includes the capability of every
  declared page.\<close>

theorem accepted_origins_respect_privacy:
  assumes "validate_package p = Inr p'" "m \<in> set (modules p')"
  shows "(\<forall>c \<in> set (capabilities m). COMMAND \<in> set (effective_origins c)
      \<and> (privacy c \<noteq> PUBLIC \<longrightarrow> set (effective_origins c) = {COMMAND})
      \<and> (WEB_PUBLIC \<in> set (effective_origins c) \<longrightarrow> supports_public_read_only c))
    \<and> (\<forall>pg \<in> set (pages m). \<forall>i. page_capability pg = Some i \<longrightarrow>
        (\<exists>c \<in> set (capabilities m). cap_id c = i \<and> public_web_allowed g c {(g, i)}))"
proof (intro conjI ballI allI impI)
  from validate_package_checked(5) [OF assms(1)] assms(2) have m: "checked_module m" by blast
  fix pg i assume "pg \<in> set (pages m)" "page_capability pg = Some i"
  with m have "page_target_ok m pg = Inr ()" by (simp add: checked_module_def for_each_eq_Inr)
  then obtain c where c: "capability_index m i = Some c" "WEB_PUBLIC \<in> set (effective_origins c)"
    using \<open>page_capability pg = Some i\<close> by (auto simp: page_target_ok_def split: option.splits)
  then have "c \<in> set (capabilities m)" "cap_id c = i" using capability_index_eq_Some by auto
  with m c show "\<exists>c \<in> set (capabilities m). cap_id c = i \<and> public_web_allowed g c {(g, i)}"
    by (auto simp: checked_module_def public_web_allowed_def dest: checked_origins(2))
next
  fix c assume "c \<in> set (capabilities m)"
  with validate_package_checked(5) [OF assms(1)] assms(2) have c: "checked_capability c"
    by (auto simp: checked_module_def)
  show "COMMAND \<in> set (effective_origins c)" by (rule checked_origins(4) [OF c])
  show "set (effective_origins c) = {COMMAND}" if "privacy c \<noteq> PUBLIC" by (rule checked_origins(1) [OF c that])
  show "supports_public_read_only c" if "WEB_PUBLIC \<in> set (effective_origins c)"
    by (rule checked_origins(2) [OF c that])
qed

definition example_capability :: capability_descriptor where
  "example_capability = \<lparr>cap_id = ''q'', input_schema = example_frozen, policy_of = NATURAL_LANGUAGE_ALLOWED,
     effect = READ_ONLY, output_version = ''1.8.0'', privacy = PUBLIC, required_config = [], required_sources = [],
     required_capabilities = [], invocation_origins = Some [COMMAND, LLM_TOOL, WEB_PUBLIC]\<rparr>"

definition example_tool :: tool_descriptor where
  "example_tool = \<lparr>tool_name = ''t'', tool_capability = ''q'', tool_mapping = [(''n'', ''n'')],
     tool_description = ''d'', tool_action = None\<rparr>"

definition example_page :: page_descriptor where
  "example_page = \<lparr>route_id = ''home'', title = ''Home'', entry = ''home.js'', order = 0, page_access = ''public_web'',
     page_capability = Some ''q'', styles = [], page_role = ''home'', page_config_fields = [], page_credential_fields = []\<rparr>"

definition example_module :: module_manifest where
  "example_module = \<lparr>local_id = ''m'', route = ''r'', category = GAME, factory_entry = ''a.b:c'', module_version = ''1.0.0'',
     capabilities = [example_capability], commands = [], tools = [example_tool], schedules = [], subscriptions = [],
     config_fields = [], source_ids = [], collection_names = [], pages = [example_page],
     resources = [\<lparr>res_path = ''home.js'', sha256 = replicate 64 (CHR ''0'')\<rparr>], display = None,
     diagnostic_events = [], jobs = [], model_tool_name = None, model_tool_description = None\<rparr>"

definition example_package :: package_manifest where
  "example_package = \<lparr>package_id = ''p'', package_version = ''1.0.0'', contract_version = ''2.0'',
     modules = [example_module], author = ''a'', license = ''l'', pkg_source = ''s'', display_name = None,
     module_order = Some []\<rparr>"

lemma example_package_valid: "validate_package example_package = Inr example_package"
  by code_simp

lemma example_package_parts:
  "example_module \<in> set (modules example_package)" "example_tool \<in> set (tools example_module)"
  "example_page \<in> set (pages example_module)" "example_capability \<in> set (capabilities example_module)"
  by (simp_all add: example_package_def example_module_def)

theorem accepted_tools_are_safe_witness:
  "\<exists>c. c \<in> set (capabilities example_module) \<and> cap_id c = ''q'' \<and> tool_allowed c"
  using accepted_tools_are_safe [OF example_package_valid example_package_parts(1,2)]
  by (auto simp: example_tool_def)

theorem accepted_origins_respect_privacy_witness:
  "supports_public_read_only example_capability \<and> COMMAND \<in> set (effective_origins example_capability)"
proof -
  note ok = accepted_origins_respect_privacy [OF example_package_valid example_package_parts(1),
      THEN conjunct1, rule_format, OF example_package_parts(4)]
  have "WEB_PUBLIC \<in> set (effective_origins example_capability)" by code_simp
  with ok show ?thesis by simp
qed

end
