(* ===== verification/Registry.thy ===== *)
theory Registry
  imports Manifests
begin

text \<open>
  The registry of loaded packages (\<open>core/registry.py\<close>): whole immutable snapshots with
  a revision, the module, route and tool indexes, and the operations that publish a new
  snapshot.  An operation that raises leaves the registry as it was, so it is a function
  to a result whose error case carries no state.  Registered modules are compared by
  identity, so they are objects with an address; \<open>next_addr\<close> is the allocator.  The
  lifecycle owner the registry consults is an argument of the operations that ask it.
\<close>

section \<open>State\<close>

text \<open>A handler is known by the methods it has that are callable.\<close>

datatype handler = Handler (handler_ref: nat) (callables: "string list")

record module_handlers =
  capability_handlers :: "(string \<times> handler) list"
  collectors :: "(string \<times> handler) list"
  evaluators :: "(string \<times> handler) list"
  event_composers :: "(string \<times> handler) list"
  event_projectors :: "(string \<times> handler) list"
  job_handlers :: "(string \<times> handler) list"

record registered_module =
  module_id :: string
  manifest :: module_manifest
  handlers :: module_handlers
  enabled :: bool
  epoch :: int

record registry_snapshot =
  revision :: int
  snapshot_modules :: "(string \<times> registered_module obj) list"
  routes :: "(string \<times> string) list"
  tool_index :: "(string \<times> (string \<times> string)) list"

record registry =
  packages :: "string list"
  observers :: "nat list"
  notified :: "(nat \<times> int) list"
  lifecycle_owner :: "nat option"
  snapshot :: registry_snapshot
  next_addr :: nat

definition registry_init :: registry where
  "registry_init = \<lparr>packages = [], observers = [], notified = [], lifecycle_owner = None,
     snapshot = \<lparr>revision = 0, snapshot_modules = [], routes = [], tool_index = []\<rparr>, next_addr = 0\<rparr>"

text \<open>
  What the registry asks of the lifecycle owner: whether a module is active, the guard of
  a module (whether cleanup is pending, and the run identity it guards) and the current run
  identity.  Each may raise.
\<close>

record lifecycle_view =
  active_check :: "string \<Rightarrow> bool"
  guard :: "string \<Rightarrow> (bool \<times> nat) res"
  current_identity :: "string \<Rightarrow> nat res"

section \<open>Lookups\<close>

definition snapshot_module :: "registry_snapshot \<Rightarrow> string \<Rightarrow> registered_module obj res" where
  "snapshot_module sn mid = (case map_of (snapshot_modules sn) mid of None \<Rightarrow> Inl RegistryError | Some m \<Rightarrow> Inr m)"

definition module_for_route :: "registry_snapshot \<Rightarrow> string \<Rightarrow> registered_module obj res" where
  "module_for_route sn r = (case map_of (routes sn) r of
     None \<Rightarrow> Inl RegistryError
   | Some mid \<Rightarrow> (case map_of (snapshot_modules sn) mid of None \<Rightarrow> Inl RegistryError | Some m \<Rightarrow> Inr m))"

definition snapshot_tool :: "registry_snapshot \<Rightarrow> string \<Rightarrow> (string \<times> string) res" where
  "snapshot_tool sn n = (case map_of (tool_index sn) n of None \<Rightarrow> Inl RegistryError | Some t \<Rightarrow> Inr t)"

section \<open>Publication and activity\<close>

text \<open>Every observer is called once; an exception in one does not stop the others.\<close>

definition publish_snapshot :: "registry_snapshot \<Rightarrow> registry \<Rightarrow> registry" where
  "publish_snapshot sn s = s\<lparr>snapshot := sn, notified := notified s @ map (\<lambda>ob. (ob, revision sn)) (observers s)\<rparr>"

definition observe :: "nat \<Rightarrow> registry \<Rightarrow> registry" where
  "observe ob s = s\<lparr>observers := List.insert ob (observers s)\<rparr>"

definition unobserve :: "nat \<Rightarrow> registry \<Rightarrow> registry" where
  "unobserve ob s = s\<lparr>observers := removeAll ob (observers s)\<rparr>"

definition is_active :: "registry \<Rightarrow> lifecycle_view \<Rightarrow> string \<Rightarrow> bool" where
  "is_active s lc mid \<longleftrightarrow> lifecycle_owner s \<noteq> None \<and>
     (case guard lc mid of
        Inl _ \<Rightarrow> False
      | Inr (cleanup_pending, ident) \<Rightarrow> \<not> cleanup_pending \<and> current_identity lc mid = Inr ident)"

text \<open>The same question about a registered module object.\<close>

definition is_active_object :: "registry \<Rightarrow> lifecycle_view \<Rightarrow> registered_module obj \<Rightarrow> bool" where
  "is_active_object s lc m \<longleftrightarrow>
     (case snapshot_module (snapshot s) (module_id (contents m)) of
        Inl _ \<Rightarrow> False
      | Inr m' \<Rightarrow> is_same m m' \<and> is_active s lc (module_id (contents m)))"

section \<open>Handler validation\<close>

definition require_callable :: "string \<Rightarrow> handler \<Rightarrow> unit res" where
  "require_callable name h = ensure (name \<in> set (callables h)) RegistryError"

definition check_ModuleHandlers :: "module_handlers \<Rightarrow> unit res" where
  "check_ModuleHandlers h =
     for_each (\<lambda>d. ensure (list_all (\<lambda>(k, _). k \<noteq> []) d) ValueError)
       [capability_handlers h, collectors h, evaluators h, event_composers h, event_projectors h, job_handlers h]"

definition validate_handlers :: "module_manifest \<Rightarrow> module_handlers \<Rightarrow> module_manifest res" where
  "validate_handlers m h =
     rbind (validate_module 0 m) (\<lambda>m'.
     rbind (check_ModuleHandlers h) (\<lambda>_.
     rbind (ensure (fst ` set (capability_handlers h) = cap_id ` set (capabilities m')) RegistryError) (\<lambda>_.
     rbind (for_each (\<lambda>(_, c). require_callable ''invoke'' c) (capability_handlers h)) (\<lambda>_.
     rbind (ensure (fst ` set (collectors h) = sched_collector ` set (schedules m')) RegistryError) (\<lambda>_.
     rbind (for_each (\<lambda>(_, c). rbind (require_callable ''normalize'' c) (\<lambda>_. require_callable ''collect'' c)) (collectors h)) (\<lambda>_.
     rbind (ensure (fst ` set (evaluators h) = matcher_id ` set (subscriptions m')) RegistryError) (\<lambda>_.
     rbind (for_each (\<lambda>(_, c). require_callable ''evaluate'' c) (evaluators h)) (\<lambda>_.
     rbind (for_each (\<lambda>(_, c). require_callable ''compose'' c) (event_composers h)) (\<lambda>_.
     Inr m')))))))))"

section \<open>Operations\<close>

text \<open>The indexes under construction in \<open>register_package\<close>.\<close>

record candidate =
  cand_routes :: "(string \<times> string) list"
  cand_tools :: "(string \<times> (string \<times> string)) list"
  additions :: "(string \<times> registered_module obj) list"
  cand_addr :: nat

definition add_tool :: "string \<Rightarrow> tool_descriptor \<Rightarrow> candidate \<Rightarrow> candidate res" where
  "add_tool gid t c =
     rbind (ensure (tool_name t \<notin> fst ` set (cand_tools c)) RegistryError) (\<lambda>_.
     Inr (c\<lparr>cand_tools := AList.update (tool_name t) (gid, tool_capability t) (cand_tools c)\<rparr>))"

definition add_module ::
  "registry_snapshot \<Rightarrow> package_manifest \<Rightarrow> (string \<times> module_handlers) list \<Rightarrow> module_manifest \<Rightarrow> candidate \<Rightarrow> candidate res" where
  "add_module old p hs m c =
     rbind (global_module_id p (local_id m)) (\<lambda>gid.
     rbind (ensure (gid \<noteq> ''game_link/core'') RegistryError) (\<lambda>_.
     rbind (ensure (gid \<notin> fst ` set (snapshot_modules old)) RegistryError) (\<lambda>_.
     rbind (ensure (route m \<notin> fst ` set (cand_routes c)) RegistryError) (\<lambda>_.
     rbind (case map_of hs (local_id m) of None \<Rightarrow> Inl KeyError | Some h \<Rightarrow> Inr h) (\<lambda>h.
     rbind (validate_handlers m h) (\<lambda>m'.
     let c1 = c\<lparr>additions := AList.update gid
                  (Obj (cand_addr c) \<lparr>module_id = gid, manifest = m', handlers = h, enabled = False, epoch = 0\<rparr>) (additions c),
                cand_addr := Suc (cand_addr c)\<rparr> in
     rbind (rfold (add_tool gid) (tools m') c1) (\<lambda>c2.
     Inr (c2\<lparr>cand_routes := AList.update (route m') gid (cand_routes c2)\<rparr>))))))))"

text \<open>\<open>dict.update\<close>.\<close>

fun dict_update_all :: "('k \<times> 'v) list \<Rightarrow> ('k \<times> 'v) list \<Rightarrow> ('k \<times> 'v) list" where
  "dict_update_all d [] = d"
| "dict_update_all d ((k, v) # xs) = dict_update_all (AList.update k v d) xs"

definition register_package ::
  "package_manifest \<Rightarrow> (string \<times> module_handlers) list \<Rightarrow> registry \<Rightarrow> registry res" where
  "register_package p0 hs s =
     rbind (validate_package p0) (\<lambda>p.
     rbind (for_each (\<lambda>(_, h). check_ModuleHandlers h) hs) (\<lambda>_.
     rbind (ensure (package_id p \<notin> set (packages s)) RegistryError) (\<lambda>_.
     rbind (ensure (fst ` set hs = local_id ` set (modules p)) RegistryError) (\<lambda>_.
     let old = snapshot s in
     rbind (rfold (add_module old p hs) (modules p)
              \<lparr>cand_routes = routes old, cand_tools = tool_index old, additions = [], cand_addr = next_addr s\<rparr>) (\<lambda>c.
     let sn = \<lparr>revision = revision old + 1,
               snapshot_modules = dict_update_all (snapshot_modules old) (additions c),
               routes = cand_routes c, tool_index = cand_tools c\<rparr> in
     Inr (publish_snapshot sn
            (s\<lparr>packages := List.insert (package_id p) (packages s), next_addr := cand_addr c\<rparr>)))))))"

text \<open>\<open>replace(module, ...)\<close> and the publication that follows it in three operations.\<close>

definition republish :: "registered_module obj \<Rightarrow> (registered_module \<Rightarrow> registered_module) \<Rightarrow> registry \<Rightarrow> registry" where
  "republish m f s =
     (let old = snapshot s; m' = f (contents m) in
      publish_snapshot (old\<lparr>revision := revision old + 1,
          snapshot_modules := AList.update (module_id m') (Obj (next_addr s) m') (snapshot_modules old)\<rparr>)
        (s\<lparr>next_addr := Suc (next_addr s)\<rparr>))"

definition set_enabled :: "lifecycle_view \<Rightarrow> string \<Rightarrow> bool \<Rightarrow> registry \<Rightarrow> registry res" where
  "set_enabled lc mid b s =
     rbind (snapshot_module (snapshot s) mid) (\<lambda>m.
     rbind (ensure (\<not> (lifecycle_owner s \<noteq> None \<and> active_check lc mid)) RegistryError) (\<lambda>_.
     Inr (if enabled (contents m) = b then s else republish m (\<lambda>r. r\<lparr>enabled := b\<rparr>) s)))"

definition bind_lifecycle_owner :: "nat \<Rightarrow> registry \<Rightarrow> registry res" where
  "bind_lifecycle_owner ow s = (case lifecycle_owner s of
     None \<Rightarrow> Inr (s\<lparr>lifecycle_owner := Some ow\<rparr>)
   | Some ow' \<Rightarrow> if ow' = ow then Inr s else Inl RegistryError)"

definition publish_lifecycle_projection ::
  "string \<Rightarrow> bool \<Rightarrow> int \<Rightarrow> int option \<Rightarrow> registry \<Rightarrow> registry res" where
  "publish_lifecycle_projection mid b ep expected s =
     rbind (ensure (lifecycle_owner s \<noteq> None) RegistryError) (\<lambda>_.
     rbind (ensure (0 \<le> ep) RegistryError) (\<lambda>_.
     rbind (ensure (case expected of None \<Rightarrow> True | Some r \<Rightarrow> revision (snapshot s) = r) RegistryError) (\<lambda>_.
     rbind (snapshot_module (snapshot s) mid) (\<lambda>m.
     Inr (if enabled (contents m) = b \<and> epoch (contents m) = ep then s
          else republish m (\<lambda>r. r\<lparr>enabled := b, epoch := ep\<rparr>) s)))))"

definition install_lifecycle_handlers :: "string \<Rightarrow> module_handlers \<Rightarrow> registry \<Rightarrow> registry res" where
  "install_lifecycle_handlers mid h s =
     rbind (check_ModuleHandlers h) (\<lambda>_.
     rbind (ensure (lifecycle_owner s \<noteq> None) RegistryError) (\<lambda>_.
     rbind (snapshot_module (snapshot s) mid) (\<lambda>m.
     rbind (validate_handlers (manifest (contents m)) h) (\<lambda>m'.
     Inr (republish m (\<lambda>r. r\<lparr>manifest := m', handlers := h\<rparr>) s)))))"

definition detach_lifecycle_module :: "lifecycle_view \<Rightarrow> nat \<Rightarrow> string \<Rightarrow> registry \<Rightarrow> registry res" where
  "detach_lifecycle_module lc ow mid s =
     rbind (ensure (lifecycle_owner s = Some ow \<and> \<not> is_active s lc mid) RegistryError) (\<lambda>_.
     let old = snapshot s in
     rbind (snapshot_module old mid) (\<lambda>_.
     let sn = \<lparr>revision = revision old + 1,
               snapshot_modules = filter (\<lambda>(k, _). k \<noteq> mid) (snapshot_modules old),
               routes = filter (\<lambda>(_, k). k \<noteq> mid) (routes old),
               tool_index = filter (\<lambda>(_, k, _). k \<noteq> mid) (tool_index old)\<rparr>;
         pid = before_first (CHR ''/'') mid in
     Inr (publish_snapshot sn
       (if list_ex (\<lambda>(k, _). starts_with (pid @ ''/'') k) (snapshot_modules sn) then s
        else s\<lparr>packages := removeAll pid (packages s)\<rparr>))))"

definition restore_lifecycle_module ::
  "nat \<Rightarrow> string \<Rightarrow> module_manifest \<Rightarrow> module_handlers \<Rightarrow> registry \<Rightarrow> registry res" where
  "restore_lifecycle_module ow pid m h s =
     rbind (ensure (lifecycle_owner s = Some ow) RegistryError) (\<lambda>_.
     let mid = global_id pid (local_id m); old = snapshot s in
     rbind (ensure (mid \<notin> fst ` set (snapshot_modules old) \<and> route m \<notin> fst ` set (routes old)
                    \<and> \<not> list_ex (\<lambda>t. tool_name t \<in> fst ` set (tool_index old)) (tools m)) RegistryError) (\<lambda>_.
     rbind (validate_handlers m h) (\<lambda>m'.
     let r = \<lparr>module_id = mid, manifest = m', handlers = h, enabled = False, epoch = 0\<rparr>;
         sn = \<lparr>revision = revision old + 1,
               snapshot_modules = AList.update mid (Obj (next_addr s) r) (snapshot_modules old),
               routes = AList.update (route m') mid (routes old),
               tool_index = dict_update_all (tool_index old) (map (\<lambda>t. (tool_name t, (mid, tool_capability t))) (tools m'))\<rparr> in
     Inr (publish_snapshot sn
            (s\<lparr>packages := List.insert pid (packages s), next_addr := Suc (next_addr s)\<rparr>)))))"

end
