(* ===== verification/Issuer.thy ===== *)
theory Issuer
  imports Manifests
begin

text \<open>
  Invocation views and their issuer: the view contract of \<open>core/contracts/contexts.py\<close>,
  \<open>ContextIssuer\<close> of \<open>core/context_issuer.py\<close>, the execution budgets of
  \<open>core/invocation_budget.py\<close> and the collection boundary of
  \<open>core/collection_context.py\<close>.

  Monotonic time is a rational number.  The clock and the host callbacks an operation
  consults (whether a job claim, a public web proof or a message source is current) are
  gathered in an \<open>env\<close> argument: an operation reads them at one instant.  The
  identifier \<open>uuid4().hex\<close> is an argument of the operations that draw one.  The issuer's
  tables are partial maps; the table of children, which release walks, is a dictionary.
\<close>

section \<open>Invocation views\<close>

datatype conversation_kind = DIRECT | GROUP

datatype subscription_scope = SCOPE_PUBLIC | SCOPE_USER | SCOPE_AUTHORIZED

record invocation_view =
  invocation_id :: string
  origin :: invocation_origin
  actor_id :: "string option"
  conversation_id :: "string option"
  view_module :: string
  module_epoch :: int
  registry_revision :: int
  deadline :: "rat option"
  parent_id :: "string option"
  grant_id :: "string option"
  grant_revision :: "int option"
  subscription_id :: "string option"
  subscription_revision :: "int option"
  adapter_id :: "string option"
  capability_id :: "string option"
  delivery_route :: "string option"
  conv_kind :: "conversation_kind option"
  sub_scope :: "subscription_scope option"
  public_session_id :: "string option"

definition require_opaque_id :: "string \<Rightarrow> unit res" where
  "require_opaque_id s =
     rbind (ensure (s \<noteq> [] \<and> length s \<le> 256) ValueError) (\<lambda>_.
     ensure (\<not> list_ex (\<lambda>c. (of_char c :: nat) < 32 \<or> (of_char c :: nat) = 127) s) ValueError)"

definition require_positive_int :: "int \<Rightarrow> unit res" where
  "require_positive_int i = ensure (1 \<le> i) ValueError"

definition require_paired_revision :: "string option \<Rightarrow> int option \<Rightarrow> unit res" where
  "require_paired_revision i r =
     rbind (ensure ((i = None) = (r = None)) ValueError) (\<lambda>_. optional require_positive_int r)"

definition check_InvocationView :: "invocation_view \<Rightarrow> unit res" where
  "check_InvocationView v =
     rbind (require_opaque_id (invocation_id v)) (\<lambda>_.
     rbind (optional require_opaque_id (actor_id v)) (\<lambda>_.
     rbind (optional require_opaque_id (public_session_id v)) (\<lambda>_.
     rbind (ensure (public_session_id v = None \<or> origin v = WEB_PUBLIC) ValueError) (\<lambda>_.
     rbind (optional require_opaque_id (conversation_id v)) (\<lambda>_.
     rbind (ensure (fullmatch GLOBAL_MODULE_ID (view_module v)) ValueError) (\<lambda>_.
     rbind (optional require_opaque_id (parent_id v)) (\<lambda>_.
     rbind (optional require_opaque_id (grant_id v)) (\<lambda>_.
     rbind (optional require_opaque_id (subscription_id v)) (\<lambda>_.
     rbind (optional require_opaque_id (adapter_id v)) (\<lambda>_.
     rbind (optional require_opaque_id (delivery_route v)) (\<lambda>_.
     rbind (optional require_identifier (capability_id v)) (\<lambda>_.
     rbind (require_positive_int (module_epoch v)) (\<lambda>_.
     rbind (require_positive_int (registry_revision v)) (\<lambda>_.
     rbind (require_paired_revision (grant_id v) (grant_revision v)) (\<lambda>_.
     rbind (require_paired_revision (subscription_id v) (subscription_revision v)) (\<lambda>_.
     optional (\<lambda>d. ensure (0 < d) ValueError) (deadline v)))))))))))))))))"

text \<open>\<open>try: validate_contract(view) except (TypeError, ValueError, AttributeError): raise InvalidInvocation()\<close>.\<close>

definition recheck_view :: "invocation_view \<Rightarrow> unit res" where
  "recheck_view v =
     reraise (\<lambda>e. e \<in> {TypeError, ValueError, AttributeError}) InvalidInvocation (check_InvocationView v)"

section \<open>Issuer state\<close>

record web_binding =
  binding_module :: string
  binding_capability :: string
  generation :: int
  bearer_key :: string
  binding_deadline :: rat

record job_proof =
  proof_ref :: nat
  proof_job :: string
  run_token :: string
  proof_handler :: string
  proof_owner :: string
  proof_digest :: string

record owned_message =
  message_text :: string
  event_ref :: string
  message_source :: nat

type_synonym view_ref = "invocation_view obj"

record issuer =
  web_validator :: bool
  web_deployment :: "(string \<times> string) list"
  external_web_deployment :: "(string \<times> string) list"
  web_proofs :: "string \<rightharpoonup> nat \<times> web_binding"
  issued :: "string \<rightharpoonup> view_ref"
  messages :: "string \<rightharpoonup> owned_message"
  children :: "(string \<times> string list) list"
  leases :: "string \<rightharpoonup> nat"
  release_observers :: "nat list"
  job_sources :: "nat list"
  job_proofs :: "string \<rightharpoonup> nat \<times> job_proof"
  next_view :: nat
  revoked :: "nat list"
  observed :: "(nat \<times> view_ref) list"

text \<open>What an operation reads of its surroundings.\<close>

record env =
  now :: rat
  claim_current :: "job_proof \<Rightarrow> bool"
  proof_current :: "nat \<Rightarrow> web_binding \<Rightarrow> bool"
  source_current :: "nat \<Rightarrow> bool"

definition pair_ok :: "string \<times> string \<Rightarrow> bool" where
  "pair_ok p \<longleftrightarrow> \<not> blank (fst p) \<and> \<not> blank (snd p)"

definition issuer_init :: "bool \<Rightarrow> (string \<times> string) list \<Rightarrow> issuer res" where
  "issuer_init has_validator deployment =
     rbind (ensure (list_all pair_ok deployment) TypeError) (\<lambda>_.
     Inr \<lparr>web_validator = has_validator, web_deployment = deployment, external_web_deployment = [],
        web_proofs = Map.empty, issued = Map.empty, messages = Map.empty, children = [], leases = Map.empty,
        release_observers = [], job_sources = [], job_proofs = Map.empty, next_view = 0, revoked = [], observed = []\<rparr>)"

definition public_web_deployment :: "issuer \<Rightarrow> (string \<times> string) list" where
  "public_web_deployment s = web_deployment s @ external_web_deployment s"

definition register_job_source :: "nat \<Rightarrow> issuer \<Rightarrow> issuer" where
  "register_job_source src s = s\<lparr>job_sources := List.insert src (job_sources s)\<rparr>"

definition unregister_job_source :: "nat \<Rightarrow> issuer \<Rightarrow> issuer" where
  "unregister_job_source src s = s\<lparr>job_sources := removeAll src (job_sources s)\<rparr>"

definition replace_external_public_web_capabilities :: "(string \<times> string) list \<Rightarrow> issuer \<Rightarrow> issuer res" where
  "replace_external_public_web_capabilities deployment s =
     rbind (ensure (list_all pair_ok deployment) TypeError) (\<lambda>_.
     rbind (ensure (set deployment \<inter> set (web_deployment s) = {}) ValueError) (\<lambda>_.
     Inr (s\<lparr>external_web_deployment := deployment\<rparr>)))"

section \<open>Issuing\<close>

definition check_deadline :: "env \<Rightarrow> invocation_view \<Rightarrow> unit res" where
  "check_deadline e v =
     rbind (recheck_view v) (\<lambda>_.
     case deadline v of None \<Rightarrow> Inr () | Some d \<Rightarrow> ensure (now e < d) InvocationExpired)"

text \<open>A new view object enters the table of issued views.\<close>

definition record_view :: "invocation_view \<Rightarrow> issuer \<Rightarrow> issuer \<times> view_ref" where
  "record_view v s =
     (let r = Obj (next_view s) v in
      (s\<lparr>issued := (issued s)(invocation_id v \<mapsto> r), next_view := Suc (next_view s)\<rparr>, r))"

text \<open>The defaulted fields of \<open>InvocationView\<close>.\<close>

definition bare_view :: "string \<Rightarrow> invocation_origin \<Rightarrow> string \<Rightarrow> int \<Rightarrow> int \<Rightarrow> invocation_view" where
  "bare_view uid orig mid ep rv =
     \<lparr>invocation_id = uid, origin = orig, actor_id = None, conversation_id = None, view_module = mid,
      module_epoch = ep, registry_revision = rv, deadline = None, parent_id = None, grant_id = None,
      grant_revision = None, subscription_id = None, subscription_revision = None, adapter_id = None,
      capability_id = None, delivery_route = None, conv_kind = None, sub_scope = None, public_session_id = None\<rparr>"

definition issue_job ::
  "env \<Rightarrow> string \<Rightarrow> nat \<Rightarrow> job_proof \<Rightarrow> string \<Rightarrow> int \<Rightarrow> int \<Rightarrow> rat option \<Rightarrow> issuer \<Rightarrow> (issuer \<times> view_ref) res" where
  "issue_job e uid src prf mid ep rv dl s =
     rbind (ensure (src \<in> set (job_sources s) \<and> claim_current e prf) InvalidInvocation) (\<lambda>_.
     let v = (bare_view uid JOB mid ep rv)\<lparr>actor_id := Some (proof_owner prf), deadline := dl\<rparr> in
     rbind (check_InvocationView v) (\<lambda>_.
     rbind (check_deadline e v) (\<lambda>_.
     let (s', r) = record_view v s in
     Inr (s'\<lparr>job_proofs := (job_proofs s')(uid \<mapsto> (src, prf))\<rparr>, r))))"

text \<open>The conditions \<open>issue\<close> puts on its arguments, given as the view it would create.\<close>

definition issue_guards :: "invocation_view \<Rightarrow> unit res" where
  "issue_guards v =
     rbind (ensure (origin v \<noteq> WEB_PUBLIC) InvalidInvocation) (\<lambda>_.
     rbind (ensure (origin v \<noteq> JOB) InvalidInvocation) (\<lambda>_.
     rbind (ensure (origin v \<in> {COMMAND, LLM_TOOL} \<longrightarrow> actor_id v \<noteq> None \<and> conversation_id v \<noteq> None) InvalidInvocation) (\<lambda>_.
     rbind (ensure (origin v = ADMIN \<longrightarrow> actor_id v \<noteq> None) InvalidInvocation) (\<lambda>_.
     rbind (ensure (grant_id v \<noteq> None \<longrightarrow> actor_id v \<noteq> None) InvalidInvocation) (\<lambda>_.
     rbind (ensure (subscription_id v \<noteq> None \<longrightarrow> actor_id v \<noteq> None) InvalidInvocation) (\<lambda>_.
     if origin v = SUBSCRIPTION then
       rbind (ensure (actor_id v \<noteq> None \<and> subscription_id v \<noteq> None \<and> subscription_revision v \<noteq> None
          \<and> adapter_id v \<noteq> None \<and> conversation_id v \<noteq> None \<and> delivery_route v \<noteq> None
          \<and> conv_kind v \<noteq> None \<and> sub_scope v \<noteq> None) InvalidInvocation) (\<lambda>_.
       rbind (if sub_scope v = Some SCOPE_AUTHORIZED then ensure (grant_id v \<noteq> None) InvalidInvocation
              else ensure (grant_id v = None) InvalidInvocation) (\<lambda>_.
       ensure (sub_scope v = Some SCOPE_PUBLIC \<or> conv_kind v = Some DIRECT) InvalidInvocation))
     else
       rbind (ensure (delivery_route v = None) InvalidInvocation) (\<lambda>_.
       rbind (ensure (conv_kind v = None) InvalidInvocation) (\<lambda>_.
       ensure (sub_scope v = None) InvalidInvocation)))))))) "

text \<open>
  \<open>issue\<close>: \<open>args\<close> holds the keyword arguments; the identifier is drawn, and a view
  issued this way has neither a parent nor a public session.
\<close>

definition issue :: "env \<Rightarrow> string \<Rightarrow> invocation_view \<Rightarrow> issuer \<Rightarrow> (issuer \<times> view_ref) res" where
  "issue e uid args s =
     rbind (issue_guards args) (\<lambda>_.
     let v = args\<lparr>invocation_id := uid, parent_id := None, public_session_id := None\<rparr> in
     rbind (check_InvocationView v) (\<lambda>_.
     rbind (check_deadline e v) (\<lambda>_.
     Inr (record_view v s))))"

text \<open>
  \<open>issue_public_web\<close>: the binding is what the host's validator returned when it
  consumed the proof (or the exception it raised).  After that point every failure
  revokes the proof, so the state is returned together with the outcome.
\<close>

definition issue_public_web ::
  "env \<Rightarrow> string \<Rightarrow> nat \<Rightarrow> web_binding res \<Rightarrow> string \<Rightarrow> string \<Rightarrow> int \<Rightarrow> int \<Rightarrow> int \<Rightarrow> rat \<Rightarrow> issuer \<Rightarrow> issuer \<times> view_ref res" where
  "issue_public_web e uid prf consumed mid cid ep rv gen dl s =
     (if \<not> web_validator s \<or> (mid, cid) \<notin> set (public_web_deployment s) then (s, Inl InvalidInvocation)
      else case consumed of
        Inl x \<Rightarrow> (s, Inl x)
      | Inr b \<Rightarrow>
          let v = (bare_view uid WEB_PUBLIC mid ep rv)\<lparr>deadline := Some (min dl (binding_deadline b)),
                     capability_id := Some cid, public_session_id := Some (bearer_key b)\<rparr>;
              ok = rbind (ensure (binding_module b = mid \<and> binding_capability b = cid \<and> generation b = gen
                                   \<and> proof_current e prf b) InvalidInvocation) (\<lambda>_.
                   rbind (check_InvocationView v) (\<lambda>_. check_deadline e v))
          in (case ok of
                Inl x \<Rightarrow> (s\<lparr>revoked := revoked s @ [prf]\<rparr>, Inl x)
              | Inr _ \<Rightarrow>
                  let (s', r) = record_view v s in
                  (s'\<lparr>web_proofs := (web_proofs s')(uid \<mapsto> (prf, b))\<rparr>, Inr r)))"

section \<open>Checking a view\<close>

text \<open>One round of the loop of \<open>require\<close>, up to the step to the parent.\<close>

definition require_one :: "env \<Rightarrow> issuer \<Rightarrow> view_ref \<Rightarrow> unit res" where
  "require_one e s r = (let v = contents r; i = invocation_id v in
     rbind (ensure (opt_is (issued s i) r) InvalidInvocation) (\<lambda>_.
     rbind (if origin v = JOB then
              ensure (case job_proofs s i of None \<Rightarrow> False
                      | Some (src, prf) \<Rightarrow> src \<in> set (job_sources s) \<and> claim_current e prf) InvalidInvocation
            else Inr ()) (\<lambda>_.
     rbind (check_deadline e v) (\<lambda>_.
     rbind (ensure (origin v = WEB_PUBLIC \<longrightarrow>
              (case capability_id v of None \<Rightarrow> False
               | Some c \<Rightarrow> (view_module v, c) \<in> set (public_web_deployment s))) InvalidInvocation) (\<lambda>_.
     if parent_id v = None \<and> origin v = WEB_PUBLIC then
       ensure (case web_proofs s i of None \<Rightarrow> False
               | Some (prf, b) \<Rightarrow> web_validator s \<and> proof_current e prf b) InvalidInvocation
     else Inr ())))))"

text \<open>
  The loop over the parent chain.  The fuel bounds its rounds; \<open>None\<close> means the fuel ran
  out.  A parent is always an older object than its child, so \<open>next_view\<close> rounds suffice
  (shown with the invariant).
\<close>

fun require_loop :: "nat \<Rightarrow> env \<Rightarrow> issuer \<Rightarrow> view_ref \<Rightarrow> unit res option" where
  "require_loop 0 e s r = None"
| "require_loop (Suc n) e s r =
     (case require_one e s r of
        Inl x \<Rightarrow> Some (Inl x)
      | Inr _ \<Rightarrow> (case parent_id (contents r) of
            None \<Rightarrow> Some (Inr ())
          | Some p \<Rightarrow> (case issued s p of
                None \<Rightarrow> Some (Inl InvalidInvocation)
              | Some parent \<Rightarrow> require_loop n e s parent)))"

definition require_view :: "env \<Rightarrow> issuer \<Rightarrow> view_ref \<Rightarrow> unit res" where
  "require_view e s r =
     rbind (recheck_view (contents r)) (\<lambda>_.
     case require_loop (Suc (next_view s)) e s r of None \<Rightarrow> Inl RuntimeError | Some x \<Rightarrow> x)"

definition require_adapter :: "env \<Rightarrow> issuer \<Rightarrow> view_ref \<Rightarrow> unit res" where
  "require_adapter e s r =
     rbind (recheck_view (contents r)) (\<lambda>_.
     rbind (require_view e s r) (\<lambda>_.
     ensure (adapter_id (contents r) \<noteq> None) InvalidInvocation))"

definition job_binding :: "env \<Rightarrow> issuer \<Rightarrow> view_ref \<Rightarrow> job_proof res" where
  "job_binding e s r =
     rbind (require_view e s r) (\<lambda>_.
     case job_proofs s (invocation_id (contents r)) of
       None \<Rightarrow> Inl InvalidInvocation
     | Some (src, prf) \<Rightarrow> if src \<in> set (job_sources s) then Inr prf else Inl InvalidInvocation)"

text \<open>The root of a view's parent chain, for \<open>public_web_binding\<close>.\<close>

fun root_of :: "nat \<Rightarrow> issuer \<Rightarrow> view_ref \<Rightarrow> view_ref res option" where
  "root_of 0 s r = None"
| "root_of (Suc n) s r = (case parent_id (contents r) of
     None \<Rightarrow> Some (Inr r)
   | Some p \<Rightarrow> (case issued s p of None \<Rightarrow> Some (Inl KeyError) | Some parent \<Rightarrow> root_of n s parent))"

definition public_web_binding :: "env \<Rightarrow> issuer \<Rightarrow> view_ref \<Rightarrow> web_binding res" where
  "public_web_binding e s r =
     rbind (recheck_view (contents r)) (\<lambda>_.
     rbind (require_view e s r) (\<lambda>_.
     rbind (case root_of (Suc (next_view s)) s r of None \<Rightarrow> Inl RuntimeError | Some x \<Rightarrow> x) (\<lambda>root.
     case web_proofs s (invocation_id (contents root)) of
       None \<Rightarrow> Inl InvalidInvocation
     | Some (_, b) \<Rightarrow> Inr b)))"

definition allows_public_web :: "issuer \<Rightarrow> string \<Rightarrow> capability_descriptor \<Rightarrow> bool" where
  "allows_public_web s mid c \<longleftrightarrow> public_web_allowed mid c (set (public_web_deployment s))"

section \<open>Deriving a child\<close>

text \<open>The Grant a child may carry.\<close>

definition child_grant :: "invocation_view \<Rightarrow> string \<Rightarrow> (string option \<times> int option) res" where
  "child_grant v mid =
     (if mid \<noteq> view_module v \<and> (grant_id v \<noteq> None \<or> grant_revision v \<noteq> None) then
        (if origin v \<in> {COMMAND, LLM_TOOL} then Inr (None, None) else Inl InvalidInvocation)
      else Inr (grant_id v, grant_revision v))"

definition derive ::
  "env \<Rightarrow> string \<Rightarrow> view_ref \<Rightarrow> string \<Rightarrow> int \<Rightarrow> rat option \<Rightarrow> string option \<Rightarrow> issuer \<Rightarrow> (issuer \<times> view_ref) res" where
  "derive e uid parent mid ep dl cid s = (let v = contents parent in
     rbind (recheck_view v) (\<lambda>_.
     rbind (require_view e s parent) (\<lambda>_.
     rbind (ensure (origin v \<noteq> JOB) InvalidInvocation) (\<lambda>_.
     rbind (ensure (origin v = WEB_PUBLIC \<longrightarrow>
              (case cid of None \<Rightarrow> False | Some c \<Rightarrow> (mid, c) \<in> set (public_web_deployment s))) InvalidInvocation) (\<lambda>_.
     rbind (child_grant v mid) (\<lambda>(gid, grev).
     let eff = (case dl of None \<Rightarrow> deadline v | Some d \<Rightarrow> Some d) in
     rbind (ensure (case deadline v of None \<Rightarrow> True
              | Some pd \<Rightarrow> (case eff of None \<Rightarrow> False | Some d \<Rightarrow> d \<le> pd)) InvalidInvocation) (\<lambda>_.
     let c = v\<lparr>invocation_id := uid, parent_id := Some (invocation_id v), view_module := mid,
               module_epoch := ep, deadline := eff, capability_id := cid, grant_id := gid, grant_revision := grev\<rparr> in
     rbind (check_deadline e c) (\<lambda>_.
     let (s', r) = record_view c s;
         siblings = (case map_of (children s) (invocation_id v) of None \<Rightarrow> [] | Some xs \<Rightarrow> xs) in
     Inr (s'\<lparr>children := AList.update (invocation_id v) (List.insert uid siblings) (children s)\<rparr>, r)))))))))"

section \<open>Sidecars\<close>

definition attach_lease :: "env \<Rightarrow> view_ref \<Rightarrow> nat \<Rightarrow> issuer \<Rightarrow> issuer res" where
  "attach_lease e r l s = (let i = invocation_id (contents r) in
     rbind (recheck_view (contents r)) (\<lambda>_.
     rbind (require_view e s r) (\<lambda>_.
     rbind (ensure (leases s i = None \<or> leases s i = Some l) InvalidInvocation) (\<lambda>_.
     Inr (s\<lparr>leases := (leases s)(i \<mapsto> l)\<rparr>)))))"

definition lease_for :: "env \<Rightarrow> issuer \<Rightarrow> view_ref \<Rightarrow> nat option res" where
  "lease_for e s r =
     rbind (recheck_view (contents r)) (\<lambda>_.
     rbind (require_view e s r) (\<lambda>_. Inr (leases s (invocation_id (contents r)))))"

definition detach_lease :: "env \<Rightarrow> view_ref \<Rightarrow> nat \<Rightarrow> issuer \<Rightarrow> issuer res" where
  "detach_lease e r l s = (let i = invocation_id (contents r) in
     rbind (recheck_view (contents r)) (\<lambda>_.
     rbind (require_view e s r) (\<lambda>_.
     rbind (ensure (leases s i = Some l) InvalidInvocation) (\<lambda>_.
     Inr (s\<lparr>leases := (leases s)(i := None)\<rparr>)))))"

definition detach_lease_for_cleanup :: "view_ref \<Rightarrow> nat \<Rightarrow> issuer \<Rightarrow> (issuer \<times> bool) res" where
  "detach_lease_for_cleanup r l s = (let i = invocation_id (contents r) in
     rbind (recheck_view (contents r)) (\<lambda>_.
     if \<not> opt_is (issued s i) r then
       (if leases s i = None then Inr (s, False) else Inl InvalidInvocation)
     else case leases s i of
       None \<Rightarrow> Inr (s, False)
     | Some l' \<Rightarrow> if l' = l then Inr (s\<lparr>leases := (leases s)(i := None)\<rparr>, True) else Inl InvalidInvocation))"

text \<open>
  Messages of a model tool.  \<open>scope_ref\<close> stands for the keyed digest of the view's scope
  and the correlation text.
\<close>

definition message_for :: "env \<Rightarrow> issuer \<Rightarrow> view_ref \<Rightarrow> owned_message res" where
  "message_for e s r =
     rbind (require_view e s r) (\<lambda>_.
     rbind (ensure (origin (contents r) = LLM_TOOL \<and> parent_id (contents r) = None) ServiceUnavailable) (\<lambda>_.
     case messages s (invocation_id (contents r)) of None \<Rightarrow> Inl InvalidInvocation | Some m \<Rightarrow> Inr m))"

definition require_message_current :: "env \<Rightarrow> issuer \<Rightarrow> view_ref \<Rightarrow> owned_message res" where
  "require_message_current e s r =
     rbind (message_for e s r) (\<lambda>m.
     rbind (ensure (source_current e (message_source m)) AccessDenied) (\<lambda>_. Inr m))"

text \<open>At most 16384 of the characters modelled here never exceed the limit of 65536 encoded bytes.\<close>

definition check_MessageContext :: "string \<Rightarrow> string \<Rightarrow> unit res" where
  "check_MessageContext txt ref =
     rbind (ensure (length txt \<le> 16384) ValueError) (\<lambda>_. require_opaque_id ref)"

definition attach_message ::
  "env \<Rightarrow> (invocation_view \<Rightarrow> string \<Rightarrow> string) \<Rightarrow> view_ref \<Rightarrow> string \<Rightarrow> string \<Rightarrow> nat \<Rightarrow> issuer \<Rightarrow> issuer res" where
  "attach_message e scope_ref r txt correlation src s = (let i = invocation_id (contents r) in
     rbind (require_view e s r) (\<lambda>_.
     rbind (ensure (origin (contents r) = LLM_TOOL \<and> parent_id (contents r) = None) InvalidInvocation) (\<lambda>_.
     rbind (lease_for e s r) (\<lambda>l.
     rbind (ensure (l \<noteq> None \<and> messages s i = None) InvalidInvocation) (\<lambda>_.
     rbind (ensure (correlation \<noteq> [] \<and> length correlation \<le> 256) InvalidInvocation) (\<lambda>_.
     let ref = scope_ref (contents r) correlation in
     rbind (check_MessageContext txt ref) (\<lambda>_.
     let s' = s\<lparr>messages := (messages s)(i \<mapsto> \<lparr>message_text = txt, event_ref = ref, message_source = src\<rparr>)\<rparr> in
     rbind (require_message_current e s' r) (\<lambda>_. Inr s'))))))))"

definition add_release_observer :: "nat \<Rightarrow> issuer \<Rightarrow> issuer" where
  "add_release_observer ob s = s\<lparr>release_observers := List.insert ob (release_observers s)\<rparr>"

definition remove_release_observer :: "nat \<Rightarrow> issuer \<Rightarrow> issuer" where
  "remove_release_observer ob s = s\<lparr>release_observers := removeAll ob (release_observers s)\<rparr>"

section \<open>Release\<close>

definition total_children :: "(string \<times> string list) list \<Rightarrow> nat" where
  "total_children ch = sum_list (map (\<lambda>(_, xs). length xs) ch)"

definition children_of :: "(string \<times> string list) list \<Rightarrow> string \<Rightarrow> string list" where
  "children_of ch i = (case map_of ch i of None \<Rightarrow> [] | Some xs \<Rightarrow> xs)"

lemma total_children_delete: "total_children (AList.delete i ch) + length (children_of ch i) \<le> total_children ch"
proof (induction ch)
  case (Cons x ch)
  obtain k xs where x: "x = (k, xs)" by (rule prod.exhaust)
  have "total_children (AList.delete i ch) \<le> total_children ch" using Cons by simp
  with Cons show ?case by (auto simp: x total_children_def children_of_def)
qed (simp add: total_children_def children_of_def)

text \<open>
  The loop that collects a view and its descendants: \<open>pending\<close> is a stack, every visited
  entry of the table of children is removed from it.
\<close>

function collect :: "(string \<times> string list) list \<Rightarrow> string list \<Rightarrow> string list \<Rightarrow> (string \<times> string list) list \<times> string list" where
  "collect ch [] removed = (ch, removed)"
| "collect ch (i # pending) removed =
     (if i \<in> set removed then collect ch pending removed
      else collect (AList.delete i ch) (rev (children_of ch i) @ pending) (removed @ [i]))"
  by pat_completeness auto
termination
proof (relation "measure (\<lambda>(ch, pending, _). total_children ch + length pending)", goal_cases)
  case (3 ch i pending removed)
  then show ?case using total_children_delete [of i ch] by simp
qed simp_all

text \<open>The body of the loop over the removed identifiers.\<close>

definition drop_view :: "string \<Rightarrow> issuer \<Rightarrow> issuer" where
  "drop_view i s =
     (let s' = s\<lparr>issued := (issued s)(i := None), leases := (leases s)(i := None), messages := (messages s)(i := None),
                job_proofs := (job_proofs s)(i := None), web_proofs := (web_proofs s)(i := None),
                revoked := (case web_proofs s i of
                    Some (prf, _) \<Rightarrow> if web_validator s then revoked s @ [prf] else revoked s | None \<Rightarrow> revoked s)\<rparr>
      in case issued s i of
           None \<Rightarrow> s'
         | Some r \<Rightarrow> s'\<lparr>observed := observed s @ map (\<lambda>ob. (ob, r)) (release_observers s)\<rparr>)"

text \<open>Removing a view from its parent's set of children, which disappears when it is empty.\<close>

definition forget_sibling :: "invocation_view \<Rightarrow> (string \<times> string list) list \<Rightarrow> (string \<times> string list) list" where
  "forget_sibling v ch = (case parent_id v of
     None \<Rightarrow> ch
   | Some p \<Rightarrow> (case map_of ch p of
       None \<Rightarrow> ch
     | Some xs \<Rightarrow> (let xs' = removeAll (invocation_id v) xs in
         if xs' = [] then AList.delete p ch else AList.update p xs' ch)))"

definition release :: "view_ref \<Rightarrow> issuer \<Rightarrow> issuer res" where
  "release r s = (let v = contents r in
     rbind (recheck_view v) (\<lambda>_.
     rbind (ensure (opt_is (issued s (invocation_id v)) r) InvalidInvocation) (\<lambda>_.
     let (ch, removed) = collect (forget_sibling v (children s)) [invocation_id v] [] in
     Inr (fold drop_view removed (s\<lparr>children := ch\<rparr>)))))"

section \<open>Execution budgets\<close>

record budget_policy =
  command_timeout :: rat
  capability_timeouts :: "((string \<times> string) \<times> rat) list"

definition timeout_entry_ok :: "(string \<times> string) set option \<Rightarrow> (string \<times> string) \<times> rat \<Rightarrow> bool" where
  "timeout_entry_ok targets kv \<longleftrightarrow> (case kv of ((a, b), seconds) \<Rightarrow>
     a \<noteq> [] \<and> length a \<le> 256 \<and> b \<noteq> [] \<and> length b \<le> 256
     \<and> (case targets of None \<Rightarrow> True | Some ts \<Rightarrow> (a, b) \<in> ts) \<and> 0 < seconds \<and> seconds \<le> 90)"

definition freeze_execution_timeouts ::
  "(string \<times> string) set option \<Rightarrow> ((string \<times> string) \<times> rat) list option \<Rightarrow> ((string \<times> string) \<times> rat) list res" where
  "freeze_execution_timeouts targets m = (case m of
     None \<Rightarrow> Inr []
   | Some d \<Rightarrow>
       rbind (ensure (length d \<le> 128) ValueError) (\<lambda>_.
       rbind (for_each (\<lambda>kv. ensure (timeout_entry_ok targets kv) ValueError) d) (\<lambda>_. Inr d)))"

definition make_budget_policy :: "rat \<Rightarrow> ((string \<times> string) \<times> rat) list option \<Rightarrow> budget_policy res" where
  "make_budget_policy command timeouts =
     rbind (ensure (0 < command \<and> command \<le> 90) ValueError) (\<lambda>_.
     rbind (freeze_execution_timeouts None timeouts) (\<lambda>frozen.
     Inr \<lparr>command_timeout = command, capability_timeouts = frozen\<rparr>))"

definition budget_seconds :: "budget_policy \<Rightarrow> invocation_origin \<Rightarrow> rat \<Rightarrow> (string \<times> string) \<Rightarrow> rat" where
  "budget_seconds p og handler_timeout target =
     (if og = COMMAND then command_timeout p
      else if og = WEB_PUBLIC then
        (case map_of (capability_timeouts p) target of Some declared \<Rightarrow> declared | None \<Rightarrow> min 30 handler_timeout)
      else handler_timeout)"

definition budget_deadline ::
  "budget_policy \<Rightarrow> invocation_origin \<Rightarrow> rat \<Rightarrow> rat \<Rightarrow> rat option \<Rightarrow> (string \<times> string) \<Rightarrow> rat" where
  "budget_deadline p og t handler_timeout trusted target =
     (let d = t + budget_seconds p og handler_timeout target in
      case trusted of None \<Rightarrow> d | Some td \<Rightarrow> min d td)"

section \<open>Collection contexts\<close>

datatype owner_scope = OwnedPublic | OwnedUser string | OwnedAuthorized string "(string \<times> int) option"

record collection_view =
  key_module :: string
  key_scope :: owner_scope
  collection_deadline :: "rat option"
  collection_invocation :: "view_ref option"

definition collection_scope_ok :: "owner_scope \<Rightarrow> invocation_view \<Rightarrow> bool" where
  "collection_scope_ok sc v = (case sc of
     OwnedPublic \<Rightarrow> grant_id v = None \<and> grant_revision v = None
   | OwnedUser u \<Rightarrow> actor_id v = Some u \<and> grant_id v = None \<and> grant_revision v = None
   | OwnedAuthorized u g \<Rightarrow> actor_id v = Some u \<and> g \<noteq> None
       \<and> grant_id v = map_option fst g \<and> grant_revision v = map_option snd g)"

definition collection_deadline_ok :: "rat \<Rightarrow> rat option \<Rightarrow> rat option \<Rightarrow> unit res" where
  "collection_deadline_ok t cd vd =
     rbind (ensure (vd = None \<or> cd \<noteq> None) InvalidInvocation) (\<lambda>_.
     case cd of
       None \<Rightarrow> Inr ()
     | Some d \<Rightarrow>
         rbind (ensure (0 < d) InvalidInvocation) (\<lambda>_.
         rbind (ensure (case vd of None \<Rightarrow> True | Some x \<Rightarrow> d \<le> x) InvalidInvocation) (\<lambda>_.
         ensure (t < d) InvalidInvocation)))"

definition require_collection_context :: "env \<Rightarrow> issuer \<Rightarrow> collection_view \<Rightarrow> view_ref res" where
  "require_collection_context e s c = (case collection_invocation c of
     None \<Rightarrow> Inl InvalidInvocation
   | Some r \<Rightarrow>
       rbind (require_view e s r) (\<lambda>_.
       let v = contents r in
       rbind (ensure (origin v = SCHEDULER) InvalidInvocation) (\<lambda>_.
       rbind (ensure (view_module v = key_module c) InvalidInvocation) (\<lambda>_.
       rbind (ensure (collection_scope_ok (key_scope c) v) InvalidInvocation) (\<lambda>_.
       rbind (collection_deadline_ok (now e) (collection_deadline c) (deadline v)) (\<lambda>_. Inr r))))))"

end
