(* ===== verification/Admission.thy ===== *)
theory Admission
  imports Registry Issuer "HOL-Library.Char_ord" "HOL-Library.List_Lexorder" "HOL-Library.Product_Lexorder"
begin

text \<open>
  The admission gate (\<open>core/admission.py\<close>) with the leases and permits of
  \<open>core/ports.py\<close> and \<open>core/ports_jobs.py\<close>: which module runs are open for work, which
  lease objects the gate has issued, and the checks every admitted piece of work repeats.

  The controller shares the registry and the issuer, so its state contains theirs.  What it
  asks of the lifecycle, of the health service, of the scheduler's claim prover and of the
  clock is gathered in an \<open>adm_env\<close>: an operation reads them at one instant.  Leases are
  compared by identity; they are objects whose address the controller allocates, and the
  issuer's sidecar of a view holds that address.  \<open>uuid4().hex\<close> is an argument.
\<close>

section \<open>Leases\<close>

record run_identity =
  runtime_id :: string
  run_module :: string
  run_epoch :: int

type_synonym run_ref = "run_identity obj"

record dependency_identity =
  dep_module :: string
  dep_epoch :: int
  dep_capability :: string
  dep_health :: int

datatype delivery_kind = EVENT | DIGEST

record delivery_member =
  event_key :: string
  event_version :: int
  member_subscription :: string
  member_subscription_revision :: int
  member_owner :: string
  member_module :: string
  member_grant :: "string option"
  member_grant_revision :: "int option"
  member_adapter :: string
  member_conversation :: string
  member_route :: string
  member_kind :: conversation_kind
  member_scope :: subscription_scope

text \<open>
  The four lease classes share an identifier, the module with its epoch, the registry
  revision and the dependencies (always empty for a job, which has no such field).
\<close>

datatype lease_class =
    AdmissionLease (lease_invocation: string) (lease_capability: string) (lease_health: int)
  | JobRunLease (job_invocation: string) (job_claim: job_proof) (job_deadline: "rat option")
  | ScheduledLease (execution_token: string) (lease_collector: string) (lease_version: int) (background: bool)
  | DeliveryLease (work_id: string) (work_kind: delivery_kind) (delivery_collector: string)
      (delivery_version: int) (lease_members: "delivery_member list")

record lease =
  lease_id :: string
  lease_module :: string
  lease_epoch :: int
  lease_revision :: int
  lease_dependencies :: "dependency_identity list"
  lease_class :: lease_class

type_synonym lease_ref = "lease obj"

record send_approval =
  claim_id :: string
  approved_members :: "delivery_member list"

record send_permit =
  permit_id :: string
  permit_lease :: string
  permit_module :: string
  permit_epoch :: int
  permit_members :: "delivery_member list"

text \<open>A scheduler claim: the fields the gate reads.\<close>

record collection_key =
  ck_module :: string
  ck_collector :: string
  ck_version :: int
  ck_source :: string
  ck_scope :: owner_scope

record execution_lease =
  ex_key :: collection_key
  ex_token :: string
  ex_epoch :: int
  ex_expires :: rat
  ex_background :: "(int \<times> int) option"

fun scope_kind :: "owner_scope \<Rightarrow> ownership_kind" where
  "scope_kind OwnedPublic = PublicKind"
| "scope_kind (OwnedUser _) = UserKind"
| "scope_kind (OwnedAuthorized _ _) = AuthorizedKind"

section \<open>Checks at construction\<close>

definition lease_text :: "string \<Rightarrow> unit res" where
  "lease_text s = ensure (\<not> blank s \<and> length s \<le> 512
     \<and> \<not> list_ex (\<lambda>c. (of_char c :: nat) < 32 \<or> (of_char c :: nat) = 127) s) ValueError"

definition validate_module_id :: "string \<Rightarrow> unit res" where
  "validate_module_id s = ensure (fullmatch (Seq IDENTIFIER (opt (Seq (lit (CHR ''/'')) IDENTIFIER))) s) ValueError"

definition non_negative_int :: "int \<Rightarrow> unit res" where
  "non_negative_int i = ensure (0 \<le> i) ValueError"

definition check_DependencyIdentity :: "dependency_identity \<Rightarrow> unit res" where
  "check_DependencyIdentity d =
     rbind (validate_module_id (dep_module d)) (\<lambda>_.
     rbind (require_positive_int (dep_epoch d)) (\<lambda>_.
     rbind (lease_text (dep_capability d)) (\<lambda>_. non_negative_int (dep_health d))))"

definition lease_dependencies_ok :: "dependency_identity list \<Rightarrow> unit res" where
  "lease_dependencies_ok ds = ensure (distinct (map (\<lambda>d. (dep_module d, dep_capability d)) ds)) ValueError"

definition delivery_members_ok :: "bool \<Rightarrow> delivery_member list \<Rightarrow> unit res" where
  "delivery_members_ok allow_empty ms =
     rbind (ensure (allow_empty \<or> ms \<noteq> []) ValueError) (\<lambda>_.
     ensure (distinct (map (\<lambda>d. (event_key d, event_version d, member_subscription d, member_subscription_revision d)) ms))
       ValueError)"

definition check_DeliveryMemberIdentity :: "delivery_member \<Rightarrow> unit res" where
  "check_DeliveryMemberIdentity d =
     rbind (for_each lease_text [event_key d, member_subscription d, member_owner d, member_adapter d,
              member_conversation d, member_route d]) (\<lambda>_.
     rbind (require_positive_int (event_version d)) (\<lambda>_.
     rbind (require_positive_int (member_subscription_revision d)) (\<lambda>_.
     rbind (validate_module_id (member_module d)) (\<lambda>_.
     rbind (ensure ((member_grant d = None) = (member_grant_revision d = None)) ValueError) (\<lambda>_.
     rbind (optional lease_text (member_grant d)) (\<lambda>_.
     rbind (optional require_positive_int (member_grant_revision d)) (\<lambda>_.
     if member_scope d = SCOPE_AUTHORIZED then
       rbind (ensure (member_kind d = DIRECT) ValueError) (\<lambda>_. ensure (member_grant d \<noteq> None) ValueError)
     else Inr ())))))))"

definition check_RunIdentity :: "run_identity \<Rightarrow> unit res" where
  "check_RunIdentity r =
     rbind (lease_text (runtime_id r)) (\<lambda>_.
     rbind (validate_module_id (run_module r)) (\<lambda>_. require_positive_int (run_epoch r)))"

text \<open>The checks of the four lease classes; a job lease has none.\<close>

definition check_AdmissionLease :: "lease \<Rightarrow> string \<Rightarrow> string \<Rightarrow> int \<Rightarrow> unit res" where
  "check_AdmissionLease l i c h =
     rbind (lease_text (lease_id l)) (\<lambda>_.
     rbind (lease_text i) (\<lambda>_.
     rbind (validate_module_id (lease_module l)) (\<lambda>_.
     rbind (require_positive_int (lease_epoch l)) (\<lambda>_.
     rbind (lease_text c) (\<lambda>_.
     rbind (non_negative_int h) (\<lambda>_.
     rbind (non_negative_int (lease_revision l)) (\<lambda>_.
     lease_dependencies_ok (lease_dependencies l))))))))"

definition check_ScheduledLease :: "lease \<Rightarrow> string \<Rightarrow> string \<Rightarrow> int \<Rightarrow> unit res" where
  "check_ScheduledLease l token c kv =
     rbind (lease_text (lease_id l)) (\<lambda>_.
     rbind (lease_text token) (\<lambda>_.
     rbind (validate_module_id (lease_module l)) (\<lambda>_.
     rbind (require_positive_int (lease_epoch l)) (\<lambda>_.
     rbind (non_negative_int (lease_revision l)) (\<lambda>_.
     rbind (lease_text c) (\<lambda>_.
     rbind (require_positive_int kv) (\<lambda>_.
     lease_dependencies_ok (lease_dependencies l))))))))"

definition check_DeliveryLease :: "lease \<Rightarrow> string \<Rightarrow> delivery_kind \<Rightarrow> string \<Rightarrow> int \<Rightarrow> delivery_member list \<Rightarrow> unit res" where
  "check_DeliveryLease l w k c kv ms =
     rbind (lease_text (lease_id l)) (\<lambda>_.
     rbind (lease_text w) (\<lambda>_.
     rbind (validate_module_id (lease_module l)) (\<lambda>_.
     rbind (require_positive_int (lease_epoch l)) (\<lambda>_.
     rbind (non_negative_int (lease_revision l)) (\<lambda>_.
     rbind (lease_text c) (\<lambda>_.
     rbind (require_positive_int kv) (\<lambda>_.
     rbind (lease_dependencies_ok (lease_dependencies l)) (\<lambda>_.
     rbind (delivery_members_ok False ms) (\<lambda>_.
     rbind (ensure (list_all (\<lambda>d. member_module d = lease_module l) ms) ValueError) (\<lambda>_.
     ensure (k = EVENT \<longrightarrow> length ms = 1) ValueError))))))))))"

definition check_lease :: "lease \<Rightarrow> unit res" where
  "check_lease l = (case lease_class l of
     AdmissionLease i c h \<Rightarrow> check_AdmissionLease l i c h
   | JobRunLease _ _ _ \<Rightarrow> Inr ()
   | ScheduledLease t c kv _ \<Rightarrow> check_ScheduledLease l t c kv
   | DeliveryLease w k c kv ms \<Rightarrow> check_DeliveryLease l w k c kv ms)"

definition check_SendPermit :: "send_permit \<Rightarrow> unit res" where
  "check_SendPermit p =
     rbind (lease_text (permit_id p)) (\<lambda>_.
     rbind (lease_text (permit_lease p)) (\<lambda>_.
     rbind (validate_module_id (permit_module p)) (\<lambda>_.
     rbind (require_positive_int (permit_epoch p)) (\<lambda>_.
     rbind (delivery_members_ok True (permit_members p)) (\<lambda>_.
     ensure (list_all (\<lambda>d. member_module d = permit_module p) (permit_members p)) ValueError)))))"

section \<open>State\<close>

record lease_record =
  rec_lease :: lease_ref
  rec_identity :: run_ref
  rec_view :: "view_ref option"
  rec_capability :: "string option"
  rec_collector :: "string option"
  rec_execution :: "execution_lease option"

record controller =
  ctl_registry :: registry
  ctl_issuer :: issuer
  release_observer :: nat
  open_gates :: "string \<rightharpoonup> run_ref"
  lease_records :: "string \<rightharpoonup> lease_record"
  view_leases :: "string \<rightharpoonup> string"
  mutation_token :: "nat option"
  next_lease :: nat

datatype health_status = AVAILABLE | UNAVAILABLE | UNKNOWN

text \<open>
  \<open>health_of\<close> answers with a status and a revision or raises; \<open>claim_prover\<close> is absent
  when none is configured; \<open>utc_now\<close> is \<open>None\<close> when the clock returns no aware time;
  \<open>digest_of\<close> is the hash of a job declaration.
\<close>

record adm_env =
  view_env :: env
  current_run :: "string \<Rightarrow> run_ref option"
  run_active :: "run_ref \<Rightarrow> bool"
  health_of :: "string \<Rightarrow> string \<Rightarrow> (health_status \<times> int) res"
  claim_prover :: "(execution_lease \<Rightarrow> bool res) option"
  utc_now :: "rat option"
  digest_of :: "job_descriptor \<Rightarrow> string"

definition controller_init :: "registry \<Rightarrow> issuer \<Rightarrow> nat \<Rightarrow> controller" where
  "controller_init r i ob = \<lparr>ctl_registry = r, ctl_issuer = add_release_observer ob i, release_observer = ob,
     open_gates = Map.empty, lease_records = Map.empty, view_leases = Map.empty, mutation_token = None, next_lease = 0\<rparr>"

section \<open>Lookups\<close>

definition registered :: "controller \<Rightarrow> string \<Rightarrow> registered_module res" where
  "registered s mid =
     reraise (\<lambda>e. e = RegistryError) AdmissionError
       (rbind (snapshot_module (snapshot (ctl_registry s)) mid) (\<lambda>m. Inr (contents m)))"

definition active_identity :: "adm_env \<Rightarrow> controller \<Rightarrow> registered_module \<Rightarrow> run_ref res" where
  "active_identity e s m = (case current_run e (module_id m) of
     None \<Rightarrow> Inl AdmissionError
   | Some r \<Rightarrow>
       if \<not> opt_is (open_gates s (module_id m)) r \<or> \<not> run_active e r \<or> \<not> enabled m
          \<or> epoch m \<noteq> run_epoch (contents r) then Inl AdmissionError
       else Inr r)"

definition capability_of :: "module_manifest \<Rightarrow> string \<Rightarrow> capability_descriptor res" where
  "capability_of m cid =
     rbind (validate_module 0 m) (\<lambda>m'.
     case find (\<lambda>c. cap_id c = cid) (capabilities m') of None \<Rightarrow> Inl AdmissionError | Some c \<Rightarrow> Inr c)"

definition available_health :: "adm_env \<Rightarrow> string \<Rightarrow> string \<Rightarrow> int res" where
  "available_health e mid cid = (case health_of e mid cid of
     Inl _ \<Rightarrow> Inl CapabilityUnavailable
   | Inr (status, rv) \<Rightarrow>
       rbind (ensure (0 \<le> rv) CapabilityUnavailable) (\<lambda>_.
       rbind (ensure (status = AVAILABLE) CapabilityUnavailable) (\<lambda>_. Inr rv)))"

text \<open>One iteration of the loop over the required capabilities.\<close>

definition dependency_of :: "adm_env \<Rightarrow> controller \<Rightarrow> string \<Rightarrow> module_manifest \<Rightarrow> capability_dependency \<Rightarrow> dependency_identity res" where
  "dependency_of e s mid m req =
     (let (tid, tcap) = (case req of
            CapabilityReference a b \<Rightarrow> (a, b)
          | LocalCapability c \<Rightarrow> (global_id (before_first (CHR ''/'') mid) (local_id m), c)) in
      rbind (registered s tid) (\<lambda>target.
      rbind (active_identity e s target) (\<lambda>r.
      rbind (ensure (list_ex (\<lambda>c. cap_id c = tcap) (capabilities (manifest target))) CapabilityUnavailable) (\<lambda>_.
      rbind (available_health e tid tcap) (\<lambda>rv.
      let d = \<lparr>dep_module = tid, dep_epoch = run_epoch (contents r), dep_capability = tcap, dep_health = rv\<rparr> in
      rbind (check_DependencyIdentity d) (\<lambda>_. Inr d))))))"

definition dependencies_of :: "adm_env \<Rightarrow> controller \<Rightarrow> string \<Rightarrow> module_manifest \<Rightarrow> capability_descriptor \<Rightarrow> dependency_identity list res" where
  "dependencies_of e s mid m c =
     rbind (validate_module 0 m) (\<lambda>m'.
     rbind (rmap (dependency_of e s mid m') (required_capabilities c)) (\<lambda>ds.
     Inr (sort_key (\<lambda>d. (dep_module d, dep_capability d)) ds)))"

definition schedule_of :: "module_manifest \<Rightarrow> string \<Rightarrow> int \<Rightarrow> schedule_descriptor res" where
  "schedule_of m collector kv =
     rbind (validate_module 0 m) (\<lambda>m'.
     case find (\<lambda>d. sched_collector d = collector \<and> sched_version d = kv) (schedules m') of
       None \<Rightarrow> Inl AdmissionError | Some d \<Rightarrow> Inr d)"

definition job_of :: "module_manifest \<Rightarrow> string \<Rightarrow> job_descriptor option" where
  "job_of m h = find (\<lambda>j. job_name j = h) (jobs m)"

definition proved :: "adm_env \<Rightarrow> execution_lease \<Rightarrow> unit res" where
  "proved e x = (case claim_prover e of
     None \<Rightarrow> Inl AdmissionError
   | Some prover \<Rightarrow> (case prover x of Inl _ \<Rightarrow> Inl AdmissionError | Inr ok \<Rightarrow> ensure ok AdmissionError))"

definition unexpired :: "adm_env \<Rightarrow> execution_lease \<Rightarrow> unit res" where
  "unexpired e x = (case utc_now e of None \<Rightarrow> Inl AdmissionError | Some t \<Rightarrow> ensure (t < ex_expires x) AdmissionError)"

section \<open>Recording\<close>

definition record_lease ::
  "lease_ref \<Rightarrow> run_ref \<Rightarrow> view_ref option \<Rightarrow> string option \<Rightarrow> string option \<Rightarrow> execution_lease option \<Rightarrow> controller \<Rightarrow> controller res" where
  "record_lease l r v cap col x s =
     rbind (optional (\<lambda>w. check_InvocationView (contents w)) v) (\<lambda>_.
     rbind (ensure (lease_records s (lease_id (contents l)) = None) RuntimeError) (\<lambda>_.
     Inr (s\<lparr>lease_records := (lease_records s)(lease_id (contents l) \<mapsto>
            \<lparr>rec_lease = l, rec_identity = r, rec_view = v, rec_capability = cap, rec_collector = col, rec_execution = x\<rparr>)\<rparr>)))"

text \<open>A new lease object, if its class accepts it.\<close>

definition new_lease :: "lease \<Rightarrow> controller \<Rightarrow> (controller \<times> lease_ref) res" where
  "new_lease l s = rbind (check_lease l) (\<lambda>_. Inr (s\<lparr>next_lease := Suc (next_lease s)\<rparr>, Obj (next_lease s) l))"

definition bind_view :: "view_ref \<Rightarrow> lease_ref \<Rightarrow> controller \<Rightarrow> controller" where
  "bind_view v l s = s\<lparr>view_leases := (view_leases s)(invocation_id (contents v) \<mapsto> lease_id (contents l))\<rparr>"

definition forget :: "string \<Rightarrow> controller \<Rightarrow> controller" where
  "forget lid s = (case lease_records s lid of
     None \<Rightarrow> s
   | Some rec \<Rightarrow>
       let s' = s\<lparr>lease_records := (lease_records s)(lid := None)\<rparr> in
       (case rec_view rec of
          None \<Rightarrow> s'
        | Some v \<Rightarrow> if view_leases s (invocation_id (contents v)) = Some lid
                   then s'\<lparr>view_leases := (view_leases s)(invocation_id (contents v) := None)\<rparr> else s'))"

section \<open>Admitting\<close>

text \<open>
  The part of \<open>admit\<close> before the lease is attached: the lease it builds and the run it
  belongs to.
\<close>

definition admit_lease :: "adm_env \<Rightarrow> string \<Rightarrow> view_ref \<Rightarrow> string \<Rightarrow> controller \<Rightarrow> (lease \<times> run_ref) res" where
  "admit_lease e lid view cid s = (let v = contents view; i = invocation_id v in
     rbind (check_InvocationView v) (\<lambda>_.
     rbind (reraise is_InvalidInvocation AdmissionError (require_view (view_env e) (ctl_issuer s) view)) (\<lambda>_.
     rbind (ensure (cid \<noteq> [] \<and> view_module v \<noteq> [] \<and> capability_id v = Some cid) AdmissionError) (\<lambda>_.
     rbind (registered s (view_module v)) (\<lambda>m.
     rbind (active_identity e s m) (\<lambda>r.
     rbind (ensure (module_epoch v = run_epoch (contents r)) AdmissionError) (\<lambda>_.
     rbind (ensure (view_leases s i = None) AdmissionError) (\<lambda>_.
     rbind (lease_for (view_env e) (ctl_issuer s) view) (\<lambda>held.
     rbind (ensure (held = None) AdmissionError) (\<lambda>_.
     rbind (capability_of (manifest m) cid) (\<lambda>c.
     rbind (available_health e (module_id m) cid) (\<lambda>h.
     rbind (dependencies_of e s (module_id m) (manifest m) c) (\<lambda>ds.
     Inr (\<lparr>lease_id = lid, lease_module = module_id m, lease_epoch = run_epoch (contents r),
            lease_revision = revision (snapshot (ctl_registry s)), lease_dependencies = ds,
            lease_class = AdmissionLease i cid h\<rparr>, r))))))))))))))"

text \<open>
  \<open>admit\<close>: when recording fails after the lease was attached, the attachment is undone.
  The outcome is returned with the state.
\<close>

definition admit :: "adm_env \<Rightarrow> string \<Rightarrow> view_ref \<Rightarrow> string \<Rightarrow> controller \<Rightarrow> controller \<times> lease_ref res" where
  "admit e lid view cid s =
     (case rbind (admit_lease e lid view cid s) (\<lambda>(l, r).
             rbind (new_lease l s) (\<lambda>(s1, lr).
             rbind (attach_lease (view_env e) view (addr lr) (ctl_issuer s1)) (\<lambda>i.
             Inr (s1\<lparr>ctl_issuer := i\<rparr>, lr, r)))) of
        Inl x \<Rightarrow> (s, Inl x)
      | Inr (s2, lr, r) \<Rightarrow>
          (case record_lease lr r (Some view) (Some cid) None None s2 of
             Inr s3 \<Rightarrow> (bind_view view lr s3, Inr lr)
           | Inl x \<Rightarrow>
               (case detach_lease_for_cleanup view (addr lr) (ctl_issuer s2) of
                  Inl y \<Rightarrow> (s2, Inl y)
                | Inr (i, _) \<Rightarrow> (s2\<lparr>ctl_issuer := i\<rparr>, Inl x))))"

text \<open>\<open>admit_job\<close>: a failure to record leaves the lease attached.\<close>

definition admit_job_lease :: "adm_env \<Rightarrow> string \<Rightarrow> view_ref \<Rightarrow> controller \<Rightarrow> (lease \<times> run_ref) res" where
  "admit_job_lease e lid view s = (let v = contents view in
     rbind (job_binding (view_env e) (ctl_issuer s) view) (\<lambda>p.
     rbind (ensure (origin v = JOB \<and> actor_id v = Some (proof_owner p)) AdmissionError) (\<lambda>_.
     rbind (registered s (view_module v)) (\<lambda>m.
     rbind (active_identity e s m) (\<lambda>r.
     rbind (ensure (case job_of (manifest m) (proof_handler p) of None \<Rightarrow> False
              | Some j \<Rightarrow> module_epoch v = run_epoch (contents r) \<and> digest_of e j = proof_digest p) AdmissionError) (\<lambda>_.
     rbind (lease_for (view_env e) (ctl_issuer s) view) (\<lambda>held.
     rbind (ensure (held = None) AdmissionError) (\<lambda>_.
     Inr (\<lparr>lease_id = lid, lease_module = view_module v, lease_epoch = module_epoch v,
            lease_revision = revision (snapshot (ctl_registry s)), lease_dependencies = [],
            lease_class = JobRunLease (invocation_id v) p (deadline v)\<rparr>, r)))))))))"

definition admit_job :: "adm_env \<Rightarrow> string \<Rightarrow> view_ref \<Rightarrow> controller \<Rightarrow> controller \<times> lease_ref res" where
  "admit_job e lid view s =
     (case rbind (admit_job_lease e lid view s) (\<lambda>(l, r).
             rbind (new_lease l s) (\<lambda>(s1, lr).
             rbind (attach_lease (view_env e) view (addr lr) (ctl_issuer s1)) (\<lambda>i.
             Inr (s1\<lparr>ctl_issuer := i\<rparr>, lr, r)))) of
        Inl x \<Rightarrow> (s, Inl x)
      | Inr (s2, lr, r) \<Rightarrow>
          (case record_lease lr r (Some view) None None None s2 of
             Inr s3 \<Rightarrow> (bind_view view lr s3, Inr lr)
           | Inl x \<Rightarrow> (s2, Inl x)))"

definition admit_schedule :: "adm_env \<Rightarrow> string \<Rightarrow> execution_lease \<Rightarrow> string \<Rightarrow> controller \<Rightarrow> (controller \<times> lease_ref) res" where
  "admit_schedule e lid x collector s = (let k = ex_key x in
     rbind (proved e x) (\<lambda>_.
     rbind (unexpired e x) (\<lambda>_.
     rbind (registered s (ck_module k)) (\<lambda>m.
     rbind (active_identity e s m) (\<lambda>r.
     rbind (ensure (ex_epoch x = run_epoch (contents r)) AdmissionError) (\<lambda>_.
     rbind (schedule_of (manifest m) collector (ck_version k)) (\<lambda>d.
     rbind (ensure (sched_source d = ck_source k \<and> scope_kind (ck_scope k) = shared_scope d) AdmissionError) (\<lambda>_.
     let bg = (sched_trigger d = BACKGROUND) in
     rbind (ensure (bg = (ex_background x \<noteq> None)) AdmissionError) (\<lambda>_.
     rbind (new_lease \<lparr>lease_id = lid, lease_module = module_id m, lease_epoch = run_epoch (contents r),
              lease_revision = revision (snapshot (ctl_registry s)), lease_dependencies = [],
              lease_class = ScheduledLease (ex_token x) collector (ck_version k) bg\<rparr> s) (\<lambda>(s1, lr).
     rbind (record_lease lr r None None (Some collector) (Some x) s1) (\<lambda>s2. Inr (s2, lr))))))))))))"

definition admit_delivery ::
  "adm_env \<Rightarrow> string \<Rightarrow> string \<Rightarrow> delivery_kind \<Rightarrow> string \<Rightarrow> string \<Rightarrow> int \<Rightarrow> delivery_member list \<Rightarrow> controller \<Rightarrow>
   (controller \<times> lease_ref) res" where
  "admit_delivery e lid w k mid collector kv ms s =
     rbind (registered s mid) (\<lambda>m.
     rbind (active_identity e s m) (\<lambda>r.
     rbind (schedule_of (manifest m) collector kv) (\<lambda>_.
     rbind (new_lease \<lparr>lease_id = lid, lease_module = mid, lease_epoch = run_epoch (contents r),
              lease_revision = revision (snapshot (ctl_registry s)), lease_dependencies = [],
              lease_class = DeliveryLease w k collector kv ms\<rparr> s) (\<lambda>(s1, lr).
     rbind (record_lease lr r None None (Some collector) None s1) (\<lambda>s2. Inr (s2, lr))))))"

section \<open>Checking and releasing\<close>

definition require_record :: "controller \<Rightarrow> lease_ref \<Rightarrow> lease_record res" where
  "require_record s l = (case lease_records s (lease_id (contents l)) of
     None \<Rightarrow> Inl InvalidAdmissionLease
   | Some rec \<Rightarrow> if is_same (rec_lease rec) l then Inr rec else Inl InvalidAdmissionLease)"

text \<open>The block on the view of a record.\<close>

definition check_record_view :: "adm_env \<Rightarrow> controller \<Rightarrow> lease_ref \<Rightarrow> lease_record \<Rightarrow> unit res" where
  "check_record_view e s l rec = (case rec_view rec of
     None \<Rightarrow> Inr ()
   | Some v \<Rightarrow>
       reraise is_InvalidInvocation AdmissionError
         (rbind (require_view (view_env e) (ctl_issuer s) v) (\<lambda>_.
          rbind (lease_for (view_env e) (ctl_issuer s) v) (\<lambda>held.
          ensure (held = Some (addr l)) InvalidInvocation))))"

text \<open>The block that depends on the class of the lease.\<close>

definition check_lease_class :: "adm_env \<Rightarrow> controller \<Rightarrow> lease_ref \<Rightarrow> lease_record \<Rightarrow> registered_module \<Rightarrow> unit res" where
  "check_lease_class e s l rec m = (case lease_class (contents l) of
     AdmissionLease _ cid h \<Rightarrow>
       rbind (capability_of (manifest m) cid) (\<lambda>c.
       rbind (available_health e (module_id m) cid) (\<lambda>rv.
       rbind (ensure (rv = h) CapabilityUnavailable) (\<lambda>_.
       rbind (dependencies_of e s (module_id m) (manifest m) c) (\<lambda>ds.
       ensure (ds = lease_dependencies (contents l)) CapabilityUnavailable))))
   | JobRunLease _ p _ \<Rightarrow>
       ensure (case job_of (manifest m) (proof_handler p) of None \<Rightarrow> False
               | Some j \<Rightarrow> digest_of e j = proof_digest p \<and> claim_current (view_env e) p) AdmissionError
   | ScheduledLease _ c kv _ \<Rightarrow>
       rbind (schedule_of (manifest m) c kv) (\<lambda>_.
       case rec_execution rec of
         None \<Rightarrow> Inl AdmissionError
       | Some x \<Rightarrow> rbind (proved e x) (\<lambda>_. unexpired e x))
   | DeliveryLease _ _ c kv _ \<Rightarrow> rbind (schedule_of (manifest m) c kv) (\<lambda>_. Inr ()))"

definition lease_check :: "adm_env \<Rightarrow> controller \<Rightarrow> lease_ref \<Rightarrow> unit res" where
  "lease_check e s l =
     rbind (require_record s l) (\<lambda>rec.
     rbind (registered s (lease_module (contents l))) (\<lambda>m.
     rbind (active_identity e s m) (\<lambda>r.
     rbind (ensure (is_same (rec_identity rec) r \<and> lease_epoch (contents l) = run_epoch (contents r)) AdmissionError) (\<lambda>_.
     rbind (check_record_view e s l rec) (\<lambda>_. check_lease_class e s l rec m)))))"

text \<open>\<open>with commit_guard(lease): body\<close>.\<close>

definition commit_guard :: "adm_env \<Rightarrow> lease_ref \<Rightarrow> (controller \<Rightarrow> controller \<times> 'a res) \<Rightarrow> controller \<Rightarrow> controller \<times> 'a res" where
  "commit_guard e l body s = (case lease_check e s l of Inl x \<Rightarrow> (s, Inl x) | Inr _ \<Rightarrow> body s)"

definition release_lease :: "lease_ref \<Rightarrow> controller \<Rightarrow> controller res" where
  "release_lease l s = (case lease_records s (lease_id (contents l)) of
     None \<Rightarrow> Inr s
   | Some rec \<Rightarrow>
       rbind (ensure (is_same (rec_lease rec) l) InvalidAdmissionLease) (\<lambda>_.
       rbind (case rec_view rec of
                None \<Rightarrow> Inr (ctl_issuer s)
              | Some v \<Rightarrow> rbind (detach_lease_for_cleanup v (addr l) (ctl_issuer s)) (\<lambda>(i, _). Inr i)) (\<lambda>i.
       Inr (forget (lease_id (contents l)) (s\<lparr>ctl_issuer := i\<rparr>)))))"

text \<open>The observer the controller registers with the issuer; what it raises is dropped there.\<close>

definition on_invocation_release :: "view_ref \<Rightarrow> controller \<Rightarrow> controller" where
  "on_invocation_release v s = (case check_InvocationView (contents v) of
     Inl _ \<Rightarrow> s
   | Inr _ \<Rightarrow> (case view_leases s (invocation_id (contents v)) of None \<Rightarrow> s | Some lid \<Rightarrow> forget lid s))"

text \<open>The views a release of the issuer reported to one observer.\<close>

definition reported :: "nat \<Rightarrow> issuer \<Rightarrow> issuer \<Rightarrow> view_ref list" where
  "reported ob before after = map snd (filter (\<lambda>(ob', _). ob' = ob) (drop (length (observed before)) (observed after)))"

text \<open>\<open>ContextIssuer.release\<close> with the observer of the controller in place.\<close>

definition release_view :: "view_ref \<Rightarrow> controller \<Rightarrow> controller res" where
  "release_view v s =
     rbind (release v (ctl_issuer s)) (\<lambda>i.
     Inr (fold on_invocation_release (reported (release_observer s) (ctl_issuer s) i) (s\<lparr>ctl_issuer := i\<rparr>)))"

section \<open>Gates\<close>

record health_report =
  capability_health :: "(string \<times> (health_status \<times> string option)) list"

definition check_HealthReport :: "health_report \<Rightarrow> unit res" where
  "check_HealthReport h =
     rbind (for_each (\<lambda>(_, _, why). ensure (why \<noteq> Some []) ValueError) (capability_health h)) (\<lambda>_.
     ensure (list_all (\<lambda>(c, _). c \<noteq> []) (capability_health h)) TypeError)"

definition activate :: "adm_env \<Rightarrow> run_ref \<Rightarrow> health_report \<Rightarrow> controller \<Rightarrow> controller res" where
  "activate e r h s = (let mid = run_module (contents r) in
     rbind (check_HealthReport h) (\<lambda>_.
     rbind (ensure (run_active e r \<and> opt_is (current_run e mid) r) AdmissionError) (\<lambda>_.
     rbind (ensure (case open_gates s mid of None \<Rightarrow> True | Some old \<Rightarrow> is_same old r) AdmissionError) (\<lambda>_.
     rbind (registered s mid) (\<lambda>m.
     rbind (ensure (enabled m \<and> epoch m = run_epoch (contents r)) AdmissionError) (\<lambda>_.
     rbind (ensure (fst ` set (capability_health h) = cap_id ` set (capabilities (manifest m))) AdmissionError) (\<lambda>_.
     Inr (s\<lparr>open_gates := (open_gates s)(mid \<mapsto> r)\<rparr>))))))))"

definition close_gate :: "run_ref \<Rightarrow> string \<Rightarrow> controller \<Rightarrow> controller res" where
  "close_gate r reason s = (let mid = run_module (contents r) in
     rbind (ensure (\<not> blank reason) ValueError) (\<lambda>_.
     Inr (if opt_is (open_gates s mid) r then s\<lparr>open_gates := (open_gates s)(mid := None)\<rparr> else s)))"

text \<open>
  The mutation gate.  \<open>inherited\<close> is the token in the context of the calling task,
  \<open>token\<close> the one it puts there; \<open>None\<close> means that the task waits for the lock.
\<close>

definition mutation_enter :: "string \<Rightarrow> nat option \<Rightarrow> nat \<Rightarrow> controller \<Rightarrow> controller res option" where
  "mutation_enter owner inherited token s =
     (if blank owner then Some (Inl ValueError)
      else if inherited \<noteq> None \<and> inherited = mutation_token s then Some (Inl MutationReentryError)
      else if mutation_token s \<noteq> None then None
      else Some (Inr (s\<lparr>mutation_token := Some token\<rparr>)))"

definition mutation_exit :: "controller \<Rightarrow> controller" where
  "mutation_exit s = s\<lparr>mutation_token := None\<rparr>"

section \<open>Approving a send\<close>

datatype abort_reason = InvalidApprovalMembers | UnexpectedApprovalMembers | DispatchFailed exn

text \<open>
  What the callbacks did.  The approval arrives after an \<open>await\<close>, so the second check sees
  a later state and a later instant.  \<open>sender_result\<close> is an exception when the sender raised
  or returned nothing awaitable.
\<close>

record send_world =
  first_env :: adm_env
  first_state :: controller
  final_check :: "send_approval option res"
  second_env :: adm_env
  second_state :: controller
  sender_result :: "unit res"
  schedule_result :: "unit res"
  abort_result :: "unit res"

record send_outcome =
  send_result :: "send_permit option res"
  aborted :: "(send_approval \<times> abort_reason) list"
  scheduled :: "send_permit list"

definition send_stopped :: "send_permit option res \<Rightarrow> send_outcome" where
  "send_stopped r = \<lparr>send_result = r, aborted = [], scheduled = []\<rparr>"

text \<open>An approval that does not fit the lease: abort, and the abort's own exception wins.\<close>

definition send_refused :: "send_world \<Rightarrow> send_approval \<Rightarrow> abort_reason \<Rightarrow> send_outcome" where
  "send_refused w a why = \<lparr>send_result = (case abort_result w of Inl x \<Rightarrow> Inl x | Inr _ \<Rightarrow> Inl AdmissionError),
     aborted = [(a, why)], scheduled = []\<rparr>"

text \<open>The guarded block: the permit it would schedule.\<close>

definition dispatch :: "send_world \<Rightarrow> string \<Rightarrow> lease_ref \<Rightarrow> send_approval \<Rightarrow> send_permit res" where
  "dispatch w pid l a = (let c = contents l;
       p = \<lparr>permit_id = pid, permit_lease = lease_id c, permit_module = lease_module c, permit_epoch = lease_epoch c,
            permit_members = approved_members a\<rparr> in
     rbind (lease_check (second_env w) (second_state w) l) (\<lambda>_.
     rbind (check_SendPermit p) (\<lambda>_.
     rbind (sender_result w) (\<lambda>_.
     rbind (schedule_result w) (\<lambda>_. Inr p)))))"

text \<open>The approval may name members of a delivery lease only, and none for another lease.\<close>

definition members_refused :: "lease_ref \<Rightarrow> send_approval \<Rightarrow> abort_reason option" where
  "members_refused l a = (case lease_class (contents l) of
     DeliveryLease _ _ _ _ ms \<Rightarrow>
       if list_ex (\<lambda>d. d \<notin> set ms) (approved_members a) then Some InvalidApprovalMembers else None
   | _ \<Rightarrow> if approved_members a \<noteq> [] then Some UnexpectedApprovalMembers else None)"

definition approve_and_schedule_send :: "send_world \<Rightarrow> string \<Rightarrow> string \<Rightarrow> lease_ref \<Rightarrow> send_outcome" where
  "approve_and_schedule_send w name pid l =
     (if blank name then send_stopped (Inl ValueError)
      else case lease_check (first_env w) (first_state w) l of
        Inl x \<Rightarrow> send_stopped (Inl x)
      | Inr _ \<Rightarrow> (case final_check w of
          Inl x \<Rightarrow> send_stopped (Inl x)
        | Inr None \<Rightarrow> send_stopped (Inr None)
        | Inr (Some a) \<Rightarrow>
            (case members_refused l a of
               Some why \<Rightarrow> send_refused w a why
             | None \<Rightarrow> (case dispatch w pid l a of
                 Inr p \<Rightarrow> \<lparr>send_result = Inr (Some p), aborted = [], scheduled = [p]\<rparr>
               | Inl x \<Rightarrow> \<lparr>send_result = Inl x, aborted = [(a, DispatchFailed x)], scheduled = []\<rparr>))))"

end
