(* ===== verification/Effects.thy ===== *)
theory Effects
  imports Prelude
begin

text \<open>
  Operations that change a state and may raise after they have changed it: a function from the
  state to the state it leaves behind together with a result or an exception.  The weakest
  precondition of such an operation, for a condition on normal return and one on exceptions, is
  computed by rewriting with \<open>wp_simps\<close>; component proofs about such operations start there.
\<close>

named_theorems wp_simps \<open>weakest preconditions of operations with effects\<close>

type_synonym ('s, 'a) eff = "'s \<Rightarrow> 's \<times> 'a res"

definition eret :: "'a \<Rightarrow> ('s, 'a) eff" where
  "eret x s = (s, Inr x)"

definition eraise :: "exn \<Rightarrow> ('s, 'a) eff" where
  "eraise x s = (s, Inl x)"

definition eres :: "'a res \<Rightarrow> ('s, 'a) eff" where
  "eres r s = (s, r)"

definition eget :: "('s \<Rightarrow> 'a) \<Rightarrow> ('s, 'a) eff" where
  "eget f s = (s, Inr (f s))"

definition emod :: "('s \<Rightarrow> 's) \<Rightarrow> ('s, unit) eff" where
  "emod f s = (f s, Inr ())"

definition ebind :: "('s, 'a) eff \<Rightarrow> ('a \<Rightarrow> ('s, 'b) eff) \<Rightarrow> ('s, 'b) eff" where
  "ebind f g s = (case f s of (t, Inl x) \<Rightarrow> (t, Inl x) | (t, Inr a) \<Rightarrow> g a t)"

text \<open>\<open>try: f except: h\<close>; what \<open>f\<close> changed before it raised stays changed.\<close>

definition ecatch :: "('s, 'a) eff \<Rightarrow> (exn \<Rightarrow> ('s, 'a) eff) \<Rightarrow> ('s, 'a) eff" where
  "ecatch f h s = (case f s of (t, Inl x) \<Rightarrow> h x t | (t, Inr a) \<Rightarrow> (t, Inr a))"

text \<open>A guard, and a statement that runs under a condition.\<close>

definition eensure :: "bool \<Rightarrow> exn \<Rightarrow> ('s, unit) eff" where
  "eensure c x = eres (ensure c x)"

definition ewhen :: "bool \<Rightarrow> ('s, unit) eff \<Rightarrow> ('s, unit) eff" where
  "ewhen c f = (if c then f else eret ())"

text \<open>An operation on a part of the state that either changes the part or raises.\<close>

definition epart :: "('s \<Rightarrow> 'p) \<Rightarrow> ('p \<Rightarrow> 's \<Rightarrow> 's) \<Rightarrow> ('p \<Rightarrow> 'p res) \<Rightarrow> ('s, unit) eff" where
  "epart get put f s = (case f (get s) of Inl x \<Rightarrow> (s, Inl x) | Inr p \<Rightarrow> (put p s, Inr ()))"

definition wp :: "('s, 'a) eff \<Rightarrow> ('a \<Rightarrow> 's \<Rightarrow> bool) \<Rightarrow> (exn \<Rightarrow> 's \<Rightarrow> bool) \<Rightarrow> 's \<Rightarrow> bool" where
  "wp f Q E s = (case f s of (t, Inl x) \<Rightarrow> E x t | (t, Inr a) \<Rightarrow> Q a t)"

lemma wp_eret [wp_simps]: "wp (eret x) Q E s = Q x s"
  by (simp add: wp_def eret_def)

lemma wp_eraise [wp_simps]: "wp (eraise y) Q E s = E y s"
  by (simp add: wp_def eraise_def)

lemma wp_eget [wp_simps]: "wp (eget f) Q E s = Q (f s) s"
  by (simp add: wp_def eget_def)

lemma wp_emod [wp_simps]: "wp (emod g) Q E s = Q () (g s)"
  by (simp add: wp_def emod_def)

lemma wp_eres: "wp (eres r) Q E s = (case r of Inl x \<Rightarrow> E x s | Inr a \<Rightarrow> Q a s)"
  by (simp add: wp_def eres_def split: sum.split)

lemma wp_eres_iff [wp_simps]: "wp (eres r) Q E s \<longleftrightarrow> (\<forall>a. r = Inr a \<longrightarrow> Q a s) \<and> (\<forall>x. r = Inl x \<longrightarrow> E x s)"
  by (cases r) (simp_all add: wp_eres)

lemma wp_eensure [wp_simps]: "wp (eensure c x) Q E s \<longleftrightarrow> (c \<longrightarrow> Q () s) \<and> (\<not> c \<longrightarrow> E x s)"
  by (simp add: eensure_def wp_eres ensure_def)

lemma wp_ebind [wp_simps]: "wp (ebind f g) Q E s = wp f (\<lambda>a. wp (g a) Q E) E s"
  by (simp add: wp_def ebind_def split: prod.split sum.split)

lemma wp_ecatch [wp_simps]: "wp (ecatch f h) Q E s = wp f Q (\<lambda>x. wp (h x) Q E) s"
  by (simp add: wp_def ecatch_def split: prod.split sum.split)

lemma wp_if [wp_simps]: "wp (if c then f else g) Q E s \<longleftrightarrow> (c \<longrightarrow> wp f Q E s) \<and> (\<not> c \<longrightarrow> wp g Q E s)"
  by simp

lemma wp_ewhen [wp_simps]: "wp (ewhen c f) Q E s \<longleftrightarrow> (c \<longrightarrow> wp f Q E s) \<and> (\<not> c \<longrightarrow> Q () s)"
  by (simp add: ewhen_def wp_eret)

lemma wp_option [wp_simps]:
  "wp (case v of None \<Rightarrow> f | Some a \<Rightarrow> g a) Q E s \<longleftrightarrow> (v = None \<longrightarrow> wp f Q E s) \<and> (\<forall>a. v = Some a \<longrightarrow> wp (g a) Q E s)"
  by (cases v) simp_all

lemma wp_sum [wp_simps]:
  "wp (case v of Inl a \<Rightarrow> f a | Inr b \<Rightarrow> g b) Q E s \<longleftrightarrow> (\<forall>a. v = Inl a \<longrightarrow> wp (f a) Q E s) \<and> (\<forall>b. v = Inr b \<longrightarrow> wp (g b) Q E s)"
  by (cases v) simp_all

lemma wp_prod [wp_simps]: "wp (case v of (a, b) \<Rightarrow> f a b) Q E s = wp (f (fst v) (snd v)) Q E s"
  by (cases v) simp

lemma wp_epart [wp_simps]:
  "wp (epart get put f) Q E s \<longleftrightarrow> (\<forall>p. f (get s) = Inr p \<longrightarrow> Q () (put p s)) \<and> (\<forall>x. f (get s) = Inl x \<longrightarrow> E x s)"
  by (cases "f (get s)") (simp_all add: wp_def epart_def)

lemma wp_mono:
  "wp f Q E s \<Longrightarrow> (\<And>a t. Q a t \<Longrightarrow> Q' a t) \<Longrightarrow> (\<And>x t. E x t \<Longrightarrow> E' x t) \<Longrightarrow> wp f Q' E' s"
  by (auto simp: wp_def split: prod.splits sum.splits)

lemma wp_Inr: "wp f Q E s \<Longrightarrow> f s = (t, Inr a) \<Longrightarrow> Q a t"
  and wp_Inl: "wp f Q E s \<Longrightarrow> f s = (t, Inl x) \<Longrightarrow> E x t"
  by (simp_all add: wp_def)

lemma wp_run: "f s = (t, Inr a) \<Longrightarrow> wp f Q E s = Q a t"
  and wp_run_raise: "f s = (t, Inl x) \<Longrightarrow> wp f Q E s = E x t"
  by (simp_all add: wp_def)

lemma wp_exactly: "wp f (\<lambda>a t. r = Inr a \<and> t = u) (\<lambda>x t. r = Inl x \<and> t = u) s \<Longrightarrow> f s = (u, r)"
  by (auto simp: wp_def split: prod.splits sum.splits)

text \<open>What every outcome of an operation has in common.\<close>

definition leaves :: "('s, 'a) eff \<Rightarrow> 's \<Rightarrow> ('s \<Rightarrow> bool) \<Rightarrow> bool" where
  "leaves f s P \<longleftrightarrow> wp f (\<lambda>_. P) (\<lambda>_. P) s"

lemma leaves_iff: "leaves f s P \<longleftrightarrow> P (fst (f s))"
  by (simp add: leaves_def wp_def split: prod.split sum.split)

end
