(* ===== verification/Lifecycle.thy ===== *)
theory Lifecycle
  imports Admission Effects
begin

text \<open>
  The module lifecycle (\<open>core/lifecycle.py\<close>): which instance is installed for a module,
  the run it is in, the operation that owns its state, and the gates of admission it opens and
  closes.  The controller shares the registry, the issuer and the admission gate, so its state
  contains theirs, and what admission asks of the lifecycle is answered from that state
  (\<open>life_adm\<close>).

  A coroutine is cut at its \<open>await\<close>s.  Each part between two of them is one operation; the
  local variables that live across an \<open>await\<close> are a frame, and the point where the coroutine
  waits is a value of a datatype whose constructors carry the frame.  What the awaited task did,
  what a call of a module's method returned and which tasks are done are arguments.
  Instance records are mutable objects: the state maps their address to their contents.
\<close>

section \<open>State\<close>

type_synonym cap_health = "health_status \<times> string option"

datatype module_lifecycle = DISCOVERED | STARTING | ACTIVE | STOPPING | STOPPED | FAILED

text \<open>The module of a state is the key it is stored under; a scope is known by its address.\<close>

record lifecycle_state =
  lifecycle_enabled :: bool
  lifecycle :: module_lifecycle
  lifecycle_epoch :: int
  registry_revision :: int
  reason_code :: "string option"
  work_scope :: "nat option"
  identity :: "run_ref option"
  report :: "health_report option"
  report_revisions :: "(string \<rightharpoonup> int) option"
  cleanup_pending :: bool

text \<open>An instance is known by the methods it has that are callable, like a handler.\<close>

record instance_record =
  record_package :: string
  record_instance :: handler
  record_handlers :: "module_handlers obj option"
  installation_operation :: string
  record_manifest :: "module_manifest option"
  candidate_key :: "(string \<times> string \<times> string) option"
  candidate_cleanup_started :: bool
  start_attempted :: bool
  is_running :: bool
  stop_completed :: bool
  ever_active :: bool
  setup_task :: "nat option"
  stop_task :: "nat option"
  record_lifetime :: "nat option"

record life =
  ctl :: controller
  owner_address :: nat
  life_runtime :: string
  states :: "string \<rightharpoonup> lifecycle_state"
  instances :: "(string \<times> nat) list"
  instance_records :: "nat \<rightharpoonup> instance_record"
  candidates :: "((string \<times> string \<times> string) \<times> nat list) list"
  operations :: "string \<rightharpoonup> string"
  epochs :: "string \<rightharpoonup> int"
  lifetime_keys :: "nat \<rightharpoonup> string \<times> string \<times> string"
  revoked_lifetimes :: "nat list"
  cancelled_scopes :: "nat list"
  next_id :: nat

text \<open>
  \<open>outer_env\<close> supplies what the gate asks of others than the lifecycle; \<open>lease_at\<close> is the
  lease object at an address; \<open>scope_busy\<close> says whether a scope has unfinished tasks, which is
  both its \<open>tasks\<close> and its \<open>cleanup_pending\<close>.
\<close>

record life_env =
  outer_env :: adm_env
  health_query :: "(string \<Rightarrow> string \<Rightarrow> cap_health \<Rightarrow> int \<Rightarrow> (cap_health \<times> int) res) option"
  lease_at :: "nat \<Rightarrow> lease_ref"
  task_done :: "nat \<Rightarrow> bool"
  task_failed :: "nat \<Rightarrow> bool"
  scope_busy :: "nat \<Rightarrow> bool"

section \<open>The lifecycle as others see it\<close>

record lifecycle_env =
  lc_registry :: registry_snapshot
  lc_states :: "string \<rightharpoonup> lifecycle_state"

text \<open>\<open>LifecycleController.state\<close> and \<open>current_identity\<close>; an unknown module raises.\<close>

definition lifecycle_state_of :: "lifecycle_env \<Rightarrow> string \<Rightarrow> lifecycle_state res" where
  "lifecycle_state_of e mid = (case snapshot_module (lc_registry e) mid of
     Inl _ \<Rightarrow> Inl ModuleNotFound
   | Inr m \<Rightarrow> (let r = contents m in case lc_states e mid of
       None \<Rightarrow> Inr \<lparr>lifecycle_enabled = enabled r, lifecycle = (if enabled r then DISCOVERED else STOPPED), lifecycle_epoch = epoch r,
                 registry_revision = revision (lc_registry e), reason_code = None, work_scope = None, identity = None, report = None,
                 report_revisions = None, cleanup_pending = False\<rparr>
     | Some st \<Rightarrow> Inr (st\<lparr>lifecycle_enabled := enabled r, registry_revision := revision (lc_registry e),
                 lifecycle_epoch := max (lifecycle_epoch st) (epoch r)\<rparr>)))"

definition current_identity :: "lifecycle_env \<Rightarrow> string \<Rightarrow> run_ref option" where
  "current_identity e mid = Option.bind (lc_states e mid) identity"

definition life_view :: "life \<Rightarrow> lifecycle_env" where
  "life_view s = \<lparr>lc_registry = snapshot (ctl_registry (ctl s)), lc_states = states s\<rparr>"

definition is_active_identity :: "life \<Rightarrow> run_ref \<Rightarrow> bool" where
  "is_active_identity s r = (case states s (run_module (contents r)) of
     None \<Rightarrow> False
   | Some st \<Rightarrow> lifecycle st = ACTIVE \<and> opt_is (identity st) r \<and> \<not> cleanup_pending st)"

definition is_active_module :: "life \<Rightarrow> string \<Rightarrow> bool" where
  "is_active_module s mid = (case states s mid of None \<Rightarrow> False | Some st \<Rightarrow> lifecycle st = ACTIVE)"

definition capability_health_of :: "life_env \<Rightarrow> life \<Rightarrow> string \<Rightarrow> string \<Rightarrow> (cap_health \<times> int) res" where
  "capability_health_of e s mid cid = (case states s mid of
     None \<Rightarrow> Inl LifecycleError
   | Some st \<Rightarrow> (case report st of
       None \<Rightarrow> Inl LifecycleError
     | Some rep \<Rightarrow> (case (map_of (capability_health rep) cid, Option.bind (report_revisions st) (\<lambda>rs. rs cid)) of
         (Some h, Some n) \<Rightarrow>
           rbind (case health_query e of None \<Rightarrow> Inr (h, n) | Some q \<Rightarrow> q mid cid h n) (\<lambda>v.
           rbind (ensure (0 \<le> snd v) LifecycleError) (\<lambda>_. Inr v))
       | _ \<Rightarrow> Inl LifecycleError)))"

text \<open>What the admission gate asks of the lifecycle.\<close>

definition life_adm :: "life_env \<Rightarrow> life \<Rightarrow> adm_env" where
  "life_adm e s = (outer_env e)\<lparr>current_run := current_identity (life_view s), run_active := is_active_identity s,
     health_of := \<lambda>mid cid. rbind (capability_health_of e s mid cid) (\<lambda>(h, n). Inr (fst h, n))\<rparr>"

section \<open>Construction\<close>

definition finite_timeout :: "pyfloat \<Rightarrow> unit res" where
  "finite_timeout v = ensure (case v of Fin q \<Rightarrow> 0 \<le> q | _ \<Rightarrow> False) ValueError"

definition finite_positive :: "pyfloat \<Rightarrow> unit res" where
  "finite_positive v = ensure (case v of Fin q \<Rightarrow> 0 < q | _ \<Rightarrow> False) ValueError"

text \<open>\<open>rid\<close> is the runtime id when one is given, \<open>uid\<close> the fresh one.\<close>

definition life_init ::
  "nat \<Rightarrow> nat \<Rightarrow> pyfloat \<Rightarrow> pyfloat \<Rightarrow> string option \<Rightarrow> string \<Rightarrow> registry \<Rightarrow> issuer \<Rightarrow> life res" where
  "life_init self observer stop_timeout setup_timeout rid uid reg iss =
     rbind (finite_timeout stop_timeout) (\<lambda>_.
     rbind (finite_positive setup_timeout) (\<lambda>_.
     rbind (ensure (rid \<noteq> Some []) ValueError) (\<lambda>_.
     rbind (bind_lifecycle_owner self reg) (\<lambda>reg'.
     Inr \<lparr>ctl = controller_init reg' iss observer, owner_address = self,
          life_runtime = (case rid of None \<Rightarrow> uid | Some r \<Rightarrow> r), states = Map.empty, instances = [], instance_records = Map.empty,
          candidates = [], operations = Map.empty,
          epochs = map_of (map (\<lambda>(mid, m). (mid, epoch (contents m))) (snapshot_modules (snapshot reg))),
          lifetime_keys = Map.empty, revoked_lifetimes = [], cancelled_scopes = [], next_id = 0\<rparr>))))"

section \<open>Elementary operations\<close>

type_synonym 'a op = "(life, 'a) eff"

definition module_snapshot :: "string \<Rightarrow> (registry_snapshot \<times> registered_module) op" where
  "module_snapshot mid = ebind (eget (\<lambda>s. snapshot (ctl_registry (ctl s)))) (\<lambda>sn.
     eres (reraise (\<lambda>x. x = RegistryError) ModuleNotFound (rbind (snapshot_module sn mid) (\<lambda>m. Inr (sn, contents m)))))"

definition operation_text :: "string \<Rightarrow> unit res" where
  "operation_text t = ensure (\<not> blank t \<and> length t \<le> 256) ValueError"

definition set_state :: "string \<Rightarrow> lifecycle_state \<Rightarrow> unit op" where
  "set_state mid st = emod (\<lambda>s. s\<lparr>states := (states s)(mid \<mapsto> st)\<rparr>)"

definition drop_state :: "string \<Rightarrow> unit op" where
  "drop_state mid = emod (\<lambda>s. s\<lparr>states := (states s)(mid := None)\<rparr>)"

definition set_epoch :: "string \<Rightarrow> int \<Rightarrow> unit op" where
  "set_epoch mid n = emod (\<lambda>s. s\<lparr>epochs := (epochs s)(mid \<mapsto> n)\<rparr>)"

definition known_epoch :: "life \<Rightarrow> string \<Rightarrow> int" where
  "known_epoch s mid = (case epochs s mid of None \<Rightarrow> 0 | Some n \<Rightarrow> n)"

definition drop_operation :: "string \<Rightarrow> unit op" where
  "drop_operation mid = emod (\<lambda>s. s\<lparr>operations := (operations s)(mid := None)\<rparr>)"

definition update_instance :: "nat \<Rightarrow> (instance_record \<Rightarrow> instance_record) \<Rightarrow> unit op" where
  "update_instance i f = emod (\<lambda>s. s\<lparr>instance_records := (instance_records s)(i := map_option f (instance_records s i))\<rparr>)"

text \<open>The contents of an instance record the controller holds; such a record is always there.\<close>

definition the_record :: "nat \<Rightarrow> instance_record op" where
  "the_record i = ebind (eget (\<lambda>s. instance_records s i)) (\<lambda>x. case x of None \<Rightarrow> eraise AttributeError | Some r \<Rightarrow> eret r)"

definition fresh :: "nat op" where
  "fresh = ebind (eget next_id) (\<lambda>n. ebind (emod (\<lambda>s. s\<lparr>next_id := Suc n\<rparr>)) (\<lambda>_. eret n))"

definition new_identity :: "string \<Rightarrow> int \<Rightarrow> run_ref op" where
  "new_identity mid ep = ebind (eget (\<lambda>s. \<lparr>runtime_id = life_runtime s, run_module = mid, run_epoch = ep\<rparr>)) (\<lambda>r.
     ebind (eres (check_RunIdentity r)) (\<lambda>_. ebind fresh (\<lambda>n. eret (Obj n r))))"

definition close_run :: "run_ref \<Rightarrow> string \<Rightarrow> unit op" where
  "close_run r why = epart ctl (\<lambda>c s. s\<lparr>ctl := c\<rparr>) (close_gate r why)"

definition on_registry :: "(registry \<Rightarrow> registry res) \<Rightarrow> unit op" where
  "on_registry f = epart (\<lambda>s. ctl_registry (ctl s)) (\<lambda>r s. s\<lparr>ctl := (ctl s)\<lparr>ctl_registry := r\<rparr>\<rparr>) f"

text \<open>The same where the registry asks the lifecycle.\<close>

definition on_registry_with :: "(life \<Rightarrow> registry \<Rightarrow> registry res) \<Rightarrow> unit op" where
  "on_registry_with k s = on_registry (k s) s"

definition publish_projection :: "string \<Rightarrow> bool \<Rightarrow> int \<Rightarrow> int \<Rightarrow> registry_snapshot op" where
  "publish_projection mid b ep expected =
     ebind (on_registry (publish_lifecycle_projection mid b ep (Some expected))) (\<lambda>_. eget (\<lambda>s. snapshot (ctl_registry (ctl s))))"

definition cancel_scope :: "nat option \<Rightarrow> unit op" where
  "cancel_scope sc = (case sc of None \<Rightarrow> eret () | Some i \<Rightarrow> emod (\<lambda>s. s\<lparr>cancelled_scopes := List.insert i (cancelled_scopes s)\<rparr>))"

definition revoke_lifetime :: "nat option \<Rightarrow> unit op" where
  "revoke_lifetime t = (case t of None \<Rightarrow> eret () | Some i \<Rightarrow> emod (\<lambda>s. s\<lparr>revoked_lifetimes := List.insert i (revoked_lifetimes s)\<rparr>))"

definition pending_task :: "life_env \<Rightarrow> nat option \<Rightarrow> bool" where
  "pending_task e t = (case t of None \<Rightarrow> False | Some i \<Rightarrow> \<not> task_done e i)"

definition instance_cleanup_pending :: "life_env \<Rightarrow> life \<Rightarrow> string \<Rightarrow> bool" where
  "instance_cleanup_pending e s mid = (case Option.bind (map_of (instances s) mid) (instance_records s) of
     None \<Rightarrow> False
   | Some r \<Rightarrow> \<not> stop_completed r \<or> pending_task e (setup_task r) \<or> pending_task e (stop_task r))"

definition scope_cleanup_pending :: "life_env \<Rightarrow> lifecycle_state \<Rightarrow> bool" where
  "scope_cleanup_pending e st = (case work_scope st of None \<Rightarrow> False | Some i \<Rightarrow> scope_busy e i)"

section \<open>Ownership of operations and candidates\<close>

definition claim_operation :: "string \<Rightarrow> string \<Rightarrow> bool \<Rightarrow> unit op" where
  "claim_operation mid oper replace_terminal =
     ebind (eres (operation_text oper)) (\<lambda>_.
     ebind (eget (\<lambda>s. (operations s mid, states s mid))) (\<lambda>(held, st).
     ebind (eensure (held = None \<or> held = Some oper
              \<or> replace_terminal \<and> (case st of None \<Rightarrow> True | Some x \<Rightarrow> lifecycle x \<in> {DISCOVERED, STOPPED, FAILED})) LifecycleError) (\<lambda>_.
     emod (\<lambda>s. s\<lparr>operations := (operations s)(mid \<mapsto> oper)\<rparr>))))"

definition assert_operation :: "string \<Rightarrow> string \<Rightarrow> unit op" where
  "assert_operation mid oper = ebind (eget (\<lambda>s. operations s mid)) (\<lambda>held. eensure (held = Some oper) LifecycleError)"

definition assert_starting_candidate :: "string \<Rightarrow> string \<Rightarrow> run_ref \<Rightarrow> lifecycle_state op" where
  "assert_starting_candidate mid oper r =
     ebind (assert_operation mid oper) (\<lambda>_.
     ebind (eget (\<lambda>s. states s mid)) (\<lambda>st. case st of
       None \<Rightarrow> eraise LifecycleError
     | Some x \<Rightarrow> ebind (eensure (opt_is (identity x) r \<and> lifecycle x = STARTING) LifecycleError) (\<lambda>_. eret x)))"

definition candidates_under :: "life \<Rightarrow> string \<times> string \<times> string \<Rightarrow> nat list" where
  "candidates_under s k = (case map_of (candidates s) k of None \<Rightarrow> [] | Some is \<Rightarrow> is)"

definition candidates_for_module :: "life \<Rightarrow> string \<Rightarrow> (string \<times> string \<times> string) option \<Rightarrow> nat list" where
  "candidates_for_module s mid excluding =
     concat (map snd (filter (\<lambda>(k, _). fst (snd k) = mid \<and> Some k \<noteq> excluding) (candidates s)))"

definition without_candidate :: "string \<times> string \<times> string \<Rightarrow> nat \<Rightarrow> life \<Rightarrow> life" where
  "without_candidate k i s = (case map_of (candidates s) k of
     None \<Rightarrow> s
   | Some is \<Rightarrow> (let is' = removeAll i is in
       s\<lparr>candidates := (if is' = [] then AList.delete k (candidates s) else AList.update k is' (candidates s))\<rparr>))"

definition remove_candidate :: "string \<times> string \<times> string \<Rightarrow> nat \<Rightarrow> unit op" where
  "remove_candidate k i = emod (without_candidate k i)"

definition is_instance_owned :: "life \<Rightarrow> handler \<Rightarrow> bool" where
  "is_instance_owned s inst \<longleftrightarrow>
     list_ex (\<lambda>i. map_option record_instance (instance_records s i) = Some inst) (map snd (instances s) @ concat (map snd (candidates s)))"

definition validate_instance_methods :: "handler \<Rightarrow> unit res" where
  "validate_instance_methods inst =
     for_each (\<lambda>name. ensure (name \<in> set (callables inst)) TypeError) [''handlers'', ''start'', ''stop'', ''check_health'']"

definition validate_health :: "module_manifest \<Rightarrow> health_report option \<Rightarrow> health_report res" where
  "validate_health m h =
     rbind (validate_module 0 m) (\<lambda>m'. case h of
       None \<Rightarrow> Inl TypeError
     | Some rep \<Rightarrow>
         rbind (check_HealthReport rep) (\<lambda>_.
         rbind (ensure (fst ` set (capability_health rep) = cap_id ` set (capabilities m')) LifecycleError) (\<lambda>_. Inr rep)))"

section \<open>Adopting and installing an instance\<close>

text \<open>
  \<open>adopt_candidate\<close>: \<open>is_instance\<close> is \<open>isinstance(instance, ModuleInstance)\<close> and \<open>answer\<close> what
  \<open>instance.handlers()\<close> does: raise, return handlers, or return something else.  Whatever it
  raises, the record stays a candidate.
\<close>

definition new_lifetime :: "string \<times> string \<times> string \<Rightarrow> nat op" where
  "new_lifetime k = ebind fresh (\<lambda>n. ebind (emod (\<lambda>s. s\<lparr>lifetime_keys := (lifetime_keys s)(n \<mapsto> k)\<rparr>)) (\<lambda>_. eret n))"

definition adopt_candidate ::
  "bool \<Rightarrow> module_handlers obj option res \<Rightarrow> string \<Rightarrow> module_manifest \<Rightarrow> string \<Rightarrow> handler \<Rightarrow> nat option \<Rightarrow> module_handlers obj op" where
  "adopt_candidate is_instance answer pid m oper inst lifetime =
     ebind (eres (validate_module 0 m)) (\<lambda>m0.
     ebind (eensure (\<not> blank pid) ValueError) (\<lambda>_.
     ebind (eres (operation_text oper)) (\<lambda>_.
     let mid = global_id pid (local_id m0); key = (pid, mid, oper) in
     ebind (eget (\<lambda>s. case lifetime of None \<Rightarrow> True | Some t \<Rightarrow> lifetime_keys s t = Some key)) (\<lambda>fits.
     ebind (eensure fits LifecycleError) (\<lambda>_.
     ebind (eget (\<lambda>s. is_instance_owned s inst)) (\<lambda>owned.
     ebind (eensure (\<not> owned) LifecycleError) (\<lambda>_.
     ebind (case lifetime of None \<Rightarrow> new_lifetime key | Some t \<Rightarrow> eret t) (\<lambda>t.
     ebind fresh (\<lambda>i.
     ebind (emod (\<lambda>s. s\<lparr>
         instance_records := (instance_records s)(i \<mapsto> \<lparr>record_package = pid, record_instance = inst, record_handlers = None,
           installation_operation = oper, record_manifest = Some m0, candidate_key = Some key, candidate_cleanup_started = False,
           start_attempted = False, is_running = False, stop_completed = False, ever_active = False, setup_task = None, stop_task = None,
           record_lifetime = Some t\<rparr>),
         candidates := AList.update key (candidates_under s key @ [i]) (candidates s)\<rparr>)) (\<lambda>_.
     ebind (eensure is_instance TypeError) (\<lambda>_.
     ebind (eensure (''handlers'' \<in> set (callables inst)) TypeError) (\<lambda>_.
     ebind (eres answer) (\<lambda>given. case given of
       None \<Rightarrow> eraise TypeError
     | Some hs \<Rightarrow>
         ebind (update_instance i (\<lambda>r. r\<lparr>record_handlers := Some hs\<rparr>)) (\<lambda>_.
         ebind (eres (validate_instance_methods inst)) (\<lambda>_.
         ebind (eres (validate_handlers m0 (contents hs))) (\<lambda>_. eret hs))))))))))))))))"

text \<open>The candidate \<open>install_dormant\<close> takes over, or its refusal.\<close>

definition exact_candidate ::
  "string \<times> string \<times> string \<Rightarrow> handler \<Rightarrow> module_handlers obj \<Rightarrow> module_manifest \<Rightarrow> life \<Rightarrow> nat res" where
  "exact_candidate key inst hs m s = (let is = candidates_under s key in
     case find (\<lambda>i. map_option record_instance (instance_records s i) = Some inst) is of
       None \<Rightarrow> Inl LifecycleError
     | Some i \<Rightarrow> (case instance_records s i of
         None \<Rightarrow> Inl LifecycleError
       | Some r \<Rightarrow>
           rbind (ensure (\<not> candidate_cleanup_started r) LifecycleError) (\<lambda>_.
           rbind (ensure (opt_is (record_handlers r) hs) LifecycleError) (\<lambda>_.
           rbind (ensure (record_manifest r = Some m) LifecycleError) (\<lambda>_. Inr i)))))"

definition install_dormant :: "string \<Rightarrow> string \<Rightarrow> string \<Rightarrow> handler \<Rightarrow> module_handlers obj \<Rightarrow> bool \<Rightarrow> unit op" where
  "install_dormant pid mid oper inst hs is_instance =
     ebind (eres (check_ModuleHandlers (contents hs))) (\<lambda>_.
     ebind (module_snapshot mid) (\<lambda>(_, m).
     ebind (eres (operation_text oper)) (\<lambda>_.
     ebind (eensure (\<not> blank pid) ValueError) (\<lambda>_.
     ebind (eensure (mid = global_id pid (local_id (manifest m))) LifecycleError) (\<lambda>_.
     ebind (eensure is_instance TypeError) (\<lambda>_.
     ebind (eres (validate_instance_methods inst)) (\<lambda>_.
     ebind (eres (validate_handlers (manifest m) (contents hs))) (\<lambda>_.
     ebind (eget (\<lambda>s. states s mid)) (\<lambda>st.
     ebind (eensure (case st of None \<Rightarrow> True | Some x \<Rightarrow> lifecycle x \<notin> {ACTIVE, STARTING, STOPPING}) LifecycleError) (\<lambda>_.
     ebind (eensure (case st of None \<Rightarrow> True | Some x \<Rightarrow> \<not> cleanup_pending x) LifecycleError) (\<lambda>_.
     let key = (pid, mid, oper) in
     ebind (eget (exact_candidate key inst hs (manifest m))) (\<lambda>found.
     ebind (eres found) (\<lambda>i.
     ebind (eget (\<lambda>s. map_of (instances s) mid)) (\<lambda>existing.
     ebind (eensure (existing = None \<or> existing = Some i) LifecycleError) (\<lambda>_.
     ebind (eget (\<lambda>s. candidates_for_module s mid (Some key))) (\<lambda>others.
     ebind (eensure (others = []) LifecycleError) (\<lambda>_.
     ebind (claim_operation mid oper True) (\<lambda>_.
     ebind (on_registry (install_lifecycle_handlers mid (contents hs))) (\<lambda>_.
     ebind (emod (\<lambda>s. s\<lparr>instances := AList.update mid i (instances s)\<rparr>)) (\<lambda>_.
     ebind (remove_candidate key i) (\<lambda>_.
     ebind (eget (\<lambda>s. snapshot (ctl_registry (ctl s)))) (\<lambda>latest.
     ebind (eres (snapshot_module latest mid)) (\<lambda>installed.
     ebind (eget (\<lambda>s. max (known_epoch s mid) (epoch (contents installed)))) (\<lambda>ep.
     ebind (set_epoch mid ep) (\<lambda>_.
     ebind (set_state mid \<lparr>lifecycle_enabled = enabled (contents installed),
         lifecycle = (if enabled (contents installed) then DISCOVERED else STOPPED), lifecycle_epoch = ep,
         registry_revision = revision latest, reason_code = None, work_scope = None, identity = None, report = None,
         report_revisions = None, cleanup_pending = False\<rparr>) (\<lambda>_.
     drop_operation mid))))))))))))))))))))))))))"

section \<open>Calling a method of an instance\<close>

text \<open>
  \<open>_run_instance_method\<close> up to its wait.  \<open>answer\<close> is what the call of the method does: raise, or
  return, something that can be awaited or not.  The module the record is installed for is
  returned, since the second part compares the operation that owns that module.
\<close>

definition the_task :: "string \<Rightarrow> instance_record \<Rightarrow> nat option" where
  "the_task name r = (if name = ''stop'' then stop_task r else setup_task r)"

definition launch :: "life_env \<Rightarrow> bool res \<Rightarrow> nat \<Rightarrow> string \<Rightarrow> string \<Rightarrow> string op" where
  "launch e answer i name oper =
     ebind (eget (\<lambda>s. find (\<lambda>(_, j). j = i) (instances s))) (\<lambda>entry. case entry of
       None \<Rightarrow> eraise LifecycleError
     | Some (mid, _) \<Rightarrow>
         ebind (assert_operation mid oper) (\<lambda>_.
         ebind (the_record i) (\<lambda>r.
         if pending_task e (the_task name r) then eret mid
         else
           ebind (eensure (name \<in> set (callables (record_instance r))) LifecycleError) (\<lambda>_.
           ebind (eres answer) (\<lambda>awaitable.
           ebind (eensure awaitable TypeError) (\<lambda>_.
           ebind fresh (\<lambda>t.
           ebind (update_instance i (if name = ''stop'' then stop_task_update (\<lambda>_. Some t) else setup_task_update (\<lambda>_. Some t))) (\<lambda>_.
           eret mid))))))))"

text \<open>
  How the wait ended.  The task finished in time, with its result (a health report, for
  \<open>check_health\<close>); or the waiting task was cancelled, or the bound passed, and then the task was
  cancelled and drained: \<open>None\<close> when that took too long, else whether the task did not fail.
\<close>

datatype waited = Finished "health_report option res" | Interrupted "bool option" | Overdue "bool option"

definition complete_stop :: "nat \<Rightarrow> bool \<Rightarrow> unit op" where
  "complete_stop i c = ewhen c (update_instance i (stop_completed_update (\<lambda>_. True)))"

definition method_done :: "nat \<Rightarrow> string \<Rightarrow> string \<Rightarrow> string \<Rightarrow> waited \<Rightarrow> health_report option op" where
  "method_done i mid name oper w = (case w of
     Interrupted d \<Rightarrow> ebind (complete_stop i (name = ''stop'' \<and> d = Some True)) (\<lambda>_. eraise CancelledError)
   | Overdue d \<Rightarrow> ebind (complete_stop i (name = ''stop'' \<and> d = Some True)) (\<lambda>_. eraise LifecycleOperationTimeout)
   | Finished r \<Rightarrow>
       ebind (assert_operation mid oper) (\<lambda>_.
       ebind (eres r) (\<lambda>h. ebind (complete_stop i (name = ''stop'')) (\<lambda>_. eret h))))"

text \<open>The callback of a task that is done.\<close>

definition clear_task_ref :: "life_env \<Rightarrow> nat \<Rightarrow> bool \<Rightarrow> nat \<Rightarrow> unit op" where
  "clear_task_ref e i is_stop t =
     ebind (complete_stop i (is_stop \<and> task_done e t \<and> \<not> task_failed e t)) (\<lambda>_.
     update_instance i (\<lambda>r.
       if is_stop then (if stop_task r = Some t then r\<lparr>stop_task := None\<rparr> else r)
       else if setup_task r = Some t then r\<lparr>setup_task := None\<rparr> else r))"

section \<open>Starting\<close>

text \<open>The legacy entry.\<close>

definition start :: "string \<Rightarrow> lifecycle_state op" where
  "start mid =
     ebind (module_snapshot mid) (\<lambda>_.
     ebind (eget (\<lambda>s. case states s mid of
         None \<Rightarrow> False
       | Some st \<Rightarrow> lifecycle st = ACTIVE \<and> (case identity st of None \<Rightarrow> False | Some r \<Rightarrow> is_active_identity s r))) (\<lambda>ok.
     ebind (eensure ok LifecycleError) (\<lambda>_.
     ebind (eget (\<lambda>s. lifecycle_state_of (life_view s) mid)) eres)))"

record start_frame =
  sf_module :: string
  sf_operation :: string
  sf_record :: nat
  sf_identity :: run_ref
  sf_scope :: nat
  sf_manifest :: module_manifest

text \<open>
  Where \<open>start_candidate\<close> waits.  The second component is the module a method was called for;
  the third of \<open>Awaiting_stop\<close> is the exception the failed start ends with.
\<close>

datatype start_point =
    Awaiting_start start_frame string
  | Awaiting_health start_frame string
  | Awaiting_stop start_frame string exn
  | Started run_ref health_report

definition start_begin :: "string \<Rightarrow> string \<Rightarrow> start_frame op" where
  "start_begin mid oper =
     ebind (eres (operation_text oper)) (\<lambda>_.
     ebind (module_snapshot mid) (\<lambda>(sn, m).
     ebind (eget (\<lambda>s. candidates_for_module s mid None)) (\<lambda>others.
     ebind (eensure (others = []) LifecycleError) (\<lambda>_.
     ebind (claim_operation mid oper False) (\<lambda>_.
     ebind (eget (\<lambda>s. map_of (instances s) mid)) (\<lambda>installed. case installed of
       None \<Rightarrow> eraise LifecycleError
     | Some i \<Rightarrow>
         ebind (eget (\<lambda>s. states s mid)) (\<lambda>previous.
         ebind (eensure (case previous of None \<Rightarrow> True | Some st \<Rightarrow> \<not> cleanup_pending st) LifecycleError) (\<lambda>_.
         ebind (the_record i) (\<lambda>r.
         ebind (eensure (\<not> (start_attempted r \<and> \<not> stop_completed r)) LifecycleError) (\<lambda>_.
         ebind (eensure (case previous of None \<Rightarrow> True | Some st \<Rightarrow> lifecycle st \<notin> {ACTIVE, STARTING, STOPPING}) LifecycleError) (\<lambda>_.
         ebind (eget (\<lambda>s. max (known_epoch s mid) (epoch m) + 1)) (\<lambda>ep.
         ebind (set_epoch mid ep) (\<lambda>_.
         ebind (new_identity mid ep) (\<lambda>run.
         ebind fresh (\<lambda>sc.
         ebind (set_state mid \<lparr>lifecycle_enabled = enabled m, lifecycle = STARTING, lifecycle_epoch = ep,
             registry_revision = revision sn, reason_code = None, work_scope = Some sc, identity = Some run, report = None,
             report_revisions = None, cleanup_pending = False\<rparr>) (\<lambda>_.
         ebind (update_instance i (\<lambda>r. r\<lparr>start_attempted := True, stop_completed := False\<rparr>)) (\<lambda>_.
         eret \<lparr>sf_module = mid, sf_operation = oper, sf_record = i, sf_identity = run, sf_scope = sc, sf_manifest = manifest m\<rparr>)))))))))))))))))"

text \<open>The last lines of the exception handler: what is still pending, and the exception again.\<close>

definition start_failed_end :: "life_env \<Rightarrow> start_frame \<Rightarrow> exn \<Rightarrow> start_point op" where
  "start_failed_end e f x =
     ebind (eget (\<lambda>s. (states s (sf_module f), instance_cleanup_pending e s (sf_module f)))) (\<lambda>(cur, pending).
     ebind (case cur of
         None \<Rightarrow> eret ()
       | Some st \<Rightarrow> ewhen (opt_is (identity st) (sf_identity f))
           (set_state (sf_module f) (st\<lparr>cleanup_pending := cleanup_pending st \<or> pending\<rparr>))) (\<lambda>_.
     eraise x))"

definition start_failed :: "life_env \<Rightarrow> bool res \<Rightarrow> start_frame \<Rightarrow> exn \<Rightarrow> start_point op" where
  "start_failed e answer f x =
     ebind (eget (\<lambda>s. states s (sf_module f))) (\<lambda>cur. case cur of
       None \<Rightarrow> eraise x
     | Some st \<Rightarrow>
         if \<not> opt_is (identity st) (sf_identity f) then eraise x
         else
           ebind (close_run (sf_identity f) ''start_failed'') (\<lambda>_.
           ebind (cancel_scope (Some (sf_scope f))) (\<lambda>_.
           ebind (the_record (sf_record f)) (\<lambda>r.
           let pending = scope_busy e (sf_scope f) \<or> pending_task e (setup_task r) in
           ebind (set_state (sf_module f) (st\<lparr>lifecycle := FAILED,
               reason_code := Some (if x = CancelledError then ''stop_cancelled'' else ''operation_failed''),
               cleanup_pending := pending\<rparr>)) (\<lambda>_.
           if \<not> stop_completed r \<and> \<not> pending then
             ecatch (ebind (launch e answer (sf_record f) ''stop'' (sf_operation f)) (\<lambda>mid. eret (Awaiting_stop f mid x)))
               (\<lambda>_. start_failed_end e f x)
           else start_failed_end e f x)))))"

definition start_candidate :: "life_env \<Rightarrow> bool res \<Rightarrow> bool res \<Rightarrow> string \<Rightarrow> string \<Rightarrow> start_point op" where
  "start_candidate e start_answer stop_answer mid oper =
     ebind (start_begin mid oper) (\<lambda>f.
     ecatch (ebind (launch e start_answer (sf_record f) ''start'' oper) (\<lambda>m. eret (Awaiting_start f m)))
       (start_failed e stop_answer f))"

definition start_healthy :: "start_frame \<Rightarrow> health_report option \<Rightarrow> start_point op" where
  "start_healthy f h =
     ebind (assert_starting_candidate (sf_module f) (sf_operation f) (sf_identity f)) (\<lambda>st.
     ebind (eres (validate_health (sf_manifest f) h)) (\<lambda>rep.
     ebind (eget (\<lambda>s. revision (snapshot (ctl_registry (ctl s))))) (\<lambda>rv.
     ebind (set_state (sf_module f) (st\<lparr>report := Some rep,
         report_revisions := Some (\<lambda>c. if c \<in> fst ` set (capability_health rep) then Some 1 else None),
         registry_revision := rv\<rparr>)) (\<lambda>_.
     eret (Started (sf_identity f) rep)))))"

text \<open>
  What happens when the awaited task of a start is done: \<open>answer\<close> is the call of the next method
  in the body, \<open>stop_answer\<close> that of \<open>stop\<close> in the exception handler.
\<close>

definition start_resume :: "life_env \<Rightarrow> waited \<Rightarrow> bool res \<Rightarrow> bool res \<Rightarrow> start_point \<Rightarrow> start_point op" where
  "start_resume e w answer stop_answer p = (case p of
     Awaiting_start f mid \<Rightarrow>
       ecatch (ebind (method_done (sf_record f) mid ''start'' (sf_operation f) w) (\<lambda>_.
               ebind (assert_starting_candidate (sf_module f) (sf_operation f) (sf_identity f)) (\<lambda>_.
               ebind (update_instance (sf_record f) (is_running_update (\<lambda>_. True))) (\<lambda>_.
               ebind (assert_operation (sf_module f) (sf_operation f)) (\<lambda>_.
               ebind (launch e answer (sf_record f) ''check_health'' (sf_operation f)) (\<lambda>m.
               eret (Awaiting_health f m)))))))
         (start_failed e stop_answer f)
   | Awaiting_health f mid \<Rightarrow>
       ecatch (ebind (method_done (sf_record f) mid ''check_health'' (sf_operation f) w) (start_healthy f))
         (start_failed e stop_answer f)
   | Awaiting_stop f mid x \<Rightarrow>
       ebind (ecatch
           (ebind (method_done (sf_record f) mid ''stop'' (sf_operation f) w) (\<lambda>_.
            update_instance (sf_record f) (\<lambda>r. r\<lparr>is_running := False, start_attempted := False, stop_completed := True\<rparr>)))
           (\<lambda>_. eret ())) (\<lambda>_.
       start_failed_end e f x)
   | Started r h \<Rightarrow> eret (Started r h))"

section \<open>Quiescing and stopping\<close>

text \<open>The part of \<open>quiesce\<close> that gives the module a new epoch.\<close>

definition quiesce_new :: "string \<Rightarrow> registry_snapshot \<Rightarrow> registered_module \<Rightarrow> lifecycle_state \<Rightarrow> run_ref op" where
  "quiesce_new mid sn m st =
     ebind (eget (\<lambda>s. max (known_epoch s mid) (epoch m) + 1)) (\<lambda>ep.
     ebind (set_epoch mid ep) (\<lambda>_.
     ebind (new_identity mid ep) (\<lambda>invalidated.
     ebind (publish_projection mid (enabled m) ep (revision sn)) (\<lambda>published.
     ebind (set_state mid \<lparr>lifecycle_enabled = enabled m, lifecycle = STOPPING, lifecycle_epoch = ep,
         registry_revision = revision published, reason_code = None, work_scope = work_scope st, identity = Some invalidated,
         report = report st, report_revisions = report_revisions st, cleanup_pending = cleanup_pending st\<rparr>) (\<lambda>_.
     eret invalidated)))))"

definition quiesce :: "string \<Rightarrow> string \<Rightarrow> string \<Rightarrow> run_ref op" where
  "quiesce mid oper why =
     ebind (eres (operation_text oper)) (\<lambda>_.
     ebind (eensure (\<not> blank why) ValueError) (\<lambda>_.
     ebind (module_snapshot mid) (\<lambda>(sn, m).
     ebind (eget (\<lambda>s. states s mid)) (\<lambda>known. case known of
       None \<Rightarrow> eraise LifecycleError
     | Some st \<Rightarrow>
         ebind (claim_operation mid oper True) (\<lambda>_.
         ebind (case (lifecycle st, identity st) of
             (ACTIVE, Some r) \<Rightarrow> ebind (close_run r why) (\<lambda>_. cancel_scope (work_scope st))
           | _ \<Rightarrow> eensure (lifecycle st \<in> {STOPPING, FAILED, STOPPED, DISCOVERED}) LifecycleError) (\<lambda>_.
         case identity st of
           Some r \<Rightarrow>
             if lifecycle st \<in> {STOPPING, FAILED} \<and> run_epoch (contents r) = epoch m then
               ebind (set_state mid (st\<lparr>lifecycle := STOPPING, reason_code := None, lifecycle_enabled := enabled m,
                   registry_revision := revision sn\<rparr>)) (\<lambda>_. eret r)
             else quiesce_new mid sn m st
         | None \<Rightarrow> quiesce_new mid sn m st))))))"

definition mark_cleanup_failed :: "life_env \<Rightarrow> string \<Rightarrow> string \<Rightarrow> unit op" where
  "mark_cleanup_failed e mid why =
     ebind (eget (\<lambda>s. states s mid)) (\<lambda>cur. case cur of
       None \<Rightarrow> eret ()
     | Some st \<Rightarrow>
         ebind (case identity st of None \<Rightarrow> eret () | Some r \<Rightarrow> close_run r why) (\<lambda>_.
         ebind (eget (\<lambda>s. instance_cleanup_pending e s mid)) (\<lambda>pending.
         set_state mid (st\<lparr>lifecycle := FAILED, reason_code := Some why, cleanup_pending := scope_cleanup_pending e st \<or> pending\<rparr>))))"

text \<open>
  Where \<open>stop_candidate\<close> waits: for the scope, for the setup task it cancelled, for \<open>stop\<close>.
\<close>

datatype stop_point =
    Stop_scope string string
  | Stop_setup string string nat
  | Stop_method string string nat string
  | Stopped_at lifecycle_state

definition stop_guarded :: "life_env \<Rightarrow> string \<Rightarrow> stop_point op \<Rightarrow> stop_point op" where
  "stop_guarded e mid body = ecatch body (\<lambda>x.
     if x = CancelledError then ebind (mark_cleanup_failed e mid ''stop_cancelled'') (\<lambda>_. eraise x)
     else if x \<in> {ScopeStopTimeout, LifecycleStopTimeout, LifecycleOperationTimeout} then
       ebind (mark_cleanup_failed e mid ''stop_timeout'') (\<lambda>_. eraise LifecycleStopTimeout)
     else ebind (mark_cleanup_failed e mid ''stop_failed'') (\<lambda>_. eraise x))"

definition stop_finish :: "string \<Rightarrow> stop_point op" where
  "stop_finish mid =
     ebind (module_snapshot mid) (\<lambda>(sn, m).
     ebind (eget (\<lambda>s. states s mid)) (\<lambda>cur. case cur of
       None \<Rightarrow> eraise KeyError
     | Some st \<Rightarrow>
         let stopped = st\<lparr>lifecycle_enabled := enabled m, lifecycle := STOPPED, lifecycle_epoch := epoch m,
               registry_revision := revision sn, reason_code := None, work_scope := None, cleanup_pending := False\<rparr> in
         ebind (set_state mid stopped) (\<lambda>_. ebind (drop_operation mid) (\<lambda>_. eret (Stopped_at stopped)))))"

definition stop_call :: "life_env \<Rightarrow> bool res \<Rightarrow> string \<Rightarrow> string \<Rightarrow> nat \<Rightarrow> stop_point op" where
  "stop_call e answer mid oper i = ebind (launch e answer i ''stop'' oper) (\<lambda>m. eret (Stop_method mid oper i m))"

definition stop_instance :: "life_env \<Rightarrow> bool res \<Rightarrow> string \<Rightarrow> string \<Rightarrow> stop_point op" where
  "stop_instance e answer mid oper =
     ebind (eget (\<lambda>s. map_of (instances s) mid)) (\<lambda>installed. case installed of
       None \<Rightarrow> stop_finish mid
     | Some i \<Rightarrow>
         ebind (the_record i) (\<lambda>r.
         if stop_completed r then stop_finish mid
         else if pending_task e (setup_task r) then eret (Stop_setup mid oper i)
         else stop_call e answer mid oper i))"

definition stop_candidate :: "life_env \<Rightarrow> bool res \<Rightarrow> string \<Rightarrow> string \<Rightarrow> pyfloat \<Rightarrow> stop_point op" where
  "stop_candidate e answer mid oper timeout =
     ebind (eres (finite_timeout timeout)) (\<lambda>_.
     ebind (module_snapshot mid) (\<lambda>_.
     ebind (claim_operation mid oper True) (\<lambda>_.
     ebind (eget (\<lambda>s. states s mid)) (\<lambda>cur. case cur of
       None \<Rightarrow> eraise LifecycleError
     | Some st \<Rightarrow>
         ebind (eensure (lifecycle st \<in> {STOPPING, FAILED, STOPPED}) LifecycleError) (\<lambda>_.
         case work_scope st of
           Some sc \<Rightarrow> ebind (cancel_scope (Some sc)) (\<lambda>_. eret (Stop_scope mid oper))
         | None \<Rightarrow> stop_guarded e mid (stop_instance e answer mid oper))))))"

text \<open>
  The rest of a stop: \<open>waiting\<close> is what the scope's \<open>stop\<close> gave, or whether the setup task was
  drained in time.
\<close>

definition stop_resume :: "life_env \<Rightarrow> unit res \<Rightarrow> waited \<Rightarrow> bool res \<Rightarrow> stop_point \<Rightarrow> stop_point op" where
  "stop_resume e waiting w answer p = (case p of
     Stop_scope mid oper \<Rightarrow> stop_guarded e mid (ebind (eres waiting) (\<lambda>_. stop_instance e answer mid oper))
   | Stop_setup mid oper i \<Rightarrow> stop_guarded e mid
       (ebind (eres waiting) (\<lambda>_. ebind (assert_operation mid oper) (\<lambda>_. stop_call e answer mid oper i)))
   | Stop_method mid oper i m \<Rightarrow> stop_guarded e mid
       (ebind (method_done i m ''stop'' oper w) (\<lambda>_.
        ebind (update_instance i (\<lambda>r. r\<lparr>is_running := False, start_attempted := False, stop_completed := True\<rparr>)) (\<lambda>_.
        stop_finish mid)))
   | Stopped_at st \<Rightarrow> eret (Stopped_at st))"

text \<open>The run of a module whose scope timed out: a new one, or the old one when the registry refuses.\<close>

definition isolate :: "string \<Rightarrow> run_ref \<Rightarrow> (run_ref \<times> int) op" where
  "isolate mid r = ecatch
     (ebind (module_snapshot mid) (\<lambda>(sn, m).
      ebind (eget (\<lambda>s. max (known_epoch s mid) (epoch m) + 1)) (\<lambda>ep.
      ebind (set_epoch mid ep) (\<lambda>_.
      ebind (new_identity mid ep) (\<lambda>isolated.
      ebind (publish_projection mid (enabled m) ep (revision sn)) (\<lambda>published.
      eret (isolated, revision published)))))))
     (\<lambda>x. if is_LifecycleError x \<or> x = RegistryError
       then ebind (eget (\<lambda>s. revision (snapshot (ctl_registry (ctl s))))) (\<lambda>rv. eret (r, rv))
       else eraise x)"

text \<open>The callback of a scope whose tasks ignored their cancellation.\<close>

definition scope_cleanup_timeout :: "string \<Rightarrow> run_ref \<Rightarrow> string \<Rightarrow> unit op" where
  "scope_cleanup_timeout mid r why =
     ebind (eget (\<lambda>s. states s mid)) (\<lambda>cur. case cur of
       None \<Rightarrow> eret ()
     | Some st \<Rightarrow> ewhen (work_scope st \<noteq> None \<and> opt_is (identity st) r)
         (ebind (close_run r why) (\<lambda>_.
          ebind (isolate mid r) (\<lambda>(isolated, rv).
          set_state mid (st\<lparr>lifecycle := FAILED, identity := Some isolated, lifecycle_epoch := run_epoch (contents isolated),
              registry_revision := rv, reason_code := Some ''stop_timeout'', cleanup_pending := True\<rparr>)))))"

section \<open>Rolling back\<close>

definition mark_rollback_pending :: "life_env \<Rightarrow> string \<Rightarrow> string \<Rightarrow> bool op" where
  "mark_rollback_pending e mid why =
     ebind (ecatch (mark_cleanup_failed e mid why) (\<lambda>_. eret ())) (\<lambda>_.
     ebind (eget (\<lambda>s. states s mid)) (\<lambda>cur.
     ebind (case cur of
         None \<Rightarrow> eret ()
       | Some st \<Rightarrow> set_state mid (st\<lparr>lifecycle_enabled := False, lifecycle := FAILED, reason_code := Some why, cleanup_pending := True\<rparr>)) (\<lambda>_.
     eret False)))"

record roll_frame =
  rf_module :: string
  rf_operation :: string
  rf_record :: nat
  rf_scope :: "nat option"

text \<open>
  Where a rollback waits: for the scope, for the setup task, for the stop task it found, for
  \<open>stop\<close>.
\<close>

datatype roll_point =
    Roll_scope roll_frame
  | Roll_setup roll_frame
  | Roll_stop roll_frame nat
  | Roll_method roll_frame string
  | Rolled bool

definition roll_pending :: "life_env \<Rightarrow> string \<Rightarrow> string \<Rightarrow> roll_point op" where
  "roll_pending e mid why = ebind (mark_rollback_pending e mid why) (\<lambda>b. eret (Rolled b))"

definition roll_guarded :: "life_env \<Rightarrow> string \<Rightarrow> roll_point op \<Rightarrow> roll_point op" where
  "roll_guarded e mid body = ecatch body (\<lambda>x.
     if x = CancelledError then ebind (mark_rollback_pending e mid ''rollback_cancelled'') (\<lambda>_. eraise x)
     else roll_pending e mid ''rollback_failed'')"

text \<open>Why a rollback whose instance has stopped cannot finish, in the order of the tests.\<close>

definition roll_obstacle :: "life_env \<Rightarrow> roll_frame \<Rightarrow> registered_module \<Rightarrow> life \<Rightarrow> string option" where
  "roll_obstacle e f m s = (let r = instance_records s (rf_record f) in
     if enabled m then Some ''rollback_registry_reenabled''
     else if map_of (instances s) (rf_module f) \<noteq> Some (rf_record f) then Some ''rollback_instance_changed''
     else if operations s (rf_module f) \<noteq> Some (rf_operation f) then Some ''rollback_operation_changed''
     else if (case rf_scope f of None \<Rightarrow> False | Some sc \<Rightarrow> scope_busy e sc) then Some ''rollback_scope_pending''
     else if (case r of None \<Rightarrow> False | Some x \<Rightarrow> pending_task e (setup_task x) \<or> pending_task e (stop_task x)) then Some ''rollback_task_pending''
     else if (case r of None \<Rightarrow> True | Some x \<Rightarrow> \<not> stop_completed x) then Some ''rollback_stop_incomplete''
     else None)"

definition roll_release :: "roll_frame \<Rightarrow> roll_point op" where
  "roll_release f = (let mid = rf_module f in
     ebind (emod (\<lambda>s. s\<lparr>instances := AList.delete mid (instances s)\<rparr>)) (\<lambda>_.
     ebind (the_record (rf_record f)) (\<lambda>r.
     ebind (revoke_lifetime (record_lifetime r)) (\<lambda>_.
     ebind (drop_state mid) (\<lambda>_.
     ebind (eget (\<lambda>s. operations s mid = Some (rf_operation f))) (\<lambda>mine.
     ebind (ewhen mine (drop_operation mid)) (\<lambda>_. eret (Rolled True))))))))"

text \<open>From the end of the instance's \<open>stop\<close>; the release, after the handler in the code, raises nothing.\<close>

definition roll_check :: "life_env \<Rightarrow> roll_frame \<Rightarrow> roll_point op" where
  "roll_check e f =
     ebind (update_instance (rf_record f) (\<lambda>r. r\<lparr>is_running := False, start_attempted := False\<rparr>)) (\<lambda>_.
     ebind (eget (\<lambda>s. snapshot_module (snapshot (ctl_registry (ctl s))) (rf_module f))) (\<lambda>found.
     ebind (eres found) (\<lambda>m.
     ebind (eget (roll_obstacle e f (contents m))) (\<lambda>obstacle. case obstacle of
       Some why \<Rightarrow> roll_pending e (rf_module f) why
     | None \<Rightarrow> roll_release f))))"

definition roll_method :: "life_env \<Rightarrow> bool res \<Rightarrow> roll_frame \<Rightarrow> nat option \<Rightarrow> roll_point op" where
  "roll_method e answer f waited_for =
     ebind (complete_stop (rf_record f) (case waited_for of None \<Rightarrow> False | Some t \<Rightarrow> task_done e t \<and> \<not> task_failed e t)) (\<lambda>_.
     ebind (the_record (rf_record f)) (\<lambda>r.
     if stop_completed r then roll_check e f
     else ebind (launch e answer (rf_record f) ''stop'' (rf_operation f)) (\<lambda>m. eret (Roll_method f m))))"

definition roll_stop :: "life_env \<Rightarrow> bool res \<Rightarrow> roll_frame \<Rightarrow> roll_point op" where
  "roll_stop e answer f =
     ebind (the_record (rf_record f)) (\<lambda>r. case stop_task r of
       None \<Rightarrow> roll_method e answer f None
     | Some t \<Rightarrow> if task_done e t then roll_method e answer f (Some t) else eret (Roll_stop f t))"

definition roll_setup :: "life_env \<Rightarrow> bool res \<Rightarrow> roll_frame \<Rightarrow> roll_point op" where
  "roll_setup e answer f =
     ebind (the_record (rf_record f)) (\<lambda>r.
     if pending_task e (setup_task r) then eret (Roll_setup f) else roll_stop e answer f)"

text \<open>The new epoch of a rollback; \<open>None\<close> when the projection was refused.\<close>

definition roll_epoch :: "string \<Rightarrow> registry_snapshot \<Rightarrow> registered_module \<Rightarrow> lifecycle_state \<Rightarrow> (int \<times> run_ref option \<times> int) option op" where
  "roll_epoch mid sn m st =
     ebind (eget (\<lambda>s. max (max (known_epoch s mid) (epoch m)) (lifecycle_epoch st))) (\<lambda>top.
     if lifecycle st = STARTING \<or> (case identity st of None \<Rightarrow> False | Some r \<Rightarrow> epoch m < run_epoch (contents r)) then
       ebind (ecatch (ebind (publish_projection mid False (top + 1) (revision sn)) (\<lambda>published. eret (Some (revision published))))
         (\<lambda>x. if is_LifecycleError x \<or> x = RegistryError then eret None else eraise x)) (\<lambda>published. case published of
         None \<Rightarrow> eret None
       | Some rv \<Rightarrow>
           ebind (set_epoch mid (top + 1)) (\<lambda>_.
           ebind (new_identity mid (top + 1)) (\<lambda>run. eret (Some (top + 1, Some run, rv)))))
     else eret (Some (top, identity st, revision sn)))"

text \<open>From the new epoch to the first wait.\<close>

definition roll_stopping ::
  "life_env \<Rightarrow> bool res \<Rightarrow> string \<Rightarrow> string \<Rightarrow> nat \<Rightarrow> lifecycle_state \<Rightarrow> (int \<times> run_ref option \<times> int) option \<Rightarrow> roll_point op" where
  "roll_stopping e answer mid oper i st invalidated = (case invalidated of
     None \<Rightarrow> roll_pending e mid ''rollback_projection_failed''
   | Some (ep, run, rv) \<Rightarrow>
       let f = \<lparr>rf_module = mid, rf_operation = oper, rf_record = i, rf_scope = work_scope st\<rparr> in
       ebind (set_state mid (st\<lparr>lifecycle_enabled := False, lifecycle := STOPPING, lifecycle_epoch := ep,
           registry_revision := rv, identity := run, reason_code := Some ''unpublished_rollback''\<rparr>)) (\<lambda>_.
       if work_scope st \<noteq> None then eret (Roll_scope f) else roll_guarded e mid (roll_setup e answer f)))"

definition rollback_unpublished_candidate :: "life_env \<Rightarrow> bool res \<Rightarrow> string \<Rightarrow> string \<Rightarrow> pyfloat \<Rightarrow> string \<Rightarrow> roll_point op" where
  "rollback_unpublished_candidate e answer mid oper timeout installation =
     ebind (eres (operation_text oper)) (\<lambda>_.
     ebind (eres (operation_text installation)) (\<lambda>_.
     ebind (eres (finite_timeout timeout)) (\<lambda>_.
     ebind (module_snapshot mid) (\<lambda>(sn, m).
     ebind (eget (\<lambda>s. map_of (instances s) mid)) (\<lambda>installed. case installed of
       None \<Rightarrow> eret (Rolled False)
     | Some i \<Rightarrow>
         ebind (the_record i) (\<lambda>r.
         ebind (eensure (installation_operation r = installation) LifecycleError) (\<lambda>_.
         ebind (eensure (\<not> ever_active r) LifecycleError) (\<lambda>_.
         ebind (eget (\<lambda>s. states s mid)) (\<lambda>known. case known of
           None \<Rightarrow> eraise LifecycleError
         | Some st \<Rightarrow>
             ebind (eensure (lifecycle st \<noteq> ACTIVE) LifecycleError) (\<lambda>_.
             ebind (eensure (\<not> enabled m) LifecycleError) (\<lambda>_.
             ebind (eget (\<lambda>s. operations s mid)) (\<lambda>held.
             ebind (eensure (held = None \<or> held = Some oper) LifecycleError) (\<lambda>_.
             ebind (emod (\<lambda>s. s\<lparr>operations := (operations s)(mid \<mapsto> oper)\<rparr>)) (\<lambda>_.
             ebind (case identity st of None \<Rightarrow> eret True | Some run \<Rightarrow>
                 ecatch (ebind (close_run run ''unpublished_rollback'') (\<lambda>_. eret True)) (\<lambda>_. eret False)) (\<lambda>closed.
             if \<not> closed then roll_pending e mid ''rollback_gate_failed''
             else
               ebind (cancel_scope (work_scope st)) (\<lambda>_.
               ebind (roll_epoch mid sn m st) (roll_stopping e answer mid oper i st)))))))))))))))))"

definition roll_resume :: "life_env \<Rightarrow> unit res \<Rightarrow> waited \<Rightarrow> bool res \<Rightarrow> roll_point \<Rightarrow> roll_point op" where
  "roll_resume e waiting w answer p = (case p of
     Roll_scope f \<Rightarrow> roll_guarded e (rf_module f) (ebind (eres waiting) (\<lambda>_. roll_setup e answer f))
   | Roll_setup f \<Rightarrow> roll_guarded e (rf_module f) (ebind (eres waiting) (\<lambda>_. roll_stop e answer f))
   | Roll_stop f t \<Rightarrow> roll_guarded e (rf_module f) (ebind (eres waiting) (\<lambda>_. roll_method e answer f (Some t)))
   | Roll_method f m \<Rightarrow> roll_guarded e (rf_module f)
       (ebind (method_done (rf_record f) m ''stop'' (rf_operation f) w) (\<lambda>_. roll_check e f))
   | Rolled b \<Rightarrow> eret (Rolled b))"

section \<open>Publication\<close>

datatype module_health = HEALTHY | DEGRADED | MODULE_ERROR

record module_status =
  status_module :: string
  status_enabled :: bool
  status_lifecycle :: module_lifecycle
  status_health :: module_health
  status_epoch :: int
  status_revision :: int
  status_reason :: "string option"

definition ADMIN_REASON_CODES :: "string list" where
  "ADMIN_REASON_CODES = [''dependency_missing'', ''health_unknown'', ''invalid_config'', ''module_not_found'', ''needs_config'',
     ''operation_failed'', ''operation_unavailable'', ''revision_conflict'', ''stale_epoch'', ''stop_cancelled'', ''stop_timeout'',
     ''unregistered'']"

definition check_ModuleStatus :: "module_status \<Rightarrow> unit res" where
  "check_ModuleStatus st =
     rbind (validate_module_id (status_module st)) (\<lambda>_.
     rbind (ensure (0 \<le> status_epoch st) ValueError) (\<lambda>_.
     rbind (ensure (0 \<le> status_revision st) ValueError) (\<lambda>_.
     ensure (case status_reason st of None \<Rightarrow> True | Some c \<Rightarrow> c \<in> set ADMIN_REASON_CODES) ValueError)))"

definition health_summary :: "lifecycle_state \<Rightarrow> module_health" where
  "health_summary st = (case (lifecycle st, report st) of
     (FAILED, _) \<Rightarrow> MODULE_ERROR
   | (ACTIVE, Some rep) \<Rightarrow> if list_all (\<lambda>(_, h, _). h = AVAILABLE) (capability_health rep) then HEALTHY else DEGRADED
   | _ \<Rightarrow> DEGRADED)"

definition status :: "string \<Rightarrow> life \<Rightarrow> module_status res" where
  "status mid s =
     rbind (lifecycle_state_of (life_view s) mid) (\<lambda>st.
     let r = \<lparr>status_module = mid, status_enabled = lifecycle_enabled st, status_lifecycle = lifecycle st,
              status_health = health_summary st, status_epoch = lifecycle_epoch st, status_revision = registry_revision st,
              status_reason = reason_code st\<rparr> in
     rbind (check_ModuleStatus r) (\<lambda>_. Inr r))"

text \<open>Every observer of the registry is called once more.\<close>

definition notify_again :: "unit op" where
  "notify_again = on_registry (\<lambda>r. Inr (publish_snapshot (snapshot r) r))"

text \<open>A run whose publication or activation failed.\<close>

definition fail_run :: "life_env \<Rightarrow> string \<Rightarrow> run_ref \<Rightarrow> lifecycle_state \<Rightarrow> string \<Rightarrow> string \<Rightarrow> unit op" where
  "fail_run e mid r st why code =
     ebind (close_run r why) (\<lambda>_.
     ebind (eget (\<lambda>s. instance_cleanup_pending e s mid)) (\<lambda>pending.
     set_state mid (st\<lparr>lifecycle := FAILED, reason_code := Some code, cleanup_pending := scope_cleanup_pending e st \<or> pending\<rparr>)))"

definition activate_run :: "life_env \<Rightarrow> run_ref \<Rightarrow> health_report \<Rightarrow> unit op" where
  "activate_run e r h s = epart ctl (\<lambda>c s. s\<lparr>ctl := c\<rparr>) (activate (life_adm e s) r h) s"

text \<open>Publishing the projection; a refusal fails the run that was to be enabled.\<close>

definition publish_or_fail :: "life_env \<Rightarrow> string \<Rightarrow> run_ref \<Rightarrow> bool \<Rightarrow> int \<Rightarrow> lifecycle_state \<Rightarrow> registry_snapshot op" where
  "publish_or_fail e mid r enable expected st =
     ecatch (publish_projection mid enable (run_epoch (contents r)) expected) (\<lambda>x.
       ebind (ewhen (x = RegistryError \<and> enable) (fail_run e mid r st ''projection_conflict'' ''revision_conflict'')) (\<lambda>_.
       eraise (if x = RegistryError then LifecycleError else x)))"

text \<open>Making a published run active.\<close>

definition open_run :: "life_env \<Rightarrow> string \<Rightarrow> run_ref \<Rightarrow> lifecycle_state \<Rightarrow> int \<Rightarrow> unit op" where
  "open_run e mid r st rv =
     (let active = st\<lparr>lifecycle_enabled := True, lifecycle := ACTIVE, registry_revision := rv, reason_code := None\<rparr> in
      ebind (set_state mid active) (\<lambda>_.
      ebind (case report st of None \<Rightarrow> eraise TypeError | Some rep \<Rightarrow>
          ecatch (activate_run e r rep) (\<lambda>x. ebind (fail_run e mid r active ''activation_failed'' ''operation_failed'') (\<lambda>_. eraise x))) (\<lambda>_.
      ebind (eget (\<lambda>s. map_of (instances s) mid)) (\<lambda>installed.
      ebind (case installed of None \<Rightarrow> eret () | Some i \<Rightarrow> update_instance i (ever_active_update (\<lambda>_. True))) (\<lambda>_.
      drop_operation mid)))))"

definition publish_committed_intent :: "life_env \<Rightarrow> string \<Rightarrow> string \<Rightarrow> run_ref \<Rightarrow> bool \<Rightarrow> int \<Rightarrow> module_status op" where
  "publish_committed_intent e mid oper r enable expected =
     ebind (eres (operation_text oper)) (\<lambda>_.
     ebind (assert_operation mid oper) (\<lambda>_.
     ebind (eget (\<lambda>s. states s mid)) (\<lambda>known. case known of
       None \<Rightarrow> eraise LifecycleError
     | Some st \<Rightarrow>
         ebind (eensure (opt_is (identity st) r) LifecycleError) (\<lambda>_.
         ebind (eensure (if enable then lifecycle st = STARTING \<and> report st \<noteq> None
                         else lifecycle st \<in> {STOPPING, FAILED, STOPPED}) LifecycleError) (\<lambda>_.
         ebind (publish_or_fail e mid r enable expected st) (\<lambda>sn.
         ebind (if enable then open_run e mid r st (revision sn)
           else set_state mid (st\<lparr>lifecycle_enabled := False, lifecycle := (if lifecycle st = STOPPED then STOPPED else STOPPING),
               registry_revision := revision sn\<rparr>)) (\<lambda>_.
         ebind notify_again (\<lambda>_.
         ebind (eget (status mid)) eres))))))))"

text \<open>\<open>stop\<close>: the parts before its first wait.\<close>

definition stop :: "life_env \<Rightarrow> bool res \<Rightarrow> string \<Rightarrow> string \<Rightarrow> pyfloat \<Rightarrow> stop_point op" where
  "stop e answer mid oper timeout =
     ebind (module_snapshot mid) (\<lambda>_.
     ebind (quiesce mid oper ''legacy_stop'') (\<lambda>r.
     ebind (eget (\<lambda>s. revision (snapshot (ctl_registry (ctl s))))) (\<lambda>rv.
     ebind (publish_committed_intent e mid oper r False rv) (\<lambda>_.
     stop_candidate e answer mid oper timeout))))"

section \<open>Guards and queries\<close>

text \<open>\<open>guard\<close>; \<open>ep\<close> and \<open>v\<close> are the epoch and the invocation the caller holds, if any.\<close>

definition guard_invocation :: "life_env \<Rightarrow> life \<Rightarrow> view_ref \<Rightarrow> unit res" where
  "guard_invocation e s v = reraise (\<lambda>x. is_InvalidInvocation x \<or> is_AdmissionError x) StaleEpochError
     (rbind (require_view (view_env (outer_env e)) (ctl_issuer (ctl s)) v) (\<lambda>_.
      rbind (lease_for (view_env (outer_env e)) (ctl_issuer (ctl s)) v) (\<lambda>held. case held of
        None \<Rightarrow> Inl InvalidInvocation
      | Some a \<Rightarrow> lease_check (life_adm e s) (ctl s) (lease_at e a))))"

definition life_guard :: "life_env \<Rightarrow> string \<Rightarrow> int option \<Rightarrow> view_ref option \<Rightarrow> life \<Rightarrow> lifecycle_state res" where
  "life_guard e mid ep v s =
     rbind (optional (\<lambda>w. check_InvocationView (contents w)) v) (\<lambda>_.
     rbind (snd (module_snapshot mid s)) (\<lambda>(sn, m).
     rbind (ensure (case ep of None \<Rightarrow> True | Some n \<Rightarrow> epoch m = n) StaleEpochError) (\<lambda>_.
     rbind (ensure (case v of None \<Rightarrow> True | Some w \<Rightarrow> view_module (contents w) = mid \<and> module_epoch (contents w) = epoch m) StaleEpochError) (\<lambda>_.
     case states s mid of
       None \<Rightarrow> Inl ModuleDisabled
     | Some st \<Rightarrow>
         rbind (ensure (lifecycle st \<noteq> STOPPING) ModuleStopping) (\<lambda>_.
         rbind (ensure (lifecycle st = ACTIVE) ModuleDisabled) (\<lambda>_.
         case identity st of
           None \<Rightarrow> Inl ModuleDisabled
         | Some r \<Rightarrow>
             rbind (ensure (enabled m) ModuleDisabled) (\<lambda>_.
             rbind (ensure (epoch m = (case ep of None \<Rightarrow> run_epoch (contents r) | Some n \<Rightarrow> n)
                      \<and> run_epoch (contents r) = epoch m) StaleEpochError) (\<lambda>_.
             rbind (case v of None \<Rightarrow> Inr () | Some w \<Rightarrow> guard_invocation e s w) (\<lambda>_.
             Inr (st\<lparr>lifecycle_enabled := enabled m, registry_revision := revision (snapshot (ctl_registry (ctl s)))\<rparr>))))))))))"

text \<open>What the registry sees of its lifecycle owner.\<close>

definition life_owner_view :: "life_env \<Rightarrow> life \<Rightarrow> lifecycle_view" where
  "life_owner_view e s = \<lparr>active_check = is_active_module s,
     guard = \<lambda>mid. rbind (life_guard e mid None None s) (\<lambda>st.
       case identity st of None \<Rightarrow> Inl LifecycleError | Some r \<Rightarrow> Inr (cleanup_pending st, addr r)),
     current_identity = \<lambda>mid. case Lifecycle.current_identity (life_view s) mid of None \<Rightarrow> Inl LifecycleError | Some r \<Rightarrow> Inr (addr r)\<rparr>"

definition scope_of :: "life_env \<Rightarrow> string \<Rightarrow> life \<Rightarrow> nat res" where
  "scope_of e mid s = rbind (life_guard e mid None None s) (\<lambda>st. case work_scope st of None \<Rightarrow> Inl LifecycleError | Some sc \<Rightarrow> Inr sc)"

definition installed_record :: "life \<Rightarrow> string \<Rightarrow> instance_record res" where
  "installed_record s mid = (case Option.bind (map_of (instances s) mid) (instance_records s) of None \<Rightarrow> Inl ModuleNotFound | Some r \<Rightarrow> Inr r)"

definition instance_of :: "life \<Rightarrow> string \<Rightarrow> handler res" where
  "instance_of s mid = rbind (installed_record s mid) (\<lambda>r. Inr (record_instance r))"

definition installed_handlers :: "life \<Rightarrow> string \<Rightarrow> module_handlers obj res" where
  "installed_handlers s mid = rbind (installed_record s mid) (\<lambda>r. case record_handlers r of None \<Rightarrow> Inl ModuleNotFound | Some h \<Rightarrow> Inr h)"

definition lifetime_check :: "life \<Rightarrow> nat \<Rightarrow> unit res" where
  "lifetime_check s t = ensure (t \<notin> set (revoked_lifetimes s)) InvalidInvocation"

definition service_lifetime :: "life \<Rightarrow> string \<Rightarrow> nat res" where
  "service_lifetime s mid = rbind (installed_record s mid) (\<lambda>r. case record_lifetime r of
     None \<Rightarrow> Inl ModuleNotFound | Some t \<Rightarrow> rbind (lifetime_check s t) (\<lambda>_. Inr t))"

definition owns_service_lifetime :: "life \<Rightarrow> nat \<Rightarrow> bool" where
  "owns_service_lifetime s t \<longleftrightarrow> list_ex (\<lambda>i. Option.bind (instance_records s i) record_lifetime = Some t)
     (map snd (instances s) @ concat (map snd (candidates s)))"

section \<open>Detaching and restoring\<close>

definition detach_stopped :: "life_env \<Rightarrow> string \<Rightarrow> unit op" where
  "detach_stopped e mid =
     ebind (eget (\<lambda>s. (lifecycle_state_of (life_view s) mid, Option.bind (map_of (instances s) mid) (instance_records s),
         candidates_for_module s mid None))) (\<lambda>(found, r, cs).
     ebind (eres found) (\<lambda>st.
     ebind (eensure (\<not> lifecycle_enabled st \<and> lifecycle st = STOPPED \<and> \<not> cleanup_pending st \<and> work_scope st = None \<and> cs = []
         \<and> (case r of None \<Rightarrow> True | Some x \<Rightarrow> stop_completed x)) LifecycleError) (\<lambda>_.
     ebind (on_registry_with (\<lambda>s. detach_lifecycle_module (life_owner_view e s) (owner_address s) mid)) (\<lambda>_.
     ebind (emod (\<lambda>s. s\<lparr>instances := AList.delete mid (instances s)\<rparr>)) (\<lambda>_.
     ebind (revoke_lifetime (Option.bind r record_lifetime)) (\<lambda>_.
     ebind (drop_state mid) (\<lambda>_. drop_operation mid)))))))"

definition restore_registration :: "string \<Rightarrow> module_manifest \<Rightarrow> module_handlers \<Rightarrow> unit op" where
  "restore_registration pid m h = (let mid = global_id pid (local_id m) in
     ebind (eget (\<lambda>s. map_of (instances s) mid \<noteq> None \<or> states s mid \<noteq> None)) (\<lambda>owned.
     ebind (eensure (\<not> owned) LifecycleError) (\<lambda>_.
     on_registry_with (\<lambda>s. restore_lifecycle_module (owner_address s) pid m h))))"

section \<open>Discarding candidates\<close>

text \<open>Calling \<open>stop\<close> of a candidate: no task comes of it when the call does not give an awaitable.\<close>

definition discard_call :: "bool res \<Rightarrow> nat \<Rightarrow> instance_record \<Rightarrow> (bool + nat) op" where
  "discard_call answer i r =
     (if ''stop'' \<notin> set (callables (record_instance r)) \<or> answer \<noteq> Inr True then eret (Inl False)
      else ebind fresh (\<lambda>t. ebind (update_instance i (stop_task_update (\<lambda>_. Some t))) (\<lambda>_. eret (Inr t))))"

text \<open>
  Discarding one record up to its wait: its outcome, or the task to wait for.  \<open>answer\<close> is what
  \<open>stop()\<close> does when it is called.
\<close>

definition discard_begin :: "life_env \<Rightarrow> bool res \<Rightarrow> nat \<Rightarrow> (bool + nat) op" where
  "discard_begin e answer i =
     ebind (the_record i) (\<lambda>r.
     ebind (eget (\<lambda>s. case candidate_key r of None \<Rightarrow> False | Some k \<Rightarrow> i \<in> set (candidates_under s k))) (\<lambda>owned.
     if \<not> owned then eret (Inl True)
     else
       ebind (update_instance i (candidate_cleanup_started_update (\<lambda>_. True))) (\<lambda>_.
       case stop_task r of
         Some t \<Rightarrow> if task_done e t \<and> task_failed e t
           then ebind (update_instance i (stop_task_update (\<lambda>_. None))) (\<lambda>_. discard_call answer i r)
           else eret (Inr t)
       | None \<Rightarrow> discard_call answer i r)))"

text \<open>
  After the wait: \<open>waiting\<close> is whether the task completed, or the exception; \<open>stopped\<close> whether
  the task is done and did not fail when the wait was cancelled.
\<close>

definition discard_end :: "nat \<Rightarrow> bool \<Rightarrow> bool res \<Rightarrow> bool op" where
  "discard_end i stopped waiting =
     ebind (the_record i) (\<lambda>r.
     let release = ebind (revoke_lifetime (record_lifetime r)) (\<lambda>_.
           case candidate_key r of None \<Rightarrow> eret () | Some k \<Rightarrow> remove_candidate k i) in
     case waiting of
       Inl x \<Rightarrow> if x = CancelledError then ebind (ewhen stopped release) (\<lambda>_. eraise x) else eret False
     | Inr completed \<Rightarrow> if completed then ebind release (\<lambda>_. eret True) else eret False)"

text \<open>The loop over the records of a key; it waits for one task at a time.\<close>

datatype discard_point = Discarding "string \<times> string \<times> string" nat nat "nat list" bool | Discarded bool

fun discard_loop :: "life_env \<Rightarrow> (nat \<Rightarrow> bool res) \<Rightarrow> string \<times> string \<times> string \<Rightarrow> nat list \<Rightarrow> bool \<Rightarrow> discard_point op" where
  "discard_loop e answer k [] ok = eret (Discarded ok)"
| "discard_loop e answer k (i # is) ok =
     ebind (eget (\<lambda>s. map_of (instances s) (fst (snd k)) = Some i)) (\<lambda>installed.
     if installed then ebind (remove_candidate k i) (\<lambda>_. discard_loop e answer k is ok)
     else ebind (discard_begin e (answer i) i) (\<lambda>out. case out of
         Inl b \<Rightarrow> discard_loop e answer k is (ok \<and> b)
       | Inr t \<Rightarrow> eret (Discarding k i t is ok)))"

definition discard_candidate ::
  "life_env \<Rightarrow> (nat \<Rightarrow> bool res) \<Rightarrow> string \<Rightarrow> string \<Rightarrow> string \<Rightarrow> pyfloat \<Rightarrow> discard_point op" where
  "discard_candidate e answer pid mid oper timeout =
     ebind (eres (finite_timeout timeout)) (\<lambda>_.
     ebind (eensure (\<not> blank pid) ValueError) (\<lambda>_.
     ebind (eensure (starts_with (pid @ ''/'') mid) ValueError) (\<lambda>_.
     ebind (eres (operation_text oper)) (\<lambda>_.
     ebind (eget (\<lambda>s. candidates_under s (pid, mid, oper))) (\<lambda>is.
     discard_loop e answer (pid, mid, oper) is True)))))"

definition discard_resume :: "life_env \<Rightarrow> (nat \<Rightarrow> bool res) \<Rightarrow> bool \<Rightarrow> bool res \<Rightarrow> discard_point \<Rightarrow> discard_point op" where
  "discard_resume e answer stopped waiting p = (case p of
     Discarding k i t is ok \<Rightarrow> ebind (discard_end i stopped waiting) (\<lambda>b. discard_loop e answer k is (ok \<and> b))
   | Discarded b \<Rightarrow> eret (Discarded b))"

end
