(* ===== verification/Registry_Correct.thy ===== *)
theory Registry_Correct
  imports Registry
begin

text \<open>
  Invariants of the registry: the three indexes agree with the registered manifests,
  registered modules have validated manifests and a callable handler per capability, and
  object addresses are never reused.  Every operation preserves them, so they hold in every
  reachable registry.
\<close>

section \<open>Dictionaries of the registry\<close>

lemma map_of_dict_update_all: "map_of (dict_update_all d xs) = map_of d ++ map_of (rev xs)"
proof (induction xs arbitrary: d)
  case (Cons x xs)
  obtain k v where "x = (k, v)" by (rule prod.exhaust)
  then show ?case by (auto simp: Cons map_add_def fun_eq_iff split: option.splits)
qed simp

lemma map_of_rev: "distinct (map fst xs) \<Longrightarrow> map_of (rev xs) = map_of xs"
proof (rule ext)
  fix k assume d: "distinct (map fst xs)"
  then have d': "distinct (map fst (rev xs))" by (simp add: rev_map [symmetric])
  have "map_of (rev xs) k = Some v \<longleftrightarrow> map_of xs k = Some v" for v
    using map_of_eq_Some_iff [OF d] map_of_eq_Some_iff [OF d'] by simp
  then show "map_of (rev xs) k = map_of xs k" by (cases "map_of xs k"; cases "map_of (rev xs) k") auto
qed

lemma map_of_dict_update_all_distinct:
  "distinct (map fst xs) \<Longrightarrow> map_of (dict_update_all d xs) = map_of d ++ map_of xs"
  by (simp add: map_of_dict_update_all map_of_rev)

lemma dict_ok_update_all [simp]: "dict_ok d \<Longrightarrow> dict_ok (dict_update_all d xs)"
proof (induction xs arbitrary: d)
  case (Cons x xs)
  obtain k v where "x = (k, v)" by (rule prod.exhaust)
  with Cons show ?case by simp
qed simp

lemma fst_set_dom: "fst ` set d = dom (map_of d)"
  by (simp add: dom_map_of_conv_image_fst)

section \<open>Index consistency\<close>

definition module_ok :: "registered_module \<Rightarrow> bool" where
  "module_ok r \<longleftrightarrow> checked_module (manifest r) \<and> 0 \<le> epoch r
     \<and> fst ` set (capability_handlers (handlers r)) = cap_id ` set (capabilities (manifest r))
     \<and> (\<forall>(_, h) \<in> set (capability_handlers (handlers r)). ''invoke'' \<in> set (callables h))"

definition mod_route :: "registered_module obj \<Rightarrow> string" where
  "mod_route m = route (manifest (contents m))"

definition mod_tools :: "registered_module obj \<Rightarrow> (string \<times> string) list" where
  "mod_tools m = map (\<lambda>t. (tool_name t, tool_capability t)) (tools (manifest (contents m)))"

definition index_ok :: "(string \<rightharpoonup> registered_module obj) \<Rightarrow> (string \<rightharpoonup> string) \<Rightarrow> (string \<rightharpoonup> string \<times> string) \<Rightarrow> bool" where
  "index_ok M R T \<longleftrightarrow>
     (\<forall>k m. M k = Some m \<longrightarrow> module_id (contents m) = k \<and> module_ok (contents m)
        \<and> R (mod_route m) = Some k \<and> (\<forall>(n, c) \<in> set (mod_tools m). T n = Some (k, c)))
   \<and> (\<forall>r k. R r = Some k \<longrightarrow> (\<exists>m. M k = Some m \<and> mod_route m = r))
   \<and> (\<forall>n k c. T n = Some (k, c) \<longrightarrow> (\<exists>m. M k = Some m \<and> (n, c) \<in> set (mod_tools m)))"

lemma index_okD:
  assumes "index_ok M R T"
  shows "M k = Some m \<Longrightarrow> module_id (contents m) = k" "M k = Some m \<Longrightarrow> module_ok (contents m)"
    "M k = Some m \<Longrightarrow> R (mod_route m) = Some k" "M k = Some m \<Longrightarrow> (n, c) \<in> set (mod_tools m) \<Longrightarrow> T n = Some (k, c)"
    "R r = Some k \<Longrightarrow> \<exists>m. M k = Some m \<and> mod_route m = r"
    "T n = Some (k, c) \<Longrightarrow> \<exists>m. M k = Some m \<and> (n, c) \<in> set (mod_tools m)"
proof -
  note parts = assms [unfolded index_ok_def]
  show "M k = Some m \<Longrightarrow> module_id (contents m) = k" "M k = Some m \<Longrightarrow> module_ok (contents m)"
    "M k = Some m \<Longrightarrow> R (mod_route m) = Some k"
    using parts by simp_all
  show "M k = Some m \<Longrightarrow> (n, c) \<in> set (mod_tools m) \<Longrightarrow> T n = Some (k, c)"
    using parts [THEN conjunct1, rule_format, of k m] by auto
  show "R r = Some k \<Longrightarrow> \<exists>m. M k = Some m \<and> mod_route m = r"
    using parts [THEN conjunct2, THEN conjunct1, rule_format, of r k] .
  show "T n = Some (k, c) \<Longrightarrow> \<exists>m. M k = Some m \<and> (n, c) \<in> set (mod_tools m)"
    using parts [THEN conjunct2, THEN conjunct2, rule_format, of n k c] .
qed

lemma index_ok_empty [simp]: "index_ok (\<lambda>_. None) (\<lambda>_. None) (\<lambda>_. None)"
  by (simp add: index_ok_def)

lemma index_ok_add:
  assumes ok: "index_ok M R T" and m: "module_id (contents m) = k" "module_ok (contents m)"
    and fresh: "M k = None" "R (mod_route m) = None" "\<And>n c. (n, c) \<in> set (mod_tools m) \<Longrightarrow> T n = None"
    and T': "\<And>n v. T' n = Some v \<longleftrightarrow> T n = Some v \<or> (\<exists>c. (n, c) \<in> set (mod_tools m) \<and> v = (k, c))"
  shows "index_ok (M(k \<mapsto> m)) (R(mod_route m \<mapsto> k)) T'"
  unfolding index_ok_def
proof (intro conjI allI impI ballI)
  fix k' m' assume km: "(M(k \<mapsto> m)) k' = Some m'"
  show "module_id (contents m') = k'" "module_ok (contents m')"
    using km m index_okD(1,2) [OF ok] by (auto split: if_splits)
  show "(R(mod_route m \<mapsto> k)) (mod_route m') = Some k'"
    using km fresh(2) index_okD(3) [OF ok, of k' m'] by (auto split: if_splits)
  fix x assume x: "x \<in> set (mod_tools m')"
  obtain n c where xnc: "x = (n, c)" by (rule prod.exhaust)
  have "T' n = Some (k', c)"
    using km x xnc index_okD(4) [OF ok, of k' m' n c] by (auto simp: T' split: if_splits)
  then show "case x of (n, c) \<Rightarrow> T' n = Some (k', c)" using xnc by simp
next
  fix r k' assume "(R(mod_route m \<mapsto> k)) r = Some k'"
  then show "\<exists>m'. (M(k \<mapsto> m)) k' = Some m' \<and> mod_route m' = r"
    using index_okD(5) [OF ok, of r k'] fresh(1) by (auto split: if_splits)
next
  fix n k' c assume "T' n = Some (k', c)"
  then show "\<exists>m'. (M(k \<mapsto> m)) k' = Some m' \<and> (n, c) \<in> set (mod_tools m')"
    using index_okD(6) [OF ok, of n k' c] fresh(1) by (auto simp: T')
qed

lemma index_ok_replace:
  assumes ok: "index_ok M R T" and old: "M k = Some m0"
    and m: "module_id (contents m) = k" "module_ok (contents m)"
    and same: "mod_route m = mod_route m0" "mod_tools m = mod_tools m0"
  shows "index_ok (M(k \<mapsto> m)) R T"
  unfolding index_ok_def
proof (intro conjI allI impI ballI)
  fix k' m' assume km: "(M(k \<mapsto> m)) k' = Some m'"
  show "module_id (contents m') = k'" "module_ok (contents m')"
    using km m index_okD(1,2) [OF ok] by (auto split: if_splits)
  show "R (mod_route m') = Some k'" using km same old index_okD(3) [OF ok] by (auto split: if_splits)
  fix x assume "x \<in> set (mod_tools m')"
  then show "case x of (n, c) \<Rightarrow> T n = Some (k', c)"
    using km same old index_okD(4) [OF ok] by (auto split: if_splits)
next
  fix r k' assume "R r = Some k'"
  then show "\<exists>m'. (M(k \<mapsto> m)) k' = Some m' \<and> mod_route m' = r"
    using index_okD(5) [OF ok] same old by fastforce
next
  fix n k' c assume "T n = Some (k', c)"
  then show "\<exists>m'. (M(k \<mapsto> m)) k' = Some m' \<and> (n, c) \<in> set (mod_tools m')"
    using index_okD(6) [OF ok] same old by fastforce
qed

lemma index_ok_remove:
  assumes ok: "index_ok M R T"
    and R': "\<And>r v. R' r = Some v \<longleftrightarrow> R r = Some v \<and> v \<noteq> k"
    and T': "\<And>n v. T' n = Some v \<longleftrightarrow> T n = Some v \<and> fst v \<noteq> k"
  shows "index_ok (M(k := None)) R' T'"
  unfolding index_ok_def
proof (intro conjI allI impI ballI)
  fix k' m' assume "(M(k := None)) k' = Some m'"
  then have km: "M k' = Some m'" "k' \<noteq> k" by (auto split: if_splits)
  then show "module_id (contents m') = k'" "module_ok (contents m')" "R' (mod_route m') = Some k'"
    using index_okD(1-3) [OF ok] by (auto simp: R')
  fix x assume "x \<in> set (mod_tools m')"
  then show "case x of (n, c) \<Rightarrow> T' n = Some (k', c)" using km index_okD(4) [OF ok] by (auto simp: T')
next
  fix r k' assume "R' r = Some k'"
  then show "\<exists>m'. (M(k := None)) k' = Some m' \<and> mod_route m' = r" using index_okD(5) [OF ok] by (auto simp: R')
next
  fix n k' c assume "T' n = Some (k', c)"
  then show "\<exists>m'. (M(k := None)) k' = Some m' \<and> (n, c) \<in> set (mod_tools m')"
    using index_okD(6) [OF ok] by (auto simp: T')
qed

section \<open>The registry invariant\<close>

definition reg_inv :: "registry \<Rightarrow> bool" where
  "reg_inv s \<longleftrightarrow> (let sn = snapshot s in
     dict_ok (snapshot_modules sn) \<and> dict_ok (routes sn) \<and> dict_ok (tool_index sn) \<and> 0 \<le> revision sn
     \<and> index_ok (map_of (snapshot_modules sn)) (map_of (routes sn)) (map_of (tool_index sn))
     \<and> (\<forall>k m. map_of (snapshot_modules sn) k = Some m \<longrightarrow>
          addr m < next_addr s \<and> (\<exists>p l. is_identifier p \<and> k = global_id p l \<and> p \<in> set (packages s))))"

lemma reg_invD:
  assumes "reg_inv s"
  shows "dict_ok (snapshot_modules (snapshot s))" "dict_ok (routes (snapshot s))" "dict_ok (tool_index (snapshot s))"
    "0 \<le> revision (snapshot s)"
    "index_ok (map_of (snapshot_modules (snapshot s))) (map_of (routes (snapshot s))) (map_of (tool_index (snapshot s)))"
    "map_of (snapshot_modules (snapshot s)) k = Some m \<Longrightarrow> addr m < next_addr s"
    "map_of (snapshot_modules (snapshot s)) k = Some m \<Longrightarrow> \<exists>p l. is_identifier p \<and> k = global_id p l \<and> p \<in> set (packages s)"
  using assms unfolding reg_inv_def Let_def by simp_all

lemma reg_inv_init: "reg_inv registry_init"
  by (simp add: reg_inv_def registry_init_def)

lemma snapshot_module_eq_Inr [simp]:
  "snapshot_module sn k = Inr m \<longleftrightarrow> map_of (snapshot_modules sn) k = Some m"
  by (simp add: snapshot_module_def split: option.splits)

lemma publish_simps [simp]:
  "snapshot (publish_snapshot sn s) = sn" "packages (publish_snapshot sn s) = packages s"
  "next_addr (publish_snapshot sn s) = next_addr s" "lifecycle_owner (publish_snapshot sn s) = lifecycle_owner s"
  by (simp_all add: publish_snapshot_def)

lemma validate_handlers_ok:
  assumes "validate_handlers m h = Inr m'"
  shows "module_ok \<lparr>module_id = g, manifest = m', handlers = h, enabled = b, epoch = 0\<rparr>"
    "route m' = route m" "tools m' = tools m" "checked_module m'"
    "fst ` set (capability_handlers h) = cap_id ` set (capabilities m')"
    "\<forall>(_, x) \<in> set (capability_handlers h). ''invoke'' \<in> set (callables x)"
proof -
  from assms have v: "validate_module 0 m = Inr m'"
    and caps: "fst ` set (capability_handlers h) = cap_id ` set (capabilities m')"
    and inv: "for_each (\<lambda>(_, c). require_callable ''invoke'' c) (capability_handlers h) = Inr ()"
    unfolding validate_handlers_def by (auto simp: rbind_eq_Inr)
  have callable: "\<forall>(_, x) \<in> set (capability_handlers h). ''invoke'' \<in> set (callables x)"
    using inv by (auto simp: for_each_eq_Inr require_callable_def)
  with caps validate_module_checked [OF v]
  show "module_ok \<lparr>module_id = g, manifest = m', handlers = h, enabled = b, epoch = 0\<rparr>"
    "route m' = route m" "tools m' = tools m" "checked_module m'"
    "fst ` set (capability_handlers h) = cap_id ` set (capabilities m')"
    "\<forall>(_, x) \<in> set (capability_handlers h). ''invoke'' \<in> set (callables x)"
    by (simp_all add: module_ok_def)
qed

subsection \<open>Republishing one module\<close>

lemma republish_simps:
  "snapshot_modules (snapshot (republish m f s)) =
     AList.update (module_id (f (contents m))) (Obj (next_addr s) (f (contents m))) (snapshot_modules (snapshot s))"
  "routes (snapshot (republish m f s)) = routes (snapshot s)"
  "tool_index (snapshot (republish m f s)) = tool_index (snapshot s)"
  "revision (snapshot (republish m f s)) = revision (snapshot s) + 1"
  "packages (republish m f s) = packages s" "next_addr (republish m f s) = Suc (next_addr s)"
  "lifecycle_owner (republish m f s) = lifecycle_owner s"
  by (simp_all add: republish_def Let_def)

lemma republish_inv:
  assumes inv: "reg_inv s" and old: "map_of (snapshot_modules (snapshot s)) k = Some m"
    and f: "module_id (f (contents m)) = k" "module_ok (f (contents m))"
      "route (manifest (f (contents m))) = route (manifest (contents m))"
      "tools (manifest (f (contents m))) = tools (manifest (contents m))"
  shows "reg_inv (republish m f s)"
proof -
  note I = reg_invD [OF inv]
  have "index_ok ((map_of (snapshot_modules (snapshot s)))(k \<mapsto> Obj (next_addr s) (f (contents m))))
     (map_of (routes (snapshot s))) (map_of (tool_index (snapshot s)))"
    by (rule index_ok_replace [OF I(5) old]) (simp_all add: f mod_route_def mod_tools_def)
  then show ?thesis
    unfolding reg_inv_def Let_def republish_simps f(1)
    using I(1-4) I(6,7) old by (auto simp: less_Suc_eq)
qed

text \<open>The tool index after the tools of one module are added.\<close>

lemma new_tools_index:
  assumes d: "distinct (map tool_name (tools (manifest (contents m))))"
    and fresh: "\<forall>t \<in> set (tools (manifest (contents m))). map_of T (tool_name t) = None"
  shows "map_of (dict_update_all T (map (\<lambda>t. (tool_name t, (gid, tool_capability t))) (tools (manifest (contents m))))) n = Some v
    \<longleftrightarrow> map_of T n = Some v \<or> (\<exists>x. (n, x) \<in> set (mod_tools m) \<and> v = (gid, x))"
proof -
  let ?new = "map (\<lambda>t. (tool_name t, (gid, tool_capability t))) (tools (manifest (contents m)))"
  have d': "distinct (map fst ?new)" using d by (simp add: comp_def)
  have new: "map_of ?new n = Some w \<longleftrightarrow> (\<exists>x. (n, x) \<in> set (mod_tools m) \<and> w = (gid, x))" for w
    by (subst map_of_eq_Some_iff [OF d']) (auto simp: mod_tools_def)
  have old: "map_of T n = None" if "\<exists>x. (n, x) \<in> set (mod_tools m) \<and> w = (gid, x)" for w
    using that fresh by (auto simp: mod_tools_def)
  show ?thesis
  proof (cases "map_of ?new n")
    case None
    then show ?thesis using new [of v] by (auto simp: map_of_dict_update_all_distinct [OF d'] map_add_Some_iff)
  next
    case (Some w)
    then show ?thesis using new [of v] new [of w] old [of w]
      by (simp add: map_of_dict_update_all_distinct [OF d'] map_add_Some_iff)
  qed
qed

subsection \<open>Registering a package\<close>

lemma add_tool_eq_Inr: "add_tool gid t c = Inr c1 \<longleftrightarrow> tool_name t \<notin> fst ` set (cand_tools c)
    \<and> c1 = c\<lparr>cand_tools := AList.update (tool_name t) (gid, tool_capability t) (cand_tools c)\<rparr>"
  by (auto simp: add_tool_def rbind_eq_Inr)

lemma add_tools:
  "rfold (add_tool gid) ts c = Inr c' \<Longrightarrow>
     c' = c\<lparr>cand_tools := dict_update_all (cand_tools c) (map (\<lambda>t. (tool_name t, (gid, tool_capability t))) ts)\<rparr>
     \<and> distinct (map tool_name ts) \<and> (\<forall>t \<in> set ts. map_of (cand_tools c) (tool_name t) = None)"
proof (induction ts arbitrary: c)
  case (Cons t ts)
  from Cons.prems obtain c1 where c1: "c1 = c\<lparr>cand_tools := AList.update (tool_name t) (gid, tool_capability t) (cand_tools c)\<rparr>"
    and fresh: "tool_name t \<notin> fst ` set (cand_tools c)" and rest: "rfold (add_tool gid) ts c1 = Inr c'"
    by (auto simp: add_tool_eq_Inr rbind_eq_Inr)
  from fresh have none: "map_of (cand_tools c) (tool_name t) = None" by (simp add: map_of_eq_None_iff)
  note IH = Cons.IH [OF rest]
  have others: "map_of (cand_tools c) (tool_name t') = None \<and> tool_name t' \<noteq> tool_name t" if "t' \<in> set ts" for t'
    using IH [THEN conjunct2, THEN conjunct2, rule_format, OF that]
    by (cases "tool_name t' = tool_name t") (simp_all add: c1)
  then have "tool_name t \<notin> tool_name ` set ts" by (metis imageE)
  with IH none others show ?case by (simp add: c1)
qed simp

text \<open>The candidate indexes after some modules of a package.\<close>

definition cand_ok :: "registry_snapshot \<Rightarrow> nat \<Rightarrow> candidate \<Rightarrow> bool" where
  "cand_ok old a c \<longleftrightarrow> dict_ok (cand_routes c) \<and> dict_ok (cand_tools c) \<and> dict_ok (additions c) \<and> a \<le> cand_addr c
     \<and> index_ok (map_of (snapshot_modules old) ++ map_of (additions c)) (map_of (cand_routes c)) (map_of (cand_tools c))
     \<and> (\<forall>k m. map_of (additions c) k = Some m \<longrightarrow> a \<le> addr m \<and> addr m < cand_addr c)"

lemma add_module_cases:
  assumes "add_module old p hs m c = Inr c'" "is_identifier (package_id p)"
  obtains h m' gid where "gid = global_id (package_id p) (local_id m)"
    "map_of (snapshot_modules old) gid = None" "map_of (cand_routes c) (route m) = None"
    "validate_handlers m h = Inr m'" "distinct (map tool_name (tools m'))"
    "\<forall>t \<in> set (tools m'). map_of (cand_tools c) (tool_name t) = None"
    "c' = \<lparr>cand_routes = AList.update (route m') gid (cand_routes c),
           cand_tools = dict_update_all (cand_tools c) (map (\<lambda>t. (tool_name t, (gid, tool_capability t))) (tools m')),
           additions = AList.update gid (Obj (cand_addr c) \<lparr>module_id = gid, manifest = m', handlers = h, enabled = False, epoch = 0\<rparr>) (additions c),
           cand_addr = Suc (cand_addr c)\<rparr>"
proof -
  from assms obtain h m' c2 gid where g: "global_module_id p (local_id m) = Inr gid"
    and fresh: "gid \<notin> fst ` set (snapshot_modules old)" "route m \<notin> fst ` set (cand_routes c)"
    and v: "validate_handlers m h = Inr m'"
    and fold: "rfold (add_tool gid) (tools m') (c\<lparr>additions := AList.update gid
                  (Obj (cand_addr c) \<lparr>module_id = gid, manifest = m', handlers = h, enabled = False, epoch = 0\<rparr>) (additions c),
                cand_addr := Suc (cand_addr c)\<rparr>) = Inr c2"
    and c': "c' = c2\<lparr>cand_routes := AList.update (route m') gid (cand_routes c2)\<rparr>"
    unfolding add_module_def Let_def by (auto simp: rbind_eq_Inr split: option.splits)
  from g have gid: "gid = global_id (package_id p) (local_id m)"
    by (simp add: global_module_id_def split: if_splits)
  from add_tools [OF fold] have c2: "c2 = \<lparr>cand_routes = cand_routes c,
           cand_tools = dict_update_all (cand_tools c) (map (\<lambda>t. (tool_name t, (gid, tool_capability t))) (tools m')),
           additions = AList.update gid (Obj (cand_addr c) \<lparr>module_id = gid, manifest = m', handlers = h, enabled = False, epoch = 0\<rparr>) (additions c),
           cand_addr = Suc (cand_addr c)\<rparr>"
    and d: "distinct (map tool_name (tools m'))" "\<forall>t \<in> set (tools m'). map_of (cand_tools c) (tool_name t) = None"
    by simp_all
  show thesis
    by (rule that [OF gid _ _ v d]) (use fresh c' c2 in \<open>simp_all add: map_of_eq_None_iff\<close>)
qed

lemma add_module_ok:
  assumes add: "add_module old p hs m c = Inr c'" and p: "is_identifier (package_id p)"
    and ok: "cand_ok old a c" and new: "map_of (additions c) (global_id (package_id p) (local_id m)) = None"
  shows "cand_ok old a c'" "dom (map_of (additions c')) = insert (global_id (package_id p) (local_id m)) (dom (map_of (additions c)))"
proof -
  from add_module_cases [OF add p] obtain h m' gid where gid: "gid = global_id (package_id p) (local_id m)"
    and fresh: "map_of (snapshot_modules old) gid = None" "map_of (cand_routes c) (route m) = None"
      "\<forall>t \<in> set (tools m'). map_of (cand_tools c) (tool_name t) = None"
    and v: "validate_handlers m h = Inr m'" and d: "distinct (map tool_name (tools m'))"
    and c': "c' = \<lparr>cand_routes = AList.update (route m') gid (cand_routes c),
           cand_tools = dict_update_all (cand_tools c) (map (\<lambda>t. (tool_name t, (gid, tool_capability t))) (tools m')),
           additions = AList.update gid (Obj (cand_addr c) \<lparr>module_id = gid, manifest = m', handlers = h, enabled = False, epoch = 0\<rparr>) (additions c),
           cand_addr = Suc (cand_addr c)\<rparr>" .
  let ?m = "Obj (cand_addr c) \<lparr>module_id = gid, manifest = m', handlers = h, enabled = False, epoch = 0\<rparr>"
  have new': "map_of (additions c) gid = None" using new gid by simp
  have tools_new: "map_of (cand_tools c') n = Some v \<longleftrightarrow> map_of (cand_tools c) n = Some v \<or> (\<exists>x. (n, x) \<in> set (mod_tools ?m) \<and> v = (gid, x))" for n v
    using new_tools_index [of ?m "cand_tools c" gid n v] d fresh(3) by (simp add: c')
  have "index_ok ((map_of (snapshot_modules old) ++ map_of (additions c))(gid \<mapsto> ?m))
      ((map_of (cand_routes c))(mod_route ?m \<mapsto> gid)) (map_of (cand_tools c'))"
  proof (rule index_ok_add [OF _ _ _ _ _ _ tools_new])
    show "index_ok (map_of (snapshot_modules old) ++ map_of (additions c)) (map_of (cand_routes c)) (map_of (cand_tools c))"
      using ok by (simp add: cand_ok_def)
    show "map_of (cand_tools c) n = None" if "(n, x) \<in> set (mod_tools ?m)" for n x
      using that fresh(3) by (auto simp: mod_tools_def)
  qed (use fresh new' validate_handlers_ok [OF v] in \<open>simp_all add: mod_route_def\<close>)
  then show "cand_ok old a c'"
    using ok unfolding cand_ok_def by (auto simp: c' mod_route_def less_Suc_eq)
  show "dom (map_of (additions c')) = insert (global_id (package_id p) (local_id m)) (dom (map_of (additions c)))"
    by (simp add: c' gid)
qed

lemma add_modules_ok:
  assumes "rfold (add_module old p hs) ms c = Inr c'" "is_identifier (package_id p)" "cand_ok old a c"
    and "distinct (map local_id ms)"
    and "\<forall>m \<in> set ms. map_of (additions c) (global_id (package_id p) (local_id m)) = None"
  shows "cand_ok old a c' \<and> dom (map_of (additions c')) = dom (map_of (additions c)) \<union> (\<lambda>m. global_id (package_id p) (local_id m)) ` set ms"
  using assms
proof (induction ms arbitrary: c)
  case (Cons m ms)
  from Cons.prems(1) obtain c1 where c1: "add_module old p hs m c = Inr c1" "rfold (add_module old p hs) ms c1 = Inr c'"
    by (auto simp: rbind_eq_Inr)
  have step: "cand_ok old a c1" "dom (map_of (additions c1)) = insert (global_id (package_id p) (local_id m)) (dom (map_of (additions c)))"
    using add_module_ok [OF c1(1) Cons.prems(2,3)] Cons.prems(5) by auto
  have "\<forall>m' \<in> set ms. map_of (additions c1) (global_id (package_id p) (local_id m')) = None"
  proof
    fix m' assume m': "m' \<in> set ms"
    have "local_id m \<notin> local_id ` set ms" using Cons.prems(4) by simp
    with m' have "local_id m' \<noteq> local_id m" by (metis imageI)
    then have "global_id (package_id p) (local_id m') \<notin> dom (map_of (additions c1))"
      using Cons.prems(5) m' unfolding step(2) by (auto simp: global_id_def)
    then show "map_of (additions c1) (global_id (package_id p) (local_id m')) = None" by blast
  qed
  from Cons.IH [OF c1(2) Cons.prems(2) step(1) _ this] Cons.prems(4) step(2) show ?case by auto
qed simp

lemma register_package_cases:
  assumes "register_package p0 hs s = Inr s'"
  obtains p c where "validate_package p0 = Inr p" "package_id p \<notin> set (packages s)"
    "rfold (add_module (snapshot s) p hs) (modules p) \<lparr>cand_routes = routes (snapshot s),
        cand_tools = tool_index (snapshot s), additions = [], cand_addr = next_addr s\<rparr> = Inr c"
    "s' = publish_snapshot \<lparr>revision = revision (snapshot s) + 1,
               snapshot_modules = dict_update_all (snapshot_modules (snapshot s)) (additions c),
               routes = cand_routes c, tool_index = cand_tools c\<rparr>
            (s\<lparr>packages := List.insert (package_id p) (packages s), next_addr := cand_addr c\<rparr>)"
  using assms unfolding register_package_def Let_def by (auto simp: rbind_eq_Inr)

lemma register_package_inv:
  assumes "register_package p0 hs s = Inr s'" "reg_inv s"
  shows "reg_inv s'"
proof -
  from register_package_cases [OF assms(1)] obtain p c where v: "validate_package p0 = Inr p"
    and fold: "rfold (add_module (snapshot s) p hs) (modules p) \<lparr>cand_routes = routes (snapshot s),
        cand_tools = tool_index (snapshot s), additions = [], cand_addr = next_addr s\<rparr> = Inr c"
    and s': "s' = publish_snapshot \<lparr>revision = revision (snapshot s) + 1,
               snapshot_modules = dict_update_all (snapshot_modules (snapshot s)) (additions c),
               routes = cand_routes c, tool_index = cand_tools c\<rparr>
            (s\<lparr>packages := List.insert (package_id p) (packages s), next_addr := cand_addr c\<rparr>)" .
  note I = reg_invD [OF assms(2)]
  note P = validate_package_checked [OF v]
  have "cand_ok (snapshot s) (next_addr s) \<lparr>cand_routes = routes (snapshot s),
        cand_tools = tool_index (snapshot s), additions = [], cand_addr = next_addr s\<rparr>"
    using I by (simp add: cand_ok_def)
  from add_modules_ok [OF fold P(1) this P(2)]
  have ok: "cand_ok (snapshot s) (next_addr s) c"
    and dom: "dom (map_of (additions c)) = (\<lambda>m. global_id (package_id p) (local_id m)) ` set (modules p)"
    by simp_all
  note ok = ok [unfolded cand_ok_def]
  have mods: "map_of (dict_update_all (snapshot_modules (snapshot s)) (additions c))
      = map_of (snapshot_modules (snapshot s)) ++ map_of (additions c)"
    using ok by (simp add: map_of_dict_update_all_distinct dict_ok_def)
  have "addr m < cand_addr c \<and> (\<exists>q l. is_identifier q \<and> k = global_id q l \<and> q \<in> insert (package_id p) (set (packages s)))"
    if "(map_of (snapshot_modules (snapshot s)) ++ map_of (additions c)) k = Some m" for k m
  proof (cases "map_of (additions c) k")
    case None
    with that have old: "map_of (snapshot_modules (snapshot s)) k = Some m" by (simp add: map_add_def)
    from I(6) [OF old] I(7) [OF old] ok show ?thesis by auto
  next
    case (Some m')
    then have "k \<in> dom (map_of (additions c))" by blast
    then obtain l where "k = global_id (package_id p) l" using dom by auto
    moreover have "addr m < cand_addr c" using ok Some that by auto
    ultimately show ?thesis using P(1) by auto
  qed
  then show ?thesis using ok I unfolding reg_inv_def s' Let_def
    by (simp only: publish_simps registry_snapshot.simps mods registry.simps set_insert) simp
qed

subsection \<open>The other operations\<close>

lemma set_enabled_inv:
  assumes "set_enabled lc mid b s = Inr s'" "reg_inv s"
  shows "reg_inv s'"
proof -
  from assms(1) obtain m where m: "map_of (snapshot_modules (snapshot s)) mid = Some m"
    and s': "s' = (if enabled (contents m) = b then s else republish m (\<lambda>r. r\<lparr>enabled := b\<rparr>) s)"
    unfolding set_enabled_def by (auto simp: rbind_eq_Inr)
  note mo = index_okD(1,2) [OF reg_invD(5) [OF assms(2)] m]
  have "reg_inv (republish m (\<lambda>r. r\<lparr>enabled := b\<rparr>) s)"
    by (rule republish_inv [OF assms(2) m]) (use mo in \<open>simp_all add: module_ok_def\<close>)
  then show ?thesis using assms(2) s' by simp
qed

lemma publish_lifecycle_projection_cases:
  assumes "publish_lifecycle_projection mid b ep expected s = Inr s'"
  obtains m where "map_of (snapshot_modules (snapshot s)) mid = Some m" "0 \<le> ep"
    "s' = (if enabled (contents m) = b \<and> epoch (contents m) = ep then s
           else republish m (\<lambda>r. r\<lparr>enabled := b, epoch := ep\<rparr>) s)"
    "expected = None \<or> expected = Some (revision (snapshot s))"
  using assms unfolding publish_lifecycle_projection_def
  by (cases expected) (auto simp: rbind_eq_Inr)

lemma publish_lifecycle_projection_inv:
  assumes "publish_lifecycle_projection mid b ep expected s = Inr s'" "reg_inv s"
  shows "reg_inv s'"
proof -
  from publish_lifecycle_projection_cases [OF assms(1)] obtain m
    where m: "map_of (snapshot_modules (snapshot s)) mid = Some m" "0 \<le> ep"
      and s': "s' = (if enabled (contents m) = b \<and> epoch (contents m) = ep then s
           else republish m (\<lambda>r. r\<lparr>enabled := b, epoch := ep\<rparr>) s)" .
  note mo = index_okD(1,2) [OF reg_invD(5) [OF assms(2)] m(1)]
  have "reg_inv (republish m (\<lambda>r. r\<lparr>enabled := b, epoch := ep\<rparr>) s)"
    by (rule republish_inv [OF assms(2) m(1)]) (use mo m(2) in \<open>simp_all add: module_ok_def\<close>)
  then show ?thesis using assms(2) s' by simp
qed

lemma install_lifecycle_handlers_inv:
  assumes "install_lifecycle_handlers mid h s = Inr s'" "reg_inv s"
  shows "reg_inv s'"
proof -
  from assms(1) obtain m m' where m: "map_of (snapshot_modules (snapshot s)) mid = Some m"
    and v: "validate_handlers (manifest (contents m)) h = Inr m'"
    and s': "s' = republish m (\<lambda>r. r\<lparr>manifest := m', handlers := h\<rparr>) s"
    unfolding install_lifecycle_handlers_def by (auto simp: rbind_eq_Inr)
  note mo = index_okD(1,2) [OF reg_invD(5) [OF assms(2)] m]
  show ?thesis unfolding s'
    by (rule republish_inv [OF assms(2) m])
      (use mo validate_handlers_ok(2-) [OF v] in \<open>simp_all add: module_ok_def\<close>)
qed

lemma detach_cases:
  assumes "detach_lifecycle_module lc ow mid s = Inr s'"
  obtains m where "map_of (snapshot_modules (snapshot s)) mid = Some m" "lifecycle_owner s = Some ow" "\<not> is_active s lc mid"
    "snapshot s' = \<lparr>revision = revision (snapshot s) + 1,
               snapshot_modules = filter (\<lambda>(k, _). k \<noteq> mid) (snapshot_modules (snapshot s)),
               routes = filter (\<lambda>(_, k). k \<noteq> mid) (routes (snapshot s)),
               tool_index = filter (\<lambda>(_, k, _). k \<noteq> mid) (tool_index (snapshot s))\<rparr>"
    "next_addr s' = next_addr s" "lifecycle_owner s' = lifecycle_owner s"
    "packages s' = (if list_ex (\<lambda>(k, _). starts_with (before_first (CHR ''/'') mid @ ''/'') k)
        (filter (\<lambda>(k, _). k \<noteq> mid) (snapshot_modules (snapshot s)))
      then packages s else removeAll (before_first (CHR ''/'') mid) (packages s))"
  using assms unfolding detach_lifecycle_module_def Let_def
  by (simp only: rbind_eq_Inr ensure_eq_Inr snapshot_module_eq_Inr sum.inject)
    (elim exE conjE, hypsubst, rule that, simp_all)

lemma detach_indexes:
  assumes "reg_inv s"
  shows "map_of (filter (\<lambda>(k, _). k \<noteq> mid) (snapshot_modules (snapshot s))) = (map_of (snapshot_modules (snapshot s)))(mid := None)"
    "map_of (filter (\<lambda>(_, k). k \<noteq> mid) (routes (snapshot s))) r = Some v \<longleftrightarrow> map_of (routes (snapshot s)) r = Some v \<and> v \<noteq> mid"
    "map_of (filter (\<lambda>(_, k, _). k \<noteq> mid) (tool_index (snapshot s))) n = Some w \<longleftrightarrow> map_of (tool_index (snapshot s)) n = Some w \<and> fst w \<noteq> mid"
proof -
  note I = reg_invD(1-3) [OF assms]
  show "map_of (filter (\<lambda>(k, _). k \<noteq> mid) (snapshot_modules (snapshot s))) = (map_of (snapshot_modules (snapshot s)))(mid := None)"
    by (rule ext) (simp add: map_of_filter_keep [OF I(1)] split: option.splits)
  show "map_of (filter (\<lambda>(_, k). k \<noteq> mid) (routes (snapshot s))) r = Some v \<longleftrightarrow> map_of (routes (snapshot s)) r = Some v \<and> v \<noteq> mid"
    by (auto simp: map_of_filter_keep [OF I(2)] split: option.splits)
  show "map_of (filter (\<lambda>(_, k, _). k \<noteq> mid) (tool_index (snapshot s))) n = Some w \<longleftrightarrow> map_of (tool_index (snapshot s)) n = Some w \<and> fst w \<noteq> mid"
    by (auto simp: map_of_filter_keep [OF I(3)] split: option.splits)
qed

lemma detach_packages:
  assumes k: "is_identifier p" "k = global_id p l" "p \<in> set (packages s)"
    and in_d: "(k, m) \<in> set d" and mid: "is_identifier q" "mid = global_id q l'"
  shows "p \<in> set (if list_ex (\<lambda>(k, _). starts_with (before_first (CHR ''/'') mid @ ''/'') k) d
      then packages s else removeAll (before_first (CHR ''/'') mid) (packages s))"
proof (cases "p = q")
  case True
  then have "starts_with (before_first (CHR ''/'') mid @ ''/'') k"
    using mid(1) by (simp add: mid(2) k(2) global_id_package starts_with_iff) (simp add: global_id_def)
  then have "list_ex (\<lambda>(k, _). starts_with (before_first (CHR ''/'') mid @ ''/'') k) d"
    using in_d by (auto simp: list_ex_iff)
  then show ?thesis using k(3) by simp
next
  case False
  then show ?thesis using k(3) mid by (simp add: global_id_package)
qed

lemma detach_lifecycle_module_inv:
  assumes "detach_lifecycle_module lc ow mid s = Inr s'" "reg_inv s"
  shows "reg_inv s'"
proof -
  note I = reg_invD [OF assms(2)]
  note D = detach_indexes [OF assms(2), of mid]
  from detach_cases [OF assms(1)] obtain m0 where m0: "map_of (snapshot_modules (snapshot s)) mid = Some m0"
    and sn: "snapshot s' = \<lparr>revision = revision (snapshot s) + 1,
               snapshot_modules = filter (\<lambda>(k, _). k \<noteq> mid) (snapshot_modules (snapshot s)),
               routes = filter (\<lambda>(_, k). k \<noteq> mid) (routes (snapshot s)),
               tool_index = filter (\<lambda>(_, k, _). k \<noteq> mid) (tool_index (snapshot s))\<rparr>"
    and na: "next_addr s' = next_addr s"
    and pk: "packages s' = (if list_ex (\<lambda>(k, _). starts_with (before_first (CHR ''/'') mid @ ''/'') k)
        (filter (\<lambda>(k, _). k \<noteq> mid) (snapshot_modules (snapshot s)))
      then packages s else removeAll (before_first (CHR ''/'') mid) (packages s))" .
  have idx: "index_ok ((map_of (snapshot_modules (snapshot s)))(mid := None))
      (map_of (filter (\<lambda>(_, k). k \<noteq> mid) (routes (snapshot s))))
      (map_of (filter (\<lambda>(_, k, _). k \<noteq> mid) (tool_index (snapshot s))))"
    by (rule index_ok_remove [OF I(5) D(2,3)])
  have pkg: "\<exists>p l. is_identifier p \<and> k = global_id p l \<and> p \<in> set (packages s')"
    if "((map_of (snapshot_modules (snapshot s)))(mid := None)) k = Some m" for k m
  proof -
    from that have k: "map_of (snapshot_modules (snapshot s)) k = Some m" "k \<noteq> mid" by (auto split: if_splits)
    from I(7) [OF k(1)] obtain p l where p: "is_identifier p" "k = global_id p l" "p \<in> set (packages s)" by blast
    from I(7) [OF m0] obtain q l' where q: "is_identifier q" "mid = global_id q l'" by blast
    have "(k, m) \<in> set (filter (\<lambda>(k, _). k \<noteq> mid) (snapshot_modules (snapshot s)))"
      using k by (auto dest: map_of_SomeD)
    from detach_packages [OF p this q] p(1,2) pk show ?thesis by auto
  qed
  show ?thesis unfolding reg_inv_def sn Let_def registry_snapshot.simps D(1) na
    using I(1-4) I(6) idx pkg by (auto split: if_splits)
qed

lemma restore_cases:
  assumes "restore_lifecycle_module ow pid m h s = Inr s'"
  obtains m' mid where "mid = global_id pid (local_id m)" "map_of (snapshot_modules (snapshot s)) mid = None"
    "map_of (routes (snapshot s)) (route m) = None" "\<forall>t \<in> set (tools m). map_of (tool_index (snapshot s)) (tool_name t) = None"
    "validate_handlers m h = Inr m'" "lifecycle_owner s = Some ow" "lifecycle_owner s' = Some ow"
    "snapshot s' = \<lparr>revision = revision (snapshot s) + 1,
       snapshot_modules = AList.update mid (Obj (next_addr s) \<lparr>module_id = mid, manifest = m', handlers = h, enabled = False, epoch = 0\<rparr>)
         (snapshot_modules (snapshot s)),
       routes = AList.update (route m') mid (routes (snapshot s)),
       tool_index = dict_update_all (tool_index (snapshot s)) (map (\<lambda>t. (tool_name t, (mid, tool_capability t))) (tools m'))\<rparr>"
    "packages s' = List.insert pid (packages s)" "next_addr s' = Suc (next_addr s)"
proof -
  from assms obtain m' where own: "lifecycle_owner s = Some ow"
    and c: "global_id pid (local_id m) \<notin> fst ` set (snapshot_modules (snapshot s))" "route m \<notin> fst ` set (routes (snapshot s))"
      "\<not> list_ex (\<lambda>t. tool_name t \<in> fst ` set (tool_index (snapshot s))) (tools m)"
    and v: "validate_handlers m h = Inr m'"
    and s': "s' = publish_snapshot \<lparr>revision = revision (snapshot s) + 1,
       snapshot_modules = AList.update (global_id pid (local_id m)) (Obj (next_addr s) \<lparr>module_id = global_id pid (local_id m), manifest = m', handlers = h, enabled = False, epoch = 0\<rparr>)
         (snapshot_modules (snapshot s)),
       routes = AList.update (route m') (global_id pid (local_id m)) (routes (snapshot s)),
       tool_index = dict_update_all (tool_index (snapshot s)) (map (\<lambda>t. (tool_name t, (global_id pid (local_id m), tool_capability t))) (tools m'))\<rparr>
      (s\<lparr>packages := List.insert pid (packages s), next_addr := Suc (next_addr s)\<rparr>)"
    unfolding restore_lifecycle_module_def Let_def by (auto simp: rbind_eq_Inr)
  have "\<forall>t \<in> set (tools m). map_of (tool_index (snapshot s)) (tool_name t) = None"
    using c(3) by (auto simp: list_ex_iff map_of_eq_None_iff)
  then show thesis
    by (rule that [OF refl _ _ _ v own, rotated 2]) (use c(1,2) own s' in \<open>simp_all add: map_of_eq_None_iff\<close>)
qed

lemma restore_lifecycle_module_inv:
  assumes "restore_lifecycle_module ow pid m h s = Inr s'" "is_identifier pid" "reg_inv s"
  shows "reg_inv s'"
proof -
  note I = reg_invD [OF assms(3)]
  from restore_cases [OF assms(1)] obtain m' mid where mid: "mid = global_id pid (local_id m)"
    and fresh: "map_of (snapshot_modules (snapshot s)) mid = None" "map_of (routes (snapshot s)) (route m) = None"
      "\<forall>t \<in> set (tools m). map_of (tool_index (snapshot s)) (tool_name t) = None"
    and v: "validate_handlers m h = Inr m'"
    and sn: "snapshot s' = \<lparr>revision = revision (snapshot s) + 1,
       snapshot_modules = AList.update mid (Obj (next_addr s) \<lparr>module_id = mid, manifest = m', handlers = h, enabled = False, epoch = 0\<rparr>)
         (snapshot_modules (snapshot s)),
       routes = AList.update (route m') mid (routes (snapshot s)),
       tool_index = dict_update_all (tool_index (snapshot s)) (map (\<lambda>t. (tool_name t, (mid, tool_capability t))) (tools m'))\<rparr>"
    and rest: "packages s' = List.insert pid (packages s)" "next_addr s' = Suc (next_addr s)" .
  note V = validate_handlers_ok [OF v]
  let ?m = "Obj (next_addr s) \<lparr>module_id = mid, manifest = m', handlers = h, enabled = False, epoch = 0\<rparr>"
  have "index_ok ((map_of (snapshot_modules (snapshot s)))(mid \<mapsto> ?m)) ((map_of (routes (snapshot s)))(mod_route ?m \<mapsto> mid))
      (map_of (dict_update_all (tool_index (snapshot s)) (map (\<lambda>t. (tool_name t, (mid, tool_capability t))) (tools m'))))"
  proof (rule index_ok_add [OF I(5)])
    show "map_of (tool_index (snapshot s)) n = None" if "(n, c) \<in> set (mod_tools ?m)" for n c
      using that fresh(3) V(3) by (auto simp: mod_tools_def)
    show "map_of (dict_update_all (tool_index (snapshot s)) (map (\<lambda>t. (tool_name t, (mid, tool_capability t))) (tools m'))) n = Some w
        \<longleftrightarrow> map_of (tool_index (snapshot s)) n = Some w \<or> (\<exists>c. (n, c) \<in> set (mod_tools ?m) \<and> w = (mid, c))" for n w
      using new_tools_index [of ?m "tool_index (snapshot s)" mid n w] V(3,4) fresh(3) by (simp add: checked_module_def)
  qed (use fresh(1,2) V(1,2) in \<open>simp_all add: mod_route_def\<close>)
  moreover have "\<exists>p l. is_identifier p \<and> k = global_id p l \<and> p \<in> insert pid (set (packages s))"
    if "((map_of (snapshot_modules (snapshot s)))(mid \<mapsto> ?m)) k = Some x" for k x
    using that I(7) [of k x] assms(2) mid by (cases "k = mid") auto
  ultimately show ?thesis unfolding reg_inv_def sn Let_def rest registry_snapshot.simps
    using I(1-4) I(6) by (simp add: mod_route_def less_Suc_eq)
qed

section \<open>Runs of the registry\<close>

text \<open>
  One successful operation.  The lifecycle owner restores modules under the identifier of
  the package they were registered with.
\<close>

inductive reg_step :: "registry \<Rightarrow> registry \<Rightarrow> bool" where
  step_observe: "reg_step s (observe ob s)"
| step_unobserve: "reg_step s (unobserve ob s)"
| step_register: "register_package p hs s = Inr s' \<Longrightarrow> reg_step s s'"
| step_enable: "set_enabled lc mid b s = Inr s' \<Longrightarrow> reg_step s s'"
| step_bind: "bind_lifecycle_owner ow s = Inr s' \<Longrightarrow> reg_step s s'"
| step_project: "publish_lifecycle_projection mid b ep expected s = Inr s' \<Longrightarrow> reg_step s s'"
| step_install: "install_lifecycle_handlers mid h s = Inr s' \<Longrightarrow> reg_step s s'"
| step_detach: "detach_lifecycle_module lc ow mid s = Inr s' \<Longrightarrow> reg_step s s'"
| step_restore: "restore_lifecycle_module ow pid m h s = Inr s' \<Longrightarrow> is_identifier pid \<Longrightarrow> reg_step s s'"

inductive_cases reg_stepE: "reg_step s t"

lemma reg_inv_more:
  "reg_inv (s\<lparr>observers := obs\<rparr>) = reg_inv s" "reg_inv (s\<lparr>lifecycle_owner := ow\<rparr>) = reg_inv s"
  by (simp_all add: reg_inv_def)

lemma reg_step_inv: "reg_step s t \<Longrightarrow> reg_inv s \<Longrightarrow> reg_inv t"
proof (induction rule: reg_step.induct)
  case (step_bind ow s s')
  then show ?case by (auto simp: bind_lifecycle_owner_def reg_inv_more split: option.splits if_splits)
qed (auto simp: observe_def unobserve_def reg_inv_more
      intro: register_package_inv set_enabled_inv publish_lifecycle_projection_inv
        install_lifecycle_handlers_inv detach_lifecycle_module_inv restore_lifecycle_module_inv)

text \<open>
  What a step does to the snapshot: it is kept, or one with the next revision is
  published; object addresses that are not in use any more are not used again.
\<close>

definition addresses :: "registry \<Rightarrow> nat set" where
  "addresses s = {addr m | m. \<exists>k. map_of (snapshot_modules (snapshot s)) k = Some m}"

definition advances :: "registry \<Rightarrow> registry \<Rightarrow> bool" where
  "advances s t \<longleftrightarrow> (snapshot t = snapshot s \<or> revision (snapshot t) = revision (snapshot s) + 1)
     \<and> next_addr s \<le> next_addr t \<and> addresses t \<subseteq> addresses s \<union> {next_addr s..<next_addr t}"

lemma advances_same: "snapshot t = snapshot s \<Longrightarrow> next_addr t = next_addr s \<Longrightarrow> advances s t"
  by (simp add: advances_def addresses_def)

lemma advances_refl [simp]: "advances s s"
  by (rule advances_same) simp_all

lemma republish_advances: "advances s (republish m f s)"
  by (auto simp: advances_def addresses_def republish_simps split: if_splits)

lemma register_package_advances:
  assumes "register_package p0 hs s = Inr s'" "reg_inv s"
  shows "advances s s'"
proof -
  from register_package_cases [OF assms(1)] obtain p c where v: "validate_package p0 = Inr p"
    and fold: "rfold (add_module (snapshot s) p hs) (modules p) \<lparr>cand_routes = routes (snapshot s),
        cand_tools = tool_index (snapshot s), additions = [], cand_addr = next_addr s\<rparr> = Inr c"
    and s': "s' = publish_snapshot \<lparr>revision = revision (snapshot s) + 1,
               snapshot_modules = dict_update_all (snapshot_modules (snapshot s)) (additions c),
               routes = cand_routes c, tool_index = cand_tools c\<rparr>
            (s\<lparr>packages := List.insert (package_id p) (packages s), next_addr := cand_addr c\<rparr>)" .
  note I = reg_invD [OF assms(2)] and P = validate_package_checked [OF v]
  have "cand_ok (snapshot s) (next_addr s) \<lparr>cand_routes = routes (snapshot s),
        cand_tools = tool_index (snapshot s), additions = [], cand_addr = next_addr s\<rparr>"
    using I by (simp add: cand_ok_def)
  from add_modules_ok [OF fold P(1) this P(2)] have ok: "cand_ok (snapshot s) (next_addr s) c" by simp
  then have mods: "map_of (dict_update_all (snapshot_modules (snapshot s)) (additions c))
      = map_of (snapshot_modules (snapshot s)) ++ map_of (additions c)"
    by (simp add: map_of_dict_update_all_distinct dict_ok_def cand_ok_def)
  have "addresses s' \<subseteq> addresses s \<union> {next_addr s..<cand_addr c}"
    using ok unfolding addresses_def s' by (auto simp: mods map_add_Some_iff cand_ok_def)
  then show ?thesis using ok by (simp add: advances_def s' cand_ok_def)
qed

lemma reg_step_advances: "reg_step s t \<Longrightarrow> reg_inv s \<Longrightarrow> advances s t"
proof (induction rule: reg_step.induct)
  case (step_register p hs s s')
  then show ?case by (rule register_package_advances)
next
  case (step_enable lc mid b s s')
  then show ?case by (auto simp: set_enabled_def rbind_eq_Inr republish_advances)
next
  case (step_bind ow s s')
  then show ?case by (auto simp: bind_lifecycle_owner_def intro: advances_same split: option.splits if_splits)
next
  case (step_project mid b ep expected s s')
  from this(1) show ?case by (rule publish_lifecycle_projection_cases) (simp add: republish_advances)
next
  case (step_install mid h s s')
  then show ?case by (auto simp: install_lifecycle_handlers_def rbind_eq_Inr republish_advances)
next
  case (step_detach lc ow mid s s')
  from this(1) show ?case
    by (rule detach_cases) (auto simp: advances_def addresses_def detach_indexes(1) [OF step_detach(2)] split: if_splits)
next
  case (step_restore ow pid m h s s')
  from this(1) show ?case by (rule restore_cases) (auto simp: advances_def addresses_def split: if_splits)
qed (auto simp: observe_def unobserve_def intro: advances_same)

interpretation reg: revisioned_system "\<lambda>s. s = registry_init" reg_step reg_inv
  "\<lambda>s. revision (snapshot s)" snapshot
proof unfold_locales
  show "reg_inv s" if "s = registry_init" for s using that by (simp add: reg_inv_init)
  show "reg_inv t" if "reg_step s t" "reg_inv s" for s t using that by (rule reg_step_inv)
  show "revision (snapshot s) < revision (snapshot t) \<or> revision (snapshot s) = revision (snapshot t) \<and> snapshot s = snapshot t"
    if "reg_inv s" "reg_step s t" for s t
    using reg_step_advances [OF that(2,1)] by (auto simp: advances_def)
qed

section \<open>Properties\<close>

text \<open>C38: In every reachable registry, a route resolves exactly to the registered module
  that declares it, and a tool name resolves to a registered module, to one of its declared
  capabilities that the tool policy allows, and that capability has a handler whose
  \<open>invoke\<close> is callable.\<close>

theorem registry_lookup_sound:
  assumes "reg_step\<^sup>*\<^sup>* registry_init s"
  shows "(module_for_route (snapshot s) r = Inr m \<longleftrightarrow>
      (\<exists>k. snapshot_module (snapshot s) k = Inr m \<and> route (manifest (contents m)) = r))
    \<and> (snapshot_tool (snapshot s) n = Inr (g, c) \<longrightarrow>
        (\<exists>m cd h. snapshot_module (snapshot s) g = Inr m \<and> cd \<in> set (capabilities (manifest (contents m)))
          \<and> cap_id cd = c \<and> tool_allowed cd \<and> (c, h) \<in> set (capability_handlers (handlers (contents m)))
          \<and> ''invoke'' \<in> set (callables h)))"
proof (intro conjI impI)
  note idx = reg_invD(5) [OF reg.reachable_inv [OF refl assms]]
  show "module_for_route (snapshot s) r = Inr m \<longleftrightarrow>
      (\<exists>k. snapshot_module (snapshot s) k = Inr m \<and> route (manifest (contents m)) = r)"
  proof
    assume "module_for_route (snapshot s) r = Inr m"
    then obtain k where k: "map_of (routes (snapshot s)) r = Some k" "map_of (snapshot_modules (snapshot s)) k = Some m"
      by (auto simp: module_for_route_def split: option.splits)
    from index_okD(5) [OF idx k(1)] k(2) show "\<exists>k. snapshot_module (snapshot s) k = Inr m \<and> route (manifest (contents m)) = r"
      by (auto simp: mod_route_def)
  next
    assume "\<exists>k. snapshot_module (snapshot s) k = Inr m \<and> route (manifest (contents m)) = r"
    then obtain k where "map_of (snapshot_modules (snapshot s)) k = Some m" "route (manifest (contents m)) = r" by auto
    with index_okD(3) [OF idx this(1)] show "module_for_route (snapshot s) r = Inr m"
      by (simp add: module_for_route_def mod_route_def)
  qed
  assume "snapshot_tool (snapshot s) n = Inr (g, c)"
  then have "map_of (tool_index (snapshot s)) n = Some (g, c)" by (simp add: snapshot_tool_def split: option.splits)
  from index_okD(6) [OF idx this] obtain m t where m: "map_of (snapshot_modules (snapshot s)) g = Some m"
    and t: "t \<in> set (tools (manifest (contents m)))" "tool_capability t = c"
    by (auto simp: mod_tools_def)
  note ok = index_okD(2) [OF idx m, unfolded module_ok_def]
  from checked_tool_target [OF _ t(1)] ok obtain cd where cd: "cd \<in> set (capabilities (manifest (contents m)))"
    "cap_id cd = c" "tool_allowed cd" using t(2) by blast
  then have "c \<in> fst ` set (capability_handlers (handlers (contents m)))" using ok by auto
  then obtain h where "(c, h) \<in> set (capability_handlers (handlers (contents m)))" by auto
  with ok m cd show "\<exists>m cd h. snapshot_module (snapshot s) g = Inr m \<and> cd \<in> set (capabilities (manifest (contents m)))
          \<and> cap_id cd = c \<and> tool_allowed cd \<and> (c, h) \<in> set (capability_handlers (handlers (contents m)))
          \<and> ''invoke'' \<in> set (callables h)"
    by (intro exI conjI) auto
qed

definition example_handlers :: module_handlers where
  "example_handlers = \<lparr>capability_handlers = [(''q'', Handler 0 [''invoke''])], collectors = [], evaluators = [],
     event_composers = [], event_projectors = [], job_handlers = []\<rparr>"

definition example_registered :: "registered_module obj" where
  "example_registered = Obj 0 \<lparr>module_id = ''p/m'', manifest = example_module, handlers = example_handlers,
     enabled = False, epoch = 0\<rparr>"

definition example_registry :: registry where
  "example_registry = \<lparr>packages = [''p''], observers = [], notified = [], lifecycle_owner = None,
     snapshot = \<lparr>revision = 1, snapshot_modules = [(''p/m'', example_registered)], routes = [(''r'', ''p/m'')],
       tool_index = [(''t'', (''p/m'', ''q''))]\<rparr>, next_addr = 1\<rparr>"

lemma example_registration:
  "register_package example_package [(''m'', example_handlers)] registry_init = Inr example_registry"
  by code_simp

lemma example_reachable: "reg_step\<^sup>*\<^sup>* registry_init example_registry"
  using step_register [OF example_registration] by (rule r_into_rtranclp)

theorem registry_lookup_sound_witness:
  "\<exists>m cd. snapshot_module (snapshot example_registry) ''p/m'' = Inr m
      \<and> cd \<in> set (capabilities (manifest (contents m))) \<and> tool_allowed cd"
proof -
  have "snapshot_tool (snapshot example_registry) ''t'' = Inr (''p/m'', ''q'')" by code_simp
  from registry_lookup_sound [OF example_reachable, THEN conjunct2, rule_format, OF this]
  show ?thesis by (elim exE conjE) (rule exI, rule exI, intro conjI)
qed

text \<open>Along every run of the registry the revision never decreases, and as long as it
  is unchanged the whole published snapshot is unchanged.\<close>

theorem registry_revision_identifies_snapshot:
  assumes "reg_step\<^sup>*\<^sup>* registry_init s" "reg_step\<^sup>*\<^sup>* s t"
  shows "revision (snapshot s) \<le> revision (snapshot t)
    \<and> (revision (snapshot s) = revision (snapshot t) \<longrightarrow> snapshot s = snapshot t)"
  by (rule reg.run_revision [OF assms(2) reg.reachable_inv [OF refl assms(1)]])

theorem registry_revision_identifies_snapshot_witness:
  "revision (snapshot registry_init) \<le> revision (snapshot example_registry)"
  using registry_revision_identifies_snapshot [OF rtranclp.rtrancl_refl example_reachable] by (rule conjunct1)

text \<open>Publishing a lifecycle projection with an expected revision succeeds only when the
  registry still has that revision; it then changes the enabled flag and epoch of exactly
  that module, keeps every other module object and both other indexes, and raises the
  revision by one exactly when the projection differs from the current one.\<close>

theorem lifecycle_projection_compare_and_swap:
  assumes "reg_step\<^sup>*\<^sup>* registry_init s" "publish_lifecycle_projection mid b ep (Some r) s = Inr s'"
  shows "revision (snapshot s) = r \<and> routes (snapshot s') = routes (snapshot s) \<and> tool_index (snapshot s') = tool_index (snapshot s)
    \<and> (\<exists>m m'. snapshot_module (snapshot s) mid = Inr m \<and> snapshot_module (snapshot s') mid = Inr m'
        \<and> contents m' = (contents m)\<lparr>enabled := b, epoch := ep\<rparr>
        \<and> (if contents m' = contents m then s' = s else revision (snapshot s') = r + 1 \<and> addr m' \<noteq> addr m))
    \<and> (\<forall>k. k \<noteq> mid \<longrightarrow> snapshot_module (snapshot s') k = snapshot_module (snapshot s) k)"
proof -
  note inv = reg.reachable_inv [OF refl assms(1)]
  from publish_lifecycle_projection_cases [OF assms(2)] obtain m where m: "map_of (snapshot_modules (snapshot s)) mid = Some m"
    and s': "s' = (if enabled (contents m) = b \<and> epoch (contents m) = ep then s
           else republish m (\<lambda>r. r\<lparr>enabled := b, epoch := ep\<rparr>) s)"
    and r: "revision (snapshot s) = r" by auto
  have mid: "module_id (contents m) = mid" by (rule index_okD(1) [OF reg_invD(5) [OF inv] m])
  show ?thesis
  proof (cases "enabled (contents m) = b \<and> epoch (contents m) = ep")
    case True
    then have "(contents m)\<lparr>enabled := b, epoch := ep\<rparr> = contents m" by simp
    then show ?thesis using True s' r m by auto
  next
    case False
    then have "(contents m)\<lparr>enabled := b, epoch := ep\<rparr> \<noteq> contents m"
      by (metis registered_module.ext_inject registered_module.surjective registered_module.update_convs(4,5))
    then show ?thesis using False s' r m mid reg_invD(6) [OF inv m]
      by (auto simp: republish_simps snapshot_module_def)
  qed
qed

definition example_owned :: registry where
  "example_owned = example_registry\<lparr>lifecycle_owner := Some 7\<rparr>"

definition example_active :: registry where
  "example_active = republish example_registered (\<lambda>r. r\<lparr>enabled := True, epoch := 1\<rparr>) example_owned"

lemma example_owned_reachable: "reg_step\<^sup>*\<^sup>* registry_init example_owned"
proof (rule rtranclp.rtrancl_into_rtrancl [OF example_reachable])
  show "reg_step example_registry example_owned"
    by (rule step_bind [of 7]) code_simp
qed

lemma example_projection: "publish_lifecycle_projection ''p/m'' True 1 (Some 1) example_owned = Inr example_active"
  by code_simp

theorem lifecycle_projection_compare_and_swap_witness:
  "revision (snapshot example_owned) = 1 \<and> routes (snapshot example_active) = routes (snapshot example_owned)"
  using lifecycle_projection_compare_and_swap [OF example_owned_reachable example_projection] by simp

text \<open>A registered module object that is no longer in the snapshot (it was replaced by a
  projection, an installation or a detachment) is never reported active again, whatever
  operations follow and whatever the lifecycle owner answers.\<close>

theorem replaced_module_stays_inactive:
  assumes "reg_step\<^sup>*\<^sup>* registry_init s" "reg_step\<^sup>*\<^sup>* s t" "addr m < next_addr s"
    and "\<forall>k m'. snapshot_module (snapshot s) k = Inr m' \<longrightarrow> addr m' \<noteq> addr m"
  shows "\<not> is_active_object t lc m"
proof -
  have "addr m < next_addr t \<and> addr m \<notin> addresses t"
    using assms(2)
  proof (induction rule: rtranclp_induct)
    case base
    have "addr m \<notin> addresses s"
    proof
      assume "addr m \<in> addresses s"
      then obtain k m' where "map_of (snapshot_modules (snapshot s)) k = Some m'" "addr m' = addr m"
        by (auto simp: addresses_def)
      with assms(4) show False by simp
    qed
    then show ?case using assms(3) by simp
  next
    case (step t u)
    have "reg_inv t" using reg.reachable_inv [OF refl] assms(1) step(1) by (blast intro: rtranclp_trans)
    from reg_step_advances [OF step(2) this] step(3) show ?case by (auto simp: advances_def)
  qed
  then show ?thesis by (auto simp: is_active_object_def addresses_def is_same_def split: sum.splits)
qed

theorem replaced_module_stays_inactive_witness:
  "\<not> is_active_object example_active
      \<lparr>active_check = \<lambda>_. True, guard = \<lambda>_. Inr (False, 0), current_identity = \<lambda>_. Inr 0\<rparr> example_registered"
proof (rule replaced_module_stays_inactive [OF _ rtranclp.rtrancl_refl])
  show "reg_step\<^sup>*\<^sup>* registry_init example_active"
    by (rule rtranclp.rtrancl_into_rtrancl [OF example_owned_reachable step_project [OF example_projection]])
  have "snapshot_modules (snapshot example_active) = [(''p/m'', Obj 1 ((contents example_registered)\<lparr>enabled := True, epoch := 1\<rparr>))]"
    by code_simp
  then show "\<forall>k m'. snapshot_module (snapshot example_active) k = Inr m' \<longrightarrow> addr m' \<noteq> addr example_registered"
    by (auto simp: example_registered_def split: if_splits)
  show "addr example_registered < next_addr example_active" by code_simp
qed

text \<open>Detaching a quiescent module and restoring it from its own manifest and handlers
  gives back the same route and tool indexes and leaves every other module untouched; the
  module itself returns disabled at epoch zero, two revisions later.\<close>

theorem detach_restore_roundtrip:
  assumes "reg_step\<^sup>*\<^sup>* registry_init s" "snapshot_module (snapshot s) mid = Inr m"
    and "mid = global_id pid (local_id (manifest (contents m)))"
    and "detach_lifecycle_module lc ow mid s = Inr s1"
    and "restore_lifecycle_module ow pid (manifest (contents m)) (handlers (contents m)) s1 = Inr s2"
  shows "map_of (routes (snapshot s2)) = map_of (routes (snapshot s))
    \<and> map_of (tool_index (snapshot s2)) = map_of (tool_index (snapshot s))
    \<and> (\<forall>k. k \<noteq> mid \<longrightarrow> snapshot_module (snapshot s2) k = snapshot_module (snapshot s) k)
    \<and> (\<exists>m'. snapshot_module (snapshot s2) mid = Inr m' \<and> \<not> enabled (contents m') \<and> epoch (contents m') = 0
          \<and> handlers (contents m') = handlers (contents m) \<and> tools (manifest (contents m')) = tools (manifest (contents m)))
    \<and> revision (snapshot s2) = revision (snapshot s) + 2"
proof -
  note inv = reg.reachable_inv [OF refl assms(1)]
  note idx = reg_invD(5) [OF inv] and D = detach_indexes [OF inv, of mid]
  have m: "map_of (snapshot_modules (snapshot s)) mid = Some m" using assms(2) by simp
  from detach_cases [OF assms(4)] have s1: "snapshot s1 = \<lparr>revision = revision (snapshot s) + 1,
               snapshot_modules = filter (\<lambda>(k, _). k \<noteq> mid) (snapshot_modules (snapshot s)),
               routes = filter (\<lambda>(_, k). k \<noteq> mid) (routes (snapshot s)),
               tool_index = filter (\<lambda>(_, k, _). k \<noteq> mid) (tool_index (snapshot s))\<rparr>" .
  from restore_cases [OF assms(5)] obtain m' mid' where mid': "mid' = global_id pid (local_id (manifest (contents m)))"
    and v: "validate_handlers (manifest (contents m)) (handlers (contents m)) = Inr m'"
    and fr: "\<forall>t \<in> set (tools (manifest (contents m))). map_of (tool_index (snapshot s1)) (tool_name t) = None"
    and s2': "snapshot s2 = \<lparr>revision = revision (snapshot s1) + 1,
       snapshot_modules = AList.update mid' (Obj (next_addr s1) \<lparr>module_id = mid', manifest = m', handlers = handlers (contents m), enabled = False, epoch = 0\<rparr>)
         (snapshot_modules (snapshot s1)),
       routes = AList.update (route m') mid' (routes (snapshot s1)),
       tool_index = dict_update_all (tool_index (snapshot s1)) (map (\<lambda>t. (tool_name t, (mid', tool_capability t))) (tools m'))\<rparr>" .
  from mid' assms(3) have "mid' = mid" by simp
  note s2 = s2' [unfolded this]
  note V = validate_handlers_ok(2,3) [OF v]
  have r: "map_of (routes (snapshot s)) (route m') = Some mid" using index_okD(3) [OF idx m] V by (simp add: mod_route_def)
  have "map_of (routes (snapshot s2)) x = Some k \<longleftrightarrow> map_of (routes (snapshot s)) x = Some k" for x k
    using r index_okD(5) [OF idx, of x k] m V D(2) [of x k] by (auto simp: s2 s1 mod_route_def)
  then have routes_eq: "map_of (routes (snapshot s2)) = map_of (routes (snapshot s))"
    by (intro ext) (metis option.exhaust)
  have "distinct (map tool_name (tools (manifest (contents m))))"
    using index_okD(2) [OF idx m] by (simp add: module_ok_def checked_module_def)
  note new = new_tools_index [OF this fr]
  have "map_of (tool_index (snapshot s2)) n = Some (k, c) \<longleftrightarrow> map_of (tool_index (snapshot s)) n = Some (k, c)" for n k c
  proof -
    have own: "map_of (tool_index (snapshot s)) n = Some (mid, c) \<longleftrightarrow> (n, c) \<in> set (mod_tools m)"
      using index_okD(4) [OF idx m, of n c] index_okD(6) [OF idx, of n mid c] m by auto
    have "map_of (tool_index (snapshot s2)) n = Some (k, c) \<longleftrightarrow>
        map_of (tool_index (snapshot s1)) n = Some (k, c) \<or> (n, c) \<in> set (mod_tools m) \<and> k = mid"
      using new [of mid n "(k, c)"] V by (simp add: s2)
    then show ?thesis using own D(3) [of n "(k, c)"] by (auto simp: s1)
  qed
  then have tools_eq: "map_of (tool_index (snapshot s2)) = map_of (tool_index (snapshot s))"
    by (intro ext) (metis option.exhaust surj_pair)
  show ?thesis using routes_eq tools_eq V
    by (simp add: s2 s1 D(1) snapshot_module_def)
qed

definition example_detached :: registry where
  "example_detached = example_owned\<lparr>packages := [],
     snapshot := \<lparr>revision = 2, snapshot_modules = [], routes = [], tool_index = []\<rparr>\<rparr>"

definition example_restored :: registry where
  "example_restored = example_owned\<lparr>snapshot := \<lparr>revision = 3,
     snapshot_modules = [(''p/m'', Obj 1 (contents example_registered))], routes = [(''r'', ''p/m'')],
     tool_index = [(''t'', (''p/m'', ''q''))]\<rparr>, next_addr := 2\<rparr>"

theorem detach_restore_roundtrip_witness:
  "map_of (tool_index (snapshot example_restored)) = map_of (tool_index (snapshot example_owned))"
proof -
  have "snapshot_module (snapshot example_owned) ''p/m'' = Inr example_registered" by code_simp
  moreover have "''p/m'' = global_id ''p'' (local_id (manifest (contents example_registered)))" by code_simp
  moreover have "detach_lifecycle_module
      \<lparr>active_check = \<lambda>_. False, guard = \<lambda>_. Inl LifecycleError, current_identity = \<lambda>_. Inr 0\<rparr>
      7 ''p/m'' example_owned = Inr example_detached" by code_simp
  moreover have "restore_lifecycle_module 7 ''p'' (manifest (contents example_registered))
      (handlers (contents example_registered)) example_detached = Inr example_restored" by code_simp
  ultimately show ?thesis
    by (rule detach_restore_roundtrip [OF example_owned_reachable, THEN conjunct2, THEN conjunct1])
qed

end
