(* ===== verification/Issuer_Correct.thy ===== *)
theory Issuer_Correct
  imports Issuer
begin

text \<open>
  The issued views form a forest: every child was derived from an issued parent that is an
  older object, and narrows its authority.  The invariant makes the check of a parent chain
  terminate, gives its meaning, and shows that release removes exactly a view and its
  descendants together with all their sidecars.
\<close>

section \<open>Errors of the view contract\<close>

lemma optional_eq_Inr: "optional f x = Inr () \<longleftrightarrow> (\<forall>a. x = Some a \<longrightarrow> f a = Inr ())"
  by (simp add: optional_def split: option.splits)

lemma unit_res_cases: "(x :: unit res) = Inr () \<or> (\<exists>e. x = Inl e)"
  by (cases x) auto

text \<open>A check all of whose failures are \<open>ValueError\<close>.\<close>

definition only_value_error :: "unit res \<Rightarrow> bool" where
  "only_value_error r \<longleftrightarrow> r = Inr () \<or> r = Inl ValueError"

lemma only_value_error_intros [intro!, simp]:
  "only_value_error (ensure c ValueError)" "only_value_error (Inr ())"
  by (simp_all add: only_value_error_def ensure_def)

lemma only_value_error_rbind [intro!]:
  "only_value_error r \<Longrightarrow> only_value_error q \<Longrightarrow> only_value_error (rbind r (\<lambda>_. q))"
  by (auto simp: only_value_error_def)

lemma only_value_error_optional [intro!]: "(\<And>a. only_value_error (f a)) \<Longrightarrow> only_value_error (optional f x)"
  by (simp add: optional_def split: option.splits)

lemma only_value_error_checks [intro!]:
  "only_value_error (require_opaque_id s)" "only_value_error (require_identifier s)"
  "only_value_error (require_positive_int i)" "only_value_error (require_paired_revision x y)"
  unfolding require_opaque_id_def require_identifier_def require_positive_int_def require_paired_revision_def
  by (intro only_value_error_rbind only_value_error_optional only_value_error_intros)+

lemma check_InvocationView_error: "only_value_error (check_InvocationView v)"
  unfolding check_InvocationView_def
  by (intro only_value_error_rbind only_value_error_optional only_value_error_intros only_value_error_checks)

lemma recheck_view_eq: "recheck_view v = (if check_InvocationView v = Inr () then Inr () else Inl InvalidInvocation)"
  using check_InvocationView_error [of v] by (auto simp: recheck_view_def only_value_error_def)

lemma check_deadline_eq:
  "check_deadline e v = (if check_InvocationView v \<noteq> Inr () then Inl InvalidInvocation
     else if \<exists>d. deadline v = Some d \<and> d \<le> now e then Inl InvocationExpired else Inr ())"
  by (auto simp: check_deadline_def recheck_view_eq ensure_def split: option.splits)

section \<open>Invariant\<close>

definition child_view :: "invocation_view \<Rightarrow> invocation_view \<Rightarrow> bool" where
  "child_view p c \<longleftrightarrow> origin c = origin p \<and> actor_id c = actor_id p \<and> conversation_id c = conversation_id p
     \<and> adapter_id c = adapter_id p \<and> subscription_id c = subscription_id p
     \<and> subscription_revision c = subscription_revision p \<and> delivery_route c = delivery_route p
     \<and> conv_kind c = conv_kind p \<and> sub_scope c = sub_scope p \<and> public_session_id c = public_session_id p
     \<and> registry_revision c = registry_revision p
     \<and> (\<forall>pd. deadline p = Some pd \<longrightarrow> (\<exists>d. deadline c = Some d \<and> d \<le> pd))
     \<and> (grant_id c = grant_id p \<and> grant_revision c = grant_revision p \<or> grant_id c = None \<and> grant_revision c = None)
     \<and> (view_module c \<noteq> view_module p \<longrightarrow> grant_id c = None \<and> grant_revision c = None)"

definition child_in :: "issuer \<Rightarrow> string \<Rightarrow> string \<Rightarrow> bool" where
  "child_in s p c \<longleftrightarrow> c \<in> set (children_of (children s) p)"

text \<open>What every issued view satisfies on its own.\<close>

definition view_ok :: "issuer \<Rightarrow> view_ref \<Rightarrow> bool" where
  "view_ok s r \<longleftrightarrow> (let v = contents r in addr r < next_view s \<and> check_InvocationView v = Inr ()
     \<and> (origin v \<notin> {WEB_PUBLIC, JOB} \<longrightarrow> issue_guards v = Inr ())
     \<and> (origin v \<in> {WEB_PUBLIC, JOB} \<longrightarrow> conversation_id v = None \<and> grant_id v = None \<and> grant_revision v = None)
     \<and> (origin v = WEB_PUBLIC \<longrightarrow> actor_id v = None)
     \<and> (origin v = JOB \<longrightarrow> parent_id v = None \<and> job_proofs s (invocation_id v) \<noteq> None)
     \<and> (origin v = WEB_PUBLIC \<and> parent_id v = None \<longrightarrow> web_proofs s (invocation_id v) \<noteq> None))"

definition iss_inv :: "issuer \<Rightarrow> bool" where
  "iss_inv s \<longleftrightarrow> dict_ok (children s)
     \<and> (\<forall>i r. issued s i = Some r \<longrightarrow> invocation_id (contents r) = i \<and> view_ok s r
          \<and> (\<forall>p. parent_id (contents r) = Some p \<longrightarrow>
               (\<exists>q. issued s p = Some q \<and> addr q < addr r \<and> child_in s p i \<and> child_view (contents q) (contents r))))
     \<and> (\<forall>p c. child_in s p c \<longrightarrow> (\<exists>r. issued s c = Some r \<and> parent_id (contents r) = Some p))
     \<and> (\<forall>i. issued s i = None \<longrightarrow> leases s i = None \<and> messages s i = None \<and> job_proofs s i = None \<and> web_proofs s i = None)"

lemma iss_invD:
  assumes "iss_inv s"
  shows "dict_ok (children s)" "issued s i = Some r \<Longrightarrow> invocation_id (contents r) = i"
    "issued s i = Some r \<Longrightarrow> view_ok s r"
    "issued s i = Some r \<Longrightarrow> parent_id (contents r) = Some p \<Longrightarrow>
       \<exists>q. issued s p = Some q \<and> addr q < addr r \<and> child_in s p i \<and> child_view (contents q) (contents r)"
    "child_in s p c \<Longrightarrow> \<exists>r. issued s c = Some r \<and> parent_id (contents r) = Some p"
    "issued s i = None \<Longrightarrow> leases s i = None \<and> messages s i = None \<and> job_proofs s i = None \<and> web_proofs s i = None"
  using assms unfolding iss_inv_def by simp_all

lemma iss_inv_init: "issuer_init b d = Inr s \<Longrightarrow> iss_inv s"
  by (auto simp: issuer_init_def rbind_eq_Inr iss_inv_def child_in_def children_of_def)

text \<open>An operation that leaves the forest alone and keeps the sidecars within it.\<close>

lemma iss_inv_same_forest:
  assumes "iss_inv s" "issued t = issued s" "children t = children s" "next_view t = next_view s"
    and "job_proofs t = job_proofs s" "web_proofs t = web_proofs s"
    and "\<And>i. issued s i = None \<Longrightarrow> leases t i = None \<and> messages t i = None"
  shows "iss_inv t"
proof -
  have "view_ok t r = view_ok s r" for r by (simp add: view_ok_def Let_def assms)
  then show ?thesis using assms(1,7) unfolding iss_inv_def
    by (simp add: assms(2-6) child_in_def)
qed

section \<open>Adding a view\<close>

lemma view_ok_cong:
  assumes "view_ok s r" "job_proofs t (invocation_id (contents r)) = job_proofs s (invocation_id (contents r))"
    and "web_proofs t (invocation_id (contents r)) = web_proofs s (invocation_id (contents r))" "next_view s \<le> next_view t"
  shows "view_ok t r"
  using assms(1,4) unfolding view_ok_def Let_def assms(2,3) by simp

lemma iss_inv_add_root:
  assumes inv: "iss_inv s" and fresh: "issued s (invocation_id v) = None" and root: "parent_id v = None"
    and t: "issued t = (issued s)(invocation_id v \<mapsto> Obj (next_view s) v)" "children t = children s"
      "next_view t = Suc (next_view s)" "leases t = leases s" "messages t = messages s"
    and sidecars: "\<And>i. i \<noteq> invocation_id v \<Longrightarrow> job_proofs t i = job_proofs s i \<and> web_proofs t i = web_proofs s i"
    and ok: "view_ok t (Obj (next_view s) v)"
  shows "iss_inv t"
proof -
  note I = iss_invD [OF inv]
  have old: "view_ok t r" if "issued s i = Some r" for i r
  proof (rule view_ok_cong [OF I(3) [OF that]])
    have "i \<noteq> invocation_id v" using that fresh by auto
    with sidecars I(2) [OF that] show "job_proofs t (invocation_id (contents r)) = job_proofs s (invocation_id (contents r))"
      "web_proofs t (invocation_id (contents r)) = web_proofs s (invocation_id (contents r))" by simp_all
  qed (simp add: t(3))
  have parents: "\<exists>q. issued t p = Some q \<and> addr q < addr r \<and> child_in t p i \<and> child_view (contents q) (contents r)"
    if "issued s i = Some r" "parent_id (contents r) = Some p" for i r p
    using I(4) [OF that] fresh t by (auto simp: child_in_def)
  show ?thesis unfolding iss_inv_def
  proof (intro conjI allI impI)
    fix p c assume "child_in t p c"
    then have "child_in s p c" using t by (simp add: child_in_def)
    from I(5) [OF this] fresh t show "\<exists>r. issued t c = Some r \<and> parent_id (contents r) = Some p" by auto
  next
    fix i r p assume "issued t i = Some r" "parent_id (contents r) = Some p"
    then show "\<exists>q. issued t p = Some q \<and> addr q < addr r \<and> child_in t p i \<and> child_view (contents q) (contents r)"
      using parents [of i r p] root t by (auto split: if_splits)
  next
    fix i assume "issued t i = None"
    then have "issued s i = None" "i \<noteq> invocation_id v" using t(1) by (auto split: if_splits)
    from I(6) [OF this(1)] sidecars [OF this(2)] t
    show "leases t i = None" "messages t i = None" "job_proofs t i = None" "web_proofs t i = None" by auto
  qed (use I(1,2) old ok t in \<open>auto split: if_splits\<close>)
qed

lemma children_of_update [simp]:
  "children_of (AList.update p xs ch) k = (if k = p then xs else children_of ch k)"
  by (simp add: children_of_def)

lemma children_of_delete [simp]:
  "children_of (AList.delete p ch) k = (if k = p then [] else children_of ch k)"
  by (simp add: children_of_def)

lemma iss_inv_add_child:
  assumes inv: "iss_inv s" and fresh: "issued s (invocation_id v) = None"
    and parent: "parent_id v = Some p" "issued s p = Some q" "child_view (contents q) v"
    and t: "issued t = (issued s)(invocation_id v \<mapsto> Obj (next_view s) v)"
      "children t = AList.update p (List.insert (invocation_id v) (children_of (children s) p)) (children s)"
      "next_view t = Suc (next_view s)" "leases t = leases s" "messages t = messages s"
      "job_proofs t = job_proofs s" "web_proofs t = web_proofs s"
    and ok: "view_ok t (Obj (next_view s) v)"
  shows "iss_inv t"
proof -
  note I = iss_invD [OF inv]
  have child: "child_in t a c \<longleftrightarrow> child_in s a c \<or> a = p \<and> c = invocation_id v" for a c
    by (auto simp: child_in_def t(2))
  have old: "view_ok t r" if "issued s i = Some r" for i r
    by (rule view_ok_cong [OF I(3) [OF that]]) (simp_all add: t(3,6,7))
  have parents: "\<exists>q. issued t p = Some q \<and> addr q < addr r \<and> child_in t p i \<and> child_view (contents q) (contents r)"
    if "issued s i = Some r" "parent_id (contents r) = Some p" for i r p
    using I(4) [OF that] fresh t(1) by (auto simp: child)
  have new: "\<exists>q. issued t p = Some q \<and> addr q < next_view s \<and> child_in t p (invocation_id v) \<and> child_view (contents q) v"
    using parent(2,3) I(3) [OF parent(2)] fresh by (auto simp: t(1) child view_ok_def Let_def)
  show ?thesis unfolding iss_inv_def
  proof (intro conjI allI impI)
    fix a c assume "child_in t a c"
    then show "\<exists>r. issued t c = Some r \<and> parent_id (contents r) = Some a"
      using I(5) [of a c] fresh parent(1) by (auto simp: child t(1))
  next
    fix i r a assume "issued t i = Some r" "parent_id (contents r) = Some a"
    then show "\<exists>q. issued t a = Some q \<and> addr q < addr r \<and> child_in t a i \<and> child_view (contents q) (contents r)"
      using parents [of i r a] new parent(1) by (auto simp: t(1) split: if_splits)
  next
    fix i assume "issued t i = None"
    then have "issued s i = None" using t(1) by (auto split: if_splits)
    from I(6) [OF this] t show "leases t i = None" "messages t i = None" "job_proofs t i = None" "web_proofs t i = None"
      by auto
  qed (use I(1,2) old ok t in \<open>auto split: if_splits\<close>)
qed

section \<open>The meaning of requiring a view\<close>

text \<open>The chain from a view up to its root.\<close>

inductive ancestor :: "issuer \<Rightarrow> view_ref \<Rightarrow> view_ref \<Rightarrow> bool" for s where
  anc_refl: "ancestor s r r"
| anc_step: "parent_id (contents r) = Some p \<Longrightarrow> issued s p = Some q \<Longrightarrow> ancestor s q a \<Longrightarrow> ancestor s r a"

inductive_cases ancestorE: "ancestor s r a"

lemma ancestor_root: "parent_id (contents r) = None \<Longrightarrow> ancestor s r a \<longleftrightarrow> a = r"
  by (auto elim: ancestor.cases intro: anc_refl)

lemma ancestor_parent:
  "parent_id (contents r) = Some p \<Longrightarrow> issued s p = Some q \<Longrightarrow> ancestor s r a \<longleftrightarrow> a = r \<or> ancestor s q a"
  by (auto elim: ancestor.cases intro: ancestor.intros)

lemma ancestor_trans: "ancestor s r q \<Longrightarrow> ancestor s q a \<Longrightarrow> ancestor s r a"
  by (induction rule: ancestor.induct) (auto intro: ancestor.intros)

lemma require_one_error: "require_one e s r = Inl x \<Longrightarrow> x \<in> {InvalidInvocation, InvocationExpired}"
  by (auto simp: require_one_def Let_def rbind_eq_Inl check_deadline_eq split: if_splits option.splits)

lemma require_one_issued: "require_one e s r = Inr () \<Longrightarrow> issued s (invocation_id (contents r)) = Some r"
  by (simp add: require_one_def Let_def rbind_eq_Inr opt_is_iff)

lemma require_loop_meaning:
  assumes inv: "iss_inv s"
  shows "issued s (invocation_id (contents r)) = Some r \<Longrightarrow> addr r < n \<Longrightarrow>
    \<exists>x. require_loop n e s r = Some x \<and> (x = Inr () \<longleftrightarrow> (\<forall>a. ancestor s r a \<longrightarrow> require_one e s a = Inr ()))
      \<and> (\<forall>z. x = Inl z \<longrightarrow> z \<in> {InvalidInvocation, InvocationExpired})"
proof (induction n arbitrary: r)
  case (Suc n)
  show ?case
  proof (cases "require_one e s r")
    case (Inl z)
    then have "\<not> (\<forall>a. ancestor s r a \<longrightarrow> require_one e s a = Inr ())" using anc_refl by (metis Inl_Inr_False)
    then show ?thesis using Inl require_one_error [OF Inl] by auto
  next
    case (Inr u)
    show ?thesis
    proof (cases "parent_id (contents r)")
      case None
      then show ?thesis using Inr by (auto simp: ancestor_root)
    next
      case (Some p)
      from iss_invD(4) [OF inv Suc.prems(1) this] obtain q where q: "issued s p = Some q" "addr q < addr r" by blast
      have "issued s (invocation_id (contents q)) = Some q" using q(1) iss_invD(2) [OF inv q(1)] by simp
      from Suc.IH [OF this] q(2) Suc.prems(2) obtain x where "require_loop n e s q = Some x"
        "x = Inr () \<longleftrightarrow> (\<forall>a. ancestor s q a \<longrightarrow> require_one e s a = Inr ())"
        "\<forall>z. x = Inl z \<longrightarrow> z \<in> {InvalidInvocation, InvocationExpired}" by auto
      then show ?thesis using Inr Some q by (auto simp: ancestor_parent [OF Some q(1)])
    qed
  qed
qed simp

lemma require_view_meaning:
  assumes inv: "iss_inv s"
  shows "require_view e s r = Inr () \<longleftrightarrow>
      issued s (invocation_id (contents r)) = Some r \<and> (\<forall>a. ancestor s r a \<longrightarrow> require_one e s a = Inr ())"
    and "require_view e s r = Inl z \<Longrightarrow> z \<in> {InvalidInvocation, InvocationExpired}"
proof -
  have forged: "require_view e s r = Inl InvalidInvocation" if "issued s (invocation_id (contents r)) \<noteq> Some r"
    using that by (auto simp: require_view_def recheck_view_eq require_one_def Let_def opt_is_iff)
  have owned: "\<exists>x. require_view e s r = x \<and> (x = Inr () \<longleftrightarrow> (\<forall>a. ancestor s r a \<longrightarrow> require_one e s a = Inr ()))
      \<and> (\<forall>z. x = Inl z \<longrightarrow> z \<in> {InvalidInvocation, InvocationExpired})"
    if i: "issued s (invocation_id (contents r)) = Some r"
  proof -
    from iss_invD(3) [OF inv i] have "addr r < Suc (next_view s)" "check_InvocationView (contents r) = Inr ()"
      by (auto simp: view_ok_def Let_def)
    moreover from require_loop_meaning [OF inv i this(1), of e] obtain x where "require_loop (Suc (next_view s)) e s r = Some x"
      "x = Inr () \<longleftrightarrow> (\<forall>a. ancestor s r a \<longrightarrow> require_one e s a = Inr ())"
      "\<forall>z. x = Inl z \<longrightarrow> z \<in> {InvalidInvocation, InvocationExpired}" by blast
    ultimately show ?thesis by (simp add: require_view_def recheck_view_eq del: require_loop.simps)
  qed
  show "require_view e s r = Inr () \<longleftrightarrow>
      issued s (invocation_id (contents r)) = Some r \<and> (\<forall>a. ancestor s r a \<longrightarrow> require_one e s a = Inr ())"
    using forged owned by (cases "issued s (invocation_id (contents r)) = Some r") auto
  show "require_view e s r = Inl z \<Longrightarrow> z \<in> {InvalidInvocation, InvocationExpired}"
    using forged owned by (cases "issued s (invocation_id (contents r)) = Some r") auto
qed

lemma require_view_issued:
  "iss_inv s \<Longrightarrow> require_view e s r = Inr () \<Longrightarrow> issued s (invocation_id (contents r)) = Some r"
  by (simp add: require_view_meaning)

section \<open>Issuing and deriving keep the invariant\<close>

lemma record_view_eq: "record_view v s =
    (s\<lparr>issued := (issued s)(invocation_id v \<mapsto> Obj (next_view s) v), next_view := Suc (next_view s)\<rparr>, Obj (next_view s) v)"
  by (simp add: record_view_def Let_def)

lemma issue_cases:
  assumes "issue e uid args s = Inr (t, r)"
  obtains v where "v = args\<lparr>invocation_id := uid, parent_id := None, public_session_id := None\<rparr>"
    "issue_guards v = Inr ()" "check_InvocationView v = Inr ()" "check_deadline e v = Inr ()"
    "t = s\<lparr>issued := (issued s)(uid \<mapsto> Obj (next_view s) v), next_view := Suc (next_view s)\<rparr>" "r = Obj (next_view s) v"
proof -
  have guards: "issue_guards (args\<lparr>invocation_id := uid, parent_id := None, public_session_id := None\<rparr>) = issue_guards args"
    by (simp add: issue_guards_def)
  define v where "v = args\<lparr>invocation_id := uid, parent_id := None, public_session_id := None\<rparr>"
  have "invocation_id v = uid" by (simp add: v_def)
  with assms have "issue_guards args = Inr ()" "check_InvocationView v = Inr ()" "check_deadline e v = Inr ()"
    "t = s\<lparr>issued := (issued s)(uid \<mapsto> Obj (next_view s) v), next_view := Suc (next_view s)\<rparr>" "r = Obj (next_view s) v"
    unfolding issue_def Let_def record_view_eq v_def [symmetric] by (auto simp: rbind_eq_Inr)
  with guards show thesis using that [OF v_def] by (simp add: v_def)
qed

lemma issue_inv:
  assumes "issue e uid args s = Inr (t, r)" "iss_inv s" "issued s uid = None"
  shows "iss_inv t"
proof -
  from issue_cases [OF assms(1)] obtain v where v: "v = args\<lparr>invocation_id := uid, parent_id := None, public_session_id := None\<rparr>"
    and ok: "issue_guards v = Inr ()" "check_InvocationView v = Inr ()"
    and t: "t = s\<lparr>issued := (issued s)(uid \<mapsto> Obj (next_view s) v), next_view := Suc (next_view s)\<rparr>" .
  have "origin v \<notin> {WEB_PUBLIC, JOB}" using ok(1) by (auto simp: issue_guards_def rbind_eq_Inr)
  then have "view_ok t (Obj (next_view s) v)" using ok by (simp add: view_ok_def t)
  then show ?thesis
    by (intro iss_inv_add_root [OF assms(2), of v]) (simp_all add: v t assms(3))
qed

lemma issue_job_inv:
  assumes "issue_job e uid src prf mid ep rv dl s = Inr (t, r)" "iss_inv s" "issued s uid = None"
  shows "iss_inv t"
proof -
  define v where "v = (bare_view uid JOB mid ep rv)\<lparr>actor_id := Some (proof_owner prf), deadline := dl\<rparr>"
  from assms(1) have ok: "check_InvocationView v = Inr ()"
    and t: "t = s\<lparr>issued := (issued s)(uid \<mapsto> Obj (next_view s) v), next_view := Suc (next_view s),
              job_proofs := (job_proofs s)(uid \<mapsto> (src, prf))\<rparr>"
    by (auto simp: issue_job_def Let_def rbind_eq_Inr record_view_eq v_def bare_view_def)
  have "view_ok t (Obj (next_view s) v)" using ok by (simp add: view_ok_def t v_def bare_view_def)
  then show ?thesis
    by (intro iss_inv_add_root [OF assms(2), of v]) (simp_all add: t v_def bare_view_def assms(3))
qed

lemma issue_public_web_cases:
  assumes "issue_public_web e uid prf consumed mid cid ep rv gen dl s = (t, out)"
  obtains (rejected) x where "out = Inl x" "t = s" | (revoked) x where "out = Inl x" "t = s\<lparr>revoked := revoked s @ [prf]\<rparr>"
  | (accepted) b v where "consumed = Inr b" "out = Inr (Obj (next_view s) v)" "check_InvocationView v = Inr ()"
    "proof_current e prf b" "(mid, cid) \<in> set (public_web_deployment s)"
    "v = (bare_view uid WEB_PUBLIC mid ep rv)\<lparr>deadline := Some (min dl (binding_deadline b)),
                     capability_id := Some cid, public_session_id := Some (bearer_key b)\<rparr>"
    "t = s\<lparr>issued := (issued s)(uid \<mapsto> Obj (next_view s) v), next_view := Suc (next_view s),
           web_proofs := (web_proofs s)(uid \<mapsto> (prf, b))\<rparr>"
proof (cases "web_validator s \<and> (mid, cid) \<in> set (public_web_deployment s)")
  case False
  then show thesis using assms rejected by (auto simp: issue_public_web_def)
next
  case deployed: True
  show thesis
  proof (cases consumed)
    case (Inl x)
    then show thesis using assms deployed rejected by (auto simp: issue_public_web_def)
  next
    case (Inr b)
    define v where "v = (bare_view uid WEB_PUBLIC mid ep rv)\<lparr>deadline := Some (min dl (binding_deadline b)),
                     capability_id := Some cid, public_session_id := Some (bearer_key b)\<rparr>"
    have uid: "invocation_id v = uid" by (simp add: v_def bare_view_def)
    define ok where "ok = rbind (ensure (binding_module b = mid \<and> binding_capability b = cid \<and> generation b = gen
                                   \<and> proof_current e prf b) InvalidInvocation) (\<lambda>_.
                   rbind (check_InvocationView v) (\<lambda>_. check_deadline e v))"
    have run: "(t, out) = (case ok of Inl x \<Rightarrow> (s\<lparr>revoked := revoked s @ [prf]\<rparr>, Inl x)
       | Inr _ \<Rightarrow> let (s', r) = record_view v s in (s'\<lparr>web_proofs := (web_proofs s')(uid \<mapsto> (prf, b))\<rparr>, Inr r))"
      unfolding assms [symmetric] issue_public_web_def Let_def ok_def v_def using deployed Inr by simp
    show thesis
    proof (cases ok)
      case (Inl x)
      then show thesis using run revoked by simp
    next
      case (Inr u)
      then have "proof_current e prf b" "check_InvocationView v = Inr ()" by (auto simp: ok_def rbind_eq_Inr)
      moreover have "out = Inr (Obj (next_view s) v)"
        "t = s\<lparr>issued := (issued s)(uid \<mapsto> Obj (next_view s) v), next_view := Suc (next_view s),
           web_proofs := (web_proofs s)(uid \<mapsto> (prf, b))\<rparr>"
        using run Inr uid by (simp_all add: record_view_eq)
      ultimately show thesis using accepted [OF \<open>consumed = Inr b\<close> _ _ _ _ v_def] deployed by blast
    qed
  qed
qed

lemma issue_public_web_inv:
  assumes "issue_public_web e uid prf consumed mid cid ep rv gen dl s = (t, out)" "iss_inv s" "issued s uid = None"
  shows "iss_inv t"
  using assms(1)
proof (cases rule: issue_public_web_cases)
  case (revoked x)
  then show ?thesis using iss_invD(6) [OF assms(2)] by (intro iss_inv_same_forest [OF assms(2)]) simp_all
next
  case (accepted b v)
  have "view_ok t (Obj (next_view s) v)" using accepted(3) by (simp add: view_ok_def accepted(6,7) bare_view_def)
  then show ?thesis
    by (intro iss_inv_add_root [OF assms(2), of v]) (simp_all add: accepted(6,7) bare_view_def assms(3))
qed (use assms(2) in simp)

lemma derive_cases:
  assumes "derive e uid parent mid ep dl cid s = Inr (t, r)"
  obtains v c gid grev where "v = contents parent" "require_view e s parent = Inr ()" "origin v \<noteq> JOB"
    "origin v = WEB_PUBLIC \<longrightarrow> (\<exists>k. cid = Some k \<and> (mid, k) \<in> set (public_web_deployment s))"
    "child_grant v mid = Inr (gid, grev)"
    "\<forall>pd. deadline v = Some pd \<longrightarrow> (\<exists>d. deadline c = Some d \<and> d \<le> pd)"
    "c = v\<lparr>invocation_id := uid, parent_id := Some (invocation_id v), view_module := mid,
           module_epoch := ep, deadline := (case dl of None \<Rightarrow> deadline v | Some d \<Rightarrow> Some d),
           capability_id := cid, grant_id := gid, grant_revision := grev\<rparr>"
    "check_deadline e c = Inr ()" "r = Obj (next_view s) c"
    "t = s\<lparr>issued := (issued s)(uid \<mapsto> Obj (next_view s) c), next_view := Suc (next_view s),
           children := AList.update (invocation_id v) (List.insert uid (children_of (children s) (invocation_id v))) (children s)\<rparr>"
proof -
  define v where "v = contents parent"
  from assms obtain gid grev where req: "require_view e s parent = Inr ()" "origin v \<noteq> JOB"
    and web: "origin v = WEB_PUBLIC \<longrightarrow> (case cid of None \<Rightarrow> False | Some c \<Rightarrow> (mid, c) \<in> set (public_web_deployment s))"
    and grant: "child_grant v mid = Inr (gid, grev)"
    and dead: "case deadline v of None \<Rightarrow> True
              | Some pd \<Rightarrow> (case (case dl of None \<Rightarrow> deadline v | Some d \<Rightarrow> Some d) of None \<Rightarrow> False | Some d \<Rightarrow> d \<le> pd)"
    and rest: "rbind (check_deadline e (v\<lparr>invocation_id := uid, parent_id := Some (invocation_id v), view_module := mid,
           module_epoch := ep, deadline := (case dl of None \<Rightarrow> deadline v | Some d \<Rightarrow> Some d),
           capability_id := cid, grant_id := gid, grant_revision := grev\<rparr>)) (\<lambda>_.
       let (s', r) = record_view (v\<lparr>invocation_id := uid, parent_id := Some (invocation_id v), view_module := mid,
           module_epoch := ep, deadline := (case dl of None \<Rightarrow> deadline v | Some d \<Rightarrow> Some d),
           capability_id := cid, grant_id := gid, grant_revision := grev\<rparr>) s;
         siblings = (case map_of (children s) (invocation_id v) of None \<Rightarrow> [] | Some xs \<Rightarrow> xs) in
       Inr (s'\<lparr>children := AList.update (invocation_id v) (List.insert uid siblings) (children s)\<rparr>, r)) = Inr (t, r)"
    unfolding derive_def Let_def v_def [symmetric] by (auto simp: rbind_eq_Inr)
  define c where "c = v\<lparr>invocation_id := uid, parent_id := Some (invocation_id v), view_module := mid,
           module_epoch := ep, deadline := (case dl of None \<Rightarrow> deadline v | Some d \<Rightarrow> Some d),
           capability_id := cid, grant_id := gid, grant_revision := grev\<rparr>"
  have uid: "invocation_id c = uid" by (simp add: c_def)
  from rest have run: "check_deadline e c = Inr ()" "r = Obj (next_view s) c"
    "t = s\<lparr>issued := (issued s)(uid \<mapsto> Obj (next_view s) c), next_view := Suc (next_view s),
           children := AList.update (invocation_id v) (List.insert uid (children_of (children s) (invocation_id v))) (children s)\<rparr>"
    unfolding c_def [symmetric] using uid by (auto simp: rbind_eq_Inr record_view_eq children_of_def)
  have "\<forall>pd. deadline v = Some pd \<longrightarrow> (\<exists>d. deadline c = Some d \<and> d \<le> pd)"
    using dead by (auto simp: c_def split: option.splits)
  moreover have "origin v = WEB_PUBLIC \<longrightarrow> (\<exists>k. cid = Some k \<and> (mid, k) \<in> set (public_web_deployment s))"
    using web by (auto split: option.splits)
  ultimately show thesis using that [OF v_def req _ grant _ c_def run] by blast
qed

lemma derive_child_view:
  assumes "derive e uid parent mid ep dl cid s = Inr (t, r)"
  shows "child_view (contents parent) (contents r)" "parent_id (contents r) = Some (invocation_id (contents parent))"
    "invocation_id (contents r) = uid" "view_module (contents r) = mid" "capability_id (contents r) = cid"
proof -
  from derive_cases [OF assms] obtain v c gid grev where v: "v = contents parent" and g: "child_grant v mid = Inr (gid, grev)"
    and d: "\<forall>pd. deadline v = Some pd \<longrightarrow> (\<exists>d. deadline c = Some d \<and> d \<le> pd)"
    and c: "c = v\<lparr>invocation_id := uid, parent_id := Some (invocation_id v), view_module := mid,
           module_epoch := ep, deadline := (case dl of None \<Rightarrow> deadline v | Some d \<Rightarrow> Some d),
           capability_id := cid, grant_id := gid, grant_revision := grev\<rparr>"
    and r: "r = Obj (next_view s) c" .
  from g have "gid = grant_id v \<and> grev = grant_revision v \<or> gid = None \<and> grev = None"
    "mid \<noteq> view_module v \<longrightarrow> gid = None \<and> grev = None"
    by (auto simp: child_grant_def split: if_splits)
  then have "child_view v c" using d unfolding child_view_def by (simp add: c)
  then show "child_view (contents parent) (contents r)" "parent_id (contents r) = Some (invocation_id (contents parent))"
    "invocation_id (contents r) = uid" "view_module (contents r) = mid" "capability_id (contents r) = cid"
    by (simp_all add: v r) (simp_all add: c v)
qed

lemma issue_guards_child:
  assumes "issue_guards v = Inr ()" "child_view v c" "origin v \<notin> {WEB_PUBLIC, JOB}"
    and "origin v = SUBSCRIPTION \<Longrightarrow> grant_id c = grant_id v"
  shows "issue_guards c = Inr ()"
  using assms unfolding issue_guards_def child_view_def by (auto simp: rbind_eq_Inr split: if_splits)

lemma derive_inv:
  assumes "derive e uid parent mid ep dl cid s = Inr (t, r)" and inv: "iss_inv s" and fresh: "issued s uid = None"
  shows "iss_inv t"
proof -
  from derive_cases [OF assms(1)] obtain v c gid grev where v: "v = contents parent" and req: "require_view e s parent = Inr ()"
    and job: "origin v \<noteq> JOB" and g: "child_grant v mid = Inr (gid, grev)"
    and c: "c = v\<lparr>invocation_id := uid, parent_id := Some (invocation_id v), view_module := mid,
           module_epoch := ep, deadline := (case dl of None \<Rightarrow> deadline v | Some d \<Rightarrow> Some d),
           capability_id := cid, grant_id := gid, grant_revision := grev\<rparr>"
    and chk: "check_deadline e c = Inr ()" and r: "r = Obj (next_view s) c"
    and t: "t = s\<lparr>issued := (issued s)(uid \<mapsto> Obj (next_view s) c), next_view := Suc (next_view s),
           children := AList.update (invocation_id v) (List.insert uid (children_of (children s) (invocation_id v))) (children s)\<rparr>" .
  note parent = require_view_issued [OF inv req]
  note pv = iss_invD(3) [OF inv parent, unfolded view_ok_def Let_def, folded v]
  have cv: "child_view v c" using derive_child_view(1) [OF assms(1)] by (simp add: v r)
  have "issue_guards c = Inr ()" if "origin v \<noteq> WEB_PUBLIC"
  proof (rule issue_guards_child [OF _ cv])
    show "grant_id c = grant_id v" if "origin v = SUBSCRIPTION"
      using g that by (auto simp: c child_grant_def split: if_splits)
  qed (use pv job that in auto)
  moreover have "check_InvocationView c = Inr ()" using chk by (simp add: check_deadline_eq split: if_splits)
  ultimately have "view_ok t (Obj (next_view s) c)"
    using pv job cv by (auto simp: view_ok_def Let_def t child_view_def) (simp_all add: c)
  then show ?thesis
    using parent cv fresh by (intro iss_inv_add_child [OF inv, of c "invocation_id v" parent]) (simp_all add: t v, simp_all add: c v)
qed

section \<open>Sidecars keep the invariant\<close>

lemma iss_inv_leases:
  assumes "iss_inv s" "\<And>i. issued s i = None \<Longrightarrow> f i = None"
  shows "iss_inv (s\<lparr>leases := f\<rparr>)"
  by (rule iss_inv_same_forest [OF assms(1)]) (simp_all add: assms(2) iss_invD(6) [OF assms(1)])

lemma iss_inv_messages:
  assumes "iss_inv s" "\<And>i. issued s i = None \<Longrightarrow> f i = None"
  shows "iss_inv (s\<lparr>messages := f\<rparr>)"
  by (rule iss_inv_same_forest [OF assms(1)]) (simp_all add: assms(2) iss_invD(6) [OF assms(1)])

lemma attach_lease_eq:
  "attach_lease e r l s = Inr t \<Longrightarrow> require_view e s r = Inr ()
     \<and> t = s\<lparr>leases := (leases s)(invocation_id (contents r) \<mapsto> l)\<rparr>
     \<and> leases s (invocation_id (contents r)) \<in> {None, Some l}"
  by (auto simp: attach_lease_def Let_def rbind_eq_Inr)

lemma attach_lease_inv:
  assumes "attach_lease e r l s = Inr t" "iss_inv s"
  shows "iss_inv t"
proof -
  note eq = attach_lease_eq [OF assms(1)]
  have "issued s (invocation_id (contents r)) = Some r" using require_view_issued [OF assms(2), of e r] eq by simp
  then have "iss_inv (s\<lparr>leases := (leases s)(invocation_id (contents r) \<mapsto> l)\<rparr>)"
    using iss_invD(6) [OF assms(2)] by (intro iss_inv_leases [OF assms(2)]) auto
  then show ?thesis using eq by simp
qed

lemma detach_lease_inv:
  assumes "detach_lease e r l s = Inr t" "iss_inv s"
  shows "iss_inv t"
proof -
  from assms(1) have "t = s\<lparr>leases := (leases s)(invocation_id (contents r) := None)\<rparr>"
    by (auto simp: detach_lease_def Let_def rbind_eq_Inr)
  then show ?thesis using iss_invD(6) [OF assms(2)] by (auto intro: iss_inv_leases [OF assms(2)])
qed

lemma detach_lease_for_cleanup_inv:
  assumes "detach_lease_for_cleanup r l s = Inr (t, b)" "iss_inv s"
  shows "iss_inv t"
proof -
  from assms(1) have "t = s \<or> t = s\<lparr>leases := (leases s)(invocation_id (contents r) := None)\<rparr>"
    by (auto simp: detach_lease_for_cleanup_def Let_def rbind_eq_Inr split: if_splits option.splits)
  then show ?thesis using assms(2) iss_invD(6) [OF assms(2)] by (auto intro: iss_inv_leases [OF assms(2)])
qed

lemma attach_message_inv:
  assumes "attach_message e f r txt cor src s = Inr t" "iss_inv s"
  shows "iss_inv t"
proof -
  from assms(1) obtain m where req: "require_view e s r = Inr ()" and t: "t = s\<lparr>messages := (messages s)(invocation_id (contents r) \<mapsto> m)\<rparr>"
    by (auto simp: attach_message_def Let_def rbind_eq_Inr)
  have "issued s (invocation_id (contents r)) = Some r" by (rule require_view_issued [OF assms(2) req])
  then show ?thesis unfolding t using iss_invD(6) [OF assms(2)] by (intro iss_inv_messages [OF assms(2)]) auto
qed

section \<open>Release\<close>

text \<open>The search invariant: \<open>kids\<close> is the table the search started with.\<close>

lemma collect_search:
  assumes "collect ch pending removed = (ch', removed')"
    and "\<And>k. children_of ch k = (if k \<in> set removed then [] else kids k)"
    and "\<And>k. k \<in> set removed \<Longrightarrow> set (kids k) \<subseteq> set removed \<union> set pending"
    and "dict_ok ch"
  shows "set removed \<union> set pending \<subseteq> set removed'
    \<and> (\<forall>k \<in> set removed'. set (kids k) \<subseteq> set removed')
    \<and> (\<forall>k. children_of ch' k = (if k \<in> set removed' then [] else kids k)) \<and> dict_ok ch'
    \<and> (\<forall>j \<in> set removed'. j \<in> set removed \<or> (\<exists>i \<in> set pending. (\<lambda>a b. b \<in> set (kids a))\<^sup>*\<^sup>* i j))"
  using assms
proof (induction ch pending removed arbitrary: ch' removed' rule: collect.induct)
  case (1 ch removed)
  then show ?case by auto
next
  case (2 ch i pending removed)
  show ?case
  proof (cases "i \<in> set removed")
    case True
    have "\<And>k. k \<in> set removed \<Longrightarrow> set (kids k) \<subseteq> set removed \<union> set pending" using 2(5) True by auto
    from 2(1) [OF True _ 2(4) this 2(6)] 2(3) True show ?thesis by auto
  next
    case False
    then have kids_i: "children_of ch i = kids i" using 2(4) [of i] by simp
    have c: "collect (AList.delete i ch) (rev (children_of ch i) @ pending) (removed @ [i]) = (ch', removed')"
      using 2(3) False by simp
    have "\<And>k. children_of (AList.delete i ch) k = (if k \<in> set (removed @ [i]) then [] else kids k)"
      using 2(4) by auto
    moreover have "\<And>k. k \<in> set (removed @ [i]) \<Longrightarrow> set (kids k) \<subseteq> set (removed @ [i]) \<union> set (rev (children_of ch i) @ pending)"
      using 2(5) kids_i by auto
    moreover have "dict_ok (AList.delete i ch)" using 2(6) by simp
    ultimately have IH: "set (removed @ [i]) \<union> set (rev (children_of ch i) @ pending) \<subseteq> set removed'"
      "\<forall>k \<in> set removed'. set (kids k) \<subseteq> set removed'"
      "\<forall>k. children_of ch' k = (if k \<in> set removed' then [] else kids k)" "dict_ok ch'"
      "\<forall>j \<in> set removed'. j \<in> set (removed @ [i]) \<or> (\<exists>i' \<in> set (rev (children_of ch i) @ pending). (\<lambda>a b. b \<in> set (kids a))\<^sup>*\<^sup>* i' j)"
      using 2(2) [OF False c] by blast+
    have "\<forall>j \<in> set removed'. j \<in> set removed \<or> (\<exists>i' \<in> set (i # pending). (\<lambda>a b. b \<in> set (kids a))\<^sup>*\<^sup>* i' j)"
    proof
      fix j assume "j \<in> set removed'"
      with IH(5) consider "j \<in> set removed" | "j = i" | i' where "i' \<in> set (kids i)" "(\<lambda>a b. b \<in> set (kids a))\<^sup>*\<^sup>* i' j"
        | i' where "i' \<in> set pending" "(\<lambda>a b. b \<in> set (kids a))\<^sup>*\<^sup>* i' j" using kids_i by auto
      then show "j \<in> set removed \<or> (\<exists>i' \<in> set (i # pending). (\<lambda>a b. b \<in> set (kids a))\<^sup>*\<^sup>* i' j)"
      proof cases
        case 3
        then have "(\<lambda>a b. b \<in> set (kids a))\<^sup>*\<^sup>* i j" by (meson converse_rtranclp_into_rtranclp)
        then show ?thesis by simp
      qed auto
    qed
    with IH show ?thesis by auto
  qed
qed

lemma collect_from:
  assumes "collect ch [i] [] = (ch', removed)" "dict_ok ch"
  shows "set removed = {j. (\<lambda>a b. b \<in> set (children_of ch a))\<^sup>*\<^sup>* i j}"
    "children_of ch' k = (if k \<in> set removed then [] else children_of ch k)" "dict_ok ch'"
proof -
  note S = collect_search [OF assms(1), of "children_of ch", simplified, OF assms(2)]
  have "j \<in> set removed" if "(\<lambda>a b. b \<in> set (children_of ch a))\<^sup>*\<^sup>* i j" for j
    using that by (induction rule: rtranclp_induct) (use S in auto)
  then show "set removed = {j. (\<lambda>a b. b \<in> set (children_of ch a))\<^sup>*\<^sup>* i j}" using S by auto
  show "children_of ch' k = (if k \<in> set removed then [] else children_of ch k)" "dict_ok ch'" using S by auto
qed

lemma forget_sibling_children:
  "children_of (forget_sibling v ch) k =
     (if parent_id v = Some k then removeAll (invocation_id v) (children_of ch k) else children_of ch k)"
  by (auto simp: forget_sibling_def Let_def split: option.splits) (auto simp: children_of_def)

lemma forget_sibling_dict_ok: "dict_ok ch \<Longrightarrow> dict_ok (forget_sibling v ch)"
  by (auto simp: forget_sibling_def Let_def split: option.splits)

text \<open>Cutting the edge into the start of a search does not change what it reaches.\<close>

lemma reach_without_entry:
  assumes "\<And>a b. R' a b \<longleftrightarrow> R a b \<and> \<not> (P a \<and> b = i)"
  shows "R'\<^sup>*\<^sup>* i j \<longleftrightarrow> R\<^sup>*\<^sup>* i j"
proof
  show "R'\<^sup>*\<^sup>* i j \<Longrightarrow> R\<^sup>*\<^sup>* i j"
    by (induction rule: rtranclp_induct) (auto simp: assms intro: rtranclp.rtrancl_into_rtrancl)
  show "R\<^sup>*\<^sup>* i j \<Longrightarrow> R'\<^sup>*\<^sup>* i j"
  proof (induction rule: rtranclp_induct)
    case (step a b)
    then show ?case by (cases "b = i") (auto simp: assms intro: rtranclp.rtrancl_into_rtrancl)
  qed simp
qed

lemma drop_views:
  "issued (fold drop_view xs s) = (\<lambda>i. if i \<in> set xs then None else issued s i)"
  "leases (fold drop_view xs s) = (\<lambda>i. if i \<in> set xs then None else leases s i)"
  "messages (fold drop_view xs s) = (\<lambda>i. if i \<in> set xs then None else messages s i)"
  "job_proofs (fold drop_view xs s) = (\<lambda>i. if i \<in> set xs then None else job_proofs s i)"
  "web_proofs (fold drop_view xs s) = (\<lambda>i. if i \<in> set xs then None else web_proofs s i)"
  "children (fold drop_view xs s) = children s" "next_view (fold drop_view xs s) = next_view s"
  "job_sources (fold drop_view xs s) = job_sources s"
  by (induction xs arbitrary: s) (auto simp: drop_view_def Let_def fun_eq_iff split: option.splits)

text \<open>The identifiers below a view in the forest.\<close>

definition below :: "issuer \<Rightarrow> string \<Rightarrow> string \<Rightarrow> bool" where
  "below s i j \<longleftrightarrow> (child_in s)\<^sup>*\<^sup>* i j"

lemma release_cases:
  assumes "release r s = Inr t" "iss_inv s"
  obtains removed where "issued s (invocation_id (contents r)) = Some r"
    "set removed = {j. below s (invocation_id (contents r)) j}" "dict_ok (children t)"
    "\<forall>k. children_of (children t) k = (if k \<in> set removed then []
        else if parent_id (contents r) = Some k then removeAll (invocation_id (contents r)) (children_of (children s) k)
        else children_of (children s) k)"
    "issued t = (\<lambda>i. if i \<in> set removed then None else issued s i)"
    "leases t = (\<lambda>i. if i \<in> set removed then None else leases s i)"
    "messages t = (\<lambda>i. if i \<in> set removed then None else messages s i)"
    "job_proofs t = (\<lambda>i. if i \<in> set removed then None else job_proofs s i)"
    "web_proofs t = (\<lambda>i. if i \<in> set removed then None else web_proofs s i)" "next_view t = next_view s"
proof -
  let ?v = "contents r"
  let ?i = "invocation_id ?v"
  obtain ch removed where col: "collect (forget_sibling ?v (children s)) [?i] [] = (ch, removed)" by (rule prod.exhaust)
  with assms(1) have own: "issued s ?i = Some r" and t: "t = fold drop_view removed (s\<lparr>children := ch\<rparr>)"
    by (auto simp: release_def Let_def rbind_eq_Inr opt_is_iff)
  note C = collect_from [OF col forget_sibling_dict_ok [OF iss_invD(1) [OF assms(2)]]]
  have rem: "set removed = {j. below s ?i j}"
    unfolding C(1) below_def
    by (rule Collect_cong, rule reach_without_entry [where P = "\<lambda>a. parent_id ?v = Some a"])
      (auto simp: forget_sibling_children child_in_def)
  show thesis
    by (rule that [OF own rem])
      (use C(2,3) in \<open>simp_all add: t drop_views forget_sibling_children cong: if_cong\<close>)
qed

lemma release_inv:
  assumes "release r s = Inr t" "iss_inv s"
  shows "iss_inv t"
proof -
  let ?i = "invocation_id (contents r)"
  from release_cases [OF assms] obtain removed where own: "issued s ?i = Some r"
    and rem: "set removed = {j. below s ?i j}" and dk: "dict_ok (children t)"
    and ch: "\<forall>k. children_of (children t) k = (if k \<in> set removed then []
        else if parent_id (contents r) = Some k then removeAll ?i (children_of (children s) k)
        else children_of (children s) k)"
    and tabs: "issued t = (\<lambda>i. if i \<in> set removed then None else issued s i)"
    "leases t = (\<lambda>i. if i \<in> set removed then None else leases s i)"
    "messages t = (\<lambda>i. if i \<in> set removed then None else messages s i)"
    "job_proofs t = (\<lambda>i. if i \<in> set removed then None else job_proofs s i)"
    "web_proofs t = (\<lambda>i. if i \<in> set removed then None else web_proofs s i)" "next_view t = next_view s" .
  note I = iss_invD [OF assms(2)]
  have i_rem: "?i \<in> set removed" by (simp add: rem below_def)
  have closed: "c \<in> set removed" if "p \<in> set removed" "child_in s p c" for p c
    using that by (auto simp: rem below_def intro: rtranclp.rtrancl_into_rtrancl)
  have child: "child_in t p c \<longleftrightarrow> p \<notin> set removed \<and> child_in s p c \<and> \<not> (parent_id (contents r) = Some p \<and> c = ?i)" for p c
    by (auto simp: child_in_def ch)
  have kept: "c \<notin> set removed" if "p \<notin> set removed" "child_in s p c" "\<not> (parent_id (contents r) = Some p \<and> c = ?i)" for p c
  proof
    assume "c \<in> set removed"
    then have "(child_in s)\<^sup>*\<^sup>* ?i c" by (simp add: rem below_def)
    moreover have "\<exists>x. issued s c = Some x \<and> parent_id (contents x) = Some p" using I(5) [OF that(2)] .
    ultimately show False
    proof (cases rule: rtranclp.cases)
      case rtrancl_refl
      then show ?thesis using \<open>\<exists>x. issued s c = Some x \<and> parent_id (contents x) = Some p\<close> own that(3) by auto
    next
      case (rtrancl_into_rtrancl b)
      from I(5) [OF rtrancl_into_rtrancl(2)] \<open>\<exists>x. issued s c = Some x \<and> parent_id (contents x) = Some p\<close> have "b = p" by auto
      with rtrancl_into_rtrancl(1) that(1) show ?thesis by (simp add: rem below_def)
    qed
  qed
  show ?thesis unfolding iss_inv_def
  proof (intro conjI allI impI)
    fix i x assume "issued t i = Some x"
    then have ix: "i \<notin> set removed" "issued s i = Some x" by (auto simp: tabs split: if_splits)
    show "invocation_id (contents x) = i" by (rule I(2) [OF ix(2)])
    then show "view_ok t x" by (intro view_ok_cong [OF I(3) [OF ix(2)]]) (simp_all add: tabs ix(1))
    fix p assume p: "parent_id (contents x) = Some p"
    from I(4) [OF ix(2) p] obtain q where q: "issued s p = Some q" "addr q < addr x" "child_in s p i" "child_view (contents q) (contents x)"
      by blast
    have "p \<notin> set removed" using closed [OF _ q(3)] ix(1) by blast
    then show "\<exists>q. issued t p = Some q \<and> addr q < addr x \<and> child_in t p i \<and> child_view (contents q) (contents x)"
      using q ix(1) i_rem by (auto simp: tabs child)
  next
    fix p c assume "child_in t p c"
    then have pc: "p \<notin> set removed" "child_in s p c" "\<not> (parent_id (contents r) = Some p \<and> c = ?i)" by (auto simp: child)
    from I(5) [OF pc(2)] kept [OF pc] show "\<exists>x. issued t c = Some x \<and> parent_id (contents x) = Some p" by (auto simp: tabs)
  next
    fix i assume "issued t i = None"
    then show "leases t i = None" "messages t i = None" "job_proofs t i = None" "web_proofs t i = None"
      using I(6) [of i] by (auto simp: tabs split: if_splits)
  qed (rule dk)
qed

section \<open>Runs of the issuer\<close>

text \<open>
  One operation of the issuer.  The drawn identifiers are not in use, which is what
  \<open>uuid4\<close> provides.
\<close>

inductive iss_step :: "issuer \<Rightarrow> issuer \<Rightarrow> bool" where
  i_issue: "issue e uid args s = Inr (t, r) \<Longrightarrow> issued s uid = None \<Longrightarrow> iss_step s t"
| i_job: "issue_job e uid src prf mid ep rv dl s = Inr (t, r) \<Longrightarrow> issued s uid = None \<Longrightarrow> iss_step s t"
| i_web: "issue_public_web e uid prf consumed mid cid ep rv gen dl s = (t, out) \<Longrightarrow> issued s uid = None \<Longrightarrow> iss_step s t"
| i_derive: "derive e uid parent mid ep dl cid s = Inr (t, r) \<Longrightarrow> issued s uid = None \<Longrightarrow> iss_step s t"
| i_attach: "attach_lease e r l s = Inr t \<Longrightarrow> iss_step s t"
| i_detach: "detach_lease e r l s = Inr t \<Longrightarrow> iss_step s t"
| i_cleanup: "detach_lease_for_cleanup r l s = Inr (t, b) \<Longrightarrow> iss_step s t"
| i_message: "attach_message e f r txt cor src s = Inr t \<Longrightarrow> iss_step s t"
| i_release: "release r s = Inr t \<Longrightarrow> iss_step s t"
| i_source: "iss_step s (register_job_source src s)"
| i_unsource: "iss_step s (unregister_job_source src s)"
| i_deploy: "replace_external_public_web_capabilities d s = Inr t \<Longrightarrow> iss_step s t"
| i_observe: "iss_step s (add_release_observer ob s)"
| i_unobserve: "iss_step s (remove_release_observer ob s)"

lemma iss_inv_more:
  assumes "iss_inv s"
  shows "iss_inv (register_job_source src s)" "iss_inv (unregister_job_source src s)"
    "iss_inv (add_release_observer ob s)" "iss_inv (remove_release_observer ob s)"
    "replace_external_public_web_capabilities d s = Inr t \<Longrightarrow> iss_inv t"
  using iss_invD(6) [OF assms]
  by (auto intro!: iss_inv_same_forest [OF assms] simp: register_job_source_def unregister_job_source_def
      add_release_observer_def remove_release_observer_def replace_external_public_web_capabilities_def rbind_eq_Inr)

lemma iss_step_inv: "iss_step s t \<Longrightarrow> iss_inv s \<Longrightarrow> iss_inv t"
  by (induction rule: iss_step.induct)
    (auto intro: issue_inv issue_job_inv issue_public_web_inv derive_inv attach_lease_inv detach_lease_inv
      detach_lease_for_cleanup_inv attach_message_inv release_inv iss_inv_more)

definition initial_issuer :: "issuer \<Rightarrow> bool" where
  "initial_issuer s \<longleftrightarrow> (\<exists>b d. issuer_init b d = Inr s)"

interpretation iss: transition_system initial_issuer iss_step iss_inv
proof unfold_locales
  show "iss_inv s" if "initial_issuer s" for s
    using that iss_inv_init by (auto simp: initial_issuer_def)
  show "iss_inv t" if "iss_step s t" "iss_inv s" for s t using that by (rule iss_step_inv)
qed

text \<open>A step issues new objects only.\<close>

definition grows :: "issuer \<Rightarrow> issuer \<Rightarrow> bool" where
  "grows s t \<longleftrightarrow> next_view s \<le> next_view t
     \<and> (\<forall>i r. issued t i = Some r \<longrightarrow> issued s i = Some r \<or> next_view s \<le> addr r)"

lemma grows_same: "issued t = issued s \<Longrightarrow> next_view t = next_view s \<Longrightarrow> grows s t"
  by (simp add: grows_def)

lemma grows_record: "issued t = (issued s)(uid \<mapsto> Obj (next_view s) v) \<Longrightarrow> next_view t = Suc (next_view s) \<Longrightarrow> grows s t"
  by (auto simp: grows_def)

lemma iss_step_grows: "iss_step s t \<Longrightarrow> iss_inv s \<Longrightarrow> grows s t"
proof (induction rule: iss_step.induct)
  case (i_issue e uid args s t r)
  from this(1) show ?case by (rule issue_cases) (auto intro: grows_record)
next
  case (i_job e uid src pf mid ep rv dl s t r)
  then show ?case
    by (auto simp: issue_job_def Let_def rbind_eq_Inr record_view_eq bare_view_def intro!: grows_record)
next
  case (i_web e uid pf consumed mid cid ep rv gen dl s t out)
  from this(1) show ?case by (cases rule: issue_public_web_cases) (auto intro: grows_same grows_record)
next
  case (i_derive e uid parent mid ep dl cid s t r)
  from this(1) show ?case by (rule derive_cases) (auto intro: grows_record)
next
  case (i_release r s t)
  from this show ?case by (rule release_cases) (auto simp: grows_def split: if_splits)
next
  case (i_cleanup r l s t b)
  then show ?case by (auto simp: detach_lease_for_cleanup_def Let_def rbind_eq_Inr split: if_splits option.splits intro!: grows_same)
qed (auto simp: attach_lease_def detach_lease_def attach_message_def register_job_source_def unregister_job_source_def
      add_release_observer_def remove_release_observer_def replace_external_public_web_capabilities_def
      Let_def rbind_eq_Inr intro!: grows_same)

section \<open>Descendants are the views below\<close>

lemma below_iff_ancestor:
  assumes inv: "iss_inv s" and r: "issued s i = Some r" and x: "issued s j = Some x"
  shows "below s i j \<longleftrightarrow> ancestor s x r"
proof
  note I = iss_invD [OF inv]
  assume "below s i j"
  from this [unfolded below_def] x show "ancestor s x r"
  proof (induction arbitrary: x rule: rtranclp_induct)
    case base
    with r show ?case by (auto intro: anc_refl)
  next
    case (step a b)
    from I(5) [OF step(2)] step.prems have p: "parent_id (contents x) = Some a" by auto
    from I(4) [OF step.prems p] obtain q where q: "issued s a = Some q" by blast
    show ?case by (rule anc_step [OF p q step.IH [OF q]])
  qed
next
  note I = iss_invD [OF inv]
  assume "ancestor s x r"
  from this x r show "below s i j"
  proof (induction arbitrary: j rule: ancestor.induct)
    case (anc_refl y)
    then show ?case using I(2) [OF anc_refl(1)] I(2) [OF anc_refl(2)] by (simp add: below_def)
  next
    case (anc_step y p q a)
    from I(4) [OF anc_step.prems(1) anc_step(1)] have "child_in s p j" by blast
    with anc_step.IH [OF anc_step(2) anc_step.prems(2)] show ?case
      by (auto simp: below_def intro: rtranclp.rtrancl_into_rtrancl)
  qed
qed

lemma child_view_refl: "child_view v v"
  by (simp add: child_view_def)

lemma child_view_trans:
  assumes "child_view a b" "child_view b c"
  shows "child_view a c"
proof -
  note ab = assms(1) [unfolded child_view_def] and bc = assms(2) [unfolded child_view_def]
  have "\<exists>d. deadline c = Some d \<and> d \<le> pd" if "deadline a = Some pd" for pd
    using ab bc that by (metis order_trans)
  moreover have "grant_id c = grant_id a \<and> grant_revision c = grant_revision a \<or> grant_id c = None \<and> grant_revision c = None"
    using ab bc by metis
  moreover have "grant_id c = None \<and> grant_revision c = None" if "view_module c \<noteq> view_module a"
    using ab bc that by metis
  ultimately show ?thesis using ab bc unfolding child_view_def by simp
qed

lemma ancestor_child_view:
  assumes inv: "iss_inv s"
  shows "ancestor s r a \<Longrightarrow> issued s (invocation_id (contents r)) = Some r \<Longrightarrow>
    child_view (contents a) (contents r) \<and> issued s (invocation_id (contents a)) = Some a"
proof (induction rule: ancestor.induct)
  case (anc_step r p q a)
  from iss_invD(4) [OF inv anc_step.prems anc_step(1)] anc_step(2) have "child_view (contents q) (contents r)" by auto
  moreover have "issued s (invocation_id (contents q)) = Some q" using anc_step(2) iss_invD(2) [OF inv anc_step(2)] by simp
  ultimately show ?case using anc_step.IH child_view_trans by blast
qed (simp add: child_view_refl)

text \<open>What it means for one view of a chain to be live, stated without the check.\<close>

definition live :: "env \<Rightarrow> issuer \<Rightarrow> view_ref \<Rightarrow> bool" where
  "live e s r \<longleftrightarrow> (let v = contents r; i = invocation_id v in issued s i = Some r
     \<and> (\<forall>d. deadline v = Some d \<longrightarrow> now e < d)
     \<and> (origin v = JOB \<longrightarrow> (\<exists>src prf. job_proofs s i = Some (src, prf) \<and> src \<in> set (job_sources s) \<and> claim_current e prf))
     \<and> (origin v = WEB_PUBLIC \<longrightarrow> (\<exists>c. capability_id v = Some c \<and> (view_module v, c) \<in> set (public_web_deployment s)))
     \<and> (origin v = WEB_PUBLIC \<and> parent_id v = None \<longrightarrow>
          (\<exists>prf b. web_proofs s i = Some (prf, b) \<and> web_validator s \<and> proof_current e prf b)))"

lemma require_one_live:
  assumes "iss_inv s"
  shows "require_one e s r = Inr () \<longleftrightarrow> live e s r"
proof (cases "issued s (invocation_id (contents r)) = Some r")
  case True
  from iss_invD(3) [OF assms True] have "check_InvocationView (contents r) = Inr ()" by (simp add: view_ok_def Let_def)
  then show ?thesis using True
    by (cases "origin (contents r)")
      (auto simp: require_one_def live_def Let_def rbind_eq_Inr opt_is_iff check_deadline_eq split: option.splits if_splits)
next
  case False
  then show ?thesis using require_one_issued by (auto simp: live_def Let_def)
qed

section \<open>Properties\<close>

text \<open>C31: In every reachable issuer, a view is accepted exactly when the view itself and every
  ancestor up to its root is the very object that was issued, is not past its deadline, and
  has its evidence (a current claim of a registered source for a job, a deployed capability
  for the public web and a current host proof for its root).  The check always ends, and
  its only failures are the two invocation errors.\<close>

theorem require_view_exact:
  assumes "initial_issuer s0" "iss_step\<^sup>*\<^sup>* s0 s"
  shows "(require_view e s r = Inr () \<longleftrightarrow> (\<forall>a. ancestor s r a \<longrightarrow> live e s a))
    \<and> require_view e s r \<in> {Inr (), Inl InvalidInvocation, Inl InvocationExpired}"
proof -
  note inv = iss.reachable_inv [OF assms]
  have "live e s r \<Longrightarrow> issued s (invocation_id (contents r)) = Some r" by (simp add: live_def Let_def)
  then have "require_view e s r = Inr () \<longleftrightarrow> (\<forall>a. ancestor s r a \<longrightarrow> live e s a)"
    unfolding require_view_meaning(1) [OF inv] require_one_live [OF inv] using anc_refl by blast
  moreover have "require_view e s r \<in> {Inr (), Inl InvalidInvocation, Inl InvocationExpired}"
    using require_view_meaning(2) [OF inv, of e r] by (cases "require_view e s r") auto
  ultimately show ?thesis by (rule conjI)
qed

text \<open>A concrete run: a command view, a child for a dependency in another module, release.\<close>

definition ex_env :: env where
  "ex_env = \<lparr>now = 1, claim_current = \<lambda>_. True, proof_current = \<lambda>_ _. True, source_current = \<lambda>_. True\<rparr>"

definition ex_args :: invocation_view where
  "ex_args = (bare_view [] COMMAND ''p/m'' 1 1)\<lparr>actor_id := Some ''a'', conversation_id := Some ''c'',
     deadline := Some 10, grant_id := Some ''g'', grant_revision := Some 1\<rparr>"

definition ex0 :: issuer where "ex0 = projr (issuer_init False [])"

definition ex1 :: "issuer \<times> view_ref" where "ex1 = projr (issue ex_env ''u1'' ex_args ex0)"

definition ex2 :: "issuer \<times> view_ref" where
  "ex2 = projr (derive ex_env ''u2'' (snd ex1) ''p/n'' 1 (Some 5) (Some ''q'') (fst ex1))"

definition ex3 :: issuer where "ex3 = projr (release (snd ex1) (fst ex2))"

lemma run_Inr: "\<not> isl x \<Longrightarrow> x = Inr (projr x)"
  by (cases x) simp_all

lemma ex_runs:
  "issuer_init False [] = Inr ex0" "issue ex_env ''u1'' ex_args ex0 = Inr (fst ex1, snd ex1)"
  "derive ex_env ''u2'' (snd ex1) ''p/n'' 1 (Some 5) (Some ''q'') (fst ex1) = Inr (fst ex2, snd ex2)"
  "release (snd ex1) (fst ex2) = Inr ex3"
proof -
  have "\<not> isl (issuer_init False [])" "\<not> isl (issue ex_env ''u1'' ex_args ex0)"
    "\<not> isl (derive ex_env ''u2'' (snd ex1) ''p/n'' 1 (Some 5) (Some ''q'') (fst ex1))" "\<not> isl (release (snd ex1) (fst ex2))"
    by code_simp+
  from this [THEN run_Inr] show "issuer_init False [] = Inr ex0" "issue ex_env ''u1'' ex_args ex0 = Inr (fst ex1, snd ex1)"
    "derive ex_env ''u2'' (snd ex1) ''p/n'' 1 (Some 5) (Some ''q'') (fst ex1) = Inr (fst ex2, snd ex2)"
    "release (snd ex1) (fst ex2) = Inr ex3"
    unfolding ex0_def ex1_def ex2_def ex3_def prod.collapse .
qed

lemma ex_reachable: "initial_issuer ex0" "iss_step\<^sup>*\<^sup>* ex0 (fst ex1)" "iss_step\<^sup>*\<^sup>* ex0 (fst ex2)"
proof -
  show "initial_issuer ex0" using ex_runs(1) by (auto simp: initial_issuer_def)
  have "issued ex0 ''u1'' = None" by code_simp
  from i_issue [OF ex_runs(2) this] show 1: "iss_step\<^sup>*\<^sup>* ex0 (fst ex1)" by (rule r_into_rtranclp)
  have "issued (fst ex1) ''u2'' = None" by code_simp
  from rtranclp.rtrancl_into_rtrancl [OF 1 i_derive [OF ex_runs(3) this]] show "iss_step\<^sup>*\<^sup>* ex0 (fst ex2)" .
qed

lemma ex_chain: "ancestor (fst ex2) (snd ex2) (snd ex1)"
proof -
  have "parent_id (contents (snd ex2)) = Some ''u1''" "issued (fst ex2) ''u1'' = Some (snd ex1)" by code_simp+
  from anc_step [OF this anc_refl] show ?thesis .
qed

lemma ex_accepted: "require_view ex_env (fst ex2) (snd ex2) = Inr ()"
  by code_simp

theorem require_view_exact_witness: "live ex_env (fst ex2) (snd ex1) \<and> live ex_env (fst ex2) (snd ex2)"
  using require_view_exact [OF ex_reachable(1,3), of ex_env "snd ex2"] ex_accepted ex_chain anc_refl [of "fst ex2" "snd ex2"]
  by blast

text \<open>C33: Deriving never widens authority: an accepted view has the origin, actor,
  conversation, adapter, subscription and session of each of its ancestors, a deadline no
  later than theirs, and either their Grant or none, and none at all once it is in
  another module.\<close>

theorem derived_views_never_widen:
  assumes "initial_issuer s0" "iss_step\<^sup>*\<^sup>* s0 s" "require_view e s r = Inr ()" "ancestor s r a"
  shows "child_view (contents a) (contents r)"
proof -
  note inv = iss.reachable_inv [OF assms(1,2)]
  from ancestor_child_view [OF inv assms(4) require_view_issued [OF inv assms(3)]] show ?thesis by (rule conjunct1)
qed

theorem derived_views_never_widen_witness:
  "child_view (contents (snd ex1)) (contents (snd ex2)) \<and> grant_id (contents (snd ex1)) = Some ''g''
     \<and> grant_id (contents (snd ex2)) = None"
proof -
  note narrower = derived_views_never_widen [OF ex_reachable(1,3) ex_accepted ex_chain]
  have "grant_id (contents (snd ex1)) = Some ''g''" "grant_id (contents (snd ex2)) = None" by code_simp+
  with narrower show ?thesis by simp
qed

text \<open>C32: Releasing a view removes exactly that view and its descendants: every other issued
  view stays issued with its lease, message and proofs, and no sidecar of a removed view
  remains.\<close>

theorem release_removes_descendants:
  assumes "initial_issuer s0" "iss_step\<^sup>*\<^sup>* s0 s" "release r s = Inr t"
  shows "(\<forall>i x. issued t i = Some x \<longleftrightarrow> issued s i = Some x \<and> \<not> ancestor s x r)
    \<and> (\<forall>i. issued t i = None \<longrightarrow> leases t i = None \<and> messages t i = None \<and> job_proofs t i = None \<and> web_proofs t i = None)
    \<and> (\<forall>i. issued t i \<noteq> None \<longrightarrow> leases t i = leases s i \<and> messages t i = messages s i
          \<and> job_proofs t i = job_proofs s i \<and> web_proofs t i = web_proofs s i)"
proof -
  note inv = iss.reachable_inv [OF assms(1,2)]
  note inv' = iss.reachable_inv [OF assms(1) rtranclp.rtrancl_into_rtrancl [OF assms(2) i_release [OF assms(3)]]]
  from release_cases [OF assms(3) inv] obtain removed where own: "issued s (invocation_id (contents r)) = Some r"
    and rem: "set removed = {j. below s (invocation_id (contents r)) j}"
    and tabs: "issued t = (\<lambda>i. if i \<in> set removed then None else issued s i)"
    "leases t = (\<lambda>i. if i \<in> set removed then None else leases s i)"
    "messages t = (\<lambda>i. if i \<in> set removed then None else messages s i)"
    "job_proofs t = (\<lambda>i. if i \<in> set removed then None else job_proofs s i)"
    "web_proofs t = (\<lambda>i. if i \<in> set removed then None else web_proofs s i)" .
  have "issued t i = Some x \<longleftrightarrow> issued s i = Some x \<and> \<not> ancestor s x r" for i x
    using below_iff_ancestor [OF inv own, of i x] by (auto simp: tabs rem)
  moreover have "leases t i = leases s i \<and> messages t i = messages s i \<and> job_proofs t i = job_proofs s i \<and> web_proofs t i = web_proofs s i"
    if "issued t i \<noteq> None" for i
    using that by (auto simp: tabs split: if_splits)
  ultimately show ?thesis using iss_invD(6) [OF inv'] by simp
qed

theorem release_removes_descendants_witness: "issued ex3 ''u1'' = None \<and> issued ex3 ''u2'' = None"
proof -
  have "issued (fst ex2) ''u1'' = Some (snd ex1)" "issued (fst ex2) ''u2'' = Some (snd ex2)" by code_simp+
  moreover note ex_chain
  moreover note iff = release_removes_descendants [OF ex_reachable(1,3) ex_runs(4), THEN conjunct1, rule_format]
  ultimately have "issued ex3 ''u2'' \<noteq> Some x" "issued ex3 ''u1'' \<noteq> Some x" for x
    using iff [of "''u2''" x] iff [of "''u1''" x] anc_refl by (auto simp only: option.inject)
  then show ?thesis by (metis option.exhaust)
qed

text \<open>A view object that has left the table (released, alone or with an ancestor) is
  never accepted again, whatever happens afterwards and whatever the host answers.\<close>

theorem released_view_stays_dead:
  assumes "initial_issuer s0" "iss_step\<^sup>*\<^sup>* s0 s" "iss_step\<^sup>*\<^sup>* s t" "addr r < next_view s"
    and "issued s (invocation_id (contents r)) \<noteq> Some r"
  shows "require_view e t r = Inl InvalidInvocation"
proof -
  have "addr r < next_view t \<and> issued t (invocation_id (contents r)) \<noteq> Some r"
    using assms(3)
  proof (induction rule: rtranclp_induct)
    case base
    show ?case using assms(4,5) by simp
  next
    case (step t u)
    have "iss_inv t" using iss.reachable_inv [OF assms(1)] assms(2) step(1) by (meson rtranclp_trans)
    from iss_step_grows [OF step(2) this] have "next_view t \<le> next_view u"
      "issued u (invocation_id (contents r)) = Some r \<Longrightarrow> issued t (invocation_id (contents r)) = Some r \<or> next_view t \<le> addr r"
      by (auto simp: grows_def)
    with step(3) show ?case by auto
  qed
  then show ?thesis by (auto simp: require_view_def recheck_view_eq require_one_def Let_def opt_is_iff)
qed

theorem released_view_stays_dead_witness: "require_view ex_env ex3 (snd ex2) = Inl InvalidInvocation"
proof (rule released_view_stays_dead [OF ex_reachable(1)])
  show "iss_step\<^sup>*\<^sup>* ex0 ex3" by (rule rtranclp.rtrancl_into_rtrancl [OF ex_reachable(3) i_release [OF ex_runs(4)]])
  have "isl (require_view ex_env ex3 (snd ex2))" "issued ex3 (invocation_id (contents (snd ex2))) = None" by code_simp+
  then show "issued ex3 (invocation_id (contents (snd ex2))) \<noteq> Some (snd ex2)" by simp
  show "addr (snd ex2) < next_view ex3" by code_simp
qed (rule rtranclp.rtrancl_refl)

text \<open>Provenance of an accepted view: a chat view has an actor and a conversation, an
  administrative or granted view has an actor, a subscription view carries its owner,
  revision and trusted route, is delivered directly unless it is public and has a Grant
  exactly when it is authorized; public web views have no actor and job views no parent;
  neither of the two carries a Grant.\<close>

theorem accepted_view_provenance:
  assumes "initial_issuer s0" "iss_step\<^sup>*\<^sup>* s0 s" "require_view e s r = Inr ()" "v = contents r"
  shows "(origin v \<in> {COMMAND, LLM_TOOL} \<longrightarrow> actor_id v \<noteq> None \<and> conversation_id v \<noteq> None)
    \<and> (origin v = ADMIN \<or> grant_id v \<noteq> None \<longrightarrow> actor_id v \<noteq> None)
    \<and> (origin v = SUBSCRIPTION \<longrightarrow> subscription_id v \<noteq> None \<and> delivery_route v \<noteq> None
        \<and> (sub_scope v = Some SCOPE_PUBLIC \<or> conv_kind v = Some DIRECT)
        \<and> (grant_id v \<noteq> None \<longleftrightarrow> sub_scope v = Some SCOPE_AUTHORIZED))
    \<and> (origin v = WEB_PUBLIC \<longrightarrow> actor_id v = None \<and> grant_id v = None)
    \<and> (origin v = JOB \<longrightarrow> parent_id v = None \<and> grant_id v = None)"
proof -
  note inv = iss.reachable_inv [OF assms(1,2)]
  note ok = iss_invD(3) [OF inv require_view_issued [OF inv assms(3)], folded assms(4), unfolded view_ok_def Let_def, folded assms(4)]
  show ?thesis
  proof (cases "origin v \<in> {WEB_PUBLIC, JOB}")
    case True
    then show ?thesis using ok by auto
  next
    case False
    with ok have "issue_guards v = Inr ()" by simp
    then show ?thesis using False
      by (cases "origin v") (auto simp: issue_guards_def rbind_eq_Inr split: if_splits)
  qed
qed

theorem accepted_view_provenance_witness: "actor_id (contents (snd ex2)) \<noteq> None"
proof -
  from accepted_view_provenance [OF ex_reachable(1,3) ex_accepted refl, THEN conjunct1]
  have "origin (contents (snd ex2)) \<in> {COMMAND, LLM_TOOL} \<longrightarrow> actor_id (contents (snd ex2)) \<noteq> None" by blast
  moreover have "origin (contents (snd ex2)) = COMMAND" by code_simp
  ultimately show ?thesis by simp
qed

text \<open>The execution budget: a command and a public web request never get more than 90
  seconds (a public web request without a declared timeout at most 30), the granted time is
  positive when the handler's is, and a trusted deadline is never exceeded.\<close>

theorem budget_bounds:
  assumes "make_budget_policy command timeouts = Inr p" "0 < handler_timeout"
  shows "0 < budget_seconds p og handler_timeout target
    \<and> (og \<in> {COMMAND, WEB_PUBLIC} \<longrightarrow> budget_seconds p og handler_timeout target \<le> 90)
    \<and> (og = WEB_PUBLIC \<and> map_of (capability_timeouts p) target = None \<longrightarrow> budget_seconds p og handler_timeout target \<le> 30)
    \<and> (trusted = Some td \<longrightarrow> budget_deadline p og t handler_timeout trusted target \<le> td)
    \<and> budget_deadline p og t handler_timeout trusted target \<le> t + budget_seconds p og handler_timeout target"
proof -
  from assms(1) obtain d where p: "p = \<lparr>command_timeout = command, capability_timeouts = d\<rparr>" "0 < command" "command \<le> 90"
    and d: "freeze_execution_timeouts None timeouts = Inr d"
    by (auto simp: make_budget_policy_def rbind_eq_Inr)
  have "\<forall>kv \<in> set d. timeout_entry_ok None kv"
    using d by (auto simp: freeze_execution_timeouts_def rbind_eq_Inr for_each_eq_Inr split: option.splits)
  then have declared: "0 < x \<and> x \<le> 90" if "map_of d target = Some x" for x
    using map_of_SomeD [OF that] by (auto simp: timeout_entry_ok_def)
  show ?thesis using p assms(2) declared
    by (cases og; cases trusted) (auto simp: budget_seconds_def budget_deadline_def Let_def split: option.splits)
qed

theorem budget_bounds_witness:
  "budget_seconds \<lparr>command_timeout = 90, capability_timeouts = []\<rparr> WEB_PUBLIC 60 (''p/m'', ''q'') \<le> 30"
proof -
  have "make_budget_policy 90 None = Inr \<lparr>command_timeout = 90, capability_timeouts = []\<rparr>"
    by (simp add: make_budget_policy_def freeze_execution_timeouts_def)
  from budget_bounds [OF this, of 60 WEB_PUBLIC "(''p/m'', ''q'')"] show ?thesis by simp
qed

text \<open>A collector's context is accepted only with a live scheduler view of the same module
  whose identity matches the collection's scope: no Grant for public data, the owner and no
  Grant for a user's data, the owner and exactly the scope's Grant for authorized data; its
  deadline is in the future and not later than the view's.\<close>

theorem collection_context_scoped:
  assumes "initial_issuer s0" "iss_step\<^sup>*\<^sup>* s0 s" "require_collection_context e s c = Inr r"
  shows "collection_invocation c = Some r \<and> live e s r \<and> origin (contents r) = SCHEDULER
    \<and> view_module (contents r) = key_module c
    \<and> (case key_scope c of
         OwnedPublic \<Rightarrow> grant_id (contents r) = None
       | OwnedUser u \<Rightarrow> actor_id (contents r) = Some u \<and> grant_id (contents r) = None
       | OwnedAuthorized u g \<Rightarrow> actor_id (contents r) = Some u
           \<and> (\<exists>i n. g = Some (i, n) \<and> grant_id (contents r) = Some i \<and> grant_revision (contents r) = Some n))
    \<and> (\<forall>d. collection_deadline c = Some d \<longrightarrow> now e < d \<and> (\<forall>x. deadline (contents r) = Some x \<longrightarrow> d \<le> x))"
proof -
  note inv = iss.reachable_inv [OF assms(1,2)]
  from assms(3) have c: "collection_invocation c = Some r" "require_view e s r = Inr ()" "origin (contents r) = SCHEDULER"
      "view_module (contents r) = key_module c" "collection_scope_ok (key_scope c) (contents r)"
    and d: "collection_deadline_ok (now e) (collection_deadline c) (deadline (contents r)) = Inr ()"
    by (auto simp: require_collection_context_def Let_def rbind_eq_Inr split: option.splits)
  have "live e s r" using c(2) require_view_meaning(1) [OF inv] require_one_live [OF inv] anc_refl by blast
  with c d show ?thesis
    by (cases "key_scope c") (auto simp: collection_scope_ok_def collection_deadline_ok_def rbind_eq_Inr split: option.splits)
qed

definition ex_sched :: "issuer \<times> view_ref" where
  "ex_sched = projr (issue ex_env ''u3'' ((bare_view [] SCHEDULER ''p/m'' 1 1)\<lparr>actor_id := Some ''a'', deadline := Some 10\<rparr>) ex0)"

theorem collection_context_scoped_witness: "actor_id (contents (snd ex_sched)) = Some ''a''"
proof -
  have "\<not> isl (issue ex_env ''u3'' ((bare_view [] SCHEDULER ''p/m'' 1 1)\<lparr>actor_id := Some ''a'', deadline := Some 10\<rparr>) ex0)"
    by code_simp
  from run_Inr [OF this] have i: "issue ex_env ''u3'' ((bare_view [] SCHEDULER ''p/m'' 1 1)\<lparr>actor_id := Some ''a'', deadline := Some 10\<rparr>) ex0
      = Inr (fst ex_sched, snd ex_sched)" unfolding ex_sched_def prod.collapse .
  have "issued ex0 ''u3'' = None" by code_simp
  from r_into_rtranclp [of iss_step, OF i_issue [OF i this]] have reach: "iss_step\<^sup>*\<^sup>* ex0 (fst ex_sched)" .
  have "require_collection_context ex_env (fst ex_sched)
      \<lparr>key_module = ''p/m'', key_scope = OwnedUser ''a'', collection_deadline = Some 5, collection_invocation = Some (snd ex_sched)\<rparr>
      = Inr (snd ex_sched)" by code_simp
  from collection_context_scoped [OF ex_reachable(1) reach this] show ?thesis by simp
qed

end
