(* ===== verification/Admission_Correct.thy ===== *)
theory Admission_Correct
  imports Admission Registry_Correct Issuer_Correct
begin

text \<open>
  The admission gate together with the registry and the issuer it shares: the tables that
  tie leases, views and sidecars together stay consistent along every run, a check accepts
  exactly the current leases, and closing a gate, releasing a lease or releasing a view
  fences what depended on it.
\<close>

section \<open>The tables\<close>

text \<open>Leases bound to views: the two tables of the controller are inverse to each other.\<close>

definition bound_ok :: "(string \<rightharpoonup> lease_record) \<Rightarrow> (string \<rightharpoonup> string) \<Rightarrow> bool" where
  "bound_ok recs vl \<longleftrightarrow>
     (\<forall>lid rec v. recs lid = Some rec \<longrightarrow> rec_view rec = Some v \<longrightarrow> vl (invocation_id (contents v)) = Some lid)
     \<and> (\<forall>i lid. vl i = Some lid \<longrightarrow> (\<exists>rec v. recs lid = Some rec \<and> rec_view rec = Some v \<and> invocation_id (contents v) = i))"

definition lease_tables :: "issuer \<Rightarrow> (string \<rightharpoonup> lease_record) \<Rightarrow> (string \<rightharpoonup> string) \<Rightarrow> nat \<Rightarrow> bool" where
  "lease_tables i recs vl n \<longleftrightarrow> bound_ok recs vl
     \<and> (\<forall>lid rec. recs lid = Some rec \<longrightarrow> lease_id (contents (rec_lease rec)) = lid \<and> addr (rec_lease rec) < n
          \<and> (\<forall>v. rec_view rec = Some v \<longrightarrow> issued i (invocation_id (contents v)) = Some v
               \<and> leases i (invocation_id (contents v)) = Some (addr (rec_lease rec))))
     \<and> (\<forall>a b x y. recs a = Some x \<longrightarrow> recs b = Some y \<longrightarrow> addr (rec_lease x) = addr (rec_lease y) \<longrightarrow> a = b)"

lemma bound_okD:
  assumes "bound_ok recs vl"
  shows "recs lid = Some rec \<Longrightarrow> rec_view rec = Some v \<Longrightarrow> vl (invocation_id (contents v)) = Some lid"
    and "vl i = Some lid \<Longrightarrow> \<exists>rec v. recs lid = Some rec \<and> rec_view rec = Some v \<and> invocation_id (contents v) = i"
  using assms unfolding bound_ok_def by blast+

lemma lease_tablesD:
  assumes "lease_tables i recs vl n"
  shows "bound_ok recs vl" "recs lid = Some rec \<Longrightarrow> lease_id (contents (rec_lease rec)) = lid"
    "recs lid = Some rec \<Longrightarrow> addr (rec_lease rec) < n"
    "recs lid = Some rec \<Longrightarrow> rec_view rec = Some v \<Longrightarrow> issued i (invocation_id (contents v)) = Some v"
    "recs lid = Some rec \<Longrightarrow> rec_view rec = Some v \<Longrightarrow> leases i (invocation_id (contents v)) = Some (addr (rec_lease rec))"
    "recs a = Some x \<Longrightarrow> recs b = Some y \<Longrightarrow> addr (rec_lease x) = addr (rec_lease y) \<Longrightarrow> a = b"
  using assms unfolding lease_tables_def by blast+

lemma lease_tables_view_free:
  assumes "lease_tables i recs vl n" "leases i k = None"
  shows "vl k = None"
proof (rule ccontr)
  assume "vl k \<noteq> None"
  then obtain lid where "vl k = Some lid" by blast
  from bound_okD(2) [OF lease_tablesD(1) [OF assms(1)] this] obtain rec v
    where "recs lid = Some rec" "rec_view rec = Some v" "invocation_id (contents v) = k" by blast
  with lease_tablesD(5) [OF assms(1)] assms(2) show False by fastforce
qed

lemma lease_tables_issuer:
  assumes "lease_tables i recs vl n" "leases i' = leases i"
    and "\<And>k r. issued i k = Some r \<Longrightarrow> issued i' k = Some r"
  shows "lease_tables i' recs vl n"
  using assms unfolding lease_tables_def by simp

lemma lease_tables_more: "lease_tables i recs vl n \<Longrightarrow> n \<le> n' \<Longrightarrow> lease_tables i recs vl n'"
  unfolding lease_tables_def by (meson order.strict_trans2)

lemma lease_tables_attach:
  assumes "lease_tables i recs vl n" "leases i k \<in> {None, Some a}"
  shows "lease_tables (i\<lparr>leases := (leases i)(k \<mapsto> a)\<rparr>) recs vl n"
  using assms unfolding lease_tables_def by fastforce

text \<open>A lease without a view.\<close>

lemma lease_tables_add:
  assumes "lease_tables i recs vl n" "recs (lease_id l) = None" "rec_lease rec = Obj n l" "rec_view rec = None"
  shows "lease_tables i (recs(lease_id l \<mapsto> rec)) vl (Suc n)"
proof -
  note T = lease_tablesD [OF assms(1)]
  have "vl k \<noteq> Some (lease_id l)" for k using bound_okD(2) [OF T(1), of k] assms(2) by fastforce
  then have "bound_ok (recs(lease_id l \<mapsto> rec)) vl"
    using T(1) assms(4) unfolding bound_ok_def by (auto split: if_splits)
  moreover have "\<And>a x. recs a = Some x \<Longrightarrow> addr (rec_lease x) < n" by (rule T(3))
  ultimately show ?thesis
    using T(2,4,5,6) assms(3,4) unfolding lease_tables_def
    by (auto simp: less_Suc_eq split: if_splits)
qed

text \<open>A lease that is attached to a view.\<close>

lemma lease_tables_bind:
  assumes "lease_tables i recs vl n" "recs (lease_id l) = None" "rec_lease rec = Obj n l" "rec_view rec = Some v"
    and "issued i (invocation_id (contents v)) = Some v" "leases i (invocation_id (contents v)) = None"
  shows "lease_tables (i\<lparr>leases := (leases i)(invocation_id (contents v) \<mapsto> n)\<rparr>) (recs(lease_id l \<mapsto> rec))
    (vl(invocation_id (contents v) \<mapsto> lease_id l)) (Suc n)"
proof -
  let ?k = "invocation_id (contents v)"
  note T = lease_tablesD [OF assms(1)]
  have new: "vl k \<noteq> Some (lease_id l)" for k using bound_okD(2) [OF T(1), of k] assms(2) by fastforce
  have free: "vl ?k = None" by (rule lease_tables_view_free [OF assms(1,6)])
  have other: "invocation_id (contents w) \<noteq> ?k" if "recs lid = Some x" "rec_view x = Some w" for lid x w
    using T(5) [OF that] assms(6) by auto
  have b: "bound_ok (recs(lease_id l \<mapsto> rec)) (vl(?k \<mapsto> lease_id l))"
    unfolding bound_ok_def using bound_okD [OF T(1)] assms(4) other new by (auto split: if_splits)
  have "\<And>a x. recs a = Some x \<Longrightarrow> addr (rec_lease x) < n" by (rule T(3))
  then show ?thesis
    using b T(2,4,5,6) assms(3,4,5) other unfolding lease_tables_def
    by (auto simp: less_Suc_eq split: if_splits)
qed

text \<open>Leases that leave together with the binding of their views.\<close>

lemma lease_tables_drop:
  assumes "lease_tables i recs vl n"
    and same: "\<And>k. k \<notin> R \<Longrightarrow> issued i' k = issued i k \<and> leases i' k = leases i k"
    and sub: "\<And>lid rec. recs' lid = Some rec \<Longrightarrow> recs lid = Some rec \<and> (\<forall>k \<in> R. vl k \<noteq> Some lid)"
    and keep: "\<And>k lid. vl k = Some lid \<Longrightarrow> k \<notin> R \<Longrightarrow> recs' lid = recs lid"
    and vl': "vl' = (\<lambda>k. if k \<in> R then None else vl k)"
  shows "lease_tables i' recs' vl' n"
proof -
  note T = lease_tablesD [OF assms(1)]
  have out: "invocation_id (contents v) \<notin> R" if "recs' lid = Some rec" "rec_view rec = Some v" for lid rec v
    using sub [OF that(1)] bound_okD(1) [OF T(1), of lid rec v] that(2) by auto
  have inverse: "\<exists>rec v. recs' lid = Some rec \<and> rec_view rec = Some v \<and> invocation_id (contents v) = k" if "vl' k = Some lid" for k lid
  proof -
    from that vl' have k: "vl k = Some lid" "k \<notin> R" by (auto split: if_splits)
    show ?thesis using bound_okD(2) [OF T(1) k(1)] keep [OF k] by simp
  qed
  have "bound_ok recs' vl'"
    unfolding bound_ok_def using inverse sub out bound_okD(1) [OF T(1)] vl' by simp
  then show ?thesis unfolding lease_tables_def using sub out T(2-6) same by simp blast
qed

section \<open>Releasing views\<close>

lemma forget_tables:
  assumes "bound_ok (lease_records s) (view_leases s)" "view_leases s k = Some lid"
  shows "lease_records (forget lid s) = (lease_records s)(lid := None)"
    "view_leases (forget lid s) = (view_leases s)(k := None)"
  using bound_okD(2) [OF assms] assms(2) by (auto simp: forget_def Let_def)

lemma forget_rest [simp]:
  "ctl_registry (forget lid s) = ctl_registry s" "ctl_issuer (forget lid s) = ctl_issuer s"
  "open_gates (forget lid s) = open_gates s" "next_lease (forget lid s) = next_lease s"
  "release_observer (forget lid s) = release_observer s" "mutation_token (forget lid s) = mutation_token s"
  by (auto simp: forget_def Let_def split: option.splits)

lemma on_invocation_release_rest [simp]:
  "ctl_registry (on_invocation_release v s) = ctl_registry s" "ctl_issuer (on_invocation_release v s) = ctl_issuer s"
  "open_gates (on_invocation_release v s) = open_gates s" "next_lease (on_invocation_release v s) = next_lease s"
  "release_observer (on_invocation_release v s) = release_observer s"
  by (auto simp: on_invocation_release_def split: sum.splits option.splits)

lemma on_invocation_release_tables:
  assumes "bound_ok (lease_records s) (view_leases s)" "check_InvocationView (contents v) = Inr ()"
  shows "lease_records (on_invocation_release v s)
      = (\<lambda>lid. if view_leases s (invocation_id (contents v)) = Some lid then None else lease_records s lid)"
    and "view_leases (on_invocation_release v s) = (view_leases s)(invocation_id (contents v) := None)"
  using assms forget_tables [OF assms(1)]
  by (auto simp: on_invocation_release_def fun_eq_iff split: option.splits)

lemma bound_ok_drop:
  assumes "bound_ok recs vl"
  shows "bound_ok (\<lambda>lid. if vl k = Some lid then None else recs lid) (vl(k := None))"
proof -
  have "k = k'" if "vl k = Some lid" "vl k' = Some lid" for k k' lid
    using bound_okD(2) [OF assms that(1)] bound_okD(2) [OF assms that(2)] by auto
  then show ?thesis using bound_okD [OF assms] unfolding bound_ok_def by (auto split: if_splits)
qed

lemma on_invocation_releases:
  assumes "bound_ok (lease_records s) (view_leases s)" "\<forall>v \<in> set vs. check_InvocationView (contents v) = Inr ()"
  shows "lease_records (fold on_invocation_release vs s)
      = (\<lambda>lid. if \<exists>k \<in> (\<lambda>v. invocation_id (contents v)) ` set vs. view_leases s k = Some lid then None else lease_records s lid)
    \<and> view_leases (fold on_invocation_release vs s)
      = (\<lambda>k. if k \<in> (\<lambda>v. invocation_id (contents v)) ` set vs then None else view_leases s k)"
  using assms
proof (induction vs arbitrary: s)
  case (Cons v vs)
  note one = on_invocation_release_tables [OF Cons.prems(1), of v]
  from Cons.prems(2) have ok: "check_InvocationView (contents v) = Inr ()" by simp
  have "bound_ok (lease_records (on_invocation_release v s)) (view_leases (on_invocation_release v s))"
    unfolding one [OF ok] by (rule bound_ok_drop [OF Cons.prems(1)])
  from Cons.IH [OF this] Cons.prems(2) show ?case unfolding one [OF ok] by (auto simp: fun_eq_iff)
qed simp

lemma on_invocation_releases_rest [simp]:
  "ctl_registry (fold on_invocation_release vs s) = ctl_registry s" "ctl_issuer (fold on_invocation_release vs s) = ctl_issuer s"
  "open_gates (fold on_invocation_release vs s) = open_gates s" "next_lease (fold on_invocation_release vs s) = next_lease s"
  "release_observer (fold on_invocation_release vs s) = release_observer s"
  by (induction vs arbitrary: s) simp_all

text \<open>What the issuer reports to its observers.\<close>

lemma drop_views_observers [simp]: "release_observers (fold drop_view xs s) = release_observers s"
  by (induction xs arbitrary: s) (auto simp: drop_view_def Let_def split: option.splits)

lemma drop_views_observed:
  "\<exists>ys. observed (fold drop_view xs s) = observed s @ ys
     \<and> (\<forall>ob r. (ob, r) \<in> set ys \<longleftrightarrow> ob \<in> set (release_observers s) \<and> (\<exists>i \<in> set xs. issued s i = Some r))"
proof (induction xs arbitrary: s)
  case (Cons x xs)
  let ?s = "drop_view x s"
  define new where "new = (case issued s x of None \<Rightarrow> [] | Some r \<Rightarrow> map (\<lambda>ob. (ob, r)) (release_observers s))"
  have s: "observed ?s = observed s @ new" "release_observers ?s = release_observers s"
    "issued ?s = (issued s)(x := None)"
    by (auto simp: drop_view_def Let_def new_def split: option.splits)
  from Cons [of ?s] obtain ys where ys: "observed (fold drop_view xs ?s) = observed ?s @ ys"
    "\<forall>ob r. (ob, r) \<in> set ys \<longleftrightarrow> ob \<in> set (release_observers ?s) \<and> (\<exists>i \<in> set xs. issued ?s i = Some r)" by blast
  have "observed (fold drop_view (x # xs) s) = observed s @ (new @ ys)" using ys(1) by (simp add: s)
  moreover have "(ob, r) \<in> set (new @ ys) \<longleftrightarrow> ob \<in> set (release_observers s) \<and> (\<exists>i \<in> set (x # xs). issued s i = Some r)" for ob r
  proof -
    have "(ob, r) \<in> set ys \<longleftrightarrow> ob \<in> set (release_observers s) \<and> (\<exists>i \<in> set xs. i \<noteq> x \<and> issued s i = Some r)"
      using ys(2) unfolding s by (metis fun_upd_apply option.distinct(1))
    moreover have "(ob, r) \<in> set new \<longleftrightarrow> ob \<in> set (release_observers s) \<and> issued s x = Some r"
      by (cases "issued s x") (auto simp: new_def)
    ultimately show ?thesis by (cases "issued s x = Some r") auto
  qed
  ultimately show ?case by blast
qed simp

lemma release_effect:
  assumes "release r s = Inr t" "iss_inv s"
  obtains R ys where "R = {j. below s (invocation_id (contents r)) j}"
    "issued t = (\<lambda>i. if i \<in> R then None else issued s i)" "leases t = (\<lambda>i. if i \<in> R then None else leases s i)"
    "observed t = observed s @ ys"
    "\<forall>ob x. (ob, x) \<in> set ys \<longleftrightarrow> ob \<in> set (release_observers s) \<and> (\<exists>i \<in> R. issued s i = Some x)"
    "release_observers t = release_observers s"
proof -
  let ?v = "contents r"
  obtain ch removed where "collect (forget_sibling ?v (children s)) [invocation_id ?v] [] = (ch, removed)" by (rule prod.exhaust)
  with assms(1) have t: "t = fold drop_view removed (s\<lparr>children := ch\<rparr>)" by (auto simp: release_def Let_def rbind_eq_Inr)
  let ?R = "{j. below s (invocation_id (contents r)) j}"
  from release_cases [OF assms] obtain R' where R': "set R' = ?R"
    "issued t = (\<lambda>i. if i \<in> set R' then None else issued s i)" "leases t = (\<lambda>i. if i \<in> set R' then None else leases s i)"
    by (rule release_cases [OF assms]) (rule that, assumption+)
  have dom: "(\<exists>i \<in> set removed. issued s i = Some x) \<longleftrightarrow> (\<exists>i \<in> ?R. issued s i = Some x)" for x
  proof -
    have rem: "issued t i = (if i \<in> set removed then None else issued s i)" for i by (simp add: t drop_views)
    have "issued t i = (if i \<in> ?R then None else issued s i)" for i using R'(1,2) by simp
    with rem have "i \<in> set removed \<longleftrightarrow> i \<in> ?R" if "issued s i = Some x" for i
      using that by (metis option.distinct(1))
    then show ?thesis by blast
  qed
  from drop_views_observed [of removed "s\<lparr>children := ch\<rparr>"] obtain ys where
    ys: "observed t = observed s @ ys"
      "\<forall>ob x. (ob, x) \<in> set ys \<longleftrightarrow> ob \<in> set (release_observers s) \<and> (\<exists>i \<in> set removed. issued s i = Some x)"
    by (auto simp: t)
  show thesis
  proof (rule that [OF refl _ _ ys(1)])
    show "issued t = (\<lambda>i. if i \<in> ?R then None else issued s i)" "leases t = (\<lambda>i. if i \<in> ?R then None else leases s i)"
      using R' by simp_all
    show "\<forall>ob x. (ob, x) \<in> set ys \<longleftrightarrow> ob \<in> set (release_observers s) \<and> (\<exists>i \<in> ?R. issued s i = Some x)"
      using ys(2) unfolding dom .
    show "release_observers t = release_observers s" by (simp add: t)
  qed
qed


section \<open>Runs\<close>

text \<open>The operations of the issuer that neither touch a lease nor remove a view.\<close>

inductive issuing :: "issuer \<Rightarrow> issuer \<Rightarrow> bool" where
  n_issue: "issue e uid args s = Inr (t, r) \<Longrightarrow> issued s uid = None \<Longrightarrow> issuing s t"
| n_job: "issue_job e uid src prf mid ep rv dl s = Inr (t, r) \<Longrightarrow> issued s uid = None \<Longrightarrow> issuing s t"
| n_web: "issue_public_web e uid prf consumed mid cid ep rv gen dl s = (t, out) \<Longrightarrow> issued s uid = None \<Longrightarrow> issuing s t"
| n_derive: "derive e uid parent mid ep dl cid s = Inr (t, r) \<Longrightarrow> issued s uid = None \<Longrightarrow> issuing s t"
| n_message: "attach_message e f r txt cor src s = Inr t \<Longrightarrow> issuing s t"
| n_source: "issuing s (register_job_source src s)"
| n_unsource: "issuing s (unregister_job_source src s)"
| n_deploy: "replace_external_public_web_capabilities d s = Inr t \<Longrightarrow> issuing s t"
| n_observe: "issuing s (add_release_observer ob s)"

lemma issuing_step: "issuing s t \<Longrightarrow> iss_step s t"
  by (induction rule: issuing.induct) (auto intro: iss_step.intros)

lemma issuing_keeps:
  assumes "issuing s t"
  shows "leases t = leases s" "issued s k = Some r \<Longrightarrow> issued t k = Some r"
    "set (release_observers s) \<subseteq> set (release_observers t)"
  using assms
  by (induction rule: issuing.induct)
    (auto simp: issue_def issue_job_def issue_public_web_def derive_def attach_message_def register_job_source_def
      unregister_job_source_def replace_external_public_web_capabilities_def add_release_observer_def record_view_eq
      bare_view_def       Let_def rbind_eq_Inr split: sum.splits if_splits prod.splits)

text \<open>The invariant of the whole.\<close>

definition adm_inv :: "controller \<Rightarrow> bool" where
  "adm_inv s \<longleftrightarrow> reg_inv (ctl_registry s) \<and> iss_inv (ctl_issuer s)
     \<and> release_observer s \<in> set (release_observers (ctl_issuer s))
     \<and> (\<forall>mid r. open_gates s mid = Some r \<longrightarrow> run_module (contents r) = mid)
     \<and> lease_tables (ctl_issuer s) (lease_records s) (view_leases s) (next_lease s)"

lemma adm_invD:
  assumes "adm_inv s"
  shows "reg_inv (ctl_registry s)" "iss_inv (ctl_issuer s)" "release_observer s \<in> set (release_observers (ctl_issuer s))"
    "open_gates s mid = Some r \<Longrightarrow> run_module (contents r) = mid"
    "lease_tables (ctl_issuer s) (lease_records s) (view_leases s) (next_lease s)"
  using assms unfolding adm_inv_def by simp_all

text \<open>How the admissions that succeed change the state.\<close>

definition admitted :: "view_ref \<Rightarrow> lease \<Rightarrow> lease_record \<Rightarrow> controller \<Rightarrow> controller" where
  "admitted v l rec s = s\<lparr>next_lease := Suc (next_lease s),
     ctl_issuer := (ctl_issuer s)\<lparr>leases := (leases (ctl_issuer s))(invocation_id (contents v) \<mapsto> next_lease s)\<rparr>,
     lease_records := (lease_records s)(lease_id l \<mapsto> rec),
     view_leases := (view_leases s)(invocation_id (contents v) \<mapsto> lease_id l)\<rparr>"

definition view_record :: "view_ref \<Rightarrow> lease_ref \<Rightarrow> run_ref \<Rightarrow> string option \<Rightarrow> lease_record" where
  "view_record v l r cap = \<lparr>rec_lease = l, rec_identity = r, rec_view = Some v, rec_capability = cap,
     rec_collector = None, rec_execution = None\<rparr>"

lemma attach_free:
  assumes "attach_lease e v a i = Inr i'" "lease_for e i v = Inr None"
  shows "leases i (invocation_id (contents v)) = None" "require_view e i v = Inr ()"
    "i' = i\<lparr>leases := (leases i)(invocation_id (contents v) \<mapsto> a)\<rparr>"
  using assms attach_lease_eq [OF assms(1)] by (auto simp: lease_for_def rbind_eq_Inr)

lemma admit_lease_cases:
  assumes "admit_lease e lid view cid s = Inr (l, r)"
  shows "lease_id l = lid" "lease_for (view_env e) (ctl_issuer s) view = Inr None"
    "check_InvocationView (contents view) = Inr ()"
  using assms by (auto simp: admit_lease_def Let_def rbind_eq_Inr)

lemma admit_job_lease_cases:
  assumes "admit_job_lease e lid view s = Inr (l, r)"
  shows "lease_id l = lid" "lease_for (view_env e) (ctl_issuer s) view = Inr None"
    "check_InvocationView (contents view) = Inr ()"
  using assms by (auto simp: admit_job_lease_def Let_def rbind_eq_Inr lease_for_def recheck_view_eq split: if_splits)

lemma admit_ok:
  assumes "admit e lid view cid s = (t, Inr lr)"
  obtains l r where "admit_lease e lid view cid s = Inr (l, r)" "lease_id l = lid" "lr = Obj (next_lease s) l"
    "require_view (view_env e) (ctl_issuer s) view = Inr ()"
    "leases (ctl_issuer s) (invocation_id (contents view)) = None" "lease_records s lid = None"
    "t = admitted view l (view_record view lr r (Some cid)) s"
proof -
  from assms obtain l r i where l: "admit_lease e lid view cid s = Inr (l, r)"
    "attach_lease (view_env e) view (next_lease s) (ctl_issuer s) = Inr i"
    and lr: "lr = Obj (next_lease s) l"
    and t: "\<exists>s3. record_lease lr r (Some view) (Some cid) None None (s\<lparr>next_lease := Suc (next_lease s), ctl_issuer := i\<rparr>) = Inr s3
      \<and> t = bind_view view lr s3"
    by (auto simp: admit_def new_lease_def rbind_def split: sum.splits prod.splits)
  note c = admit_lease_cases [OF l(1)]
  note a = attach_free [OF l(2) c(2)]
  show thesis
    by (rule that [OF l(1) c(1) lr a(2,1)])
      (use t a(3) lr c(1) in \<open>auto simp: record_lease_def bind_view_def admitted_def view_record_def rbind_eq_Inr\<close>)
qed

lemma admit_job_ok:
  assumes "admit_job e lid view s = (t, Inr lr)"
  obtains l r where "admit_job_lease e lid view s = Inr (l, r)" "lease_id l = lid" "lr = Obj (next_lease s) l"
    "require_view (view_env e) (ctl_issuer s) view = Inr ()"
    "leases (ctl_issuer s) (invocation_id (contents view)) = None" "lease_records s lid = None"
    "t = admitted view l (view_record view lr r None) s"
proof -
  from assms obtain l r i where l: "admit_job_lease e lid view s = Inr (l, r)"
    "attach_lease (view_env e) view (next_lease s) (ctl_issuer s) = Inr i"
    and lr: "lr = Obj (next_lease s) l"
    and t: "\<exists>s3. record_lease lr r (Some view) None None None (s\<lparr>next_lease := Suc (next_lease s), ctl_issuer := i\<rparr>) = Inr s3
      \<and> t = bind_view view lr s3"
    by (auto simp: admit_job_def new_lease_def rbind_def split: sum.splits prod.splits)
  note c = admit_job_lease_cases [OF l(1)]
  note a = attach_free [OF l(2) c(2)]
  show thesis
    by (rule that [OF l(1) c(1) lr a(2,1)])
      (use t a(3) lr c(1) in \<open>auto simp: record_lease_def bind_view_def admitted_def view_record_def rbind_eq_Inr\<close>)
qed

text \<open>A failed admission leaves every table as it was.\<close>

lemma admit_fails:
  assumes "admit e lid view cid s = (t, Inl x)" "iss_inv (ctl_issuer s)"
  shows "t = s \<or> lease_records s lid \<noteq> None \<and> t = s\<lparr>next_lease := Suc (next_lease s)\<rparr>"
proof (cases "rbind (admit_lease e lid view cid s) (\<lambda>(l, r). rbind (new_lease l s) (\<lambda>(s1, lr).
    rbind (attach_lease (view_env e) view (addr lr) (ctl_issuer s1)) (\<lambda>i. Inr (s1\<lparr>ctl_issuer := i\<rparr>, lr, r))))")
  case (Inl y)
  then show ?thesis using assms(1) by (simp add: admit_def)
next
  case (Inr q)
  then obtain l r i where l: "admit_lease e lid view cid s = Inr (l, r)"
    "attach_lease (view_env e) view (next_lease s) (ctl_issuer s) = Inr i"
    and q: "q = (s\<lparr>next_lease := Suc (next_lease s), ctl_issuer := i\<rparr>, Obj (next_lease s) l, r)"
    by (auto simp: new_lease_def rbind_eq_Inr)
  note c = admit_lease_cases [OF l(1)]
  note a = attach_free [OF l(2) c(2)]
  let ?k = "invocation_id (contents view)"
  have own: "issued (ctl_issuer s) ?k = Some view" by (rule require_view_issued [OF assms(2) a(2)])
  have same: "(leases (ctl_issuer s))(?k := None) = leases (ctl_issuer s)" using a(1) by auto
  have undo: "detach_lease_for_cleanup view (next_lease s) i = Inr (ctl_issuer s, True)"
    using c(3) own by (simp add: detach_lease_for_cleanup_def Let_def recheck_view_eq a(3) opt_is_iff same)
  show ?thesis
    using assms(1) Inr undo c(1,3) q
    by (auto simp: admit_def record_lease_def rbind_def optional_def ensure_def split: sum.splits if_splits)
qed

lemma admit_job_fails:
  assumes "admit_job e lid view s = (t, Inl x)" "lease_records s lid = None"
  shows "t = s"
proof (cases "rbind (admit_job_lease e lid view s) (\<lambda>(l, r). rbind (new_lease l s) (\<lambda>(s1, lr).
    rbind (attach_lease (view_env e) view (addr lr) (ctl_issuer s1)) (\<lambda>i. Inr (s1\<lparr>ctl_issuer := i\<rparr>, lr, r))))")
  case (Inl y)
  then show ?thesis using assms(1) by (simp add: admit_job_def)
next
  case (Inr q)
  then obtain l r i where l: "admit_job_lease e lid view s = Inr (l, r)"
    and q: "q = (s\<lparr>next_lease := Suc (next_lease s), ctl_issuer := i\<rparr>, Obj (next_lease s) l, r)"
    by (auto simp: new_lease_def rbind_eq_Inr)
  note c = admit_job_lease_cases [OF l(1)]
  show ?thesis
    using assms Inr c(1,3) q
    by (auto simp: admit_job_def record_lease_def rbind_def optional_def ensure_def split: sum.splits if_splits)
qed

text \<open>
  One operation of the system.  The registry and the issuer run by their own steps; the
  scheduler may attach a scheduled lease of the gate to a view of its own, and identifiers
  drawn for leases are not in use.
\<close>

inductive sys_step :: "controller \<Rightarrow> controller \<Rightarrow> bool" where
  s_registry: "reg_step (ctl_registry s) r \<Longrightarrow> sys_step s (s\<lparr>ctl_registry := r\<rparr>)"
| s_issuer: "issuing (ctl_issuer s) i \<Longrightarrow> sys_step s (s\<lparr>ctl_issuer := i\<rparr>)"
| s_unobserve: "ob \<noteq> release_observer s \<Longrightarrow> sys_step s (s\<lparr>ctl_issuer := remove_release_observer ob (ctl_issuer s)\<rparr>)"
| s_attach: "attach_lease e v (addr l) (ctl_issuer s) = Inr i \<Longrightarrow> require_record s l = Inr rec \<Longrightarrow>
    sys_step s (s\<lparr>ctl_issuer := i\<rparr>)"
| s_release_view: "release_view v s = Inr t \<Longrightarrow> sys_step s t"
| s_admit: "admit e lid v cid s = (t, out) \<Longrightarrow> lease_records s lid = None \<Longrightarrow> sys_step s t"
| s_job: "admit_job e lid v s = (t, out) \<Longrightarrow> lease_records s lid = None \<Longrightarrow> sys_step s t"
| s_schedule: "admit_schedule e lid x c s = Inr (t, l) \<Longrightarrow> sys_step s t"
| s_delivery: "admit_delivery e lid w k mid c kv ms s = Inr (t, l) \<Longrightarrow> sys_step s t"
| s_release: "release_lease l s = Inr t \<Longrightarrow> sys_step s t"
| s_activate: "activate e r h s = Inr t \<Longrightarrow> sys_step s t"
| s_close: "close_gate r why s = Inr t \<Longrightarrow> sys_step s t"
| s_enter: "mutation_enter owner inherited token s = Some (Inr t) \<Longrightarrow> sys_step s t"
| s_exit: "sys_step s (mutation_exit s)"

lemma admitted_inv:
  assumes inv: "adm_inv s" and free: "lease_records s (lease_id l) = None"
    and rec: "rec_lease rec = Obj (next_lease s) l" "rec_view rec = Some v"
    and ok: "require_view e (ctl_issuer s) v = Inr ()" "leases (ctl_issuer s) (invocation_id (contents v)) = None"
  shows "adm_inv (admitted v l rec s)"
proof -
  note I = adm_invD [OF inv]
  have own: "issued (ctl_issuer s) (invocation_id (contents v)) = Some v" by (rule require_view_issued [OF I(2) ok(1)])
  have "iss_inv ((ctl_issuer s)\<lparr>leases := (leases (ctl_issuer s))(invocation_id (contents v) \<mapsto> next_lease s)\<rparr>)"
    using own iss_invD(6) [OF I(2)] by (intro iss_inv_leases [OF I(2)]) auto
  with lease_tables_bind [OF I(5) free rec own ok(2)] I(1,3,4) show ?thesis
    unfolding adm_inv_def admitted_def by simp
qed

lemma plain_inv:
  assumes "adm_inv s" "check_lease l = Inr ()"
    and "record_lease (Obj (next_lease s) l) r None cap col x (s\<lparr>next_lease := Suc (next_lease s)\<rparr>) = Inr t"
  shows "adm_inv t"
proof -
  note I = adm_invD [OF assms(1)]
  let ?rec = "\<lparr>rec_lease = Obj (next_lease s) l, rec_identity = r, rec_view = None, rec_capability = cap, rec_collector = col,
    rec_execution = x\<rparr>"
  from assms(3) have free: "lease_records s (lease_id l) = None"
    and t: "t = s\<lparr>next_lease := Suc (next_lease s), lease_records := (lease_records s)(lease_id l \<mapsto> ?rec)\<rparr>"
    by (auto simp: record_lease_def rbind_eq_Inr)
  from lease_tables_add [OF I(5) free, of ?rec] I(1-4) show ?thesis unfolding adm_inv_def t by simp
qed

text \<open>The views a record is bound to: one or none.\<close>

definition view_ids :: "lease_record \<Rightarrow> string set" where
  "view_ids rec = (case rec_view rec of None \<Rightarrow> {} | Some v \<Rightarrow> {invocation_id (contents v)})"

definition undone :: "lease_ref \<Rightarrow> lease_record \<Rightarrow> controller \<Rightarrow> controller" where
  "undone l rec s = s\<lparr>
     ctl_issuer := (ctl_issuer s)\<lparr>leases := (\<lambda>k. if k \<in> view_ids rec then None else leases (ctl_issuer s) k)\<rparr>,
     lease_records := (lease_records s)(lease_id (contents l) := None),
     view_leases := (\<lambda>k. if k \<in> view_ids rec then None else view_leases s k)\<rparr>"

lemma view_ids_None: "rec_view rec = None \<Longrightarrow> (\<lambda>k. if k \<in> view_ids rec then None else f k) = f"
  by (simp add: view_ids_def)

lemma view_ids_Some: "rec_view rec = Some v \<Longrightarrow> (\<lambda>k. if k \<in> view_ids rec then None else f k) = f(invocation_id (contents v) := None)"
  by (auto simp: view_ids_def)

lemma release_lease_eq:
  assumes "adm_inv s"
  shows "release_lease l s = (case lease_records s (lease_id (contents l)) of
     None \<Rightarrow> Inr s
   | Some rec \<Rightarrow> if rec_lease rec = l then Inr (undone l rec s) else Inl InvalidAdmissionLease)"
proof (cases "lease_records s (lease_id (contents l))")
  case None
  then show ?thesis by (simp add: release_lease_def)
next
  case rec: (Some rec)
  note T = lease_tablesD [OF adm_invD(5) [OF assms]]
  show ?thesis
  proof (cases "rec_view rec")
    case None
    then show ?thesis using rec by (simp add: release_lease_def is_same_def forget_def undone_def view_ids_None)
  next
    case (Some v)
    let ?k = "invocation_id (contents v)"
    have own: "issued (ctl_issuer s) ?k = Some v" and held: "leases (ctl_issuer s) ?k = Some (addr (rec_lease rec))"
      using T(4,5) [OF rec Some] by simp_all
    have vl: "view_leases s ?k = Some (lease_id (contents l))" by (rule bound_okD(1) [OF T(1) rec Some])
    have ok: "check_InvocationView (contents v) = Inr ()"
      using iss_invD(3) [OF adm_invD(2) [OF assms] own] by (simp add: view_ok_def Let_def)
    have "detach_lease_for_cleanup v (addr (rec_lease rec)) (ctl_issuer s)
        = Inr ((ctl_issuer s)\<lparr>leases := (leases (ctl_issuer s))(?k := None)\<rparr>, True)"
      using own held ok by (simp add: detach_lease_for_cleanup_def Let_def recheck_view_eq opt_is_iff)
    then show ?thesis using rec Some vl
      by (cases "rec_lease rec = l") (simp_all add: release_lease_def is_same_def forget_def undone_def view_ids_Some Let_def)
  qed
qed

lemma undone_inv:
  assumes "adm_inv s" "lease_records s (lease_id (contents l)) = Some rec"
  shows "adm_inv (undone l rec s)"
proof -
  note I = adm_invD [OF assms(1)]
  note T = lease_tablesD [OF I(5)]
  let ?t = "undone l rec s"
  have i: "iss_inv (ctl_issuer ?t)"
    using iss_invD(6) [OF I(2)] unfolding undone_def by (simp, intro iss_inv_leases [OF I(2)]) auto
  have mine: "vl = Some (lease_id (contents l))" if "k \<in> view_ids rec" "view_leases s k = vl" for k vl
    using that bound_okD(1) [OF T(1) assms(2)] by (auto simp: view_ids_def split: option.splits)
  have not_mine: "lid \<noteq> lease_id (contents l)" if "view_leases s k = Some lid" "k \<notin> view_ids rec" for k lid
    using bound_okD(2) [OF T(1) that(1)] that(2) assms(2) by (auto simp: view_ids_def)
  have "lease_tables (ctl_issuer ?t) (lease_records ?t) (view_leases ?t) (next_lease ?t)"
    by (rule lease_tables_drop [of "ctl_issuer s" "lease_records s" "view_leases s" _ "view_ids rec"])
      (use I(5) mine not_mine in \<open>auto simp: undone_def split: if_splits\<close>)
  with i I(1,3,4) show ?thesis unfolding adm_inv_def by (simp add: undone_def)
qed

lemma release_lease_inv: "release_lease l s = Inr t \<Longrightarrow> adm_inv s \<Longrightarrow> adm_inv t"
  using undone_inv by (auto simp: release_lease_eq split: option.splits if_splits)

text \<open>The same for a release of a view.\<close>

lemma release_view_cases:
  assumes "release_view v s = Inr t" "adm_inv s"
  obtains R where "R = {j. below (ctl_issuer s) (invocation_id (contents v)) j}"
    "release v (ctl_issuer s) = Inr (ctl_issuer t)"
    "issued (ctl_issuer t) = (\<lambda>k. if k \<in> R then None else issued (ctl_issuer s) k)"
    "leases (ctl_issuer t) = (\<lambda>k. if k \<in> R then None else leases (ctl_issuer s) k)"
    "release_observers (ctl_issuer t) = release_observers (ctl_issuer s)"
    "lease_records t = (\<lambda>lid. if \<exists>k \<in> R. view_leases s k = Some lid then None else lease_records s lid)"
    "view_leases t = (\<lambda>k. if k \<in> R then None else view_leases s k)"
    "ctl_registry t = ctl_registry s" "open_gates t = open_gates s" "next_lease t = next_lease s"
    "release_observer t = release_observer s"
proof -
  note I = adm_invD [OF assms(2)]
  note T = lease_tablesD [OF I(5)]
  from assms(1) obtain i where i: "release v (ctl_issuer s) = Inr i"
    and t: "t = fold on_invocation_release (reported (release_observer s) (ctl_issuer s) i) (s\<lparr>ctl_issuer := i\<rparr>)"
    by (auto simp: release_view_def rbind_eq_Inr)
  from release_effect [OF i I(2)] obtain R ys where R: "R = {j. below (ctl_issuer s) (invocation_id (contents v)) j}"
    and e: "issued i = (\<lambda>k. if k \<in> R then None else issued (ctl_issuer s) k)"
      "leases i = (\<lambda>k. if k \<in> R then None else leases (ctl_issuer s) k)"
    and ys: "observed i = observed (ctl_issuer s) @ ys"
      "\<forall>ob x. (ob, x) \<in> set ys \<longleftrightarrow> ob \<in> set (release_observers (ctl_issuer s)) \<and> (\<exists>k \<in> R. issued (ctl_issuer s) k = Some x)"
      "release_observers i = release_observers (ctl_issuer s)" .
  let ?vs = "reported (release_observer s) (ctl_issuer s) i"
  have vs: "x \<in> set ?vs \<longleftrightarrow> (\<exists>k \<in> R. issued (ctl_issuer s) k = Some x)" for x
    using ys(2) I(3) by (force simp: reported_def ys(1))
  have ok: "\<forall>x \<in> set ?vs. check_InvocationView (contents x) = Inr ()"
    using iss_invD(3) [OF I(2)] by (auto simp: vs view_ok_def Let_def)
  have ids: "view_leases s k = None \<or> (k \<in> (\<lambda>x. invocation_id (contents x)) ` set ?vs \<longleftrightarrow> k \<in> R)" for k
  proof (cases "view_leases s k")
    case (Some lid)
    from bound_okD(2) [OF T(1) Some] obtain rec w where w: "lease_records s lid = Some rec" "rec_view rec = Some w"
      "invocation_id (contents w) = k" by blast
    then have "issued (ctl_issuer s) k = Some w" using T(4) by blast
    then show ?thesis using vs iss_invD(2) [OF I(2)] by (auto simp: image_iff)
  qed simp
  define J where "J = (\<lambda>x. invocation_id (contents x)) ` set ?vs"
  have J: "(k \<in> J \<and> view_leases s k = Some lid) = (k \<in> R \<and> view_leases s k = Some lid)" for k lid
    using ids [of k] unfolding J_def by auto
  have rel: "lease_records t = (\<lambda>lid. if \<exists>k \<in> J. view_leases s k = Some lid then None else lease_records s lid)"
    "view_leases t = (\<lambda>k. if k \<in> J then None else view_leases s k)"
    using on_invocation_releases [of "s\<lparr>ctl_issuer := i\<rparr>" ?vs] ok T(1) by (simp_all add: t J_def cong: if_cong)
  have tabs: "lease_records t = (\<lambda>lid. if \<exists>k \<in> R. view_leases s k = Some lid then None else lease_records s lid)"
    "view_leases t = (\<lambda>k. if k \<in> R then None else view_leases s k)"
  proof -
    have "(\<exists>k \<in> J. view_leases s k = Some lid) = (\<exists>k \<in> R. view_leases s k = Some lid)" for lid using J by blast
    then show "lease_records t = (\<lambda>lid. if \<exists>k \<in> R. view_leases s k = Some lid then None else lease_records s lid)"
      by (simp add: rel)
    show "view_leases t = (\<lambda>k. if k \<in> R then None else view_leases s k)"
    proof
      fix k show "view_leases t k = (if k \<in> R then None else view_leases s k)"
        using J [of k] by (cases "view_leases s k") (auto simp: rel(2))
    qed
  qed
  show thesis by (rule that [OF R]) (use i e ys(3) tabs in \<open>simp_all add: t\<close>)
qed

lemma release_view_inv:
  assumes "release_view v s = Inr t" "adm_inv s"
  shows "adm_inv t"
proof -
  note I = adm_invD [OF assms(2)]
  note T = lease_tablesD [OF I(5)]
  from release_view_cases [OF assms] obtain R where "R = {j. below (ctl_issuer s) (invocation_id (contents v)) j}"
    and rel: "release v (ctl_issuer s) = Inr (ctl_issuer t)"
    and e: "issued (ctl_issuer t) = (\<lambda>k. if k \<in> R then None else issued (ctl_issuer s) k)"
      "leases (ctl_issuer t) = (\<lambda>k. if k \<in> R then None else leases (ctl_issuer s) k)"
    and t: "release_observers (ctl_issuer t) = release_observers (ctl_issuer s)"
      "lease_records t = (\<lambda>lid. if \<exists>k \<in> R. view_leases s k = Some lid then None else lease_records s lid)"
      "view_leases t = (\<lambda>k. if k \<in> R then None else view_leases s k)"
      "ctl_registry t = ctl_registry s" "open_gates t = open_gates s" "next_lease t = next_lease s"
      "release_observer t = release_observer s" .
  have unique: "k = j" if "view_leases s k = Some lid" "view_leases s j = Some lid" for k j lid
    using bound_okD(2) [OF T(1) that(1)] bound_okD(2) [OF T(1) that(2)] by auto
  have "lease_tables (ctl_issuer t) (lease_records t) (view_leases t) (next_lease s)"
    by (rule lease_tables_drop [OF I(5), of R]) (use unique in \<open>auto simp: e t split: if_splits\<close>)
  with release_inv [OF rel I(2)] I(1,3,4) show ?thesis unfolding adm_inv_def by (simp add: t)
qed

lemma adm_inv_issuer:
  assumes "adm_inv s" "iss_inv i" "leases i = leases (ctl_issuer s)"
    and "\<And>k r. issued (ctl_issuer s) k = Some r \<Longrightarrow> issued i k = Some r" "release_observer s \<in> set (release_observers i)"
  shows "adm_inv (s\<lparr>ctl_issuer := i\<rparr>)"
  using adm_invD [OF assms(1)] assms(2,5) lease_tables_issuer [OF adm_invD(5) [OF assms(1)] assms(3,4)]
  unfolding adm_inv_def by simp

lemma attach_adm_inv:
  assumes "attach_lease e v (addr l) (ctl_issuer s) = Inr i" "adm_inv s"
  shows "adm_inv (s\<lparr>ctl_issuer := i\<rparr>)"
proof -
  note I = adm_invD [OF assms(2)]
  note a = attach_lease_eq [OF assms(1)]
  have "lease_tables i (lease_records s) (view_leases s) (next_lease s)"
    using a lease_tables_attach [OF I(5)] by simp
  moreover have "release_observers i = release_observers (ctl_issuer s)" using a by simp
  ultimately show ?thesis using I attach_lease_inv [OF assms(1) I(2)] unfolding adm_inv_def by simp
qed

lemma admit_inv:
  assumes "admit e lid v cid s = (t, out)" "lease_records s lid = None" "adm_inv s"
  shows "adm_inv t"
proof (cases out)
  case (Inl x)
  with assms admit_fails [of e lid v cid s t x] adm_invD(2) [OF assms(3)] show ?thesis by auto
next
  case (Inr lr)
  with assms(1) have "admit e lid v cid s = (t, Inr lr)" by simp
  then obtain l r where "lease_id l = lid" "lr = Obj (next_lease s) l" "require_view (view_env e) (ctl_issuer s) v = Inr ()"
    "leases (ctl_issuer s) (invocation_id (contents v)) = None" "t = admitted v l (view_record v lr r (Some cid)) s"
    by (rule admit_ok)
  then show ?thesis using admitted_inv [OF assms(3)] assms(2) by (simp add: view_record_def)
qed

lemma admit_job_inv:
  assumes "admit_job e lid v s = (t, out)" "lease_records s lid = None" "adm_inv s"
  shows "adm_inv t"
proof (cases out)
  case (Inl x)
  with assms admit_job_fails [of e lid v s t x] show ?thesis by auto
next
  case (Inr lr)
  with assms(1) have "admit_job e lid v s = (t, Inr lr)" by simp
  then obtain l r where "lease_id l = lid" "lr = Obj (next_lease s) l" "require_view (view_env e) (ctl_issuer s) v = Inr ()"
    "leases (ctl_issuer s) (invocation_id (contents v)) = None" "t = admitted v l (view_record v lr r None) s"
    by (rule admit_job_ok)
  then show ?thesis using admitted_inv [OF assms(3)] assms(2) by (simp add: view_record_def)
qed

lemma admit_plain_inv:
  "admit_schedule e lid x c s = Inr (t, lr) \<Longrightarrow> adm_inv s \<Longrightarrow> adm_inv t"
  "admit_delivery e lid w k mid c kv ms s = Inr (t, lr) \<Longrightarrow> adm_inv s \<Longrightarrow> adm_inv t"
  by (auto simp: admit_schedule_def admit_delivery_def new_lease_def Let_def rbind_eq_Inr intro: plain_inv)

lemma gate_inv:
  assumes "adm_inv s"
  shows "activate e r h s = Inr t \<Longrightarrow> adm_inv t" "close_gate r why s = Inr t \<Longrightarrow> adm_inv t"
    "mutation_enter owner inherited token s = Some (Inr t) \<Longrightarrow> adm_inv t" "adm_inv (mutation_exit s)"
  using adm_invD [OF assms]
  by (auto simp: adm_inv_def activate_def close_gate_def mutation_enter_def mutation_exit_def Let_def rbind_eq_Inr
      split: if_splits)

lemma sys_step_inv: "sys_step s t \<Longrightarrow> adm_inv s \<Longrightarrow> adm_inv t"
proof (induction rule: sys_step.induct)
  case (s_registry s r)
  then show ?case using adm_invD [OF s_registry(2)] reg_step_inv unfolding adm_inv_def by simp
next
  case (s_issuer s i)
  note I = adm_invD [OF s_issuer(2)] and k = issuing_keeps [OF s_issuer(1)]
  show ?case using iss_step_inv [OF issuing_step [OF s_issuer(1)] I(2)] k(1,3) I(3)
    by (intro adm_inv_issuer [OF s_issuer(2)] k(2)) auto
next
  case (s_unobserve ob s)
  note I = adm_invD [OF s_unobserve(2)]
  show ?case using s_unobserve(1) I(3) iss_inv_more(4) [OF I(2)]
    by (intro adm_inv_issuer [OF s_unobserve(2)]) (auto simp: remove_release_observer_def)
qed (auto intro: attach_adm_inv release_view_inv admit_inv admit_job_inv admit_plain_inv release_lease_inv gate_inv)

definition initial_system :: "controller \<Rightarrow> bool" where
  "initial_system s \<longleftrightarrow> (\<exists>i ob. initial_issuer i \<and> s = controller_init registry_init i ob)"

lemma initial_system_inv: "initial_system s \<Longrightarrow> adm_inv s"
proof -
  assume "initial_system s"
  then obtain i ob where i: "initial_issuer i" and s: "s = controller_init registry_init i ob"
    by (auto simp: initial_system_def)
  have "iss_inv (add_release_observer ob i)" using iss.initial_inv [OF i] by (rule iss_inv_more)
  moreover have "reg_inv registry_init" by (rule reg.initial_inv) simp
  ultimately show "adm_inv s"
    by (simp add: s adm_inv_def controller_init_def lease_tables_def bound_ok_def add_release_observer_def)
qed

interpretation adm: transition_system initial_system sys_step adm_inv
  by unfold_locales (auto intro: initial_system_inv sys_step_inv)

section \<open>The meaning of a check\<close>

text \<open>A module is open for a run: registered, enabled, and the lifecycle and the gate name the same run object.\<close>

definition gate_open :: "adm_env \<Rightarrow> controller \<Rightarrow> string \<Rightarrow> registered_module \<Rightarrow> run_ref \<Rightarrow> bool" where
  "gate_open e s mid m r \<longleftrightarrow> (\<exists>a. map_of (snapshot_modules (snapshot (ctl_registry s))) mid = Some (Obj a m))
     \<and> current_run e mid = Some r \<and> open_gates s mid = Some r \<and> run_active e r
     \<and> enabled m \<and> epoch m = run_epoch (contents r)"

lemma registered_eq_Inr:
  "registered s mid = Inr m \<longleftrightarrow> (\<exists>a. map_of (snapshot_modules (snapshot (ctl_registry s))) mid = Some (Obj a m))"
  by (auto simp: registered_def snapshot_module_def rbind_eq_Inr split: option.splits) (metis obj.exhaust_sel)

lemma active_identity_eq_Inr:
  "active_identity e s m = Inr r \<longleftrightarrow> current_run e (module_id m) = Some r \<and> open_gates s (module_id m) = Some r
     \<and> run_active e r \<and> enabled m \<and> epoch m = run_epoch (contents r)"
  by (auto simp: active_identity_def opt_is_iff split: option.splits)

lemma registered_module_id:
  assumes "adm_inv s" "registered s mid = Inr m"
  shows "module_id m = mid"
proof -
  from assms(2) obtain a where "map_of (snapshot_modules (snapshot (ctl_registry s))) mid = Some (Obj a m)"
    unfolding registered_eq_Inr by blast
  from index_okD(1) [OF reg_invD(5) [OF adm_invD(1) [OF assms(1)]] this] show ?thesis by simp
qed

lemma gate_open_iff:
  assumes "adm_inv s"
  shows "(registered s mid = Inr m \<and> active_identity e s m = Inr r) \<longleftrightarrow> gate_open e s mid m r"
proof -
  have "registered s mid = Inr m \<longleftrightarrow> (\<exists>a. map_of (snapshot_modules (snapshot (ctl_registry s))) mid = Some (Obj a m))"
    by (rule registered_eq_Inr)
  then show ?thesis using registered_module_id [OF assms, of mid m]
    unfolding gate_open_def active_identity_eq_Inr by auto
qed

lemma require_record_eq_Inr:
  "require_record s l = Inr rec \<longleftrightarrow> lease_records s (lease_id (contents l)) = Some rec \<and> rec_lease rec = l"
  by (auto simp: require_record_def is_same_def split: option.splits)

lemma check_record_view_eq:
  assumes "adm_inv s" "lease_records s (lease_id (contents l)) = Some rec" "rec_lease rec = l"
  shows "check_record_view e s l rec = Inr () \<longleftrightarrow>
    (\<forall>v. rec_view rec = Some v \<longrightarrow> require_view (view_env e) (ctl_issuer s) v = Inr ())"
proof (cases "rec_view rec")
  case (Some v)
  have "leases (ctl_issuer s) (invocation_id (contents v)) = Some (addr l)"
    using lease_tablesD(5) [OF adm_invD(5) [OF assms(1)] assms(2) Some] assms(3) by simp
  then show ?thesis using Some
    by (auto simp: check_record_view_def lease_for_def rbind_eq_Inr require_view_def)
qed (simp add: check_record_view_def)

lemma require_view_live:
  assumes "iss_inv s"
  shows "require_view e s r = Inr () \<longleftrightarrow> (\<forall>a. ancestor s r a \<longrightarrow> live e s a)"
proof -
  have "live e s r \<Longrightarrow> issued s (invocation_id (contents r)) = Some r" by (simp add: live_def Let_def)
  then show ?thesis
    unfolding require_view_meaning(1) [OF assms] require_one_live [OF assms] using anc_refl by blast
qed

lemma lease_check_iff:
  assumes "adm_inv s"
  shows "lease_check e s l = Inr () \<longleftrightarrow> (\<exists>rec m. lease_records s (lease_id (contents l)) = Some rec \<and> rec_lease rec = l
      \<and> gate_open e s (lease_module (contents l)) m (rec_identity rec)
      \<and> lease_epoch (contents l) = run_epoch (contents (rec_identity rec))
      \<and> (\<forall>v. rec_view rec = Some v \<longrightarrow> require_view (view_env e) (ctl_issuer s) v = Inr ())
      \<and> check_lease_class e s l rec m = Inr ())"
proof -
  have "lease_check e s l = Inr () \<longleftrightarrow> (\<exists>rec m r. require_record s l = Inr rec
      \<and> (registered s (lease_module (contents l)) = Inr m \<and> active_identity e s m = Inr r)
      \<and> rec_identity rec = r \<and> lease_epoch (contents l) = run_epoch (contents r)
      \<and> check_record_view e s l rec = Inr () \<and> check_lease_class e s l rec m = Inr ())"
    unfolding lease_check_def rbind_eq_Inr ensure_eq_Inr is_same_def by auto
  then show ?thesis unfolding gate_open_iff [OF assms] require_record_eq_Inr
    using check_record_view_eq [OF assms] by blast
qed

lemma lease_check_forged:
  "(\<forall>rec. lease_records s (lease_id (contents l)) = Some rec \<longrightarrow> rec_lease rec \<noteq> l) \<Longrightarrow>
     lease_check e s l = Inl InvalidAdmissionLease"
  by (auto simp: lease_check_def require_record_def is_same_def split: option.splits)

text \<open>Attaching a lease does not change whether a view is accepted.\<close>

lemma require_loop_leases: "require_loop n e (i\<lparr>leases := x\<rparr>) r = require_loop n e i r"
proof (induction n arbitrary: r)
  case (Suc n)
  have "require_one e (i\<lparr>leases := x\<rparr>) r = require_one e i r"
    by (simp add: require_one_def public_web_deployment_def Let_def cong: if_cong option.case_cong)
  with Suc show ?case by (simp split: option.splits sum.splits)
qed simp

lemma require_view_leases [simp]: "require_view e (i\<lparr>leases := x\<rparr>) r = require_view e i r"
  by (simp add: require_view_def require_loop_leases)

section \<open>Steps and leases\<close>

text \<open>Old lease objects never reappear, and a gate opens only by an activation.\<close>

definition adm_grows :: "controller \<Rightarrow> controller \<Rightarrow> bool" where
  "adm_grows s t \<longleftrightarrow> next_lease s \<le> next_lease t
     \<and> (\<forall>lid rec. lease_records t lid = Some rec \<longrightarrow> lease_records s lid = Some rec \<or> next_lease s \<le> addr (rec_lease rec))"

lemma adm_grows_same: "lease_records t = lease_records s \<Longrightarrow> next_lease t = next_lease s \<Longrightarrow> adm_grows s t"
  by (simp add: adm_grows_def)

lemma adm_grows_drop:
  "next_lease t = next_lease s \<Longrightarrow> (\<And>lid rec. lease_records t lid = Some rec \<Longrightarrow> lease_records s lid = Some rec) \<Longrightarrow> adm_grows s t"
  by (simp add: adm_grows_def)

lemma adm_grows_add:
  "lease_records t = (lease_records s)(lid \<mapsto> rec) \<Longrightarrow> addr (rec_lease rec) = next_lease s \<Longrightarrow>
     next_lease t = Suc (next_lease s) \<Longrightarrow> adm_grows s t"
  by (auto simp: adm_grows_def)

lemma admit_grows:
  assumes "admit e lid v cid s = (t, out)" "lease_records s lid = None" "adm_inv s"
  shows "adm_grows s t"
proof (cases out)
  case (Inl x)
  with assms admit_fails [of e lid v cid s t x] adm_invD(2) [OF assms(3)] show ?thesis by (auto intro: adm_grows_same)
next
  case (Inr lr)
  with assms(1) have "admit e lid v cid s = (t, Inr lr)" by simp
  then obtain l r where "lr = Obj (next_lease s) l" "t = admitted v l (view_record v lr r (Some cid)) s" by (rule admit_ok)
  then show ?thesis by (intro adm_grows_add) (auto simp: admitted_def view_record_def)
qed

lemma admit_job_grows:
  assumes "admit_job e lid v s = (t, out)" "lease_records s lid = None" "adm_inv s"
  shows "adm_grows s t"
proof (cases out)
  case (Inl x)
  with assms admit_job_fails [of e lid v s t x] show ?thesis by (auto intro: adm_grows_same)
next
  case (Inr lr)
  with assms(1) have "admit_job e lid v s = (t, Inr lr)" by simp
  then obtain l r where "lr = Obj (next_lease s) l" "t = admitted v l (view_record v lr r None) s" by (rule admit_job_ok)
  then show ?thesis by (intro adm_grows_add) (auto simp: admitted_def view_record_def)
qed

lemma admit_plain_grows:
  "admit_schedule e lid x c s = Inr (t, lr) \<Longrightarrow> adm_grows s t"
  "admit_delivery e lid w k mid c kv ms s = Inr (t, lr) \<Longrightarrow> adm_grows s t"
  by (auto simp: admit_schedule_def admit_delivery_def new_lease_def record_lease_def Let_def rbind_eq_Inr adm_grows_def
      split: if_splits)

lemma release_grows:
  assumes "adm_inv s"
  shows "release_lease l s = Inr t \<Longrightarrow> adm_grows s t" "release_view v s = Inr t \<Longrightarrow> adm_grows s t"
proof -
  show "release_lease l s = Inr t \<Longrightarrow> adm_grows s t"
    by (auto simp: release_lease_eq [OF assms] undone_def adm_grows_def split: option.splits if_splits)
  assume rel: "release_view v s = Inr t"
  obtain R where "lease_records t = (\<lambda>lid. if \<exists>k \<in> R. view_leases s k = Some lid then None else lease_records s lid)"
    "next_lease t = next_lease s" by (rule release_view_cases [OF rel assms]) (rule that, assumption+)
  then show "adm_grows s t" by (intro adm_grows_drop) (auto split: if_splits)
qed

lemma gate_grows:
  "activate e r h s = Inr t \<Longrightarrow> adm_grows s t" "close_gate r why s = Inr t \<Longrightarrow> adm_grows s t"
  "mutation_enter owner inherited token s = Some (Inr t) \<Longrightarrow> adm_grows s t" "adm_grows s (mutation_exit s)"
  "adm_grows s (s\<lparr>ctl_registry := g\<rparr>)" "adm_grows s (s\<lparr>ctl_issuer := i\<rparr>)"
  by (auto simp: adm_grows_def activate_def close_gate_def mutation_enter_def mutation_exit_def Let_def rbind_eq_Inr split: if_splits)

lemma sys_step_grows: "sys_step s t \<Longrightarrow> adm_inv s \<Longrightarrow> adm_grows s t"
  by (induction rule: sys_step.induct)
    (auto intro: admit_grows admit_job_grows admit_plain_grows release_grows gate_grows)

lemma sys_run_grows: "sys_step\<^sup>*\<^sup>* s t \<Longrightarrow> adm_inv s \<Longrightarrow> adm_grows s t"
proof (rule adm.run_lift [where R = adm_grows])
  show "adm_grows s t" if "adm_inv s" "sys_step s t" for s t using that by (rule sys_step_grows [rotated])
  show "adm_grows s s" for s by (rule adm_grows_same) simp_all
  show "adm_grows s u" if "adm_grows s t" "adm_grows t u" for s t u
    using that unfolding adm_grows_def by (meson order.trans)
qed

lemma sys_step_gates:
  assumes "sys_step s t" "adm_inv s" "open_gates t mid = Some r"
  shows "open_gates s mid = Some r \<or> (\<exists>e h. run_module (contents r) = mid \<and> activate e r h s = Inr t)"
  using assms
proof (induction rule: sys_step.induct)
  case (s_release_view v s t)
  have "open_gates t = open_gates s" by (rule release_view_cases [OF s_release_view(1,2)])
  with s_release_view(3) show ?case by simp
next
  case (s_admit e lid v cid s t out)
  have "open_gates t = open_gates s"
  proof (cases out)
    case (Inl x)
    with s_admit(1,2) admit_fails [of e lid v cid s t x] adm_invD(2) [OF s_admit(3)] show ?thesis by auto
  next
    case (Inr lr)
    with s_admit(1) have "admit e lid v cid s = (t, Inr lr)" by simp
    then obtain l r where "t = admitted v l (view_record v lr r (Some cid)) s" by (rule admit_ok)
    then show ?thesis by (simp add: admitted_def)
  qed
  with s_admit(4) show ?case by simp
next
  case (s_job e lid v s t out)
  have "open_gates t = open_gates s"
  proof (cases out)
    case (Inl x)
    with s_job(1,2) admit_job_fails [of e lid v s t x] show ?thesis by auto
  next
    case (Inr lr)
    with s_job(1) have "admit_job e lid v s = (t, Inr lr)" by simp
    then obtain l r where "t = admitted v l (view_record v lr r None) s" by (rule admit_job_ok)
    then show ?thesis by (simp add: admitted_def)
  qed
  with s_job(4) show ?case by simp
next
  case (s_activate e q h s t)
  then have "open_gates t = (open_gates s)(run_module (contents q) \<mapsto> q)"
    by (auto simp: activate_def Let_def rbind_eq_Inr)
  with s_activate(1,3) show ?case by (auto split: if_splits)
next
  case (s_release l s t)
  then show ?case by (auto simp: release_lease_eq [OF s_release(2)] undone_def split: option.splits if_splits)
qed (auto simp: admit_schedule_def admit_delivery_def new_lease_def record_lease_def close_gate_def mutation_enter_def
    mutation_exit_def Let_def rbind_eq_Inr split: if_splits)

text \<open>Between a state where a gate is not open for a run and one where it is, that run was activated.\<close>

lemma gate_opened_by_activation:
  assumes "sys_step\<^sup>*\<^sup>* s t" "adm_inv s" "open_gates s mid \<noteq> Some r" "open_gates t mid = Some r"
  shows "\<exists>a b e h. sys_step\<^sup>*\<^sup>* s a \<and> activate e r h a = Inr b \<and> sys_step\<^sup>*\<^sup>* b t"
  using assms(1,4)
proof (induction rule: rtranclp_induct)
  case base
  with assms(3) show ?case by simp
next
  case (step u t)
  show ?case
  proof (cases "open_gates u mid = Some r")
    case True
    from step.IH [OF this] step(2) show ?thesis by (meson rtranclp.rtrancl_into_rtrancl)
  next
    case False
    have "adm_inv u" by (rule adm.run_inv [OF step(1) assms(2)])
    from sys_step_gates [OF step(2) this step(4)] False step(1) show ?thesis by blast
  qed
qed

text \<open>A lease that was just admitted is current.\<close>

lemma admitted_current:
  assumes inv: "adm_inv s" and adm: "admit e lid v cid s = (t, Inr l)"
  shows "lease_check e t l = Inr ()"
proof -
  from adm obtain c r where l: "admit_lease e lid v cid s = Inr (c, r)" "lease_id c = lid" "l = Obj (next_lease s) c"
    and ok: "require_view (view_env e) (ctl_issuer s) v = Inr ()"
    and free: "leases (ctl_issuer s) (invocation_id (contents v)) = None" "lease_records s lid = None"
    and t: "t = admitted v c (view_record v l r (Some cid)) s" by (rule admit_ok)
  from l(1) obtain m h d ds where m: "registered s (view_module (contents v)) = Inr m" "active_identity e s m = Inr r"
    and cap: "capability_of (manifest m) cid = Inr d" "available_health e (module_id m) cid = Inr h"
      "dependencies_of e s (module_id m) (manifest m) d = Inr ds"
    and c: "c = \<lparr>lease_id = lid, lease_module = module_id m, lease_epoch = run_epoch (contents r),
            lease_revision = revision (snapshot (ctl_registry s)), lease_dependencies = ds,
            lease_class = AdmissionLease (invocation_id (contents v)) cid h\<rparr>"
    by (auto simp: admit_lease_def Let_def rbind_eq_Inr)
  have mid: "module_id m = view_module (contents v)" by (rule registered_module_id [OF inv m(1)])
  have same: "registered t = registered s" "active_identity e t = active_identity e s"
    by (simp_all add: fun_eq_iff t admitted_def registered_def active_identity_def cong: option.case_cong)
  then have deps: "dependency_of e t = dependency_of e s"
    by (simp add: fun_eq_iff dependency_of_def)
  have "dependencies_of e t = dependencies_of e s"
    by (intro ext) (simp add: dependencies_of_def deps)
  with cap have cls: "check_lease_class e t l rec m = Inr ()" for rec
    by (simp add: check_lease_class_def l(3) c)
  have inv_t: "adm_inv t" using admit_inv [OF adm free(2) inv] .
  show ?thesis
    unfolding lease_check_iff [OF inv_t] gate_open_iff [OF inv_t, symmetric] same
    using m ok cls
    by (intro exI [of _ "view_record v l r (Some cid)"] exI [of _ m])
      (simp add: l(2,3) c t admitted_def view_record_def mid)
qed

section \<open>A concrete run\<close>

text \<open>A package is registered and its module enabled, a command view is issued, the gate opens and the view is admitted.\<close>

lemma registry_run: "reg_step\<^sup>*\<^sup>* a b \<Longrightarrow> sys_step\<^sup>*\<^sup>* (s\<lparr>ctl_registry := a\<rparr>) (s\<lparr>ctl_registry := b\<rparr>)"
proof (induction rule: rtranclp_induct)
  case (step b c)
  have "sys_step (s\<lparr>ctl_registry := b\<rparr>) ((s\<lparr>ctl_registry := b\<rparr>)\<lparr>ctl_registry := c\<rparr>)"
    using step(2) by (intro s_registry) simp
  then show ?case using step(3) by (simp add: rtranclp.rtrancl_into_rtrancl)
qed simp

definition ex_run :: run_ref where "ex_run = Obj 0 \<lparr>runtime_id = ''rt'', run_module = ''p/m'', run_epoch = 1\<rparr>"

definition ex_adm :: adm_env where
  "ex_adm = \<lparr>view_env = ex_env, current_run = (\<lambda>m. if m = ''p/m'' then Some ex_run else None), run_active = (\<lambda>_. True),
     health_of = (\<lambda>_ _. Inr (AVAILABLE, 0)), claim_prover = None, utc_now = None, digest_of = (\<lambda>_. [])\<rparr>"

definition ex_view :: invocation_view where
  "ex_view = (bare_view [] COMMAND ''p/m'' 1 1)\<lparr>actor_id := Some ''a'', conversation_id := Some ''c'',
     deadline := Some 10, capability_id := Some ''q''\<rparr>"

definition sys0 :: controller where "sys0 = controller_init registry_init ex0 9"

definition sys1 :: controller where "sys1 = sys0\<lparr>ctl_registry := example_active\<rparr>"

definition issued1 :: "issuer \<times> view_ref" where "issued1 = projr (issue ex_env ''u1'' ex_view (ctl_issuer sys1))"

definition sys2 :: controller where "sys2 = sys1\<lparr>ctl_issuer := fst issued1\<rparr>"

definition sys3 :: controller where
  "sys3 = projr (activate ex_adm ex_run \<lparr>capability_health = [(''q'', AVAILABLE, None)]\<rparr> sys2)"

definition sys4 :: controller where "sys4 = fst (admit ex_adm ''l1'' (snd issued1) ''q'' sys3)"

definition lease4 :: lease_ref where "lease4 = projr (snd (admit ex_adm ''l1'' (snd issued1) ''q'' sys3))"

lemma sys_runs:
  "issue ex_env ''u1'' ex_view (ctl_issuer sys1) = Inr (fst issued1, snd issued1)"
  "activate ex_adm ex_run \<lparr>capability_health = [(''q'', AVAILABLE, None)]\<rparr> sys2 = Inr sys3"
  "admit ex_adm ''l1'' (snd issued1) ''q'' sys3 = (sys4, Inr lease4)"
proof -
  have "\<not> isl (issue ex_env ''u1'' ex_view (ctl_issuer sys1))"
    "\<not> isl (activate ex_adm ex_run \<lparr>capability_health = [(''q'', AVAILABLE, None)]\<rparr> sys2)" by code_simp+
  from this [THEN run_Inr] show "issue ex_env ''u1'' ex_view (ctl_issuer sys1) = Inr (fst issued1, snd issued1)"
    "activate ex_adm ex_run \<lparr>capability_health = [(''q'', AVAILABLE, None)]\<rparr> sys2 = Inr sys3"
    unfolding issued1_def sys3_def prod.collapse .
  have "\<not> isl (snd (admit ex_adm ''l1'' (snd issued1) ''q'' sys3))" by code_simp
  from run_Inr [OF this] show "admit ex_adm ''l1'' (snd issued1) ''q'' sys3 = (sys4, Inr lease4)"
    unfolding sys4_def lease4_def by (metis prod.collapse)
qed

lemma sys_reachable: "initial_system sys0" "sys_step\<^sup>*\<^sup>* sys0 sys3" "sys_step\<^sup>*\<^sup>* sys0 sys4"
proof -
  show "initial_system sys0" using ex_reachable(1) by (auto simp: initial_system_def sys0_def)
  have "reg_step\<^sup>*\<^sup>* registry_init example_active"
    by (rule rtranclp.rtrancl_into_rtrancl [OF example_owned_reachable step_project [OF example_projection]])
  from registry_run [OF this, of sys0] have 1: "sys_step\<^sup>*\<^sup>* sys0 sys1" by (simp add: sys1_def sys0_def controller_init_def)
  have "issued (ctl_issuer sys1) ''u1'' = None" by code_simp
  then have "sys_step sys1 sys2" unfolding sys2_def by (intro s_issuer n_issue [OF sys_runs(1)])
  moreover have "sys_step sys2 sys3" by (rule s_activate [OF sys_runs(2)])
  ultimately show 3: "sys_step\<^sup>*\<^sup>* sys0 sys3" using 1 by (meson rtranclp.rtrancl_into_rtrancl)
  have "lease_records sys3 ''l1'' = None" by code_simp
  from s_admit [OF sys_runs(3) this] 3 show "sys_step\<^sup>*\<^sup>* sys0 sys4" by (rule rtranclp.rtrancl_into_rtrancl [rotated])
qed

definition record4 :: lease_record where
  "record4 = the (lease_records sys4 ''l1'')"

lemma sys4_record: "lease_records sys4 ''l1'' = Some record4" "rec_lease record4 = lease4" "rec_view record4 = Some (snd issued1)"
  "lease_id (contents lease4) = ''l1''" "lease_module (contents lease4) = ''p/m''" "open_gates sys4 ''p/m'' = Some ex_run"
proof -
  from sys_runs(3) obtain l r where l: "admit_lease ex_adm ''l1'' (snd issued1) ''q'' sys3 = Inr (l, r)"
    "lease_id l = ''l1''" "lease4 = Obj (next_lease sys3) l"
    and t: "sys4 = admitted (snd issued1) l (view_record (snd issued1) lease4 r (Some ''q'')) sys3" by (rule admit_ok)
  show "lease_records sys4 ''l1'' = Some record4" "rec_lease record4 = lease4" "rec_view record4 = Some (snd issued1)"
    by (simp_all add: record4_def t admitted_def view_record_def l(2))
  show "lease_id (contents lease4) = ''l1''" by (simp add: l)
  have "view_module (contents (snd issued1)) = ''p/m''" by code_simp
  then have "\<exists>m. registered sys3 ''p/m'' = Inr m \<and> lease_module l = module_id m"
    using l(1) by (auto simp: admit_lease_def Let_def rbind_eq_Inr)
  then show "lease_module (contents lease4) = ''p/m''"
    using registered_module_id [OF adm.reachable_inv [OF sys_reachable(1,2)]] by (auto simp: l(3))
  have "open_gates sys3 ''p/m'' = Some ex_run" by code_simp
  then show "open_gates sys4 ''p/m'' = Some ex_run" by (simp add: t admitted_def)
qed

section \<open>Properties\<close>

text \<open>C1: In every reachable state a lease passes the check exactly when it is the very object the
  gate recorded, its module is registered and enabled and the gate is open for the same run
  the lease was admitted under (which the lifecycle still reports as current and active, at the
  lease's epoch), every view of the chain of its invocation is live, and the conditions of its
  class hold.  Any other object, for example a copy with equal fields, is rejected as invalid.\<close>

theorem lease_check_exact:
  assumes "initial_system s0" "sys_step\<^sup>*\<^sup>* s0 s"
  shows "(lease_check e s l = Inr () \<longleftrightarrow> (\<exists>rec m. lease_records s (lease_id (contents l)) = Some rec \<and> rec_lease rec = l
      \<and> gate_open e s (lease_module (contents l)) m (rec_identity rec)
      \<and> lease_epoch (contents l) = run_epoch (contents (rec_identity rec))
      \<and> (\<forall>v a. rec_view rec = Some v \<longrightarrow> ancestor (ctl_issuer s) v a \<longrightarrow> live (view_env e) (ctl_issuer s) a)
      \<and> check_lease_class e s l rec m = Inr ()))
    \<and> ((\<forall>rec. lease_records s (lease_id (contents l)) = Some rec \<longrightarrow> rec_lease rec \<noteq> l) \<longrightarrow>
      lease_check e s l = Inl InvalidAdmissionLease)"
proof (intro conjI impI)
  note inv = adm.reachable_inv [OF assms]
  show "lease_check e s l = Inr () \<longleftrightarrow> (\<exists>rec m. lease_records s (lease_id (contents l)) = Some rec \<and> rec_lease rec = l
      \<and> gate_open e s (lease_module (contents l)) m (rec_identity rec)
      \<and> lease_epoch (contents l) = run_epoch (contents (rec_identity rec))
      \<and> (\<forall>v a. rec_view rec = Some v \<longrightarrow> ancestor (ctl_issuer s) v a \<longrightarrow> live (view_env e) (ctl_issuer s) a)
      \<and> check_lease_class e s l rec m = Inr ())"
    unfolding lease_check_iff [OF inv] require_view_live [OF adm_invD(2) [OF inv]] by blast
qed (rule lease_check_forged)

theorem lease_check_exact_witness:
  "lease_check ex_adm sys3 lease4 = Inl InvalidAdmissionLease \<and> rec_lease record4 = lease4"
proof -
  have "lease_records sys3 (lease_id (contents lease4)) = None" unfolding sys4_record(4) by code_simp
  then have "lease_check ex_adm sys3 lease4 = Inl InvalidAdmissionLease"
    using lease_check_exact [OF sys_reachable(1,2), of ex_adm lease4] by simp
  then show ?thesis using sys4_record(2) by (rule conjI)
qed

text \<open>C5: In every reachable state the tables of the gate and the sidecars of the issuer agree: a
  lease that was admitted for an invocation is the lease the issuer holds for exactly that
  issued view, the view is bound to that lease and to no other, and every binding leads to
  such a lease.\<close>

theorem one_lease_per_invocation:
  assumes "initial_system s0" "sys_step\<^sup>*\<^sup>* s0 s"
  shows "(lease_records s lid = Some rec \<longrightarrow> rec_view rec = Some v \<longrightarrow>
        issued (ctl_issuer s) (invocation_id (contents v)) = Some v
        \<and> leases (ctl_issuer s) (invocation_id (contents v)) = Some (addr (rec_lease rec))
        \<and> (\<forall>lid' rec'. lease_records s lid' = Some rec' \<longrightarrow> rec_view rec' = Some v \<longrightarrow> lid' = lid))
    \<and> (view_leases s i = Some lid \<longleftrightarrow>
        (\<exists>rec v. lease_records s lid = Some rec \<and> rec_view rec = Some v \<and> invocation_id (contents v) = i))"
proof -
  note T = lease_tablesD [OF adm_invD(5) [OF adm.reachable_inv [OF assms]]]
  note B = bound_okD [OF T(1)]
  have "lid' = lid" if "lease_records s lid = Some rec" "rec_view rec = Some v"
    "lease_records s lid' = Some rec'" "rec_view rec' = Some v" for lid' rec'
    using B(1) [OF that(1,2)] B(1) [OF that(3,4)] by simp
  then show ?thesis using T(4,5) B by blast
qed

theorem one_lease_per_invocation_witness:
  "view_leases sys4 ''u1'' = Some ''l1'' \<and> leases (ctl_issuer sys4) ''u1'' = Some (addr lease4)"
proof -
  have i: "invocation_id (contents (snd issued1)) = ''u1''" by code_simp
  note ok = one_lease_per_invocation [OF sys_reachable(1,3), of "''l1''" record4 "snd issued1" "''u1''"]
  from conjunct1 [OF ok] sys4_record(1-3) have "leases (ctl_issuer sys4) ''u1'' = Some (addr lease4)" unfolding i by simp
  moreover from conjunct2 [OF ok] sys4_record(1,3) i have "view_leases sys4 ''u1'' = Some ''l1''" by blast
  ultimately show ?thesis by (rule conjI [rotated])
qed

text \<open>Admission and check agree: a lease that was just admitted for an invocation passes the
  check at the same instant.\<close>

theorem admitted_lease_is_current:
  assumes "initial_system s0" "sys_step\<^sup>*\<^sup>* s0 s" "admit e lid v cid s = (t, Inr l)"
  shows "lease_check e t l = Inr ()"
  by (rule admitted_current [OF adm.reachable_inv [OF assms(1,2)] assms(3)])

theorem admitted_lease_is_current_witness: "lease_check ex_adm sys4 lease4 = Inr ()"
  by (rule admitted_lease_is_current [OF sys_reachable(1,2) sys_runs(3)])

text \<open>An admission that fails leaves no trace in any table, even when it fails after it
  attached the lease: the leases, bindings, sidecars and gates are those from before.\<close>

theorem failed_admission_leaves_no_trace:
  assumes "initial_system s0" "sys_step\<^sup>*\<^sup>* s0 s" "admit e lid v cid s = (t, Inl x)"
  shows "lease_records t = lease_records s \<and> view_leases t = view_leases s \<and> ctl_issuer t = ctl_issuer s
    \<and> open_gates t = open_gates s \<and> ctl_registry t = ctl_registry s"
  using admit_fails [OF assms(3) adm_invD(2) [OF adm.reachable_inv [OF assms(1,2)]]] by auto

theorem failed_admission_leaves_no_trace_witness:
  "lease_records (fst (admit ex_adm ''l2'' (snd issued1) ''x'' sys3)) = lease_records sys3"
proof -
  have "snd (admit ex_adm ''l2'' (snd issued1) ''x'' sys3) = Inl AdmissionError" by code_simp
  then have "admit ex_adm ''l2'' (snd issued1) ''x'' sys3 = (fst (admit ex_adm ''l2'' (snd issued1) ''x'' sys3), Inl AdmissionError)"
    by (metis prod.collapse)
  from failed_admission_leaves_no_trace [OF sys_reachable(1,2) this] show ?thesis by (rule conjunct1)
qed

text \<open>C3: Releasing an invocation revokes exactly the leases of that view and of its descendants:
  their checks fail from then on, along every later run, and every other lease keeps its
  record.\<close>

theorem released_invocation_revokes_leases:
  assumes "initial_system s0" "sys_step\<^sup>*\<^sup>* s0 s" "release_view v s = Inr t"
    and "lease_records s lid = Some rec"
  shows "if \<exists>w. rec_view rec = Some w \<and> below (ctl_issuer s) (invocation_id (contents v)) (invocation_id (contents w))
    then \<forall>u e. sys_step\<^sup>*\<^sup>* t u \<longrightarrow> lease_check e u (rec_lease rec) = Inl InvalidAdmissionLease
    else lease_records t lid = Some rec"
proof -
  note inv = adm.reachable_inv [OF assms(1,2)]
  note T = lease_tablesD [OF adm_invD(5) [OF inv]]
  let ?B = "\<lambda>k. below (ctl_issuer s) (invocation_id (contents v)) k"
  obtain R where R: "R = {j. ?B j}" and
    t: "lease_records t = (\<lambda>lid. if \<exists>k \<in> R. view_leases s k = Some lid then None else lease_records s lid)"
      "next_lease t = next_lease s" by (rule release_view_cases [OF assms(3) inv]) (rule that, assumption+)
  have hit: "(\<exists>k \<in> R. view_leases s k = Some lid) \<longleftrightarrow> (\<exists>w. rec_view rec = Some w \<and> ?B (invocation_id (contents w)))"
    using bound_okD [OF T(1)] assms(4) by (force simp: R)
  have dead: "lease_check e u (rec_lease rec) = Inl InvalidAdmissionLease" if "lease_records t lid = None" "sys_step\<^sup>*\<^sup>* t u" for u e
  proof (rule lease_check_forged, intro allI impI)
    fix x assume "lease_records u (lease_id (contents (rec_lease rec))) = Some x"
    moreover have "adm_grows t u" by (rule sys_run_grows [OF that(2) release_view_inv [OF assms(3) inv]])
    ultimately show "rec_lease x \<noteq> rec_lease rec"
      using that(1) T(2,3) [OF assms(4)] t(2) unfolding adm_grows_def by force
  qed
  show ?thesis using hit dead assms(4) by (auto simp: t(1))
qed

theorem released_invocation_revokes_leases_witness:
  "lease_check ex_adm (projr (release_view (snd issued1) sys4)) lease4 = Inl InvalidAdmissionLease"
proof -
  have "\<not> isl (release_view (snd issued1) sys4)" by code_simp
  note rel = released_invocation_revokes_leases [OF sys_reachable(1,3) run_Inr [OF this] sys4_record(1)]
  have "below (ctl_issuer sys4) i i" for i by (simp add: below_def)
  with rel sys4_record(2,3) show ?thesis by simp
qed

text \<open>C2: Closing a gate fences the run: right away every lease of that module fails its check, so
  that no guarded commit body runs, and a lease of that run can only become valid again after a
  later activation of the very same run object.\<close>

theorem closed_gate_fences_leases:
  assumes "initial_system s0" "sys_step\<^sup>*\<^sup>* s0 s" "close_gate r why s = Inr t"
    and "open_gates s (run_module (contents r)) = Some r"
  shows "(lease_module (contents l) = run_module (contents r) \<longrightarrow>
       lease_check e t l \<noteq> Inr () \<and> fst (commit_guard e l body t) = t)
    \<and> (sys_step\<^sup>*\<^sup>* t u \<longrightarrow> lease_records u (lease_id (contents l)) = Some rec \<longrightarrow> rec_identity rec = r \<longrightarrow>
       lease_module (contents l) = run_module (contents r) \<longrightarrow> lease_check e u l = Inr () \<longrightarrow>
       (\<exists>a b e' h. sys_step\<^sup>*\<^sup>* t a \<and> activate e' r h a = Inr b \<and> sys_step\<^sup>*\<^sup>* b u))"
proof (intro conjI impI)
  note inv = gate_inv(2) [OF adm.reachable_inv [OF assms(1,2)] assms(3)]
  have closed: "open_gates t (run_module (contents r)) = None"
    using assms(3,4) by (auto simp: close_gate_def Let_def rbind_eq_Inr opt_is_iff)
  show no: "lease_check e t l \<noteq> Inr ()" if "lease_module (contents l) = run_module (contents r)"
    unfolding lease_check_iff [OF inv] using closed that by (simp add: gate_open_def)
  then show "fst (commit_guard e l body t) = t" if "lease_module (contents l) = run_module (contents r)"
    using that by (auto simp: commit_guard_def split: sum.splits)
  assume run: "sys_step\<^sup>*\<^sup>* t u" and rec: "lease_records u (lease_id (contents l)) = Some rec" "rec_identity rec = r"
    and m: "lease_module (contents l) = run_module (contents r)" and ok: "lease_check e u l = Inr ()"
  have opened: "open_gates u (run_module (contents r)) = Some r"
    using ok rec m unfolding lease_check_iff [OF adm.run_inv [OF run inv]] by (auto simp: gate_open_def)
  have "open_gates t (run_module (contents r)) \<noteq> Some r" using closed by simp
  from gate_opened_by_activation [OF run inv this opened]
  show "\<exists>a b e' h. sys_step\<^sup>*\<^sup>* t a \<and> activate e' r h a = Inr b \<and> sys_step\<^sup>*\<^sup>* b u" .
qed

theorem closed_gate_fences_leases_witness:
  "lease_check ex_adm (projr (close_gate ex_run ''stop'' sys4)) lease4 \<noteq> Inr ()"
proof -
  have "\<not> isl (close_gate ex_run ''stop'' sys4)" by (simp add: close_gate_def Let_def blank_def is_space_def)
  have m: "run_module (contents ex_run) = ''p/m''" by code_simp
  note fence = closed_gate_fences_leases [OF sys_reachable(1,3) run_Inr [OF \<open>\<not> isl _\<close>], unfolded m, OF sys4_record(6), of lease4 ex_adm]
  from conjunct1 [OF fence] sys4_record(5) show ?thesis by blast
qed

text \<open>A lease can be released any number of times: the first release removes its record, its
  binding and its sidecar, further ones change nothing, and the lease is invalid for good.\<close>

theorem released_lease_stays_invalid:
  assumes "initial_system s0" "sys_step\<^sup>*\<^sup>* s0 s" "lease_records s (lease_id (contents l)) = Some rec" "rec_lease rec = l"
  shows "\<exists>t. release_lease l s = Inr t \<and> release_lease l t = Inr t
    \<and> (\<forall>v. rec_view rec = Some v \<longrightarrow> leases (ctl_issuer t) (invocation_id (contents v)) = None
         \<and> view_leases t (invocation_id (contents v)) = None)
    \<and> (\<forall>u e. sys_step\<^sup>*\<^sup>* t u \<longrightarrow> lease_check e u l = Inl InvalidAdmissionLease)"
proof -
  note inv = adm.reachable_inv [OF assms(1,2)]
  note T = lease_tablesD [OF adm_invD(5) [OF inv]]
  let ?t = "undone l rec s"
  have step: "release_lease l s = Inr ?t" using assms(3,4) by (simp add: release_lease_eq [OF inv])
  have gone: "lease_records ?t (lease_id (contents l)) = None" by (simp add: undone_def)
  then have again: "release_lease l ?t = Inr ?t" by (simp add: release_lease_def)
  have dead: "lease_check e u l = Inl InvalidAdmissionLease" if "sys_step\<^sup>*\<^sup>* ?t u" for u e
  proof (rule lease_check_forged, intro allI impI)
    fix x assume "lease_records u (lease_id (contents l)) = Some x"
    moreover have "adm_grows ?t u" by (rule sys_run_grows [OF that release_lease_inv [OF step inv]])
    moreover have "addr l < next_lease ?t" using T(3) [OF assms(3)] assms(4) by (simp add: undone_def)
    ultimately show "rec_lease x \<noteq> l" using gone unfolding adm_grows_def by force
  qed
  have "leases (ctl_issuer ?t) (invocation_id (contents v)) = None \<and> view_leases ?t (invocation_id (contents v)) = None"
    if "rec_view rec = Some v" for v using that by (simp add: undone_def view_ids_def)
  with step again dead show ?thesis by blast
qed

theorem released_lease_stays_invalid_witness:
  "\<exists>t. release_lease lease4 sys4 = Inr t \<and> lease_check ex_adm t lease4 = Inl InvalidAdmissionLease"
proof -
  have "lease_records sys4 (lease_id (contents lease4)) = Some record4" "rec_lease record4 = lease4"
    using sys4_record by simp_all
  from released_lease_stays_invalid [OF sys_reachable(1,3) this] show ?thesis by blast
qed

text \<open>C4: Approving a send is all or nothing.  A permit is returned exactly when it was handed to
  the scheduler, and then the lease passed both checks, the final check approved it, and the
  permit's members are the approved ones, which are members of the delivery lease (none for
  another lease).  When an approval was given and no permit was scheduled, the claim is aborted,
  once; when none was given, nothing is aborted.\<close>

theorem send_is_all_or_nothing:
  "let out = approve_and_schedule_send w name pid l in
     (send_result out = Inr (Some p) \<longleftrightarrow> scheduled out = [p]) \<and> length (scheduled out) \<le> 1
     \<and> (scheduled out = [p] \<longrightarrow> aborted out = [] \<and> lease_check (first_env w) (first_state w) l = Inr ()
          \<and> lease_check (second_env w) (second_state w) l = Inr ()
          \<and> (\<exists>a. final_check w = Inr (Some a) \<and> permit_members p = approved_members a
               \<and> set (permit_members p) \<subseteq> (case lease_class (contents l) of DeliveryLease _ _ _ _ ms \<Rightarrow> set ms | _ \<Rightarrow> {})))
     \<and> (\<forall>a. lease_check (first_env w) (first_state w) l = Inr () \<longrightarrow> \<not> blank name \<longrightarrow> final_check w = Inr (Some a) \<longrightarrow>
          scheduled out = [] \<longrightarrow> map fst (aborted out) = [a] \<and> isl (send_result out))
     \<and> ((\<forall>a. final_check w \<noteq> Inr (Some a)) \<longrightarrow> aborted out = [] \<and> scheduled out = [])"
proof -
  have members: "set (approved_members a) \<subseteq> (case lease_class (contents l) of DeliveryLease _ _ _ _ ms \<Rightarrow> set ms | _ \<Rightarrow> {})"
    if "members_refused l a = None" for a
    using that by (auto simp: members_refused_def list_ex_iff split: lease_class.splits if_splits)
  have permit: "permit_members q = approved_members a \<and> lease_check (second_env w) (second_state w) l = Inr ()"
    if "dispatch w pid l a = Inr q" for a q
    using that by (auto simp: dispatch_def Let_def rbind_eq_Inr)
  show ?thesis
    unfolding Let_def approve_and_schedule_send_def
    using members permit
    by (auto simp: send_stopped_def send_refused_def split: sum.splits option.splits)
qed

definition send_example :: send_world where
  "send_example = \<lparr>first_env = ex_adm, first_state = sys4, final_check = Inr (Some \<lparr>claim_id = ''c'', approved_members = []\<rparr>),
     second_env = ex_adm, second_state = sys4, sender_result = Inr (), schedule_result = Inl RuntimeError,
     abort_result = Inr ()\<rparr>"

theorem send_is_all_or_nothing_witness:
  "map fst (aborted (approve_and_schedule_send send_example ''s'' ''p1'' lease4)) = [\<lparr>claim_id = ''c'', approved_members = []\<rparr>]"
proof -
  let ?out = "approve_and_schedule_send send_example ''s'' ''p1'' lease4"
  have ok: "lease_check (first_env send_example) (first_state send_example) lease4 = Inr ()"
    using admitted_current [OF adm.reachable_inv [OF sys_reachable(1,2)] sys_runs(3)] by (simp add: send_example_def)
  have "\<not> blank ''s''" by code_simp
  moreover have "dispatch send_example ''p1'' lease4 a \<noteq> Inr p" for a p
    by (auto simp: dispatch_def Let_def rbind_eq_Inr send_example_def)
  then have "scheduled ?out = []"
    by (auto simp: approve_and_schedule_send_def send_stopped_def send_refused_def split: sum.splits option.splits)
  moreover note ok
  ultimately have "map fst (aborted ?out) = [\<lparr>claim_id = ''c'', approved_members = []\<rparr>]"
    using send_is_all_or_nothing [of send_example "''s''" "''p1''" lease4] by (simp add: Let_def send_example_def)
  then show ?thesis .
qed

end
