(* ===== verification/Lifecycle_Correct.thy ===== *)
theory Lifecycle_Correct
  imports Lifecycle Admission_Correct
begin

text \<open>
  The lifecycle in any interleaving of its operations with those of the registry, the issuer and
  the admission gate: run identities are fresh objects with growing epochs, a run that was
  quiesced is never current again, and a module becomes active only by the publication of a
  committed intent for a run that started and reported its health.
\<close>

section \<open>Invariant\<close>

definition state_ok :: "life \<Rightarrow> string \<Rightarrow> lifecycle_state \<Rightarrow> bool" where
  "state_ok s mid st \<longleftrightarrow>
     (\<forall>r. identity st = Some r \<longrightarrow> run_module (contents r) = mid \<and> run_epoch (contents r) \<le> known_epoch s mid \<and> addr r < next_id s)
     \<and> (lifecycle st \<in> {STARTING, ACTIVE} \<longrightarrow> identity st \<noteq> None)
     \<and> (lifecycle st = ACTIVE \<longrightarrow> report st \<noteq> None)"

definition life_inv :: "life \<Rightarrow> bool" where
  "life_inv s \<longleftrightarrow> (\<forall>mid st. states s mid = Some st \<longrightarrow> state_ok s mid st)"

text \<open>What the operations do to run identities: they stay, they go, or they are new objects with a new epoch.\<close>

definition runs_grow :: "life \<Rightarrow> life \<Rightarrow> bool" where
  "runs_grow s t \<longleftrightarrow> next_id s \<le> next_id t \<and> (\<forall>mid. known_epoch s mid \<le> known_epoch t mid)
     \<and> (\<forall>mid st r. states t mid = Some st \<longrightarrow> identity st = Some r \<longrightarrow>
          (\<exists>st'. states s mid = Some st' \<and> identity st' = Some r) \<or> next_id s \<le> addr r \<and> known_epoch s mid < run_epoch (contents r))"

lemma runs_grow_refl: "runs_grow s s"
  by (simp add: runs_grow_def)

lemma runs_grow_trans: "runs_grow s t \<Longrightarrow> runs_grow t u \<Longrightarrow> runs_grow s u"
  unfolding runs_grow_def by (meson le_less_trans order.trans)

text \<open>\<open>A\<close> holds the modules that may become active.\<close>

definition no_new_active :: "string set \<Rightarrow> life \<Rightarrow> life \<Rightarrow> bool" where
  "no_new_active A s t \<longleftrightarrow> (\<forall>mid st. states t mid = Some st \<longrightarrow> lifecycle st = ACTIVE \<longrightarrow>
     mid \<in> A \<or> (\<exists>st'. states s mid = Some st' \<and> lifecycle st' = ACTIVE))"

definition good :: "string set \<Rightarrow> life \<Rightarrow> life \<Rightarrow> bool" where
  "good A s t \<longleftrightarrow> life_inv t \<and> runs_grow s t \<and> no_new_active A s t"

text \<open>Most of the state plays no part in it.\<close>

lemma known_epoch_quiet [simp]:
  "known_epoch (s\<lparr>ctl := a\<rparr>) = known_epoch s" "known_epoch (s\<lparr>instances := b\<rparr>) = known_epoch s"
  "known_epoch (s\<lparr>instance_records := c\<rparr>) = known_epoch s" "known_epoch (s\<lparr>candidates := d\<rparr>) = known_epoch s"
  "known_epoch (s\<lparr>operations := f\<rparr>) = known_epoch s" "known_epoch (s\<lparr>lifetime_keys := g\<rparr>) = known_epoch s"
  "known_epoch (s\<lparr>revoked_lifetimes := h\<rparr>) = known_epoch s" "known_epoch (s\<lparr>cancelled_scopes := i\<rparr>) = known_epoch s"
  "known_epoch (s\<lparr>states := j\<rparr>) = known_epoch s" "known_epoch (s\<lparr>next_id := k\<rparr>) = known_epoch s"
  by (simp_all add: known_epoch_def fun_eq_iff)

lemma known_epoch_set: "known_epoch (s\<lparr>epochs := (epochs s)(mid \<mapsto> n)\<rparr>) k = (if k = mid then n else known_epoch s k)"
  by (simp add: known_epoch_def)

lemma good_quiet [simp]:
  "good A s0 (s\<lparr>ctl := a\<rparr>) = good A s0 s" "good A s0 (s\<lparr>instances := b\<rparr>) = good A s0 s"
  "good A s0 (s\<lparr>instance_records := c\<rparr>) = good A s0 s" "good A s0 (s\<lparr>candidates := d\<rparr>) = good A s0 s"
  "good A s0 (s\<lparr>operations := f\<rparr>) = good A s0 s" "good A s0 (s\<lparr>lifetime_keys := g\<rparr>) = good A s0 s"
  "good A s0 (s\<lparr>revoked_lifetimes := h\<rparr>) = good A s0 s" "good A s0 (s\<lparr>cancelled_scopes := i\<rparr>) = good A s0 s"
  by (simp_all add: good_def life_inv_def runs_grow_def state_ok_def no_new_active_def)

lemma good_next [intro]: "good A s0 s \<Longrightarrow> good A s0 (s\<lparr>next_id := Suc (next_id s)\<rparr>)"
  unfolding good_def life_inv_def runs_grow_def state_ok_def no_new_active_def by (auto intro: less_SucI le_SucI)

lemma good_epoch [intro]:
  assumes "good A s0 s" "known_epoch s mid \<le> n"
  shows "good A s0 (s\<lparr>epochs := (epochs s)(mid \<mapsto> n)\<rparr>)"
  using assms unfolding good_def life_inv_def runs_grow_def state_ok_def no_new_active_def known_epoch_set
  by (auto simp: known_epoch_set intro: order.trans)

text \<open>A state that keeps its identity, or gets a new one.\<close>

lemma good_drop [intro]: "good A s0 s \<Longrightarrow> good A s0 (s\<lparr>states := (states s)(mid := None)\<rparr>)"
  unfolding good_def life_inv_def runs_grow_def state_ok_def no_new_active_def by auto

lemma good_put:
  assumes "good A s0 s" "states s mid = Some st" "identity st' = identity st"
    and "lifecycle st' \<in> {STARTING, ACTIVE} \<longrightarrow> identity st \<noteq> None" "lifecycle st' = ACTIVE \<longrightarrow> report st' \<noteq> None"
    and "lifecycle st' = ACTIVE \<longrightarrow> mid \<in> A \<or> lifecycle st = ACTIVE"
  shows "good A s0 (s\<lparr>states := (states s)(mid \<mapsto> st')\<rparr>)"
  using assms unfolding good_def life_inv_def runs_grow_def state_ok_def no_new_active_def by auto

lemma good_put_plain:
  assumes "good A s0 s" "identity st' = None" "lifecycle st' \<notin> {STARTING, ACTIVE}"
  shows "good A s0 (s\<lparr>states := (states s)(mid \<mapsto> st')\<rparr>)"
  using assms unfolding good_def life_inv_def runs_grow_def state_ok_def no_new_active_def by auto

lemma good_put_run:
  assumes "good A s0 s" "identity st' = Some r" "run_module (contents r) = mid" "run_epoch (contents r) \<le> known_epoch s mid"
    and "addr r < next_id s" "next_id s0 \<le> addr r" "known_epoch s0 mid < run_epoch (contents r)" "lifecycle st' \<noteq> ACTIVE"
  shows "good A s0 (s\<lparr>states := (states s)(mid \<mapsto> st')\<rparr>)"
  using assms unfolding good_def life_inv_def runs_grow_def state_ok_def no_new_active_def by auto

lemma goodD:
  assumes "good A s0 s"
  shows "next_id s0 \<le> next_id s" "known_epoch s0 mid \<le> known_epoch s mid" "life_inv s"
  using assms by (simp_all add: good_def runs_grow_def)

lemma good_refl: "life_inv s \<Longrightarrow> good A s s"
  by (simp add: good_def runs_grow_refl no_new_active_def)

section \<open>Sound operations\<close>

text \<open>
  An operation is quiet when it leaves the states and the epochs alone, and sound in a state when
  whatever it leaves behind, by return or by exception, is good.
\<close>

definition quiet :: "life \<Rightarrow> life \<Rightarrow> bool" where
  "quiet s t \<longleftrightarrow> states t = states s \<and> epochs t = epochs s \<and> next_id s \<le> next_id t"

definition quiet_op :: "'a op \<Rightarrow> bool" where
  "quiet_op f \<longleftrightarrow> (\<forall>s. quiet s (fst (f s)))"

definition sound :: "string set \<Rightarrow> life \<Rightarrow> 'a op \<Rightarrow> life \<Rightarrow> bool" where
  "sound A s0 f s \<longleftrightarrow> good A s0 (fst (f s))"

named_theorems quiets \<open>quiet operations\<close>

lemma quiet_trans: "quiet s t \<Longrightarrow> quiet t u \<Longrightarrow> quiet s u"
  by (simp add: quiet_def)

lemma quiet_known: "quiet s t \<Longrightarrow> known_epoch t = known_epoch s"
  by (simp add: quiet_def known_epoch_def fun_eq_iff)

lemma good_quietly: "good A s0 s \<Longrightarrow> quiet s t \<Longrightarrow> good A s0 t"
  using quiet_known [of s t] unfolding good_def life_inv_def runs_grow_def state_ok_def no_new_active_def quiet_def
  by (auto intro: order.trans less_le_trans)

lemma quiet_eret [quiets]: "quiet_op (eret x)"
  and quiet_eraise [quiets]: "quiet_op (eraise y)"
  and quiet_eres [quiets]: "quiet_op (eres r)"
  and quiet_eensure [quiets]: "quiet_op (eensure c y)"
  and quiet_eget [quiets]: "quiet_op (eget f)"
  by (simp_all add: quiet_op_def quiet_def eret_def eraise_def eres_def eensure_def eget_def)

lemma quiet_ebind [quiets]: "quiet_op f \<Longrightarrow> (\<And>a. quiet_op (g a)) \<Longrightarrow> quiet_op (ebind f g)"
  unfolding quiet_op_def ebind_def by (auto split: prod.splits sum.splits) (metis fst_conv quiet_trans)+

lemma quiet_ecatch [quiets]: "quiet_op f \<Longrightarrow> (\<And>x. quiet_op (h x)) \<Longrightarrow> quiet_op (ecatch f h)"
  unfolding quiet_op_def ecatch_def by (auto split: prod.splits sum.splits) (metis fst_conv quiet_trans)+

lemma quiet_ewhen [quiets]: "quiet_op f \<Longrightarrow> quiet_op (ewhen c f)"
  by (simp add: ewhen_def quiet_eret)

lemma quiet_if [quiets]: "quiet_op f \<Longrightarrow> quiet_op g \<Longrightarrow> quiet_op (if c then f else g)"
  by simp

lemma quiet_option [quiets]: "quiet_op f \<Longrightarrow> (\<And>a. quiet_op (g a)) \<Longrightarrow> quiet_op (case v of None \<Rightarrow> f | Some a \<Rightarrow> g a)"
  by (cases v) simp_all

lemma quiet_sum [quiets]: "(\<And>a. quiet_op (f a)) \<Longrightarrow> (\<And>b. quiet_op (g b)) \<Longrightarrow> quiet_op (case v of Inl a \<Rightarrow> f a | Inr b \<Rightarrow> g b)"
  by (cases v) simp_all

lemma quiet_prod [quiets]: "(\<And>a b. quiet_op (f a b)) \<Longrightarrow> quiet_op (case v of (a, b) \<Rightarrow> f a b)"
  by (cases v) simp

lemma quiet_lifecycle [quiets]:
  "quiet_op a \<Longrightarrow> quiet_op b \<Longrightarrow> quiet_op c \<Longrightarrow> quiet_op d \<Longrightarrow> quiet_op f \<Longrightarrow> quiet_op g \<Longrightarrow>
   quiet_op (case v of DISCOVERED \<Rightarrow> a | STARTING \<Rightarrow> b | ACTIVE \<Rightarrow> c | STOPPING \<Rightarrow> d | STOPPED \<Rightarrow> f | FAILED \<Rightarrow> g)"
  by (cases v) simp_all

lemma quiet_emod: "(\<And>s. quiet s (f s)) \<Longrightarrow> quiet_op (emod f)"
  by (simp add: quiet_op_def emod_def)

lemma quiet_epart: "(\<And>s p. quiet s (put p s)) \<Longrightarrow> quiet_op (epart get put f)"
  by (simp add: quiet_op_def epart_def quiet_def split: sum.split)

lemma quiet_claims [quiets]:
  "quiet_op (module_snapshot mid)" "quiet_op (the_record i)" "quiet_op (assert_operation mid oper)"
  unfolding module_snapshot_def the_record_def assert_operation_def by (rule quiets)+

lemma quiet_changes [quiets]:
  "quiet_op (drop_operation mid)" "quiet_op (update_instance i f)" "quiet_op (close_run r why)" "quiet_op (on_registry k)"
  unfolding drop_operation_def update_instance_def close_run_def on_registry_def
  by (rule quiet_emod quiet_epart, simp add: quiet_def)+

lemma quiet_on_registry_with [quiets]: "quiet_op (on_registry_with k)"
  using quiet_changes(4) by (simp add: quiet_op_def on_registry_with_def)

lemma quiet_fresh [quiets]: "quiet_op fresh"
  by (simp add: fresh_def quiet_op_def quiet_def ebind_def eget_def emod_def eret_def)

lemma quiet_operations [quiets]:
  "quiet_op (emod (\<lambda>s. s\<lparr>operations := g s\<rparr>))" "quiet_op (emod (\<lambda>s. s\<lparr>instances := h s\<rparr>))"
  "quiet_op (emod (\<lambda>s. s\<lparr>cancelled_scopes := k s\<rparr>))" "quiet_op (emod (\<lambda>s. s\<lparr>revoked_lifetimes := l s\<rparr>))"
  by (rule quiet_emod, simp add: quiet_def)+

lemma quiet_elementary [quiets]:
  "quiet_op (publish_projection mid b ep n)" "quiet_op (cancel_scope sc)" "quiet_op (revoke_lifetime t)"
  "quiet_op (claim_operation mid oper c)" "quiet_op (assert_starting_candidate mid oper r)" "quiet_op (complete_stop i c)"
  "quiet_op (new_identity mid ep)"
  unfolding publish_projection_def cancel_scope_def revoke_lifetime_def claim_operation_def assert_starting_candidate_def
    complete_stop_def new_identity_def
  by (rule quiets)+

lemma quiet_remove_candidate [quiets]: "quiet_op (remove_candidate k i)"
  unfolding remove_candidate_def by (rule quiet_emod) (simp add: quiet_def without_candidate_def Let_def split: option.split)

lemma quiet_launch [quiets]: "quiet_op (launch e answer i name oper)"
  unfolding launch_def by (rule quiets)+

lemma quiet_method_done [quiets]: "quiet_op (method_done i mid name oper w)"
  unfolding method_done_def by (cases w) (simp_all, (rule quiets)+)

text \<open>The rules that compute soundness, tried in this order.\<close>

lemma sound_quiet: "quiet_op f \<Longrightarrow> good A s0 s \<Longrightarrow> sound A s0 f s"
  by (simp add: quiet_op_def sound_def good_quietly)

lemma sound_get_bind: "sound A s0 (g (f s)) s \<Longrightarrow> sound A s0 (ebind (eget f) g) s"
  by (simp add: sound_def ebind_def eget_def)

lemma sound_ensure_bind: "good A s0 s \<Longrightarrow> (c \<Longrightarrow> sound A s0 (g ()) s) \<Longrightarrow> sound A s0 (ebind (eensure c x) g) s"
  by (cases c) (simp_all add: sound_def ebind_def eensure_def eres_def)

lemma sound_res_bind: "good A s0 s \<Longrightarrow> (\<And>a. sound A s0 (g a) s) \<Longrightarrow> sound A s0 (ebind (eres r) g) s"
  by (cases r) (simp_all add: sound_def ebind_def eres_def)

lemma sound_bind: "sound A s0 f s \<Longrightarrow> (\<And>a t. good A s0 t \<Longrightarrow> sound A s0 (g a) t) \<Longrightarrow> sound A s0 (ebind f g) s"
  by (cases "f s") (simp add: sound_def ebind_def split: sum.split)

lemma quiet_run: "quiet_op f \<Longrightarrow> f s = (t, r) \<Longrightarrow> quiet s t"
  by (metis quiet_op_def fst_conv)

lemma sound_quiet_bind:
  assumes "quiet_op f" "good A s0 s" "\<And>a t. quiet s t \<Longrightarrow> good A s0 t \<Longrightarrow> sound A s0 (g a) t"
  shows "sound A s0 (ebind f g) s"
  using assms quiet_run [OF assms(1), of s] good_quietly [OF assms(2)]
  by (cases "f s") (auto simp: sound_def ebind_def split: sum.split)

text \<open>Quiet operations whose value matters.\<close>

lemma new_identityD:
  assumes "new_identity mid ep s = (t, Inr r)"
  shows "run_module (contents r) = mid" "run_epoch (contents r) = ep" "addr r = next_id s" "next_id t = Suc (next_id s)"
  using assms by (auto simp: new_identity_def ebind_def eget_def eres_def fresh_def emod_def eret_def split: sum.splits)

lemma sound_identity_bind:
  assumes "good A s0 s"
    and "\<And>r t. run_module (contents r) = mid \<Longrightarrow> run_epoch (contents r) = ep \<Longrightarrow> addr r = next_id s \<Longrightarrow> next_id t = Suc (next_id s) \<Longrightarrow>
      quiet s t \<Longrightarrow> good A s0 t \<Longrightarrow> sound A s0 (g r) t"
  shows "sound A s0 (ebind (new_identity mid ep) g) s"
proof -
  obtain t x where f: "new_identity mid ep s = (t, x)" by fastforce
  have q: "quiet s t" by (rule quiet_run [OF quiet_elementary(7) f])
  have "good A s0 t" using good_quietly [OF assms(1) q] .
  then show ?thesis
    using assms(2) new_identityD [of mid ep s t] f q by (cases x) (auto simp: sound_def ebind_def)
qed

lemma sound_starting_bind:
  assumes "good A s0 s" "\<And>st. states s mid = Some st \<Longrightarrow> identity st = Some r \<Longrightarrow> sound A s0 (g st) s"
  shows "sound A s0 (ebind (assert_starting_candidate mid oper r) g) s"
  using assms
  by (auto simp: sound_def ebind_def assert_starting_candidate_def assert_operation_def eget_def eensure_def eres_def ensure_def eraise_def
      eret_def opt_is_iff split: option.splits)

lemma sound_catch: "sound A s0 f s \<Longrightarrow> (\<And>x t. good A s0 t \<Longrightarrow> sound A s0 (h x) t) \<Longrightarrow> sound A s0 (ecatch f h) s"
  by (cases "f s") (simp add: sound_def ecatch_def split: sum.split)

lemma sound_option:
  "(v = None \<Longrightarrow> sound A s0 f s) \<Longrightarrow> (\<And>a. v = Some a \<Longrightarrow> sound A s0 (g a) s) \<Longrightarrow> sound A s0 (case v of None \<Rightarrow> f | Some a \<Rightarrow> g a) s"
  by (cases v) simp_all

lemma sound_sum:
  "(\<And>a. v = Inl a \<Longrightarrow> sound A s0 (f a) s) \<Longrightarrow> (\<And>b. v = Inr b \<Longrightarrow> sound A s0 (g b) s) \<Longrightarrow> sound A s0 (case v of Inl a \<Rightarrow> f a | Inr b \<Rightarrow> g b) s"
  by (cases v) simp_all

lemma sound_prod: "(\<And>a b. v = (a, b) \<Longrightarrow> sound A s0 (f a b) s) \<Longrightarrow> sound A s0 (case v of (a, b) \<Rightarrow> f a b) s"
  by (cases v) simp

lemma sound_if: "(c \<Longrightarrow> sound A s0 f s) \<Longrightarrow> (\<not> c \<Longrightarrow> sound A s0 g s) \<Longrightarrow> sound A s0 (if c then f else g) s"
  by simp

lemma sound_when: "(c \<Longrightarrow> sound A s0 f s) \<Longrightarrow> good A s0 s \<Longrightarrow> sound A s0 (ewhen c f) s"
  by (simp add: ewhen_def sound_def eret_def)

lemma sound_put: "good A s0 (s\<lparr>states := (states s)(mid \<mapsto> st)\<rparr>) \<Longrightarrow> sound A s0 (set_state mid st) s"
  by (simp add: sound_def set_state_def emod_def)

lemma sound_drop: "good A s0 s \<Longrightarrow> sound A s0 (drop_state mid) s"
  by (simp add: sound_def drop_state_def emod_def good_drop)

lemma sound_epoch: "good A s0 s \<Longrightarrow> known_epoch s mid \<le> n \<Longrightarrow> sound A s0 (set_epoch mid n) s"
  by (simp add: sound_def set_epoch_def emod_def good_epoch)

lemma sound_put_bind:
  "good A s0 (s\<lparr>states := (states s)(mid \<mapsto> st)\<rparr>) \<Longrightarrow> (\<And>t. good A s0 t \<Longrightarrow> sound A s0 (g ()) t) \<Longrightarrow> sound A s0 (ebind (set_state mid st) g) s"
  by (simp add: sound_def ebind_def set_state_def emod_def)

lemma sound_epoch_bind:
  "good A s0 s \<Longrightarrow> known_epoch s mid \<le> n \<Longrightarrow>
   (\<And>t. good A s0 t \<Longrightarrow> states t = states s \<Longrightarrow> known_epoch t mid = n \<Longrightarrow> next_id t = next_id s \<Longrightarrow> sound A s0 (g ()) t) \<Longrightarrow>
   sound A s0 (ebind (set_epoch mid n) g) s"
  by (simp add: sound_def ebind_def set_epoch_def emod_def good_epoch known_epoch_set)

lemmas sound_rules = sound_get_bind sound_ensure_bind sound_res_bind sound_identity_bind sound_starting_bind sound_put_bind sound_epoch_bind
  sound_option sound_sum sound_prod sound_if sound_put sound_drop

section \<open>Every operation is sound\<close>

lemma le_max_Suc: "(a :: int) \<le> max a b + 1"
  by simp

text \<open>The run a module gets under a new epoch, and a state that keeps its run.\<close>

lemma good_new_run:
  assumes "good A s0 v" "identity st' = Some r" "run_module (contents r) = mid" "run_epoch (contents r) = ep" "lifecycle st' \<noteq> ACTIVE"
    and "good A s0 s" "known_epoch s mid < ep" "addr r = next_id u" "next_id s \<le> next_id u" "next_id u < next_id v" "known_epoch v mid = ep"
  shows "good A s0 (v\<lparr>states := (states v)(mid \<mapsto> st')\<rparr>)"
  using assms goodD(1) [OF assms(6)] goodD(2) [OF assms(6), of mid] by (intro good_put_run [OF assms(1,2)]) simp_all

lemma good_keep:
  assumes "good A s0 t" "states t mid = Some st" "identity st' = identity st" "lifecycle st' \<notin> {STARTING, ACTIVE}"
  shows "good A s0 (t\<lparr>states := (states t)(mid \<mapsto> st')\<rparr>)"
  using assms(4) by (intro good_put [OF assms(1,2,3)]) auto

lemmas vc = sound_rules sound_quiet_bind sound_quiet quiets le_max_Suc

lemma install_sound: "good A s0 s \<Longrightarrow> sound A s0 (install_dormant pid mid oper inst hs b) s"
  unfolding install_dormant_def Let_def
  by (rule vc good_put_plain max.cobounded1 | assumption | simp (no_asm); fail)+

lemma quiesce_new_sound: "good A s0 s \<Longrightarrow> sound A s0 (quiesce_new mid sn m st) s"
  unfolding quiesce_new_def
  apply (rule vc | assumption)+
  subgoal for t r ta a tb
    by (rule good_new_run [where s = s and u = t and ep = "max (known_epoch s mid) (epoch m) + 1"])
      (simp_all add: quiet_def known_epoch_def)
  apply (rule vc | assumption)+
  done

lemma quiesce_sound: "good A s0 s \<Longrightarrow> sound A s0 (quiesce mid oper why) s"
  unfolding quiesce_def
  by (rule quiesce_new_sound vc | assumption | rule good_keep, (simp add: quiet_def; fail)+)+

lemma mark_cleanup_failed_sound: "good A s0 s \<Longrightarrow> sound A s0 (mark_cleanup_failed e mid why) s"
  unfolding mark_cleanup_failed_def
  by (rule vc | assumption | rule good_keep, (simp add: quiet_def; fail)+)+

lemma sound_catch_bind:
  "sound A s0 f s \<Longrightarrow> (\<And>x t. good A s0 t \<Longrightarrow> sound A s0 (h x) t) \<Longrightarrow> (\<And>a t. good A s0 t \<Longrightarrow> sound A s0 (g a) t) \<Longrightarrow> sound A s0 (ebind (ecatch f h) g) s"
  by (intro sound_bind sound_catch)

lemma sound_option_bind:
  "(v = None \<Longrightarrow> sound A s0 f s) \<Longrightarrow> (\<And>a. v = Some a \<Longrightarrow> sound A s0 (k a) s) \<Longrightarrow> (\<And>a t. good A s0 t \<Longrightarrow> sound A s0 (g a) t) \<Longrightarrow>
   sound A s0 (ebind (case v of None \<Rightarrow> f | Some a \<Rightarrow> k a) g) s"
  by (cases v) (auto intro: sound_bind)

lemma mark_rollback_pending_sound: "good A s0 s \<Longrightarrow> sound A s0 (mark_rollback_pending e mid why) s"
  unfolding mark_rollback_pending_def
  by (rule mark_cleanup_failed_sound sound_catch_bind sound_option_bind vc | assumption | rule good_keep, (simp add: quiet_def; fail)+)+

lemma roll_pending_sound: "good A s0 s \<Longrightarrow> sound A s0 (roll_pending e mid why) s"
  unfolding roll_pending_def by (rule sound_bind mark_rollback_pending_sound sound_quiet quiets | assumption)+

lemma start_begin_sound: "good A s0 s \<Longrightarrow> sound A s0 (start_begin mid oper) s"
  unfolding start_begin_def
  apply (rule vc | assumption)+
  subgoal for _ _ _ _ m _ _ _ _ tb tc r
    by (rule good_new_run [where s = tb and u = tc and ep = "max (known_epoch tb mid) (epoch m) + 1"])
      (simp_all add: quiet_def known_epoch_def)
  by (rule vc | assumption)+

lemma sound_when_bind:
  "(c \<Longrightarrow> sound A s0 f s) \<Longrightarrow> good A s0 s \<Longrightarrow> (\<And>a t. good A s0 t \<Longrightarrow> sound A s0 (g a) t) \<Longrightarrow> sound A s0 (ebind (ewhen c f) g) s"
  by (intro sound_bind sound_when)

lemma good_same:
  assumes "good A s0 t" "states t mid = Some st" "identity st' = identity st" "lifecycle st' = lifecycle st"
    and "report st \<noteq> None \<longrightarrow> report st' \<noteq> None"
  shows "good A s0 (t\<lparr>states := (states t)(mid \<mapsto> st')\<rparr>)"
proof (rule good_put [OF assms(1,2,3)])
  have "state_ok t mid st" using goodD(3) [OF assms(1)] assms(2) by (simp add: life_inv_def)
  then show "lifecycle st' \<in> {STARTING, ACTIVE} \<longrightarrow> identity st \<noteq> None" "lifecycle st' = ACTIVE \<longrightarrow> report st' \<noteq> None"
    using assms(4,5) by (auto simp: state_ok_def)
qed (use assms(4) in simp)

lemma start_failed_end_sound: "good A s0 s \<Longrightarrow> sound A s0 (start_failed_end e f x) s"
  unfolding start_failed_end_def
  by (rule sound_option_bind sound_when sound_quiet_bind vc | assumption | rule good_same, (auto; fail)+)+

lemma start_failed_sound: "good A s0 s \<Longrightarrow> sound A s0 (start_failed e a f x) s"
  unfolding start_failed_def Let_def
  apply (rule start_failed_end_sound sound_catch vc | assumption | rule good_keep, (simp add: quiet_def; fail)+)+
  done

lemma start_candidate_sound: "good A s0 s \<Longrightarrow> sound A s0 (start_candidate e a sa mid oper) s"
  unfolding start_candidate_def
  apply (rule sound_bind [OF start_begin_sound] start_failed_sound sound_catch vc | assumption)+
  done

lemma start_healthy_sound: "good A s0 s \<Longrightarrow> sound A s0 (start_healthy f h) s"
  unfolding start_healthy_def
  by (rule vc | assumption | rule good_same, (simp; fail)+)+

lemma start_resume_sound: "good A s0 s \<Longrightarrow> sound A s0 (start_resume e w a sa p) s"
  unfolding start_resume_def
  apply (cases p; simp only: start_point.case)
  apply (rule start_failed_sound sound_catch start_healthy_sound start_failed_end_sound vc | assumption)+
  done

lemma stop_guarded_sound: "sound A s0 f s \<Longrightarrow> sound A s0 (stop_guarded e mid f) s"
  unfolding stop_guarded_def
  by (assumption | rule sound_catch sound_if sound_bind [OF mark_cleanup_failed_sound] sound_quiet quiets )+

lemma stop_finish_sound: "good A s0 s \<Longrightarrow> sound A s0 (stop_finish mid) s"
  unfolding stop_finish_def Let_def
  by (rule vc | assumption | rule good_keep, (simp add: quiet_def; fail)+)+

lemma stop_instance_sound: "good A s0 s \<Longrightarrow> sound A s0 (stop_instance e a mid oper) s"
  unfolding stop_instance_def stop_call_def
  by (rule stop_finish_sound vc | assumption)+

lemma stop_candidate_sound: "good A s0 s \<Longrightarrow> sound A s0 (stop_candidate e a mid oper timeout) s"
  unfolding stop_candidate_def
  by (rule stop_guarded_sound stop_instance_sound vc | assumption)+

lemma stop_resume_sound: "good A s0 s \<Longrightarrow> sound A s0 (stop_resume e waiting w a p) s"
  unfolding stop_resume_def stop_call_def
  apply (cases p; simp only: stop_point.case)
  by (rule stop_guarded_sound stop_instance_sound stop_finish_sound vc | assumption)+

text \<open>A run object made from one state on.\<close>

definition new_run :: "life \<Rightarrow> string \<Rightarrow> run_ref \<Rightarrow> life \<Rightarrow> bool" where
  "new_run s mid r t \<longleftrightarrow> run_module (contents r) = mid \<and> run_epoch (contents r) \<le> known_epoch t mid \<and> addr r < next_id t
     \<and> next_id s \<le> addr r \<and> known_epoch s mid < run_epoch (contents r)"

lemma good_new_run':
  assumes "good A s0 t" "new_run s mid r t" "good A s0 s" "identity st' = Some r" "lifecycle st' \<noteq> ACTIVE"
  shows "good A s0 (t\<lparr>states := (states t)(mid \<mapsto> st')\<rparr>)"
  using assms goodD(1) [OF assms(3)] goodD(2) [OF assms(3), of mid] unfolding new_run_def by (intro good_put_run) auto

lemma good_epoch_next:
  assumes "good A s0 s" "known_epoch s mid \<le> n"
  shows "good A s0 (s\<lparr>epochs := (epochs s)(mid \<mapsto> n), next_id := Suc (next_id s)\<rparr>)"
  using good_next [OF good_epoch [OF assms]] by simp

lemma isolate_outcome:
  "good A s0 s \<Longrightarrow> wp (isolate mid r) (\<lambda>v t. good A s0 t \<and> states t = states s \<and> (fst v = r \<or> new_run s mid (fst v) t)) (\<lambda>_. good A s0) s"
  unfolding isolate_def module_snapshot_def new_identity_def fresh_def set_epoch_def publish_projection_def on_registry_def
  apply (simp only: wp_simps)
  apply (simp add: good_epoch_next good_epoch known_epoch_set new_run_def le_max_Suc)
  done

lemma sound_wp: "wp f (\<lambda>_. good A s0) (\<lambda>_. good A s0) s \<Longrightarrow> sound A s0 f s"
  by (auto simp: sound_def wp_def split: prod.splits sum.splits)

lemma sound_wp_bind:
  assumes "wp f Q (\<lambda>_. good A s0) s" "\<And>a t. Q a t \<Longrightarrow> sound A s0 (g a) t"
  shows "sound A s0 (ebind f g) s"
  using assms by (auto simp: sound_def wp_def ebind_def split: prod.splits sum.splits)

lemma scope_cleanup_timeout_sound:
  assumes "good A s0 s"
  shows "sound A s0 (scope_cleanup_timeout mid r why) s"
proof -
  have "sound A s0 (ebind (isolate mid r) (\<lambda>(isolated, rv).
      set_state mid (st\<lparr>lifecycle := FAILED, identity := Some isolated, lifecycle_epoch := run_epoch (contents isolated),
          registry_revision := rv, reason_code := Some ''stop_timeout'', cleanup_pending := True\<rparr>))) t"
    if st: "states s mid = Some st" "work_scope st \<noteq> None \<and> opt_is (identity st) r" and t: "quiet s t" "good A s0 t" for st t
  proof (rule sound_wp_bind [OF isolate_outcome [OF t(2)]], rule sound_prod, rule sound_put)
    fix v u q n
    assume v: "good A s0 u \<and> states u = states t \<and> (fst v = r \<or> new_run t mid (fst v) u)" and q: "v = (q, n :: int)"
    from st t(1) have "states t mid = Some st" "identity st = Some r" by (simp_all add: quiet_def opt_is_iff)
    with v show "good A s0 (u\<lparr>states := (states u)(mid \<mapsto> st\<lparr>lifecycle := FAILED, identity := Some q,
        lifecycle_epoch := run_epoch (contents q), registry_revision := n, reason_code := Some ''stop_timeout'',
        cleanup_pending := True\<rparr>)\<rparr>)"
      unfolding q
      using good_keep [of A s0 u mid st] good_new_run' [of A s0 u t mid q, OF _ _ t(2)] by (cases "q = r") simp_all
  qed
  note main = this
  show ?thesis
    unfolding scope_cleanup_timeout_def by (rule main sound_when vc assms | assumption)+
qed

lemma good_ctl_inside [simp]:
  "good A s0 (s\<lparr>ctl := c, epochs := x\<rparr>) = good A s0 (s\<lparr>epochs := x\<rparr>)"
  "good A s0 (s\<lparr>ctl := c, epochs := x, next_id := n\<rparr>) = good A s0 (s\<lparr>epochs := x, next_id := n\<rparr>)"
  by (simp_all add: good_def life_inv_def runs_grow_def state_ok_def no_new_active_def known_epoch_def)

lemma known_epoch_inside [simp]: "known_epoch (s\<lparr>ctl := c, epochs := x\<rparr>) = known_epoch (s\<lparr>epochs := x\<rparr>)"
  by (simp add: known_epoch_def fun_eq_iff)

lemma le_max_max_Suc: "(a :: int) \<le> max (max a b) c + 1"
  by simp

lemma roll_epoch_outcome:
  assumes "good A s0 s"
  shows "wp (roll_epoch mid sn m st)
    (\<lambda>v t. good A s0 t \<and> states t = states s \<and> (\<forall>ep q rv. v = Some (ep, q, rv) \<longrightarrow> q = identity st \<or> (\<exists>r. q = Some r \<and> new_run s mid r t)))
    (\<lambda>_. good A s0) s"
  using assms unfolding roll_epoch_def new_identity_def fresh_def set_epoch_def publish_projection_def on_registry_def
  apply (simp only: wp_simps)
  apply (simp add: good_epoch_next good_epoch known_epoch_set new_run_def le_max_max_Suc)
  apply auto
  done

lemma roll_guarded_sound: "sound A s0 f s \<Longrightarrow> sound A s0 (roll_guarded e mid f) s"
  unfolding roll_guarded_def
  by (assumption | rule sound_catch sound_if sound_bind [OF mark_rollback_pending_sound] roll_pending_sound sound_quiet quiets )+

lemma roll_release_sound: "good A s0 s \<Longrightarrow> sound A s0 (roll_release f) s"
  unfolding roll_release_def Let_def
  by (rule sound_bind [OF sound_drop] vc | assumption)+

lemma roll_check_sound: "good A s0 s \<Longrightarrow> sound A s0 (roll_check e f) s"
  unfolding roll_check_def
  by (rule roll_pending_sound roll_release_sound vc | assumption)+

lemma roll_method_sound: "good A s0 s \<Longrightarrow> sound A s0 (roll_method e a f t) s"
  unfolding roll_method_def
  by (rule roll_check_sound vc | assumption)+

lemma roll_stop_sound: "good A s0 s \<Longrightarrow> sound A s0 (roll_stop e a f) s"
  unfolding roll_stop_def
  by (rule roll_method_sound vc | assumption)+

lemma roll_setup_sound: "good A s0 s \<Longrightarrow> sound A s0 (roll_setup e a f) s"
  unfolding roll_setup_def
  by (rule roll_stop_sound vc | assumption)+

lemma roll_resume_sound: "good A s0 s \<Longrightarrow> sound A s0 (roll_resume e waiting w a p) s"
  unfolding roll_resume_def
  apply (cases p; simp only: roll_point.case)
  by (rule roll_guarded_sound roll_setup_sound roll_stop_sound roll_method_sound roll_check_sound vc | assumption)+

lemma roll_stopping_sound:
  assumes "good A s0 s" "states s mid = Some st"
  shows "sound A s0 (ebind (roll_epoch mid sn m st) (roll_stopping e a mid oper i st)) s"
proof (rule sound_wp_bind [OF roll_epoch_outcome [OF assms(1)]])
  fix v :: "(int \<times> run_ref option \<times> int) option" and t
  assume v: "good A s0 t \<and> states t = states s \<and> (\<forall>ep q rv. v = Some (ep, q, rv) \<longrightarrow> q = identity st \<or> (\<exists>r. q = Some r \<and> new_run s mid r t))"
  have put: "good A s0 (t\<lparr>states := (states t)(mid \<mapsto> st\<lparr>lifecycle_enabled := False, lifecycle := STOPPING, lifecycle_epoch := ep,
      registry_revision := rv, identity := q, reason_code := Some ''unpublished_rollback''\<rparr>)\<rparr>)" if "v = Some (ep, q, rv)" for ep q rv
  proof (cases "q = identity st")
    case True
    then show ?thesis using v assms(2) by (intro good_keep [of A s0 t mid st]) simp_all
  next
    case False
    with v that obtain r where "q = Some r" "new_run s mid r t" by blast
    then show ?thesis using v by (intro good_new_run' [OF _ _ assms(1)]) simp_all
  qed
  have good: "good A s0 t" using v by blast
  show "sound A s0 (roll_stopping e a mid oper i st v) t"
    unfolding roll_stopping_def Let_def
    by (rule roll_pending_sound roll_guarded_sound roll_setup_sound put good vc | assumption | (simp; fail))+
qed

lemma rollback_sound: "good A s0 s \<Longrightarrow> sound A s0 (rollback_unpublished_candidate e a mid oper timeout inst) s"
  unfolding rollback_unpublished_candidate_def Let_def
  by (rule roll_pending_sound roll_stopping_sound sound_rules sound_quiet_bind [OF quiet_elementary(2)] sound_quiet_bind sound_quiet quiets
      | assumption | simp add: quiet_def; fail)+

lemma quiet_adopt [quiets]: "quiet_op (adopt_candidate b ans pid m oper inst lt)"
  unfolding adopt_candidate_def new_lifetime_def Let_def
  by (rule quiets | rule quiet_emod, simp add: quiet_def)+

lemma quiet_clear [quiets]: "quiet_op (clear_task_ref e i b t)"
  unfolding clear_task_ref_def by (rule quiets)+

lemma quiet_restore [quiets]: "quiet_op (restore_registration pid m h)"
  unfolding restore_registration_def Let_def by (rule quiets)+

lemma detach_sound: "good A s0 s \<Longrightarrow> sound A s0 (detach_stopped e mid) s"
  unfolding detach_stopped_def
  by (rule sound_bind [OF sound_drop] vc | assumption)+

lemma quiet_discard_begin [quiets]: "quiet_op (discard_begin e a i)"
  unfolding discard_begin_def discard_call_def by (rule quiets)+

lemma quiet_discard_end [quiets]: "quiet_op (discard_end i b w)"
  unfolding discard_end_def Let_def by (rule quiets)+

lemma quiet_discard_loop [quiets]: "quiet_op (discard_loop e a k ids ok)"
  by (induction ids arbitrary: ok) (simp_all, (rule quiets | assumption)+)

lemma quiet_discards [quiets]: "quiet_op (discard_candidate e a pid mid oper t)" "quiet_op (discard_resume e a b w p)"
  unfolding discard_candidate_def discard_resume_def by (rule quiets)+ (cases p; simp; (rule quiets)+)

lemma sound_ensured_bind:
  assumes "quiet_op f" "good A s0 s" "\<And>x t. quiet s t \<Longrightarrow> good A s0 t \<Longrightarrow> sound A s0 (h x) t" "\<And>x t. \<exists>y. snd (h x t) = Inl y"
    and "\<And>a t. quiet s t \<Longrightarrow> good A s0 t \<Longrightarrow> sound A s0 (g a) t"
  shows "sound A s0 (ebind (ecatch f h) g) s"
proof -
  obtain t x where f: "f s = (t, x)" by fastforce
  have t: "quiet s t" "good A s0 t" using quiet_run [OF assms(1) f] good_quietly [OF assms(2)] by blast+
  show ?thesis
  proof (cases x)
    case (Inl y)
    obtain u z where "h y t = (u, Inl z)" using assms(4) [of y t] by (cases "h y t") auto
    then show ?thesis using assms(3) [OF t, of y] f Inl by (simp add: sound_def ebind_def ecatch_def)
  next
    case (Inr a)
    then show ?thesis using assms(5) [OF t, of a] f by (simp add: sound_def ebind_def ecatch_def)
  qed
qed

lemma raising_bind: "\<exists>y. snd (ebind f (\<lambda>_. eraise x) t) = Inl y"
  by (cases "f t", rename_tac u v, case_tac v) (simp_all add: ebind_def eraise_def)

lemma fail_run_sound:
  assumes "good A s0 s" "states s mid = Some st'" "identity st = identity st'"
  shows "sound A s0 (fail_run e mid r st why code) s"
  unfolding fail_run_def
  by (rule vc assms | assumption | rule good_keep [where st = st'], (simp add: quiet_def assms; fail)+)+

lemma sound_put_at:
  "sound A s0 (g ()) (s\<lparr>states := (states s)(mid \<mapsto> st)\<rparr>) \<Longrightarrow> sound A s0 (ebind (set_state mid st) g) s"
  by (simp add: sound_def ebind_def set_state_def emod_def)

lemma open_run_sound:
  assumes "good A s0 s" "states s mid = Some st" "opt_is (identity st) r" "report st \<noteq> None" "mid \<in> A"
  shows "sound A s0 (open_run e mid r st rv) s"
proof -
  let ?active = "st\<lparr>lifecycle_enabled := True, lifecycle := ACTIVE, registry_revision := rv, reason_code := None\<rparr>"
  let ?s = "s\<lparr>states := (states s)(mid \<mapsto> ?active)\<rparr>"
  obtain rep where rep: "report st = Some rep" using assms(4) by blast
  have id: "identity st = Some r" using assms(3) by (simp add: opt_is_iff)
  have g: "good A s0 ?s" by (rule good_put [OF assms(1,2)]) (use id rep assms(5) in simp_all)
  have q: "quiet_op (activate_run e r rep)"
    by (simp add: quiet_op_def activate_run_def epart_def quiet_def split: sum.split)
  have "sound A s0 (ebind (ecatch (activate_run e r rep)
        (\<lambda>x. ebind (fail_run e mid r ?active ''activation_failed'' ''operation_failed'') (\<lambda>_. eraise x))) k) ?s"
    if "\<And>a t. quiet ?s t \<Longrightarrow> good A s0 t \<Longrightarrow> sound A s0 (k a) t" for k :: "unit \<Rightarrow> unit op"
  proof (rule sound_ensured_bind [OF q g])
    fix x t
    assume t: "quiet ?s t" "good A s0 t"
    show "sound A s0 (ebind (fail_run e mid r ?active ''activation_failed'' ''operation_failed'') (\<lambda>_. eraise x)) t"
      by (rule sound_bind [OF fail_run_sound [of A s0 t mid ?active]]) (use t in \<open>simp_all add: quiet_def sound_def eraise_def\<close>)
  qed (rule raising_bind | rule that, assumption+)+
  then have "sound A s0 (ebind (case report st of None \<Rightarrow> eraise TypeError | Some rep \<Rightarrow> ecatch (activate_run e r rep)
        (\<lambda>x. ebind (fail_run e mid r ?active ''activation_failed'' ''operation_failed'') (\<lambda>_. eraise x))) k) ?s"
    if "\<And>a t. quiet ?s t \<Longrightarrow> good A s0 t \<Longrightarrow> sound A s0 (k a) t" for k :: "unit \<Rightarrow> unit op"
    using that by (simp add: rep)
  note act = this
  show ?thesis
    unfolding open_run_def Let_def
    by (rule sound_put_at g act vc | assumption)+
qed

lemma publish_or_fail_bind:
  assumes "good A s0 s" "states s mid = Some st" "\<And>a t. quiet s t \<Longrightarrow> good A s0 t \<Longrightarrow> sound A s0 (g a) t"
  shows "sound A s0 (ebind (publish_or_fail e mid r b expected st) g) s"
  unfolding publish_or_fail_def
proof (rule sound_ensured_bind [OF quiet_elementary(1) assms(1) _ raising_bind assms(3)])
  fix x t
  assume "quiet s t" "good A s0 t"
  then show "sound A s0 (ebind (ewhen (x = RegistryError \<and> b) (fail_run e mid r st ''projection_conflict'' ''revision_conflict''))
      (\<lambda>_. eraise (if x = RegistryError then LifecycleError else x))) t"
    using assms(2) by (intro sound_when_bind fail_run_sound) (simp_all add: quiet_def sound_quiet quiet_eraise)
qed

lemma sound_if_bind:
  "(c \<Longrightarrow> sound A s0 f s) \<Longrightarrow> (\<not> c \<Longrightarrow> sound A s0 h s) \<Longrightarrow> (\<And>a t. good A s0 t \<Longrightarrow> sound A s0 (g a) t) \<Longrightarrow> sound A s0 (ebind (if c then f else h) g) s"
  by (intro sound_bind) simp_all

lemma publish_sound: "good A s0 s \<Longrightarrow> b \<longrightarrow> mid \<in> A \<Longrightarrow> sound A s0 (publish_committed_intent e mid oper r b expected) s"
  unfolding publish_committed_intent_def notify_again_def
  by (rule publish_or_fail_bind open_run_sound sound_if_bind sound_rules sound_quiet_bind sound_quiet quiets | assumption
      | (simp add: quiet_def; fail) | rule good_keep, (auto simp: quiet_def; fail)+)+

lemma stop_sound: "good A s0 s \<Longrightarrow> sound A s0 (stop e a mid oper timeout) s"
  unfolding stop_def
  by (rule sound_bind [OF quiesce_sound] sound_bind [OF publish_sound] stop_candidate_sound vc | assumption | (simp; fail))+

section \<open>Runs\<close>

text \<open>
  The steps of the lifecycle among those of the components it contains.  Everything that crosses
  an \<open>await\<close> or that others supply is arbitrary: frames, answers of module code, outcomes of
  tasks, the environment.
\<close>

inductive life_step :: "life \<Rightarrow> life \<Rightarrow> bool" where
  l_outer: "sys_step (ctl s) c \<Longrightarrow> life_step s (s\<lparr>ctl := c\<rparr>)"
| l_adopt: "adopt_candidate b answer pid m oper inst lifetime s = (t, o1) \<Longrightarrow> life_step s t"
| l_install: "install_dormant pid mid oper inst hs b s = (t, o2) \<Longrightarrow> life_step s t"
| l_start: "start_candidate e a1 a2 mid oper s = (t, o3) \<Longrightarrow> life_step s t"
| l_start_on: "start_resume e w a1 a2 p s = (t, o4) \<Longrightarrow> life_step s t"
| l_quiesce: "quiesce mid oper why s = (t, o5) \<Longrightarrow> life_step s t"
| l_stop: "stop_candidate e a1 mid oper timeout s = (t, o6) \<Longrightarrow> life_step s t"
| l_stop_on: "stop_resume e waiting w a1 q s = (t, o7) \<Longrightarrow> life_step s t"
| l_scope: "scope_cleanup_timeout mid r why s = (t, o8) \<Longrightarrow> life_step s t"
| l_rollback: "rollback_unpublished_candidate e a1 mid oper timeout installation s = (t, o9) \<Longrightarrow> life_step s t"
| l_rollback_on: "roll_resume e waiting w a1 z s = (t, o10) \<Longrightarrow> life_step s t"
| l_publish: "publish_committed_intent e mid oper r b expected s = (t, o11) \<Longrightarrow> life_step s t"
| l_legacy: "stop e a1 mid oper timeout s = (t, o12) \<Longrightarrow> life_step s t"
| l_detach: "detach_stopped e mid s = (t, o13) \<Longrightarrow> life_step s t"
| l_restore: "restore_registration pid m h s = (t, o14) \<Longrightarrow> life_step s t"
| l_discard: "discard_candidate e as pid mid oper timeout s = (t, o15) \<Longrightarrow> life_step s t"
| l_discard_on: "discard_resume e as b done d s = (t, o16) \<Longrightarrow> life_step s t"
| l_task: "clear_task_ref e i b n s = (t, o17) \<Longrightarrow> life_step s t"

lemma soundD: "f s = (t, x) \<Longrightarrow> sound A s0 f s \<Longrightarrow> good A s0 t"
  by (simp add: sound_def)

lemma life_step_good:
  assumes "life_step s t" "life_inv s"
  shows "good UNIV s t"
  using assms(1)
proof cases
  case (l_outer c)
  then show ?thesis using good_refl [OF assms(2)] by simp
qed (auto elim!: soundD intro!: good_refl [OF assms(2)] sound_quiet [OF quiet_adopt] sound_quiet [OF quiet_restore]
    sound_quiet [OF quiet_discards(1)] sound_quiet [OF quiet_discards(2)] sound_quiet [OF quiet_clear] install_sound
    start_candidate_sound start_resume_sound quiesce_sound stop_candidate_sound stop_resume_sound scope_cleanup_timeout_sound
    rollback_sound roll_resume_sound publish_sound stop_sound detach_sound)

text \<open>Only a publication lets a module become active.\<close>

lemma life_step_cases:
  assumes "life_step s t" "life_inv s"
  shows "good {} s t \<or> (\<exists>e mid oper r expected out. publish_committed_intent e mid oper r True expected s = (t, out))"
  using assms(1)
proof cases
  case (l_outer c)
  then show ?thesis using good_refl [OF assms(2)] by simp
next
  case (l_publish e mid oper r b expected out)
  show ?thesis
  proof (cases b)
    case True
    with l_publish have "publish_committed_intent e mid oper r True expected s = (t, out)" by simp
    then show ?thesis by blast
  next
    case False
    then show ?thesis using soundD [OF l_publish publish_sound [OF good_refl [OF assms(2)]]] by blast
  qed
qed (auto elim!: soundD intro!: disjI1 good_refl [OF assms(2)] sound_quiet [OF quiet_adopt] sound_quiet [OF quiet_restore]
    sound_quiet [OF quiet_discards(1)] sound_quiet [OF quiet_discards(2)] sound_quiet [OF quiet_clear] install_sound
    start_candidate_sound start_resume_sound quiesce_sound stop_candidate_sound stop_resume_sound scope_cleanup_timeout_sound
    rollback_sound roll_resume_sound stop_sound detach_sound)

definition initial_life :: "life \<Rightarrow> bool" where
  "initial_life s \<longleftrightarrow> (\<exists>self ob st su rid uid reg iss. life_init self ob st su rid uid reg iss = Inr s)"

lemma initial_life_inv: "initial_life s \<Longrightarrow> life_inv s"
  by (auto simp: initial_life_def life_init_def rbind_eq_Inr life_inv_def)

interpretation lifecycles: transition_system initial_life life_step life_inv
  by unfold_locales (auto intro: initial_life_inv dest: life_step_good simp: good_def)

lemma life_run_grows: "life_step\<^sup>*\<^sup>* s t \<Longrightarrow> life_inv s \<Longrightarrow> runs_grow s t"
  by (rule lifecycles.run_lift [where R = runs_grow]) (auto dest: life_step_good simp: good_def runs_grow_refl intro: runs_grow_trans)

section \<open>What a publication leaves\<close>

lemma activate_eq_Inr: "activate e r h c = Inr c' \<longleftrightarrow> check_HealthReport h = Inr () \<and> run_active e r \<and> current_run e (run_module (contents r)) = Some r
    \<and> (open_gates c (run_module (contents r)) = None \<or> open_gates c (run_module (contents r)) = Some r)
    \<and> (\<exists>m. registered c (run_module (contents r)) = Inr m \<and> enabled m \<and> epoch m = run_epoch (contents r)
         \<and> fst ` set (capability_health h) = cap_id ` set (capabilities (manifest m)))
    \<and> c' = c\<lparr>open_gates := (open_gates c)(run_module (contents r) \<mapsto> r)\<rparr>"
  by (cases "open_gates c (run_module (contents r))") (auto simp: activate_def Let_def rbind_eq_Inr opt_is_iff is_same_def)

definition opened :: "controller \<Rightarrow> string \<Rightarrow> run_ref \<Rightarrow> bool" where
  "opened c mid r \<longleftrightarrow> open_gates c mid = Some r \<and> (\<exists>m. registered c mid = Inr m \<and> enabled m \<and> epoch m = run_epoch (contents r))"

lemma activate_opened: "activate e r h c = Inr c' \<Longrightarrow> opened c' (run_module (contents r)) r"
  by (auto simp: activate_eq_Inr opened_def registered_def)

lemma close_gate_cases: "close_gate r why c = Inl x \<longleftrightarrow> blank why \<and> x = ValueError"
  by (auto simp: close_gate_def Let_def rbind_eq_Inl)

lemma blank_reasons [simp]:
  "\<not> blank ''activation_failed''" "\<not> blank ''projection_conflict''" "\<not> blank ''start_failed''" "\<not> blank ''unpublished_rollback''"
  "\<not> blank ''stop_cancelled''" "\<not> blank ''stop_timeout''" "\<not> blank ''stop_failed''"
  by (simp_all add: blank_def is_space_def)

lemma wp_activate_run [wp_simps]:
  "wp (activate_run e r h) Q E s \<longleftrightarrow> (\<forall>c. activate (life_adm e s) r h (ctl s) = Inr c \<longrightarrow> Q () (s\<lparr>ctl := c\<rparr>))
     \<and> (\<forall>x. activate (life_adm e s) r h (ctl s) = Inl x \<longrightarrow> E x s)"
  by (cases "activate (life_adm e s) r h (ctl s)") (simp_all add: wp_def activate_run_def epart_def)

lemma open_run_outcome:
  assumes "states s mid = Some st" "run_module (contents r) = mid"
  shows "wp (open_run e mid r st rv) 
     (\<lambda>_ t. opened (ctl t) mid r \<and> (\<exists>st'. states t mid = Some st' \<and> lifecycle st' = ACTIVE \<and> identity st' = identity st \<and> reason_code st' = None \<and> lifecycle_enabled st'))
     (\<lambda>_ t. \<exists>st'. states t mid = Some st' \<and> lifecycle st' \<noteq> ACTIVE \<or> report st = None) s"
  using assms unfolding open_run_def fail_run_def close_run_def set_state_def update_instance_def drop_operation_def Let_def
  apply (simp add: wp_simps close_gate_cases)
  apply (auto dest: activate_opened)
  done

definition published :: "life \<Rightarrow> string \<Rightarrow> run_ref \<Rightarrow> string \<Rightarrow> life \<Rightarrow> bool" where
  "published s mid r oper t \<longleftrightarrow> (\<forall>st'. states t mid = Some st' \<longrightarrow> lifecycle st' = ACTIVE \<longrightarrow>
     states s mid = Some st' \<or> opened (ctl t) mid r \<and> identity st' = Some r \<and>
       (\<exists>st. states s mid = Some st \<and> identity st = Some r \<and> lifecycle st = STARTING \<and> report st \<noteq> None \<and> operations s mid = Some oper))"

lemma opened_notify [simp]: "opened (c\<lparr>ctl_registry := publish_snapshot (snapshot (ctl_registry c)) (ctl_registry c)\<rparr>) mid r = opened c mid r"
  by (simp add: opened_def registered_def publish_snapshot_def)

lemma publish_outcome:
  assumes "\<And>st. states s mid = Some st \<Longrightarrow> identity st = Some r \<Longrightarrow> run_module (contents r) = mid"
  shows "wp (publish_committed_intent e mid oper r True expected) (\<lambda>_. published s mid r oper) (\<lambda>_. published s mid r oper) s"
  unfolding publish_committed_intent_def publish_or_fail_def fail_run_def assert_operation_def publish_projection_def on_registry_def
     close_run_def set_state_def notify_again_def
  apply (simp add: wp_simps close_gate_cases)
  apply (safe; (simp add: published_def; fail)?)
  subgoal for st y p
    by (rule wp_mono [OF open_run_outcome [of _ mid st r]])
      (use assms [of st] in \<open>auto simp: opt_is_iff wp_simps published_def\<close>)
  done

end
