(* ===== verification/Lifecycle_Run.thy ===== *)
theory Lifecycle_Run
  imports Lifecycle_Correct
begin

text \<open>
  A concrete run of the lifecycle: an instance is adopted and installed, started, found healthy
  and published, an invocation is admitted, and the run is quiesced.
\<close>

definition lf_instance :: handler where "lf_instance = Handler 3 [''handlers'', ''start'', ''stop'', ''check_health'']"

definition lf_handlers :: "module_handlers obj" where "lf_handlers = Obj 4 example_handlers"

definition lf_report :: health_report where "lf_report = \<lparr>capability_health = [(''q'', AVAILABLE, None)]\<rparr>"

definition lf_env :: life_env where
  "lf_env = \<lparr>outer_env = ex_adm, health_query = None, lease_at = (\<lambda>_. lease4), task_done = (\<lambda>_. True), task_failed = (\<lambda>_. False),
     scope_busy = (\<lambda>_. False)\<rparr>"

definition lf0 :: life where
  "lf0 = \<lparr>ctl = sys0\<lparr>ctl_registry := example_owned, ctl_issuer := fst issued1\<rparr>, owner_address = 7, life_runtime = ''rt'', states = Map.empty,
     instances = [], instance_records = Map.empty, candidates = [], operations = Map.empty, epochs = [''p/m'' \<mapsto> 0],
     lifetime_keys = Map.empty, revoked_lifetimes = [], cancelled_scopes = [], next_id = 0\<rparr>"

definition lf_record :: instance_record where
  "lf_record = \<lparr>record_package = ''p'', record_instance = lf_instance, record_handlers = Some lf_handlers, installation_operation = ''a'',
     record_manifest = Some example_module, candidate_key = Some (''p'', ''p/m'', ''a''), candidate_cleanup_started = False,
     start_attempted = False, is_running = False, stop_completed = False, ever_active = False, setup_task = None, stop_task = None,
     record_lifetime = Some 0\<rparr>"

definition lf1 :: life where
  "lf1 = lf0\<lparr>instance_records := [1 \<mapsto> lf_record], candidates := [((''p'', ''p/m'', ''a''), [1])],
     lifetime_keys := [0 \<mapsto> (''p'', ''p/m'', ''a'')], next_id := 2\<rparr>"

lemma lf_module: "validate_module 0 example_module = Inr example_module" by code_simp

lemma lf_texts: "operation_text ''a'' = Inr ()" "operation_text ''b'' = Inr ()" "\<not> blank ''p''" "global_id ''p'' (local_id example_module) = ''p/m''"
  by code_simp+

lemma lf_handlers_ok: "validate_handlers example_module example_handlers = Inr example_module" "check_ModuleHandlers example_handlers = Inr ()"
proof -
  show "check_ModuleHandlers example_handlers = Inr ()" by code_simp
  then show "validate_handlers example_module example_handlers = Inr example_module"
    by (simp add: validate_handlers_def lf_module) code_simp
qed

lemma lf_instance_ok: "validate_instance_methods lf_instance = Inr ()" "''handlers'' \<in> set (callables lf_instance)"
  by code_simp+

lemmas eff_eval = ebind_def eget_def eres_def emod_def eret_def eensure_def eraise_def ensure_def

lemma lf_adopt:
  "adopt_candidate True (Inr (Some lf_handlers)) ''p'' example_module ''a'' lf_instance None lf0 = (lf1, Inr lf_handlers)"
  by (simp add: adopt_candidate_def eff_eval new_lifetime_def fresh_def update_instance_def lf_module lf_texts lf_handlers_ok lf_instance_ok
      is_instance_owned_def Let_def lf0_def lf1_def lf_record_def lf_handlers_def candidates_under_def)

definition lf_registered :: "bool \<Rightarrow> int \<Rightarrow> registered_module" where
  "lf_registered b ep = \<lparr>module_id = ''p/m'', manifest = example_module, handlers = example_handlers, enabled = b, epoch = ep\<rparr>"

definition lf_registry :: "int \<Rightarrow> nat \<Rightarrow> registered_module \<Rightarrow> registry" where
  "lf_registry n a m = \<lparr>packages = [''p''], observers = [], notified = [], lifecycle_owner = Some 7,
     snapshot = \<lparr>revision = n, snapshot_modules = [(''p/m'', Obj a m)], routes = [(''r'', ''p/m'')],
       tool_index = [(''t'', (''p/m'', ''q''))]\<rparr>, next_addr = Suc a\<rparr>"

lemma lf_owned: "example_owned = lf_registry 1 0 (lf_registered False 0)"
  by (simp add: example_owned_def example_registry_def example_registered_def lf_registry_def lf_registered_def)

lemma lf_registry_parts [simp]:
  "snapshot_modules (snapshot (lf_registry n a m)) = [(''p/m'', Obj a m)]" "revision (snapshot (lf_registry n a m)) = n"
  "lifecycle_owner (lf_registry n a m) = Some 7" "module_id (lf_registered b ep) = ''p/m''" "manifest (lf_registered b ep) = example_module"
  "enabled (lf_registered b ep) = b" "epoch (lf_registered b ep) = ep"
  by (simp_all add: lf_registry_def lf_registered_def)

definition lf_stopped :: lifecycle_state where
  "lf_stopped = \<lparr>lifecycle_enabled = False, lifecycle = STOPPED, lifecycle_epoch = 0, registry_revision = 2, reason_code = None,
     work_scope = None, identity = None, report = None, report_revisions = None, cleanup_pending = False\<rparr>"

definition lf2 :: life where
  "lf2 = lf1\<lparr>ctl := (ctl lf1)\<lparr>ctl_registry := lf_registry 2 (Suc 0) (lf_registered False 0)\<rparr>, candidates := [], instances := [(''p/m'', 1)],
     states := [''p/m'' \<mapsto> lf_stopped]\<rparr>"

lemma lf_install_handlers:
  "install_lifecycle_handlers ''p/m'' example_handlers (lf_registry 1 0 (lf_registered False 0)) = Inr (lf_registry 2 (Suc 0) (lf_registered False 0))"
  by (simp add: install_lifecycle_handlers_def lf_handlers_ok lf_registry_def lf_registered_def snapshot_module_def republish_def
      publish_snapshot_def Let_def)

lemma lf_install: "install_dormant ''p'' ''p/m'' ''a'' lf_instance lf_handlers True lf1 = (lf2, Inr ())"
  by (simp add: install_dormant_def eff_eval module_snapshot_def lf_texts lf_handlers_ok lf_instance_ok Let_def exact_candidate_def
      candidates_under_def candidates_for_module_def claim_operation_def on_registry_def epart_def remove_candidate_def
      without_candidate_def set_epoch_def set_state_def drop_operation_def known_epoch_def lf1_def lf2_def lf0_def lf_handlers_def lf_record_def
      lf_owned lf_install_handlers snapshot_module_def lf_stopped_def)

definition lf_run :: run_ref where "lf_run = Obj 2 \<lparr>runtime_id = ''rt'', run_module = ''p/m'', run_epoch = 1\<rparr>"

definition lf_frame :: start_frame where
  "lf_frame = \<lparr>sf_module = ''p/m'', sf_operation = ''b'', sf_record = 1, sf_identity = lf_run, sf_scope = 3, sf_manifest = example_module\<rparr>"

definition lf_starting :: lifecycle_state where
  "lf_starting = \<lparr>lifecycle_enabled = False, lifecycle = STARTING, lifecycle_epoch = 1, registry_revision = 2, reason_code = None,
     work_scope = Some 3, identity = Some lf_run, report = None, report_revisions = None, cleanup_pending = False\<rparr>"

definition lf_began :: "nat \<Rightarrow> instance_record \<Rightarrow> lifecycle_state \<Rightarrow> life" where
  "lf_began n r st = lf2\<lparr>operations := [''p/m'' \<mapsto> ''b''], epochs := [''p/m'' \<mapsto> 1], next_id := n, instance_records := [1 \<mapsto> r],
     states := [''p/m'' \<mapsto> st]\<rparr>"

definition lf3 :: life where "lf3 = lf_began 5 (lf_record\<lparr>start_attempted := True, setup_task := Some 4\<rparr>) lf_starting"

definition lf4 :: life where
  "lf4 = lf_began 6 (lf_record\<lparr>start_attempted := True, is_running := True, setup_task := Some 5\<rparr>) lf_starting"

definition lf_healthy :: lifecycle_state where
  "lf_healthy = lf_starting\<lparr>report := Some lf_report, report_revisions := Some (\<lambda>c. if c \<in> {''q''} then Some 1 else None)\<rparr>"

definition lf5 :: life where
  "lf5 = lf_began 6 (lf_record\<lparr>start_attempted := True, is_running := True, setup_task := Some 5\<rparr>) lf_healthy"

lemma lf_run_ok: "check_RunIdentity \<lparr>runtime_id = ''rt'', run_module = ''p/m'', run_epoch = 1\<rparr> = Inr ()" by code_simp

lemma lf_methods: "''start'' \<in> set (callables lf_instance)" "''check_health'' \<in> set (callables lf_instance)" "''stop'' \<in> set (callables lf_instance)"
  by code_simp+

lemma lf_start: "start_candidate lf_env (Inr True) (Inr True) ''p/m'' ''b'' lf2 = (lf3, Inr (Awaiting_start lf_frame ''p/m''))"
  by (simp add: start_candidate_def start_begin_def ecatch_def eff_eval module_snapshot_def lf_texts candidates_for_module_def claim_operation_def
      the_record_def new_identity_def fresh_def set_epoch_def set_state_def update_instance_def launch_def assert_operation_def pending_task_def
      the_task_def known_epoch_def lf_run_ok lf_methods snapshot_module_def
      lf3_def lf2_def lf1_def lf0_def lf_began_def lf_frame_def lf_run_def lf_starting_def lf_stopped_def lf_record_def fun_eq_iff)

lemma lf_continue:
  "start_resume lf_env (Finished (Inr None)) (Inr True) (Inr True) (Awaiting_start lf_frame ''p/m'') lf3 = (lf4, Inr (Awaiting_health lf_frame ''p/m''))"
  by (simp add: start_resume_def ecatch_def eff_eval method_done_def complete_stop_def ewhen_def assert_starting_candidate_def
      the_record_def fresh_def update_instance_def launch_def assert_operation_def pending_task_def the_task_def lf_methods lf_env_def
      lf3_def lf4_def lf2_def lf1_def lf0_def lf_began_def lf_frame_def lf_starting_def lf_record_def fun_eq_iff opt_is_iff)

lemma lf_health: "validate_health example_module (Some lf_report) = Inr lf_report"
  by (simp add: validate_health_def lf_module) code_simp

lemma lf_reported: "capability_health lf_report = [(''q'', AVAILABLE, None)]"
  by (simp add: lf_report_def)

lemma lf_finish:
  "start_resume lf_env (Finished (Inr (Some lf_report))) (Inr True) (Inr True) (Awaiting_health lf_frame ''p/m'') lf4 = (lf5, Inr (Started lf_run lf_report))"
  by (simp add: start_resume_def ecatch_def eff_eval method_done_def complete_stop_def ewhen_def assert_starting_candidate_def start_healthy_def
      set_state_def assert_operation_def lf_health lf_env_def lf_healthy_def
      lf5_def lf4_def lf2_def lf1_def lf0_def lf_began_def lf_frame_def lf_starting_def lf_record_def fun_eq_iff opt_is_iff lf_reported)

definition lf_active :: lifecycle_state where
  "lf_active = lf_healthy\<lparr>lifecycle_enabled := True, lifecycle := ACTIVE, registry_revision := 3\<rparr>"

definition lf6 :: life where
  "lf6 = (lf_began 6 (lf_record\<lparr>start_attempted := True, is_running := True, ever_active := True, setup_task := Some 5\<rparr>) lf_active)
     \<lparr>ctl := (ctl lf2)\<lparr>ctl_registry := lf_registry 3 2 (lf_registered True 1), open_gates := [''p/m'' \<mapsto> lf_run]\<rparr>, operations := Map.empty\<rparr>"

definition lf_status :: module_status where
  "lf_status = \<lparr>status_module = ''p/m'', status_enabled = True, status_lifecycle = ACTIVE, status_health = HEALTHY, status_epoch = 1,
     status_revision = 3, status_reason = None\<rparr>"

lemma lf_projection: "publish_lifecycle_projection ''p/m'' True 1 (Some 2) (lf_registry 2 (Suc 0) (lf_registered False 0)) = Inr (lf_registry 3 2 (lf_registered True 1))"
  by (simp add: publish_lifecycle_projection_def lf_registry_def lf_registered_def snapshot_module_def republish_def publish_snapshot_def Let_def)

lemma lf_notify: "publish_snapshot (snapshot (lf_registry n a m)) (lf_registry n a m) = lf_registry n a m"
  by (simp add: lf_registry_def publish_snapshot_def)

lemma lf_health_ok: "check_HealthReport lf_report = Inr ()" "fst ` set (capability_health lf_report) = cap_id ` set (capabilities example_module)"
  by code_simp+

lemma lf_valid: "validate_module_id ''p/m'' = Inr ()" by code_simp

lemma lf_publish: "publish_committed_intent lf_env ''p/m'' ''b'' lf_run True 2 lf5 = (lf6, Inr lf_status)"
proof -
  have rm: "run_module (contents lf_run) = ''p/m''" "run_epoch (contents lf_run) = 1" by (simp_all add: lf_run_def)
  have act: "activate (life_adm lf_env x) lf_run lf_report c = Inr (c\<lparr>open_gates := (open_gates c)(''p/m'' \<mapsto> lf_run)\<rparr>)"
    if "states x ''p/m'' = Some lf_active" "ctl_registry c = lf_registry 3 2 (lf_registered True 1)" "open_gates c ''p/m'' = None" for x c
    unfolding activate_eq_Inr rm using that lf_health_ok
    by (simp add: life_adm_def is_active_identity_def Lifecycle.current_identity_def life_view_def registered_eq_Inr opt_is_iff rm
        lf_active_def lf_healthy_def lf_starting_def)
  have gates: "open_gates (ctl lf2) = Map.empty" "ctl_registry (ctl lf2) = lf_registry 2 (Suc 0) (lf_registered False 0)"
    by (simp_all add: lf2_def lf1_def lf0_def sys0_def controller_init_def)
  have st: "lf_healthy\<lparr>lifecycle_enabled := True, lifecycle := ACTIVE, registry_revision := 3, reason_code := None\<rparr> = lf_active"
    "identity lf_healthy = Some lf_run" "lifecycle lf_healthy = STARTING" "report lf_healthy = Some lf_report"
    by (simp_all add: lf_active_def lf_healthy_def lf_starting_def)
  have act_st: "lifecycle lf_active = ACTIVE" "report lf_active = Some lf_report" "reason_code lf_active = None" "lifecycle_epoch lf_active = 1"
    by (simp_all add: lf_active_def lf_healthy_def lf_starting_def)
  have stat: "status ''p/m'' x = Inr lf_status"
    if "states x ''p/m'' = Some lf_active" "ctl_registry (ctl x) = lf_registry 3 2 (lf_registered True 1)" for x
  proof -
    have "lifecycle_state_of (life_view x) ''p/m'' = Inr lf_active"
      using that by (simp add: lifecycle_state_of_def life_view_def snapshot_module_def Let_def lf_active_def lf_healthy_def lf_starting_def)
    then show ?thesis
      by (simp add: status_def act_st lf_valid check_ModuleStatus_def health_summary_def lf_reported lf_status_def)
        (simp add: lf_active_def lf_healthy_def lf_starting_def)
  qed
  let ?p = "lf5\<lparr>ctl := (ctl lf2)\<lparr>ctl_registry := lf_registry 3 2 (lf_registered True 1)\<rparr>\<rparr>"
  have c5: "ctl lf5 = ctl lf2" "states lf5 ''p/m'' = Some lf_healthy" "operations lf5 ''p/m'' = Some ''b''" by (simp_all add: lf5_def lf_began_def)
  have 1: "publish_projection ''p/m'' True 1 2 lf5 = (?p, Inr (snapshot (lf_registry 3 2 (lf_registered True 1))))"
    by (simp add: publish_projection_def on_registry_def eff_eval epart_def gates c5 lf_projection)
  have 2: "open_run lf_env ''p/m'' lf_run lf_healthy 3 ?p = (lf6, Inr ())"
    by (simp add: open_run_def eff_eval ecatch_def Let_def st act_st set_state_def activate_run_def epart_def act gates update_instance_def drop_operation_def)
      (simp add: lf5_def lf6_def lf_began_def fun_eq_iff lf2_def update_instance_def eff_eval)
  have 3: "notify_again lf6 = (lf6, Inr ())"
    by (simp add: notify_again_def on_registry_def epart_def lf6_def lf_notify)
  have 4: "status ''p/m'' lf6 = Inr lf_status"
    by (rule stat) (simp_all add: lf6_def lf_began_def)
  show ?thesis
    by (simp add: publish_committed_intent_def publish_or_fail_def ecatch_def eff_eval assert_operation_def lf_texts rm st c5 1 2 3 4 opt_is_iff)
qed

text \<open>The run is used, and then quiesced.\<close>

definition lf7 :: life where "lf7 = lf6\<lparr>ctl := fst (admit (life_adm lf_env lf6) ''l1'' (snd issued1) ''q'' (ctl lf6))\<rparr>"

definition lf_lease :: lease_ref where "lf_lease = projr (snd (admit (life_adm lf_env lf6) ''l1'' (snd issued1) ''q'' (ctl lf6)))"

definition lf8 :: life where "lf8 = fst (quiesce ''p/m'' ''c'' ''off'' lf7)"

lemma lf_view:
  "check_InvocationView (contents (snd issued1)) = Inr ()" "view_module (contents (snd issued1)) = ''p/m''"
  "capability_id (contents (snd issued1)) = Some ''q''" "module_epoch (contents (snd issued1)) = 1" "invocation_id (contents (snd issued1)) = ''u1''"
  "lease_for ex_env (fst issued1) (snd issued1) = Inr None"
  by code_simp+

lemma lf_view_live: "require_view ex_env (fst issued1) (snd issued1) = Inr ()" "\<not> isl (attach_lease ex_env (snd issued1) 0 (fst issued1))"
  by code_simp+


lemma lf_capability: "capability_of example_module ''q'' = Inr example_capability" "required_capabilities example_capability = []"
  by (simp_all add: capability_of_def lf_module) (simp_all add: example_module_def example_capability_def)

lemma lf6_parts:
  "ctl_registry (ctl lf6) = lf_registry 3 2 (lf_registered True 1)" "open_gates (ctl lf6) = [''p/m'' \<mapsto> lf_run]" "ctl_issuer (ctl lf6) = fst issued1"
  "view_leases (ctl lf6) = Map.empty" "lease_records (ctl lf6) = Map.empty" "next_lease (ctl lf6) = 0" "states lf6 = [''p/m'' \<mapsto> lf_active]"
  by (simp_all add: lf6_def lf_began_def lf2_def lf1_def lf0_def sys0_def controller_init_def)

lemma lf_active_parts:
  "lifecycle lf_active = ACTIVE" "report lf_active = Some lf_report" "report_revisions lf_active = Some (\<lambda>c. if c \<in> {''q''} then Some 1 else None)"
  "identity lf_active = Some lf_run" "\<not> cleanup_pending lf_active"
  by (simp_all add: lf_active_def lf_healthy_def lf_starting_def)

definition lf_made :: lease where
  "lf_made = \<lparr>lease_id = ''l1'', lease_module = ''p/m'', lease_epoch = 1, lease_revision = 3, lease_dependencies = [],
     lease_class = AdmissionLease ''u1'' ''q'' 1\<rparr>"

lemma lf_made_ok: "check_lease lf_made = Inr ()" by code_simp

lemma lf_admit_lease: "admit_lease (life_adm lf_env lf6) ''l1'' (snd issued1) ''q'' (ctl lf6) = Inr (lf_made, lf_run)"
proof -
  have e: "view_env (life_adm lf_env lf6) = ex_env" by (simp add: life_adm_def lf_env_def ex_adm_def)
  have reg: "registered (ctl lf6) ''p/m'' = Inr (lf_registered True 1)" by (simp add: registered_def lf6_parts snapshot_module_def)
  have run: "active_identity (life_adm lf_env lf6) (ctl lf6) (lf_registered True 1) = Inr lf_run"
    unfolding active_identity_eq_Inr
    by (simp add: life_adm_def lf6_parts is_active_identity_def Lifecycle.current_identity_def life_view_def lf_active_parts)
      (simp add: lf_run_def lf6_parts lf_active_parts)
  have h: "available_health (life_adm lf_env lf6) ''p/m'' ''q'' = Inr 1"
    by (simp add: available_health_def life_adm_def capability_health_of_def lf6_parts lf_active_parts lf_reported lf_env_def)
  have d: "dependencies_of (life_adm lf_env lf6) (ctl lf6) ''p/m'' example_module example_capability = Inr []"
    by (simp add: dependencies_of_def lf_module lf_capability)
  have ep: "run_epoch (contents lf_run) = 1" by (simp add: lf_run_def)
  show ?thesis
    by (simp add: admit_lease_def Let_def lf_view lf_view_live e reg run h d ep lf_capability lf6_parts lf_made_def)
qed

lemma lf_admit: "admit (life_adm lf_env lf6) ''l1'' (snd issued1) ''q'' (ctl lf6) = (ctl lf7, Inr (Obj 0 lf_made))"
  "lease_records (ctl lf7) ''l1'' = Some (view_record (snd issued1) (Obj 0 lf_made) lf_run (Some ''q''))"
proof -
  have e: "view_env (life_adm lf_env lf6) = ex_env" by (simp add: life_adm_def lf_env_def ex_adm_def)
  obtain i where i: "attach_lease ex_env (snd issued1) 0 (fst issued1) = Inr i" using lf_view_live(2) by (cases "attach_lease ex_env (snd issued1) 0 (fst issued1)") auto
  have a: "admit (life_adm lf_env lf6) ''l1'' (snd issued1) ''q'' (ctl lf6) = (bind_view (snd issued1) (Obj 0 lf_made)
      ((ctl lf6)\<lparr>next_lease := Suc 0, ctl_issuer := i, lease_records := [''l1'' \<mapsto> view_record (snd issued1) (Obj 0 lf_made) lf_run (Some ''q'')]\<rparr>), Inr (Obj 0 lf_made))"
    by (simp add: admit_def lf_admit_lease new_lease_def lf_made_ok i e lf6_parts record_lease_def optional_def lf_view view_record_def)
      (simp add: lf_made_def)
  show "admit (life_adm lf_env lf6) ''l1'' (snd issued1) ''q'' (ctl lf6) = (ctl lf7, Inr (Obj 0 lf_made))" 
    by (simp add: lf7_def a)
  show "lease_records (ctl lf7) ''l1'' = Some (view_record (snd issued1) (Obj 0 lf_made) lf_run (Some ''q''))"
    by (simp add: lf7_def a bind_view_def)
qed


definition lf_run2 :: run_ref where "lf_run2 = Obj 6 \<lparr>runtime_id = ''rt'', run_module = ''p/m'', run_epoch = 2\<rparr>"

lemma lf_quiesce: "quiesce ''p/m'' ''c'' ''off'' lf7 = (lf8, Inr lf_run2)" "lease_records (ctl lf8) = lease_records (ctl lf7)"
proof -
  have reg: "ctl_registry (ctl lf7) = lf_registry 3 2 (lf_registered True 1)"
    by (rule admit_ok [OF lf_admit(1)]) (simp add: admitted_def lf6_parts)
  have same: "states lf7 = states lf6" "operations lf7 = operations lf6" "epochs lf7 = epochs lf6" "next_id lf7 = next_id lf6"
    "life_runtime lf7 = life_runtime lf6" by (simp_all add: lf7_def)
  have "operations lf6 = Map.empty" "epochs lf6 = [''p/m'' \<mapsto> 1]" "next_id lf6 = 6" "life_runtime lf6 = ''rt''"
    by (simp_all add: lf6_def lf_began_def lf2_def lf1_def lf0_def)
  note parts = reg this [folded same] lf6_parts(7) [folded same]
  have p: "publish_lifecycle_projection ''p/m'' True 2 (Some 3) (lf_registry 3 2 (lf_registered True 1)) = Inr (lf_registry 4 3 (lf_registered True 2))"
    by (simp add: publish_lifecycle_projection_def lf_registry_def lf_registered_def snapshot_module_def republish_def publish_snapshot_def Let_def)
  have t: "operation_text ''c'' = Inr ()" "\<not> blank ''off''" "check_RunIdentity \<lparr>runtime_id = ''rt'', run_module = ''p/m'', run_epoch = 2\<rparr> = Inr ()"
    by code_simp+
  have "\<exists>u. quiesce ''p/m'' ''c'' ''off'' lf7 = (u, Inr lf_run2) \<and> lease_records (ctl u) = lease_records (ctl lf7)"
    by (simp add: quiesce_def quiesce_new_def eff_eval module_snapshot_def claim_operation_def close_run_def epart_def close_gate_def cancel_scope_def
        lf_active_parts parts t snapshot_module_def known_epoch_def set_epoch_def new_identity_def fresh_def publish_projection_def on_registry_def
        set_state_def p lf_run2_def Let_def split: option.split)
  then show "quiesce ''p/m'' ''c'' ''off'' lf7 = (lf8, Inr lf_run2)" "lease_records (ctl lf8) = lease_records (ctl lf7)"
    by (auto simp: lf8_def)
qed

section \<open>Reachability\<close>

lemma lf_init: "life_init 7 9 (Fin 5) (Fin 30) (Some ''rt'') ''u'' example_registry (fst issued1) = Inr lf0"
proof -
  have "9 \<in> set (release_observers (fst issued1))" by code_simp
  then have "add_release_observer 9 (fst issued1) = fst issued1" by (simp add: add_release_observer_def List.insert_def)
  then show ?thesis
    by (simp add: life_init_def finite_timeout_def finite_positive_def bind_lifecycle_owner_def example_registry_def lf0_def sys0_def controller_init_def
        example_owned_def example_registered_def)
qed

lemma lf_reachable: "initial_life lf0" "life_step\<^sup>*\<^sup>* lf0 lf2" "life_step\<^sup>*\<^sup>* lf0 lf3" "life_step\<^sup>*\<^sup>* lf0 lf5" "life_step\<^sup>*\<^sup>* lf0 lf7" "life_step lf7 lf8"
  "life_step lf5 lf6"
proof -
  show "initial_life lf0" using lf_init unfolding initial_life_def by blast
  have s: "life_step lf0 lf1" "life_step lf1 lf2" "life_step lf2 lf3" "life_step lf3 lf4" "life_step lf4 lf5"
    by (rule l_adopt [OF lf_adopt] l_install [OF lf_install] l_start [OF lf_start] l_start_on [OF lf_continue] l_start_on [OF lf_finish])+
  show 6: "life_step lf5 lf6" by (rule l_publish [OF lf_publish])
  have "sys_step (ctl lf6) (ctl lf7)" by (rule s_admit [OF lf_admit(1)]) (simp add: lf6_parts)
  from l_outer [OF this] have 7: "life_step lf6 lf7" by (simp add: lf7_def)
  show "life_step lf7 lf8" by (rule l_quiesce [OF lf_quiesce(1)])
  show 2: "life_step\<^sup>*\<^sup>* lf0 lf2" using s(1,2) by (meson converse_rtranclp_into_rtranclp r_into_rtranclp)
  show 3: "life_step\<^sup>*\<^sup>* lf0 lf3" using 2 s(3) by (rule rtranclp.rtrancl_into_rtrancl)
  show 5: "life_step\<^sup>*\<^sup>* lf0 lf5" using 3 s(4,5) by (meson rtranclp.rtrancl_into_rtrancl)
  show "life_step\<^sup>*\<^sup>* lf0 lf7" using 5 6 7 by (meson rtranclp.rtrancl_into_rtrancl)
qed

lemma lf_states: "states lf3 = [''p/m'' \<mapsto> lf_starting]" "states lf5 = [''p/m'' \<mapsto> lf_healthy]" "states lf7 = [''p/m'' \<mapsto> lf_active]"
  "operations lf3 = [''p/m'' \<mapsto> ''b'']" "instance_records lf3 1 \<noteq> None"
  by (simp_all add: lf3_def lf5_def lf_began_def lf7_def lf6_parts)

lemma lf_starting_parts: "lifecycle lf_starting = STARTING" "identity lf_starting = Some lf_run" "lifecycle lf_healthy = STARTING"
  by (simp_all add: lf_starting_def lf_healthy_def)

text \<open>The start of the same instance fails; a stop fails.\<close>

lemma lf_fail:
  "snd (start_resume lf_env (Finished (Inl RuntimeError)) (Inr True) (Inr True) (Awaiting_start lf_frame ''p/m'') lf3)
     = Inr (Awaiting_stop lf_frame ''p/m'' RuntimeError)"
  by (simp add: start_resume_def ecatch_def eff_eval method_done_def start_failed_def close_run_def epart_def close_gate_def cancel_scope_def
      set_state_def the_record_def fresh_def update_instance_def launch_def assert_operation_def pending_task_def the_task_def lf_methods lf_env_def
      lf3_def lf2_def lf1_def lf0_def lf_began_def lf_frame_def lf_starting_def lf_record_def opt_is_iff Let_def)

definition lf_failed :: life where
  "lf_failed = lf2\<lparr>states := [''p/m'' \<mapsto> lf_stopped\<lparr>lifecycle := FAILED, reason_code := Some ''stop_failed'', cleanup_pending := True\<rparr>]\<rparr>"

lemma lf_stop_fails:
  "stop_resume lf_env (Inl RuntimeError) (Finished (Inr None)) (Inr True) (Stop_scope ''p/m'' ''b'') lf2 = (lf_failed, Inl RuntimeError)"
  by (simp add: stop_resume_def stop_guarded_def ecatch_def eff_eval mark_cleanup_failed_def instance_cleanup_pending_def set_state_def
      lf_failed_def lf2_def lf1_def lf0_def lf_record_def lf_stopped_def)

end
