(* ===== verification/Lifecycle_Properties.thy ===== *)
theory Lifecycle_Properties
  imports Lifecycle_Run
begin

text \<open>
  The promises of the lifecycle: growing epochs, the fence a quiesced run stands behind, the one
  way to become active, what starting and publishing achieve, and what failures leave behind.
\<close>

section \<open>Identities\<close>

lemma current_identity_iff: "Lifecycle.current_identity (life_view s) mid = Some r \<longleftrightarrow> (\<exists>st. states s mid = Some st \<and> identity st = Some r)"
  by (cases "states s mid") (simp_all add: Lifecycle.current_identity_def life_view_def)

text \<open>Quiescing an active run gives the module a new run object.\<close>

lemma quiesce_new_fresh:
  "wp (quiesce_new mid sn m st) (\<lambda>q t. next_id s \<le> addr q \<and> (\<exists>st'. states t mid = Some st' \<and> identity st' = Some q)) (\<lambda>_ _. True) u"
  if "next_id s \<le> next_id u"
  using that unfolding quiesce_new_def new_identity_def fresh_def set_epoch_def publish_projection_def on_registry_def set_state_def
  by (simp add: wp_simps)

lemma quiesce_active_fresh:
  assumes "quiesce mid oper why s = (t, Inr q)" "states s mid = Some st" "lifecycle st = ACTIVE"
  shows "next_id s \<le> addr q \<and> (\<exists>st'. states t mid = Some st' \<and> identity st' = Some q)"
proof -
  have "wp (quiesce mid oper why) (\<lambda>q t. next_id s \<le> addr q \<and> (\<exists>st'. states t mid = Some st' \<and> identity st' = Some q)) (\<lambda>_ _. True) s"
    using assms(2,3) unfolding quiesce_def module_snapshot_def claim_operation_def close_run_def cancel_scope_def
    by (cases "identity st") (simp_all add: wp_simps quiesce_new_fresh cong: if_cong split: option.split)
  then show ?thesis by (simp add: wp_def assms(1))
qed

lemma quiesce_active_identity:
  "quiesce mid oper why s = (t, Inr q) \<Longrightarrow> states s mid = Some st \<Longrightarrow> lifecycle st = ACTIVE \<Longrightarrow> \<exists>st'. states t mid = Some st' \<and> identity st' = Some q"
  using quiesce_active_fresh by blast

text \<open>Within any run of the lifecycle, whatever the interleaving, a module's later run has a greater epoch than its earlier one.\<close>

theorem run_epochs_increase:
  assumes "initial_life s0" "life_step\<^sup>*\<^sup>* s0 s" "life_step\<^sup>*\<^sup>* s t"
    and "Lifecycle.current_identity (life_view s) mid = Some r" "Lifecycle.current_identity (life_view t) mid = Some r'" "r' \<noteq> r"
  shows "run_epoch (contents r) < run_epoch (contents r')"
proof -
  have inv: "life_inv s" using lifecycles.reachable_inv assms(1,2) by blast
  obtain st where st: "states s mid = Some st" "identity st = Some r" using assms(4) by (auto simp: current_identity_iff)
  obtain st' where st': "states t mid = Some st'" "identity st' = Some r'" using assms(5) by (auto simp: current_identity_iff)
  have "run_epoch (contents r) \<le> known_epoch s mid" using inv st by (simp add: life_inv_def state_ok_def)
  moreover have "known_epoch s mid < run_epoch (contents r')"
    using life_run_grows [OF assms(3) inv] st st' assms(6) by (fastforce simp: runs_grow_def)
  ultimately show ?thesis by simp
qed

theorem run_epochs_increase_witness: "run_epoch (contents lf_run) < run_epoch (contents lf_run2)"
proof (rule run_epochs_increase [OF lf_reachable(1,5)])
  show "life_step\<^sup>*\<^sup>* lf7 lf8" using lf_reachable(6) by (rule r_into_rtranclp)
  show "Lifecycle.current_identity (life_view lf7) ''p/m'' = Some lf_run"
    unfolding current_identity_iff by (simp add: lf_states lf_active_parts)
  from lf_quiesce(1) show "Lifecycle.current_identity (life_view lf8) ''p/m'' = Some lf_run2"
    unfolding current_identity_iff by (rule quiesce_active_identity [where st = lf_active]) (simp_all add: lf_states lf_active_parts)
qed (simp add: lf_run_def lf_run2_def)

text \<open>A run that a module no longer has is never its current run again.\<close>

lemma retired_run:
  assumes "life_inv s" "states s mid = Some st" "identity st = Some r" "next_id s \<le> next_id u" "life_inv u"
    and "states u mid = Some st'" "identity st' \<noteq> Some r" "life_step\<^sup>*\<^sup>* u t"
  shows "Lifecycle.current_identity (life_view t) k \<noteq> Some r"
proof
  assume "Lifecycle.current_identity (life_view t) k = Some r"
  then obtain x where x: "states t k = Some x" "identity x = Some r" by (auto simp: current_identity_iff)
  have r: "run_module (contents r) = mid" "addr r < next_id s" using assms(1-3) by (auto simp: life_inv_def state_ok_def)
  have "life_inv t" using lifecycles.run_inv assms(5,8) by blast
  with x r(1) have "k = mid" by (auto simp: life_inv_def state_ok_def)
  with x life_run_grows [OF assms(8,5)] r(2) assms(4) have "\<exists>y. states u mid = Some y \<and> identity y = Some r"
    by (fastforce simp: runs_grow_def)
  with assms(6,7) show False by simp
qed

lemma lease_needs_current_run:
  assumes "lease_check (life_adm e t) (ctl t) l = Inr ()" "require_record (ctl t) l = Inr rec"
  shows "\<exists>k. Lifecycle.current_identity (life_view t) k = Some (rec_identity rec)"
proof -
  from assms obtain m r where "registered (ctl t) (lease_module (contents l)) = Inr m" "active_identity (life_adm e t) (ctl t) m = Inr r"
      "is_same (rec_identity rec) r"
    by (auto simp: lease_check_def rbind_eq_Inr)
  then show ?thesis
    by (auto simp: active_identity_eq_Inr life_adm_def is_same_def)
qed

text \<open>C6: Once an active run has been quiesced, no lease issued for that run passes its check again, whatever happens afterwards.\<close>

theorem quiesced_run_is_fenced:
  assumes "initial_life s0" "life_step\<^sup>*\<^sup>* s0 s" "states s mid = Some st" "lifecycle st = ACTIVE" "identity st = Some r"
    and "quiesce mid oper why s = (u, Inr q)" "life_step\<^sup>*\<^sup>* u t"
    and "require_record (ctl t) l = Inr rec" "rec_identity rec = r"
  shows "lease_check (life_adm e t) (ctl t) l \<noteq> Inr ()"
proof
  assume ok: "lease_check (life_adm e t) (ctl t) l = Inr ()"
  have inv: "life_inv s" using lifecycles.reachable_inv assms(1,2) by blast
  have step: "life_step s u" using assms(6) by (rule l_quiesce)
  have good: "good UNIV s u" by (rule life_step_good [OF step inv])
  from quiesce_active_fresh [OF assms(6,3,4)] obtain st' where
    st': "next_id s \<le> addr q" "states u mid = Some st'" "identity st' = Some q" by blast
  have "addr r < next_id s" using inv assms(3,5) by (auto simp: life_inv_def state_ok_def)
  with st' have "identity st' \<noteq> Some r" by auto
  then show False
    using retired_run [OF inv assms(3,5) goodD(1,3) [OF good] st'(2) _ assms(7)] lease_needs_current_run [OF ok assms(8)] assms(9)
    by blast
qed

theorem quiesced_run_is_fenced_witness: "lease_check (life_adm lf_env lf8) (ctl lf8) (Obj 0 lf_made) \<noteq> Inr ()"
proof (rule quiesced_run_is_fenced [OF lf_reachable(1,5) _ _ _ lf_quiesce(1) rtranclp.rtrancl_refl])
  show "states lf7 ''p/m'' = Some lf_active" "lifecycle lf_active = ACTIVE" "identity lf_active = Some lf_run"
    by (simp_all add: lf_states lf_active_parts)
  show "require_record (ctl lf8) (Obj 0 lf_made) = Inr (view_record (snd issued1) (Obj 0 lf_made) lf_run (Some ''q''))"
    unfolding require_record_def lf_quiesce(2) by (simp add: lf_admit(2) lf_made_def view_record_def)
qed (simp add: view_record_def)

text \<open>C7: A module becomes active in one way only: by the publication of a committed intent, under the
  operation that owns the module, for its current run, which has started and reported its
  health.  Then its gate is open for that run and the registry has it enabled at the run's epoch.
\<close>

theorem only_publication_activates:
  assumes "initial_life s0" "life_step\<^sup>*\<^sup>* s0 s" "life_step s t"
    and "states t mid = Some st'" "lifecycle st' = ACTIVE" "\<not> is_active_module s mid"
  shows "\<exists>st r oper e expected out. publish_committed_intent e mid oper r True expected s = (t, out)
     \<and> states s mid = Some st \<and> identity st = Some r \<and> lifecycle st = STARTING \<and> report st \<noteq> None \<and> operations s mid = Some oper
     \<and> identity st' = Some r \<and> opened (ctl t) mid r"
proof -
  have inv: "life_inv s" using lifecycles.reachable_inv assms(1,2) by blast
  have not: "states s mid = Some st \<Longrightarrow> lifecycle st \<noteq> ACTIVE" for st using assms(6) by (simp add: is_active_module_def)
  from life_step_cases [OF assms(3) inv] show ?thesis
  proof (elim disjE exE)
    assume "good {} s t"
    then have "no_new_active {} s t" by (simp add: good_def)
    then show ?thesis using assms(4,5) not by (fastforce simp: no_new_active_def)
  next
    fix e k oper r expected out
    assume pub: "publish_committed_intent e k oper r True expected s = (t, out)"
    have "good {k} s t" by (rule soundD [OF pub publish_sound [OF good_refl [OF inv]]]) simp
    then have "mid \<in> {k}" using assms(4,5) not by (fastforce simp: good_def no_new_active_def)
    then have k: "k = mid" by simp
    have "states s mid = Some st \<Longrightarrow> identity st = Some r \<Longrightarrow> run_module (contents r) = mid" for st
      using inv by (simp add: life_inv_def state_ok_def)
    then have "published s mid r oper t"
      using publish_outcome [of s mid r e oper expected] pub unfolding k by (simp add: wp_def split: sum.splits)
    with assms(4,5) not [of st'] pub show ?thesis unfolding published_def k by blast
  qed
qed

theorem only_publication_activates_witness:
  "\<exists>st r oper e expected out. publish_committed_intent e ''p/m'' oper r True expected lf5 = (lf6, out)
     \<and> states lf5 ''p/m'' = Some st \<and> identity st = Some r \<and> lifecycle st = STARTING \<and> report st \<noteq> None \<and> operations lf5 ''p/m'' = Some oper
     \<and> identity lf_active = Some r \<and> opened (ctl lf6) ''p/m'' r"
  by (rule only_publication_activates [OF lf_reachable(1,4,7)])
    (simp_all add: lf6_parts lf_active_parts is_active_module_def lf_states lf_starting_parts)

text \<open>After a publication that returned, the guard of the module passes at the epoch of the published run and answers with that run.\<close>

theorem published_run_is_live:
  assumes "initial_life s0" "life_step\<^sup>*\<^sup>* s0 s" "publish_committed_intent e mid oper r True expected s = (t, Inr x)"
  shows "\<exists>st. life_guard e' mid (Some (run_epoch (contents r))) None t = Inr st \<and> identity st = Some r \<and> opened (ctl t) mid r"
proof -
  have inv: "life_inv s" using lifecycles.reachable_inv assms(1,2) by blast
  let ?Q = "\<lambda>t. opened (ctl t) mid r \<and> (\<exists>st'. states t mid = Some st' \<and> lifecycle st' = ACTIVE \<and> identity st' = Some r)"
  have "wp (publish_committed_intent e mid oper r True expected) (\<lambda>_. ?Q) (\<lambda>_ _. True) s"
    unfolding publish_committed_intent_def publish_or_fail_def fail_run_def assert_operation_def publish_projection_def on_registry_def
       close_run_def set_state_def notify_again_def
    apply (simp add: wp_simps close_gate_cases)
    apply (intro allI impI)
    subgoal for st
      by (rule wp_mono [OF open_run_outcome [of _ mid st r]])
        (use inv in \<open>auto simp: opt_is_iff wp_simps life_inv_def state_ok_def\<close>)
    done
  then have Q: "?Q t" by (simp add: wp_def assms(3))
  then obtain m where "registered (ctl t) mid = Inr m" "enabled m" "epoch m = run_epoch (contents r)" by (auto simp: opened_def)
  then have "snd (module_snapshot mid t) = Inr (snapshot (ctl_registry (ctl t)), m)"
    by (auto simp: module_snapshot_def ebind_def eget_def eres_def registered_def rbind_eq_Inr)
  then show ?thesis using Q \<open>enabled m\<close> \<open>epoch m = _\<close> by (auto simp: life_guard_def optional_def)
qed

theorem published_run_is_live_witness:
  "\<exists>st. life_guard lf_env ''p/m'' (Some 1) None lf6 = Inr st \<and> identity st = Some lf_run \<and> opened (ctl lf6) ''p/m'' lf_run"
  using published_run_is_live [OF lf_reachable(1,4) lf_publish, of lf_env] by (simp add: lf_run_def)

section \<open>An undisturbed start\<close>

definition starting :: "string \<Rightarrow> string \<Rightarrow> nat \<Rightarrow> start_frame \<Rightarrow> life \<Rightarrow> bool" where
  "starting mid oper i f s \<longleftrightarrow> sf_module f = mid \<and> sf_operation f = oper \<and> sf_record f = i \<and> run_module (contents (sf_identity f)) = mid
     \<and> operations s mid = Some oper \<and> find (\<lambda>(_, j). j = i) (instances s) = Some (mid, i)
     \<and> (\<exists>st. states s mid = Some st \<and> lifecycle st = STARTING \<and> identity st = Some (sf_identity f) \<and> \<not> cleanup_pending st)
     \<and> (\<exists>rec. instance_records s i = Some rec \<and> {''start'', ''check_health''} \<subseteq> set (callables (record_instance rec)))"

text \<open>A module that nothing keeps from starting.\<close>

definition dormant :: "life \<Rightarrow> string \<Rightarrow> registered_module \<Rightarrow> nat \<Rightarrow> bool" where
  "dormant s mid m i \<longleftrightarrow> registered (ctl s) mid = Inr m \<and> candidates_for_module s mid None = [] \<and> operations s mid = None
     \<and> map_of (instances s) mid = Some i \<and> find (\<lambda>(_, j). j = i) (instances s) = Some (mid, i)
     \<and> (\<exists>rec. instance_records s i = Some rec \<and> (start_attempted rec \<longrightarrow> stop_completed rec) \<and> setup_task rec = None
          \<and> {''start'', ''check_health''} \<subseteq> set (callables (record_instance rec)))
     \<and> (\<forall>st. states s mid = Some st \<longrightarrow> \<not> cleanup_pending st \<and> lifecycle st \<notin> {ACTIVE, STARTING, STOPPING})
     \<and> check_RunIdentity \<lparr>runtime_id = life_runtime s, run_module = mid, run_epoch = max (known_epoch s mid) (epoch m) + 1\<rparr> = Inr ()"

lemma find_snd: "find (\<lambda>(_, j). j = i) xs = Some (a, b) \<Longrightarrow> b = i"
  by (auto simp: find_Some_iff)

lemma snapshot_registered: "registered (ctl s) mid = Inr m \<Longrightarrow> (\<And>g Q E. wp (module_snapshot mid) Q E s = Q (snapshot (ctl_registry (ctl s)), m) s)"
  by (auto simp: registered_eq_Inr module_snapshot_def wp_simps snapshot_module_def)

lemma start_begins:
  assumes "dormant s mid m i" "operation_text oper = Inr ()"
  shows "wp (start_candidate e (Inr True) a mid oper)
    (\<lambda>p t. \<exists>f. p = Awaiting_start f mid \<and> starting mid oper i f t \<and> sf_manifest f = manifest m \<and> ctl t = ctl s
      \<and> run_epoch (contents (sf_identity f)) = max (known_epoch s mid) (epoch m) + 1) (\<lambda>_ _. False) s"
  using assms unfolding dormant_def start_candidate_def start_begin_def
  apply (clarsimp simp: wp_simps snapshot_registered claim_operation_def the_record_def set_epoch_def new_identity_def fresh_def set_state_def update_instance_def launch_def assert_operation_def pending_task_def the_task_def)
  apply (simp add: starting_def split: option.split)
  done

lemma start_continues:
  assumes "starting mid oper i f s" "\<forall>k. task_done e k"
  shows "wp (start_resume e (Finished (Inr h)) (Inr True) a (Awaiting_start f mid))
    (\<lambda>p t. p = Awaiting_health f mid \<and> starting mid oper i f t \<and> ctl t = ctl s) (\<lambda>_ _. False) s"
proof -
  from assms(1) obtain st rec where "states s mid = Some st" "lifecycle st = STARTING" "identity st = Some (sf_identity f)" "\<not> cleanup_pending st"
    and "instance_records s i = Some rec" "''start'' \<in> set (callables (record_instance rec))" "''check_health'' \<in> set (callables (record_instance rec))"
    by (auto simp: starting_def)
  then show ?thesis
    using assms unfolding start_resume_def method_done_def
    by (cases "setup_task rec")
      (simp_all add: starting_def wp_simps assert_starting_candidate_def assert_operation_def update_instance_def launch_def the_record_def
        fresh_def pending_task_def the_task_def complete_stop_def opt_is_iff)
qed

lemma start_reports:
  assumes "starting mid oper i f s" "validate_health (sf_manifest f) (Some rep) = Inr rep"
  shows "wp (start_resume e (Finished (Inr (Some rep))) a a' (Awaiting_health f mid))
    (\<lambda>p t. p = Started (sf_identity f) rep \<and> ctl t = ctl s \<and> operations t mid = Some oper
       \<and> (\<exists>st. states t mid = Some st \<and> lifecycle st = STARTING \<and> identity st = Some (sf_identity f) \<and> \<not> cleanup_pending st \<and> report st = Some rep))
    (\<lambda>_ _. False) s"
  using assms unfolding starting_def start_resume_def method_done_def start_healthy_def
  apply (clarsimp simp: wp_simps assert_starting_candidate_def assert_operation_def set_state_def complete_stop_def opt_is_iff)
  done

lemma projection_accepted:
  assumes "map_of (snapshot_modules (snapshot g)) mid = Some (Obj a m)" "module_id m = mid" "lifecycle_owner g \<noteq> None" "0 \<le> ep"
  shows "\<exists>g' a'. publish_lifecycle_projection mid True ep (Some (revision (snapshot g))) g = Inr g'
    \<and> map_of (snapshot_modules (snapshot g')) mid = Some (Obj a' (m\<lparr>enabled := True, epoch := ep\<rparr>)) \<and> revision (snapshot g) \<le> revision (snapshot g')"
  using assms by (auto simp: publish_lifecycle_projection_def snapshot_module_def republish_def Let_def publish_snapshot_def)

lemma publish_activates:
  assumes "operations s mid = Some oper" "operation_text oper = Inr ()" "states s mid = Some st" "lifecycle st = STARTING" "identity st = Some r"
    "\<not> cleanup_pending st" "report st = Some rep" "run_module (contents r) = mid" "0 < run_epoch (contents r)"
    "registered (ctl s) mid = Inr m" "module_id m = mid" "lifecycle_owner (ctl_registry (ctl s)) \<noteq> None" "open_gates (ctl s) mid = None"
    "check_HealthReport rep = Inr ()" "fst ` set (capability_health rep) = cap_id ` set (capabilities (manifest m))"
    "validate_module_id mid = Inr ()" "0 \<le> revision (snapshot (ctl_registry (ctl s)))"
  shows "wp (publish_committed_intent e mid oper r True (revision (snapshot (ctl_registry (ctl s)))))
    (\<lambda>_ t. is_active_identity t r \<and> opened (ctl t) mid r) (\<lambda>_ _. False) s"
proof -
  from assms(10) obtain a where "map_of (snapshot_modules (snapshot (ctl_registry (ctl s)))) mid = Some (Obj a m)"
    unfolding registered_eq_Inr by blast
  from projection_accepted [OF this assms(11,12), of "run_epoch (contents r)"] assms(9) obtain g b where
    g: "publish_lifecycle_projection mid True (run_epoch (contents r)) (Some (revision (snapshot (ctl_registry (ctl s))))) (ctl_registry (ctl s)) = Inr g"
    and m: "map_of (snapshot_modules (snapshot g)) mid = Some (Obj b (m\<lparr>enabled := True, epoch := run_epoch (contents r)\<rparr>))"
    and le: "revision (snapshot (ctl_registry (ctl s))) \<le> revision (snapshot g)" by auto
  let ?st = "st\<lparr>lifecycle_enabled := True, lifecycle := ACTIVE, registry_revision := revision (snapshot g), reason_code := None\<rparr>"
  let ?c = "(ctl s)\<lparr>ctl_registry := g\<rparr>"
  have act: "activate (life_adm e (s\<lparr>ctl := ?c, states := (states s)(mid \<mapsto> ?st)\<rparr>)) r rep ?c
      = Inr (?c\<lparr>open_gates := (open_gates ?c)(mid \<mapsto> r)\<rparr>)"
    unfolding activate_eq_Inr using assms m
    by (simp add: life_adm_def is_active_identity_def Lifecycle.current_identity_def life_view_def registered_eq_Inr opt_is_iff)
  have pos: "0 \<le> max (lifecycle_epoch st) (run_epoch (contents r))" using assms(9) by simp
  show ?thesis
    using assms(1-9,16,17) le m pos
    unfolding publish_committed_intent_def publish_or_fail_def open_run_def assert_operation_def publish_projection_def on_registry_def set_state_def
      notify_again_def drop_operation_def update_instance_def
    apply (simp add: wp_simps Let_def opt_is_iff g act)
    apply (simp add: is_active_identity_def opened_def registered_eq_Inr status_def lifecycle_state_of_def life_view_def snapshot_module_def
        publish_snapshot_def check_ModuleStatus_def opt_is_iff split: option.split)
    done
qed

lemma wp_total: "wp f Q (\<lambda>_ _. False) s \<Longrightarrow> \<exists>t a. f s = (t, Inr a) \<and> Q a t"
  by (auto simp: wp_def split: prod.splits sum.splits)

text \<open>C8: An undisturbed start succeeds: for a dormant module whose methods return awaitables that
  finish in time, and whose report covers its capabilities, the three parts of the start and the
  publication at the current revision all return, and they leave the module active in the new
  run with its gate open.
\<close>

theorem undisturbed_start_succeeds:
  assumes "dormant s mid m i" "module_id m = mid" "operation_text oper = Inr ()"
    and "lifecycle_owner (ctl_registry (ctl s)) \<noteq> None" "0 \<le> revision (snapshot (ctl_registry (ctl s)))" "open_gates (ctl s) mid = None"
    and "validate_module 0 (manifest m) = Inr (manifest m)" "validate_health (manifest m) (Some rep) = Inr rep" "\<forall>k. task_done e2 k"
  shows "\<exists>p1 s1 p2 s2 r s3 x s4. start_candidate e1 (Inr True) a1 mid oper s = (s1, Inr p1)
     \<and> start_resume e2 (Finished (Inr h)) (Inr True) a2 p1 s1 = (s2, Inr p2)
     \<and> start_resume e3 (Finished (Inr (Some rep))) a3 a4 p2 s2 = (s3, Inr (Started r rep))
     \<and> publish_committed_intent e4 mid oper r True (revision (snapshot (ctl_registry (ctl s3)))) s3 = (s4, Inr x)
     \<and> is_active_identity s4 r \<and> opened (ctl s4) mid r"
proof -
  from wp_total [OF start_begins [OF assms(1,3), of e1 a1]] obtain s1 p1 f where
    1: "start_candidate e1 (Inr True) a1 mid oper s = (s1, Inr p1)" "p1 = Awaiting_start f mid" "starting mid oper i f s1"
      "sf_manifest f = manifest m" "ctl s1 = ctl s" "run_epoch (contents (sf_identity f)) = max (known_epoch s mid) (epoch m) + 1" by blast
  from wp_total [OF start_continues [OF 1(3) assms(9), of h a2]] obtain s2 where
    2: "start_resume e2 (Finished (Inr h)) (Inr True) a2 (Awaiting_start f mid) s1 = (s2, Inr (Awaiting_health f mid))"
      "starting mid oper i f s2" "ctl s2 = ctl s1" by blast
  have rep: "validate_health (sf_manifest f) (Some rep) = Inr rep" using assms(8) 1(4) by simp
  from wp_total [OF start_reports [OF 2(2) rep, of e3 a3 a4]] obtain s3 st where
    3: "start_resume e3 (Finished (Inr (Some rep))) a3 a4 (Awaiting_health f mid) s2 = (s3, Inr (Started (sf_identity f) rep))" "ctl s3 = ctl s2"
      "operations s3 mid = Some oper" "states s3 mid = Some st" "lifecycle st = STARTING" "identity st = Some (sf_identity f)"
      "\<not> cleanup_pending st" "report st = Some rep" by blast
  have c: "ctl s3 = ctl s" using 1 2 3 by simp
  have check: "check_RunIdentity \<lparr>runtime_id = life_runtime s, run_module = mid, run_epoch = max (known_epoch s mid) (epoch m) + 1\<rparr> = Inr ()"
    and reg: "registered (ctl s) mid = Inr m" using assms(1) by (simp_all add: dormant_def)
  have ids: "validate_module_id mid = Inr ()" "0 < run_epoch (contents (sf_identity f))"
    using check 1(6) by (auto simp: check_RunIdentity_def rbind_eq_Inr require_positive_int_def)
  have health: "check_HealthReport rep = Inr ()" "fst ` set (capability_health rep) = cap_id ` set (capabilities (manifest m))"
    using assms(7,8) by (auto simp: validate_health_def rbind_eq_Inr)
  have "wp (publish_committed_intent e4 mid oper (sf_identity f) True (revision (snapshot (ctl_registry (ctl s3)))))
    (\<lambda>_ t. is_active_identity t (sf_identity f) \<and> opened (ctl t) mid (sf_identity f)) (\<lambda>_ _. False) s3"
    using 3 1(3) c reg assms(2-6) ids health by (intro publish_activates) (simp_all add: starting_def)
  from wp_total [OF this] 1 2 3 show ?thesis by blast
qed

theorem undisturbed_start_succeeds_witness:
  "\<exists>p1 s1 p2 s2 r s3 x s4. start_candidate lf_env (Inr True) (Inr True) ''p/m'' ''b'' lf2 = (s1, Inr p1)
     \<and> start_resume lf_env (Finished (Inr None)) (Inr True) (Inr True) p1 s1 = (s2, Inr p2)
     \<and> start_resume lf_env (Finished (Inr (Some lf_report))) (Inr True) (Inr True) p2 s2 = (s3, Inr (Started r lf_report))
     \<and> publish_committed_intent lf_env ''p/m'' ''b'' r True (revision (snapshot (ctl_registry (ctl s3)))) s3 = (s4, Inr x)
     \<and> is_active_identity s4 r \<and> opened (ctl s4) ''p/m'' r"
proof (rule undisturbed_start_succeeds)
  show "dormant lf2 ''p/m'' (lf_registered False 0) 1"
    by (simp add: dormant_def registered_def snapshot_module_def candidates_for_module_def known_epoch_def lf_run_ok lf_methods
        lf2_def lf1_def lf0_def lf_record_def lf_stopped_def)
qed (simp_all add: lf_texts lf_module lf_health lf_env_def lf2_def lf1_def lf0_def sys0_def controller_init_def)

section \<open>Failures\<close>















fun stop_module :: "stop_point \<Rightarrow> string" where
  "stop_module (Stop_scope mid oper) = mid"
| "stop_module (Stop_setup mid oper i) = mid"
| "stop_module (Stop_method mid oper i m) = mid"
| "stop_module (Stopped_at st) = []"

lemma mark_cleanup_reason:
  "\<not> blank why \<Longrightarrow> wp (mark_cleanup_failed e mid why) (\<lambda>_ t. \<forall>st. states t mid = Some st \<longrightarrow> reason_code st = Some why) (\<lambda>_ _. False) s"
  unfolding mark_cleanup_failed_def
  by (auto simp: wp_simps close_run_def set_state_def close_gate_cases)

lemma stop_guarded_reason:
  "wp (stop_guarded e mid body) (\<lambda>_ _. True) (\<lambda>x t. x \<notin> {CancelledError, LifecycleStopTimeout} \<longrightarrow>
     (\<forall>st. states t mid = Some st \<longrightarrow> reason_code st = Some ''stop_failed'')) s"
proof -
  have mark: "wp (mark_cleanup_failed e mid why) Q E u"
    if "\<not> blank why" "\<And>a t. (\<forall>st. states t mid = Some st \<longrightarrow> reason_code st = Some why) \<Longrightarrow> Q a t" for why Q E u
    by (rule wp_mono [OF mark_cleanup_reason [OF that(1)]]) (auto intro: that(2))
  have "wp body (\<lambda>_ _. True) (\<lambda>_ _. True) s" by (simp add: wp_def split: prod.split sum.split)
  then show ?thesis
    unfolding stop_guarded_def wp_ecatch
    by (rule wp_mono) (auto simp: wp_simps intro!: mark)
qed

text \<open>C11: The status of a module whose stop failed with an ordinary exception cannot be read: the
  reason recorded is not in the public catalog, and the status raises.
\<close>

theorem failed_stop_hides_status:
  assumes "stop_resume e waiting w a p s = (t, Inl x)" "x \<notin> {CancelledError, LifecycleStopTimeout}"
    and "states t (stop_module p) \<noteq> None" "registered (ctl t) (stop_module p) = Inr m"
  shows "status (stop_module p) t = Inl ValueError"
proof -
  let ?E = "\<lambda>x t. x \<notin> {CancelledError, LifecycleStopTimeout} \<longrightarrow>
     (\<forall>st. states t (stop_module p) = Some st \<longrightarrow> reason_code st = Some ''stop_failed'')"
  have "wp (stop_resume e waiting w a p) (\<lambda>_ _. True) ?E s"
    by (cases p) (simp_all only: stop_resume_def stop_point.case stop_module.simps stop_guarded_reason wp_eret)
  then have "?E x t" by (simp add: wp_def assms(1))
  with assms(2,3) obtain st where st: "states t (stop_module p) = Some st" "reason_code st = Some ''stop_failed''" by blast
  have "''stop_failed'' \<notin> set ADMIN_REASON_CODES" by code_simp
  with st assms(4) show ?thesis
    by (auto simp: status_def lifecycle_state_of_def life_view_def registered_eq_Inr snapshot_module_def check_ModuleStatus_def
        validate_module_id_def ensure_def Let_def)
qed

theorem failed_stop_hides_status_witness: "status ''p/m'' lf_failed = Inl ValueError"
  using failed_stop_hides_status [OF lf_stop_fails, of "lf_registered False 0"]
  by (simp add: lf_failed_def registered_def snapshot_module_def lf2_def lf1_def)

text \<open>An operation that raises before it changes anything.\<close>

definition refuses :: "'a op \<Rightarrow> life \<Rightarrow> bool" where
  "refuses f s \<longleftrightarrow> (\<exists>x. f s = (s, Inl x))"

lemma refuses_get: "refuses (g (f s)) s \<Longrightarrow> refuses (ebind (eget f) g) s"
  and refuses_res: "(\<And>a. refuses (h a) s) \<Longrightarrow> refuses (ebind (eres r) h) s"
  and refuses_ensure: "(c \<Longrightarrow> refuses (k ()) s) \<Longrightarrow> refuses (ebind (eensure c x) k) s"
  and refuses_raise: "refuses (eraise y) s"
  and refuses_option: "refuses l s \<Longrightarrow> (\<And>a. v = Some a \<Longrightarrow> refuses (m a) s) \<Longrightarrow> refuses (case v of None \<Rightarrow> l | Some a \<Rightarrow> m a) s"
  and refuses_prod: "(\<And>a b. refuses (n a b) s) \<Longrightarrow> refuses (case w of (a, b) \<Rightarrow> n a b) s"
  and refuses_bind: "refuses q s \<Longrightarrow> refuses (ebind q z) s"
  by (auto simp: refuses_def ebind_def eget_def eres_def eensure_def eraise_def ensure_def split: option.split sum.split prod.split)

lemma refuses_snapshot: "(\<And>v. refuses (g v) s) \<Longrightarrow> refuses (ebind (module_snapshot mid) g) s"
  by (auto simp: refuses_def module_snapshot_def ebind_def eget_def eres_def split: sum.split)

lemma refuses_claim:
  assumes "operations s mid = Some oper" "oper' \<noteq> oper" "states s mid = Some st" "lifecycle st \<in> {STARTING, ACTIVE, STOPPING}"
  shows "refuses (ebind (claim_operation mid oper' c) g) s"
  by (rule refuses_bind)
    (use assms in \<open>auto simp: refuses_def claim_operation_def ebind_def eget_def eres_def eensure_def ensure_def split: sum.split\<close>)

lemma refuses_assert:
  "operations s mid = Some oper \<Longrightarrow> oper' \<noteq> oper \<Longrightarrow> refuses (ebind (assert_operation mid oper') g) s"
  by (rule refuses_bind) (simp add: refuses_def assert_operation_def ebind_def eget_def eensure_def eres_def)

text \<open>C10: While a module starts, runs under an operation or stops, another operation cannot touch it:
  installing, starting, quiescing, stopping and publishing under another name raise and change
  nothing.
\<close>

theorem operations_exclude_each_other:
  assumes "operations s mid = Some oper" "oper' \<noteq> oper" "states s mid = Some st" "lifecycle st \<in> {STARTING, ACTIVE, STOPPING}"
  shows "refuses (install_dormant pid mid oper' inst hs b) s \<and> refuses (start_candidate e a a' mid oper') s
    \<and> refuses (quiesce mid oper' why) s \<and> refuses (stop_candidate e a mid oper' timeout) s
    \<and> refuses (publish_committed_intent e mid oper' r en expected) s"
  unfolding install_dormant_def start_candidate_def start_begin_def quiesce_def stop_candidate_def publish_committed_intent_def Let_def
  by (intro conjI)
    (rule refuses_claim [OF assms] refuses_assert [OF assms(1,2)] refuses_get refuses_snapshot refuses_res refuses_ensure refuses_raise
      refuses_option refuses_prod refuses_bind)+

theorem operations_exclude_each_other_witness:
  "refuses (install_dormant ''p'' ''p/m'' ''z'' lf_instance lf_handlers True) lf3 \<and> refuses (start_candidate lf_env (Inr True) (Inr True) ''p/m'' ''z'') lf3
    \<and> refuses (quiesce ''p/m'' ''z'' ''off'') lf3 \<and> refuses (stop_candidate lf_env (Inr True) ''p/m'' ''z'' (Fin 1)) lf3
    \<and> refuses (publish_committed_intent lf_env ''p/m'' ''z'' lf_run True 2) lf3"
  by (rule operations_exclude_each_other [of lf3 "''p/m''" "''b''" "''z''" lf_starting]) (simp_all add: lf_states lf_starting_parts)

end
