(* ===== verification/Task_Scope.thy ===== *)
theory Task_Scope
  imports Schema Effects
begin

text \<open>
  Task scopes (\<open>core/task_scope.py\<close>): a scope starts tasks, refuses work after its deadline,
  its cancellation or its closing, cancels what it started, waits a finite time for it to end and
  keeps a bounded history.  The state holds the scope and the tasks it started.  A coroutine is
  cut at its awaits: the parts are operations, and what lives across an await is the value the
  part before it returns (\<open>run_point\<close>, \<open>wait_point\<close>).  The clock, the answer of the identity
  check, of the task observer and of the cleanup callback are the environment of an operation.
\<close>

section \<open>Tasks and scopes\<close>

text \<open>
  How a task ends.  A result is a token for the value; \<open>error_code\<close> of an outcome is the class
  name of the exception, given by \<open>class_name\<close>.
\<close>

datatype task_end = Returned nat | Raised exn | Cancelled

text \<open>What a task runs: an awaitable handed to the scope, or the supervising coroutine of \<open>create_task\<close>.\<close>

datatype awaitable = Given nat | Supervise nat string

record task_outcome =
  outcome_name :: string
  outcome_status :: string
  outcome_error :: "string option"
  outcome_cancelled :: bool

text \<open>
  A task object: its name and work, the awaitable that \<open>create_task\<close> closes if the task never
  starts, whether the work was started, how it ended, whether cancellation was requested, and
  whether its done callbacks have run.
\<close>

record scoped_task =
  task_name :: string
  task_work :: awaitable
  supervises :: "nat option"
  task_started :: bool
  task_done :: "task_end option"
  cancel_asked :: bool
  called_back :: bool

record task_scope =
  scope_module :: string
  scope_epoch :: int
  scope_revision :: "int option"
  scope_deadline :: "rat option"
  cleanup_timeout :: rat
  history_limit :: nat
  has_current_check :: bool
  has_cleanup_callback :: bool
  pending :: "(nat \<times> string) list"
  outcomes :: "task_outcome list"
  cancel_requested :: bool
  closed :: bool
  deadline_exceeded :: bool
  cleanup_timeout_notified :: bool
  scope_tasks :: "nat \<Rightarrow> scoped_task option"
  next_task :: nat
  closed_awaitables :: "awaitable list"
  notices :: "string list"

record scope_env =
  clock :: rat
  current_answer :: "unit res"
  observer_check :: "unit res"
  observer_register :: "unit res"
  callback_answer :: "unit res"
  class_name :: "exn \<Rightarrow> string"

type_synonym 'a sop = "(task_scope, 'a) eff"

section \<open>Construction\<close>

definition finite_timestamp :: "pyfloat \<Rightarrow> rat res" where
  "finite_timestamp x = (case x of Fin q \<Rightarrow> if q \<le> 0 then Inl ValueError else Inr q | _ \<Rightarrow> Inl ValueError)"

definition finite_duration :: "pyfloat \<Rightarrow> rat res" where
  "finite_duration x = (case x of Fin q \<Rightarrow> if q < 0 then Inl ValueError else Inr q | _ \<Rightarrow> Inl ValueError)"

definition new_scope ::
  "string \<Rightarrow> int \<Rightarrow> int option \<Rightarrow> pyfloat option \<Rightarrow> bool \<Rightarrow> pyfloat \<Rightarrow> int \<Rightarrow> bool \<Rightarrow> task_scope res" where
  "new_scope mid ep rv deadline check timeout limit callback =
     rbind (ensure (\<not> blank mid) ValueError) (\<lambda>_.
     rbind (ensure (1 \<le> ep) ValueError) (\<lambda>_.
     rbind (ensure (case rv of None \<Rightarrow> True | Some r \<Rightarrow> 0 \<le> r) ValueError) (\<lambda>_.
     rbind (case deadline of None \<Rightarrow> Inr None | Some d \<Rightarrow> rbind (finite_timestamp d) (\<lambda>q. Inr (Some q))) (\<lambda>d.
     rbind (finite_duration timeout) (\<lambda>w.
     rbind (ensure (1 \<le> limit) ValueError) (\<lambda>_.
     Inr \<lparr>scope_module = mid, scope_epoch = ep, scope_revision = rv, scope_deadline = d, cleanup_timeout = w,
          history_limit = nat limit, has_current_check = check, has_cleanup_callback = callback, pending = [], outcomes = [],
          cancel_requested = False, closed = False, deadline_exceeded = False, cleanup_timeout_notified = False,
          scope_tasks = (\<lambda>_. None), next_task = 0, closed_awaitables = [], notices = []\<rparr>))))))"

text \<open>The properties of a scope that are computed.\<close>

definition cleanup_pending_of :: "task_scope \<Rightarrow> bool" where
  "cleanup_pending_of s \<longleftrightarrow> pending s \<noteq> []"

definition tasks_of :: "task_scope \<Rightarrow> nat list" where
  "tasks_of s = map fst (pending s)"

definition errors_of :: "task_scope \<Rightarrow> string list" where
  "errors_of s = concat (map (\<lambda>o'. case outcome_error o' of None \<Rightarrow> [] | Some c \<Rightarrow> [c]) (outcomes s))"

section \<open>Cancellation and admission\<close>

definition task_finished :: "task_scope \<Rightarrow> nat \<Rightarrow> bool" where
  "task_finished s t \<longleftrightarrow> (case scope_tasks s t of None \<Rightarrow> True | Some k \<Rightarrow> task_done k \<noteq> None)"

text \<open>\<open>task.cancel()\<close>: a request, without effect on a task that is done.\<close>

definition ask_cancel :: "nat \<Rightarrow> task_scope \<Rightarrow> task_scope" where
  "ask_cancel t s = (case scope_tasks s t of
     None \<Rightarrow> s
   | Some k \<Rightarrow> if task_done k \<noteq> None then s else s\<lparr>scope_tasks := (scope_tasks s)(t \<mapsto> k\<lparr>cancel_asked := True\<rparr>)\<rparr>)"

definition close_awaitable :: "awaitable \<Rightarrow> task_scope \<Rightarrow> task_scope" where
  "close_awaitable w s = s\<lparr>closed_awaitables := closed_awaitables s @ [w]\<rparr>"

definition cancel_all :: "task_scope \<Rightarrow> task_scope" where
  "cancel_all s = (if closed s then s
     else fold ask_cancel (filter (\<lambda>t. \<not> task_finished s t) (tasks_of s)) (s\<lparr>cancel_requested := True\<rparr>))"

definition check_open :: "scope_env \<Rightarrow> unit sop" where
  "check_open e =
     ebind (eget (\<lambda>s. s)) (\<lambda>s.
     ebind (eensure (\<not> closed s) ScopeClosedError) (\<lambda>_.
     ebind (eensure (\<not> cancel_requested s) ScopeCancelled) (\<lambda>_.
     case scope_deadline s of
       None \<Rightarrow> eret ()
     | Some d \<Rightarrow>
         if d \<le> clock e then
           ebind (emod (\<lambda>s. cancel_all (s\<lparr>deadline_exceeded := True\<rparr>))) (\<lambda>_. eraise ScopeDeadlineExceeded)
         else eret ())))"

text \<open>\<open>check_before_await\<close>, and \<open>check_after_await\<close> with its aliases.\<close>

definition check_await :: "scope_env \<Rightarrow> unit sop" where
  "check_await e =
     ebind (check_open e) (\<lambda>_.
     ebind (eget has_current_check) (\<lambda>c. if c then eres (current_answer e) else eret ()))"

definition effective_deadline :: "pyfloat option \<Rightarrow> rat option sop" where
  "effective_deadline deadline =
     ebind (case deadline of None \<Rightarrow> eret None | Some x \<Rightarrow> eres (rbind (finite_timestamp x) (\<lambda>q. Inr (Some q)))) (\<lambda>d.
     eget (\<lambda>s. case (scope_deadline s, d) of
       (None, _) \<Rightarrow> d
     | (Some q, None) \<Rightarrow> Some q
     | (Some q, Some r) \<Rightarrow> Some (min q r)))"

definition notify_cleanup_timeout :: "scope_env \<Rightarrow> string \<Rightarrow> unit sop" where
  "notify_cleanup_timeout e why =
     ebind (eget (\<lambda>s. s)) (\<lambda>s.
     if cleanup_timeout_notified s then eret ()
     else
       ebind (emod (\<lambda>s. s\<lparr>cleanup_timeout_notified := True\<rparr>)) (\<lambda>_.
       if has_cleanup_callback s then
         ebind (emod (\<lambda>s. s\<lparr>notices := notices s @ [why]\<rparr>)) (\<lambda>_. eres (callback_answer e))
       else eret ()))"

section \<open>Tasks\<close>

definition update_task :: "nat \<Rightarrow> (scoped_task \<Rightarrow> scoped_task) \<Rightarrow> task_scope \<Rightarrow> task_scope" where
  "update_task t f s = s\<lparr>scope_tasks := (scope_tasks s)(t := map_option f (scope_tasks s t))\<rparr>"

text \<open>\<open>_spawn\<close>: an exception of the observer's registration leaves the task behind, with cancellation requested.\<close>

definition spawn :: "scope_env \<Rightarrow> awaitable \<Rightarrow> string \<Rightarrow> nat sop" where
  "spawn e work name =
     ebind (ecatch (eres (observer_check e)) (\<lambda>x. ebind (emod (close_awaitable work)) (\<lambda>_. eraise x))) (\<lambda>_.
     ebind (eget next_task) (\<lambda>t.
     ebind (emod (\<lambda>s. s\<lparr>next_task := t + 1, pending := pending s @ [(t, name)],
       scope_tasks := (scope_tasks s)(t \<mapsto> \<lparr>task_name = name, task_work = work, supervises = None, task_started = False,
         task_done = None, cancel_asked = False, called_back = False\<rparr>)\<rparr>)) (\<lambda>_.
     ebind (ecatch (eres (observer_register e)) (\<lambda>x. ebind (emod (ask_cancel t)) (\<lambda>_. eraise x))) (\<lambda>_.
     eret t))))"

text \<open>The admission shared by \<open>run\<close> and \<open>create_task\<close>: work that is refused is closed.\<close>

definition admit_work :: "scope_env \<Rightarrow> awaitable \<Rightarrow> string \<Rightarrow> 'a sop \<Rightarrow> 'a sop" where
  "admit_work e work name before =
     ebind (if blank name then ebind (emod (close_awaitable work)) (\<lambda>_. eraise ValueError) else eret ()) (\<lambda>_.
     ecatch (ebind before (\<lambda>d. ebind (check_await e) (\<lambda>_. eret d)))
       (\<lambda>x. ebind (emod (close_awaitable work)) (\<lambda>_. eraise x)))"

datatype cleanup_reason = After_deadline | After_cancel

datatype run_point =
    Running nat "rat option"
  | Cleaning nat rat cleanup_reason
  | Ran nat

definition run_begin :: "scope_env \<Rightarrow> awaitable \<Rightarrow> string \<Rightarrow> pyfloat option \<Rightarrow> run_point sop" where
  "run_begin e work name deadline =
     ebind (admit_work e work name (effective_deadline deadline)) (\<lambda>d.
     ebind (spawn e work name) (\<lambda>t.
     eret (Running t (map_option (\<lambda>q. max 0 (q - clock e)) d))))"

text \<open>
  The rest of \<open>run\<close>.  At \<open>Running\<close> the wait ends because the task is done, because the time is
  over, or with a cancellation of the caller (a wait without a limit ends in the first and the
  last way only); at \<open>Cleaning\<close> one round of
  \<open>_wait_for_cleanup\<close> is made, at the time of the event loop.
\<close>

definition task_end_of :: "task_scope \<Rightarrow> nat \<Rightarrow> task_end option" where
  "task_end_of s t = (case scope_tasks s t of None \<Rightarrow> None | Some k \<Rightarrow> task_done k)"

definition clean_from :: "rat \<Rightarrow> nat \<Rightarrow> cleanup_reason \<Rightarrow> run_point sop" where
  "clean_from loop_now t why =
     ebind (emod (ask_cancel t)) (\<lambda>_. ebind (eget cleanup_timeout) (\<lambda>w. eret (Cleaning t (loop_now + w) why)))"

definition run_wakes :: "rat \<Rightarrow> bool \<Rightarrow> nat \<Rightarrow> rat option \<Rightarrow> run_point sop" where
  "run_wakes loop_now cancelled t remaining =
     (if cancelled then clean_from loop_now t After_cancel
      else ebind (eget (\<lambda>s. task_end_of s t)) (\<lambda>d. case d of
          None \<Rightarrow> if remaining = None then eret (Running t None)
            else ebind (emod (\<lambda>s. s\<lparr>deadline_exceeded := True\<rparr>)) (\<lambda>_. clean_from loop_now t After_deadline)
        | Some (Returned v) \<Rightarrow> eret (Ran v)
        | Some (Raised x) \<Rightarrow> if x = CancelledError then clean_from loop_now t After_cancel else eraise x
        | Some Cancelled \<Rightarrow> clean_from loop_now t After_cancel))"

definition cleaned :: "cleanup_reason \<Rightarrow> run_point sop" where
  "cleaned why = (case why of After_deadline \<Rightarrow> eraise ScopeDeadlineExceeded | After_cancel \<Rightarrow> eraise CancelledError)"

definition not_cleaned :: "scope_env \<Rightarrow> rat \<Rightarrow> nat \<Rightarrow> cleanup_reason \<Rightarrow> run_point sop" where
  "not_cleaned e loop_now t why = (case why of
     After_deadline \<Rightarrow>
       ecatch (ebind (notify_cleanup_timeout e ''deadline_cleanup_timeout'') (\<lambda>_. eraise ScopeStopTimeout))
         (\<lambda>x. if x = CancelledError then clean_from loop_now t After_cancel else eraise x)
   | After_cancel \<Rightarrow> ebind (notify_cleanup_timeout e ''cancel_cleanup_timeout'') (\<lambda>_. eraise CancelledError))"

definition run_resume :: "scope_env \<Rightarrow> rat \<Rightarrow> bool \<Rightarrow> run_point \<Rightarrow> run_point sop" where
  "run_resume e loop_now cancelled p = (case p of
     Running t remaining \<Rightarrow> run_wakes loop_now cancelled t remaining
   | Cleaning t deadline why \<Rightarrow>
       ebind (eget (\<lambda>s. task_finished s t)) (\<lambda>done.
       if done then cleaned why
       else if deadline - loop_now \<le> 0 then not_cleaned e loop_now t why
       else eret (Cleaning t deadline why))
   | Ran v \<Rightarrow> eret (Ran v))"

definition create_task :: "scope_env \<Rightarrow> nat \<Rightarrow> string \<Rightarrow> nat sop" where
  "create_task e w name =
     ebind (admit_work e (Given w) name (eret ())) (\<lambda>_.
     ebind (ecatch (spawn e (Supervise w name) (name @ '':scope''))
              (\<lambda>x. ebind (emod (close_awaitable (Given w))) (\<lambda>_. eraise x))) (\<lambda>t.
     ebind (emod (update_task t (supervises_update (\<lambda>_. Some w)))) (\<lambda>_. eret t)))"

section \<open>The life of a task\<close>

definition end_of :: "exn \<Rightarrow> task_end" where
  "end_of x = (if x = CancelledError then Cancelled else Raised x)"

definition finish_task :: "nat \<Rightarrow> task_end \<Rightarrow> unit sop" where
  "finish_task t d = emod (update_task t (task_done_update (\<lambda>_. Some d)))"

text \<open>
  \<open>runner\<close> up to the await of its work.  The work of a supervising task is \<open>run\<close> on the awaitable,
  which begins at once; when it raises, the task ends.
\<close>

definition runner_start :: "scope_env \<Rightarrow> scope_env \<Rightarrow> nat \<Rightarrow> run_point option sop" where
  "runner_start e inner t =
     ecatch
       (ebind (eres (observer_check e)) (\<lambda>_.
        ebind (check_await e) (\<lambda>_.
        ebind (emod (update_task t (task_started_update (\<lambda>_. True)))) (\<lambda>_.
        ebind (eget (\<lambda>s. (scope_tasks s t, scope_deadline s))) (\<lambda>(k, d).
        case map_option task_work k of
          Some (Supervise w name) \<Rightarrow> ebind (run_begin inner (Given w) name (map_option Fin d)) (\<lambda>p. eret (Some p))
        | _ \<Rightarrow> eret None)))))
       (\<lambda>x. ebind (finish_task t (end_of x)) (\<lambda>_. eret None))"

text \<open>A task whose cancellation arrives before its first step never runs.\<close>

definition runner_cancelled :: "nat \<Rightarrow> unit sop" where
  "runner_cancelled t = finish_task t Cancelled"

text \<open>\<open>runner\<close> after its work: a result is kept only if the scope still accepts it.\<close>

definition runner_finish :: "scope_env \<Rightarrow> nat \<Rightarrow> nat res \<Rightarrow> unit sop" where
  "runner_finish e t r =
     ecatch (ebind (eres r) (\<lambda>v. ebind (check_await e) (\<lambda>_. finish_task t (Returned v))))
       (\<lambda>x. finish_task t (end_of x))"

text \<open>The done callbacks: an awaitable that was never started is closed, and the outcome is recorded.\<close>

definition outcome_for :: "(exn \<Rightarrow> string) \<Rightarrow> string \<Rightarrow> task_end \<Rightarrow> task_outcome" where
  "outcome_for nm name d = (case d of
     Cancelled \<Rightarrow> \<lparr>outcome_name = name, outcome_status = ''cancelled'', outcome_error = None, outcome_cancelled = True\<rparr>
   | Raised x \<Rightarrow> \<lparr>outcome_name = name, outcome_status = ''failed'', outcome_error = Some (nm x), outcome_cancelled = False\<rparr>
   | Returned v \<Rightarrow> \<lparr>outcome_name = name, outcome_status = ''completed'', outcome_error = None, outcome_cancelled = False\<rparr>)"

definition append_bounded :: "nat \<Rightarrow> 'a \<Rightarrow> 'a list \<Rightarrow> 'a list" where
  "append_bounded n x xs = drop (length xs + 1 - n) (xs @ [x])"

definition record_done :: "scope_env \<Rightarrow> nat \<Rightarrow> string \<Rightarrow> task_end \<Rightarrow> task_scope \<Rightarrow> task_scope" where
  "record_done e t own d s = (let name = (case map_of (pending s) t of None \<Rightarrow> own | Some n \<Rightarrow> n) in
     s\<lparr>pending := AList.delete t (pending s),
       outcomes := append_bounded (history_limit s) (outcome_for (class_name e) name d) (outcomes s)\<rparr>)"

definition close_never_started :: "scoped_task \<Rightarrow> task_scope \<Rightarrow> task_scope" where
  "close_never_started k s = (if task_started k then s else
     (case supervises k of
        None \<Rightarrow> close_awaitable (task_work k) s
      | Some w \<Rightarrow> close_awaitable (Given w) (close_awaitable (task_work k) s)))"

definition done_callbacks :: "scope_env \<Rightarrow> nat \<Rightarrow> unit sop" where
  "done_callbacks e t =
     emod (\<lambda>s. case scope_tasks s t of
       None \<Rightarrow> s
     | Some k \<Rightarrow> (case task_done k of
         None \<Rightarrow> s
       | Some d \<Rightarrow> if called_back k then s
           else record_done e t (task_name k) d (close_never_started k (update_task t (called_back_update (\<lambda>_. True)) s))))"

section \<open>Waiting and stopping\<close>

datatype wait_point =
    Waiting bool "nat list" "rat option"
  | Draining "nat list" rat
  | Waited "task_outcome list"

text \<open>The end of \<open>wait\<close>, with the tasks that are still unfinished.\<close>

definition wait_end :: "scope_env \<Rightarrow> bool \<Rightarrow> nat list \<Rightarrow> wait_point sop" where
  "wait_end e stopping left =
     (if left \<noteq> [] then
        ebind (if stopping then notify_cleanup_timeout e ''scope_stop_timeout'' else eret ()) (\<lambda>_. eraise ScopeStopTimeout)
      else
        ebind (emod (\<lambda>s. s\<lparr>closed := True\<rparr>)) (\<lambda>_.
        ebind (eget outcomes) (\<lambda>os. eret (Waited os))))"

definition unfinished :: "task_scope \<Rightarrow> nat list \<Rightarrow> nat list" where
  "unfinished s ts = filter (\<lambda>t. \<not> task_finished s t) ts"

definition wait_begin :: "scope_env \<Rightarrow> bool \<Rightarrow> pyfloat option \<Rightarrow> wait_point sop" where
  "wait_begin e stopping timeout =
     ebind (case timeout of None \<Rightarrow> eret None | Some x \<Rightarrow> eres (rbind (finite_duration x) (\<lambda>q. Inr (Some q)))) (\<lambda>limit.
     ebind (eget (\<lambda>s. unfinished s (tasks_of s))) (\<lambda>ts.
     if ts = [] then wait_end e stopping [] else eret (Waiting stopping ts limit)))"

definition stop_begin :: "scope_env \<Rightarrow> pyfloat option \<Rightarrow> wait_point sop" where
  "stop_begin e timeout = ebind (emod cancel_all) (\<lambda>_. wait_begin e True timeout)"

text \<open>
  The rest of \<open>wait\<close> and \<open>stop\<close>.  A cancellation makes \<open>stop\<close> drain the tasks for a bounded
  time, one round of \<open>_wait_for_all_cleanup\<close> per wake-up, and is raised again.
\<close>

definition drained :: "wait_point sop" where
  "drained = ebind (emod (\<lambda>s. s\<lparr>closed := True\<rparr>)) (\<lambda>_. eraise CancelledError)"

definition wait_resume :: "scope_env \<Rightarrow> rat \<Rightarrow> bool \<Rightarrow> wait_point \<Rightarrow> wait_point sop" where
  "wait_resume e loop_now cancelled p = (case p of
     Waiting stopping ts limit \<Rightarrow>
       if \<not> cancelled then
         ebind (eget (\<lambda>s. unfinished s ts)) (\<lambda>left.
         if left \<noteq> [] \<and> limit = None then eret (Waiting stopping ts None) else wait_end e stopping left)
       else if \<not> stopping then eraise CancelledError
       else
         ebind (eget (\<lambda>s. (unfinished s (tasks_of s), cleanup_timeout s))) (\<lambda>(left, w).
         if left = [] then drained
         else eret (Draining left (loop_now + (case limit of None \<Rightarrow> w | Some q \<Rightarrow> min w q))))
   | Draining ts deadline \<Rightarrow>
       ebind (eget (\<lambda>s. unfinished s ts)) (\<lambda>left.
       if left = [] then drained
       else if deadline - loop_now \<le> 0 then
         ebind (notify_cleanup_timeout e ''scope_stop_cancel_cleanup_timeout'') (\<lambda>_. eraise CancelledError)
       else eret (Draining left deadline))
   | Waited os \<Rightarrow> eret (Waited os))"

section \<open>Interleaving\<close>

text \<open>The parts of the coroutines, the life of the tasks and the synchronous operations, in any order.\<close>

inductive scope_step :: "task_scope \<Rightarrow> task_scope \<Rightarrow> bool" where
  s_cancel: "scope_step s (cancel_all s)"
| s_check: "check_await e s = (t, out1) \<Longrightarrow> scope_step s t"
| s_run: "run_begin e (Given w) name deadline s = (t, out2) \<Longrightarrow> scope_step s t"
| s_resume: "run_resume e loop_now cancelled p s = (t, out3) \<Longrightarrow> scope_step s t"
| s_create: "create_task e w name s = (t, out4) \<Longrightarrow> scope_step s t"
| s_start: "scope_tasks s i = Some k \<Longrightarrow> \<not> task_started k \<Longrightarrow> task_done k = None \<Longrightarrow> \<not> cancel_asked k \<Longrightarrow>
    runner_start e inner i s = (t, out5) \<Longrightarrow> scope_step s t"
| s_cancelled: "scope_tasks s i = Some k \<Longrightarrow> \<not> task_started k \<Longrightarrow> task_done k = None \<Longrightarrow> cancel_asked k \<Longrightarrow>
    runner_cancelled i s = (t, out6) \<Longrightarrow> scope_step s t"
| s_finish: "scope_tasks s i = Some k \<Longrightarrow> task_started k \<Longrightarrow> task_done k = None \<Longrightarrow>
    runner_finish e i r s = (t, out6) \<Longrightarrow> scope_step s t"
| s_callbacks: "done_callbacks e i s = (t, out6) \<Longrightarrow> scope_step s t"
| s_wait: "wait_begin e stopping timeout s = (t, out7) \<Longrightarrow> scope_step s t"
| s_stop: "stop_begin e timeout s = (t, out7) \<Longrightarrow> scope_step s t"
| s_wait_resume: "wait_resume e loop_now cancelled p' s = (t, out7) \<Longrightarrow> scope_step s t"

definition initial_scope :: "task_scope \<Rightarrow> bool" where
  "initial_scope s \<longleftrightarrow> (\<exists>mid ep rv deadline check timeout limit callback. new_scope mid ep rv deadline check timeout limit callback = Inr s)"

end
