(* ===== verification/Task_Scope_Correct.thy ===== *)
theory Task_Scope_Correct
  imports Task_Scope
begin

text \<open>
  The promises of a task scope: a cancelled or closed scope takes no work and accepts no result,
  a stopped scope has no unfinished task, every task that ended is recorded once in a bounded
  history, and the bounded waits end.
\<close>

section \<open>What the parts keep\<close>

text \<open>A scope that takes no more work.\<close>

definition fenced :: "task_scope \<Rightarrow> bool" where
  "fenced s \<longleftrightarrow> cancel_requested s \<or> closed s"

definition scope_inv :: "task_scope \<Rightarrow> bool" where
  "scope_inv s \<longleftrightarrow> (\<forall>i. scope_tasks s i \<noteq> None \<longleftrightarrow> i < next_task s) \<and> distinct (tasks_of s)
     \<and> (\<forall>i. i \<in> set (tasks_of s) \<longleftrightarrow> (\<exists>k. scope_tasks s i = Some k \<and> \<not> called_back k))
     \<and> (\<forall>i k. scope_tasks s i = Some k \<longrightarrow> called_back k \<longrightarrow> task_done k \<noteq> None)
     \<and> 0 < history_limit s \<and> length (outcomes s) = min (history_limit s) (next_task s - length (pending s))
     \<and> length (pending s) \<le> next_task s
     \<and> length (notices s) \<le> 1 \<and> (notices s \<noteq> [] \<longrightarrow> cleanup_timeout_notified s)"

text \<open>The parts that end no task: whatever they leave is \<open>calm\<close>.\<close>

definition calm :: "task_scope \<Rightarrow> task_scope \<Rightarrow> bool" where
  "calm s t \<longleftrightarrow> (\<forall>i k. scope_tasks s i = Some k \<longrightarrow>
       (\<exists>k'. scope_tasks t i = Some k' \<and> task_done k' = task_done k \<and> called_back k' = called_back k))
     \<and> next_task s \<le> next_task t \<and> (fenced s \<longrightarrow> fenced t \<and> next_task t = next_task s)
     \<and> (\<forall>i k. scope_tasks s i = None \<longrightarrow> scope_tasks t i = Some k \<longrightarrow> task_done k = None)"

definition keeps :: "task_scope \<Rightarrow> task_scope \<Rightarrow> bool" where
  "keeps s t \<longleftrightarrow> (\<forall>i k. scope_tasks s i = Some k \<longrightarrow>
       (\<exists>k'. scope_tasks t i = Some k' \<and> (task_done k \<noteq> None \<longrightarrow> task_done k' = task_done k)))
     \<and> next_task s \<le> next_task t
     \<and> (fenced s \<longrightarrow> fenced t \<and> next_task t = next_task s \<and> (\<forall>i v. task_end_of t i = Some (Returned v) \<longrightarrow> task_end_of s i = Some (Returned v)))"

definition calmly :: "task_scope \<Rightarrow> task_scope \<Rightarrow> bool" where
  "calmly s t \<longleftrightarrow> scope_inv t \<and> calm s t"

lemma calm_refl [simp]: "calm s s"
  by (simp add: calm_def)

lemma keeps_refl [simp]: "keeps s s"
  by (simp add: keeps_def)

lemma calm_keeps: "calm s t \<Longrightarrow> keeps s t"
  unfolding keeps_def
proof (intro conjI allI impI)
  fix i v
  assume "calm s t" "task_end_of t i = Some (Returned v)"
  then show "task_end_of s i = Some (Returned v)"
    by (cases "scope_tasks s i") (fastforce simp: calm_def task_end_of_def split: option.splits)+
qed (fastforce simp: calm_def)+

lemma keeps_trans:
  assumes "keeps s t" "keeps t u"
  shows "keeps s u"
  unfolding keeps_def
proof (intro conjI allI impI)
  fix i k
  assume "scope_tasks s i = Some k"
  with assms show "\<exists>k'. scope_tasks u i = Some k' \<and> (task_done k \<noteq> None \<longrightarrow> task_done k' = task_done k)"
    unfolding keeps_def by metis
qed (use assms in \<open>auto simp: keeps_def\<close>)

lemma calm_trans:
  assumes "calm s t" "calm t u"
  shows "calm s u"
  unfolding calm_def
proof (intro conjI allI impI)
  fix i k
  assume "scope_tasks s i = Some k"
  with assms show "\<exists>k'. scope_tasks u i = Some k' \<and> task_done k' = task_done k \<and> called_back k' = called_back k"
    unfolding calm_def by metis
next
  fix i k
  assume "scope_tasks s i = None" "scope_tasks u i = Some k"
  with assms show "task_done k = None"
    unfolding calm_def by (metis not_None_eq option.inject)
qed (use assms in \<open>auto simp: calm_def\<close>)

text \<open>Fields the invariant does not mention.\<close>

lemma calm_fields [simp]:
  "calm s (t\<lparr>closed_awaitables := cs\<rparr>) = calm s t"
  "calm s (t\<lparr>deadline_exceeded := b\<rparr>) = calm s t"
  "calm s (t\<lparr>cleanup_timeout_notified := b\<rparr>) = calm s t"
  "calm s (t\<lparr>notices := ns\<rparr>) = calm s t"
  by (simp_all add: calm_def fenced_def)

lemma calm_flags: "calm s t \<Longrightarrow> calm s (t\<lparr>cancel_requested := True\<rparr>)" "calm s t \<Longrightarrow> calm s (t\<lparr>closed := True\<rparr>)"
  by (simp_all add: calm_def fenced_def)

lemma scope_inv_fields [simp]:
  "scope_inv (t\<lparr>closed_awaitables := cs\<rparr>) = scope_inv t"
  "scope_inv (t\<lparr>deadline_exceeded := b\<rparr>) = scope_inv t"
  "scope_inv (t\<lparr>cancel_requested := b\<rparr>) = scope_inv t"
  "scope_inv (t\<lparr>closed := b\<rparr>) = scope_inv t"
  by (simp_all add: scope_inv_def tasks_of_def)

lemma calmly_fields [simp]:
  "calmly s (t\<lparr>closed_awaitables := cs\<rparr>) = calmly s t"
  "calmly s (t\<lparr>deadline_exceeded := b\<rparr>) = calmly s t"
  by (simp_all add: calmly_def)

lemma calmly_flags: "calmly s t \<Longrightarrow> calmly s (t\<lparr>cancel_requested := True\<rparr>)" "calmly s t \<Longrightarrow> calmly s (t\<lparr>closed := True\<rparr>)"
  by (simp_all add: calmly_def calm_flags)

text \<open>Changing a task without ending it.\<close>

lemma calmly_task:
  assumes "calmly s t" "scope_tasks t i = Some k" "task_done k' = task_done k" "called_back k' = called_back k"
  shows "calmly s (t\<lparr>scope_tasks := (scope_tasks t)(i \<mapsto> k')\<rparr>)"
proof -
  have "scope_inv (t\<lparr>scope_tasks := (scope_tasks t)(i \<mapsto> k')\<rparr>)"
    using assms by (auto simp: calmly_def scope_inv_def tasks_of_def)
  moreover have "calm t (t\<lparr>scope_tasks := (scope_tasks t)(i \<mapsto> k')\<rparr>)"
    using assms by (auto simp: calm_def fenced_def)
  ultimately show ?thesis using assms(1) calm_trans by (auto simp: calmly_def)
qed

lemma calmly_ask: "calmly s t \<Longrightarrow> calmly s (ask_cancel i t)"
  by (auto simp: ask_cancel_def intro!: calmly_task split: option.split)

lemma calmly_asks: "calmly s t \<Longrightarrow> calmly s (fold ask_cancel is t)"
  by (induction "is" arbitrary: t) (auto simp: calmly_ask)

lemma calmly_cancel: "calmly s t \<Longrightarrow> calmly s (cancel_all t)"
  by (simp add: cancel_all_def calmly_asks calmly_flags)

lemma calmly_close: "calmly s t \<Longrightarrow> calmly s (close_awaitable w t)"
  by (simp add: close_awaitable_def)

lemma calmly_update:
  "calmly s t \<Longrightarrow> (\<And>k. task_done (f k) = task_done k \<and> called_back (f k) = called_back k) \<Longrightarrow> calmly s (update_task i f t)"
  by (cases "scope_tasks t i") (auto simp: update_task_def fun_upd_idem intro!: calmly_task simp del: fun_upd_apply)

definition unfenced :: "task_scope \<Rightarrow> task_scope \<Rightarrow> bool" where
  "unfenced s t \<longleftrightarrow> calmly s t \<and> \<not> fenced t"

lemma calmly_spawn:
  assumes "calmly s t" "\<not> fenced t" "task_done k = None" "\<not> called_back k"
  shows "calmly s (t\<lparr>next_task := next_task t + 1, pending := pending t @ [(next_task t, name)],
      scope_tasks := (scope_tasks t)(next_task t \<mapsto> k)\<rparr>)" (is "calmly s ?t")
proof -
  from assms have inv: "scope_inv t" by (simp add: calmly_def)
  then have old: "next_task t \<notin> set (tasks_of t)" "scope_tasks t (next_task t) = None"
    by (auto simp: scope_inv_def)
  have "scope_inv ?t"
    using inv old assms(3,4) by (auto simp: scope_inv_def tasks_of_def less_Suc_eq)
  moreover have "calm t ?t"
    using old assms(2,3) by (auto simp: calm_def fenced_def)
  ultimately show ?thesis using assms(1) calm_trans by (auto simp: calmly_def)
qed

text \<open>Every part that ends no task is calm.\<close>

definition calm_part :: "'a sop \<Rightarrow> bool" where
  "calm_part f \<longleftrightarrow> (\<forall>s t. calmly s t \<longrightarrow> wp f (\<lambda>_. calmly s) (\<lambda>_. calmly s) t)"

lemma calm_partD: "calm_part f \<Longrightarrow> calmly s t \<Longrightarrow> wp f (\<lambda>_. calmly s) (\<lambda>_. calmly s) t"
  by (simp add: calm_part_def)

lemma calm_bind:
  assumes "calm_part f" "\<And>a. calm_part (g a)"
  shows "calm_part (ebind f g)"
  unfolding calm_part_def wp_ebind
proof (intro allI impI)
  fix s t
  assume "calmly s t"
  with assms(1) have "wp f (\<lambda>_. calmly s) (\<lambda>_. calmly s) t" by (rule calm_partD)
  then show "wp f (\<lambda>a. wp (g a) (\<lambda>_. calmly s) (\<lambda>_. calmly s)) (\<lambda>_. calmly s) t"
    by (rule wp_mono) (use assms(2) in \<open>auto simp: calm_part_def\<close>)
qed

lemma calm_catch:
  assumes "calm_part f" "\<And>x. calm_part (h x)"
  shows "calm_part (ecatch f h)"
  unfolding calm_part_def wp_ecatch
proof (intro allI impI)
  fix s t
  assume "calmly s t"
  with assms(1) have "wp f (\<lambda>_. calmly s) (\<lambda>_. calmly s) t" by (rule calm_partD)
  then show "wp f (\<lambda>_. calmly s) (\<lambda>x. wp (h x) (\<lambda>_. calmly s) (\<lambda>_. calmly s)) t"
    by (rule wp_mono) (use assms(2) in \<open>auto simp: calm_part_def\<close>)
qed

lemma calm_basic [simp]:
  "calm_part (eret a)" "calm_part (eraise x)" "calm_part (eres r)" "calm_part (eensure c x)" "calm_part (eget f)"
  by (simp_all add: calm_part_def wp_simps)

lemma calm_mod: "(\<And>s t. calmly s t \<Longrightarrow> calmly s (f t)) \<Longrightarrow> calm_part (emod f)"
  by (simp add: calm_part_def wp_simps)

lemma calm_notify: "calm_part (notify_cleanup_timeout e why)"
  unfolding calm_part_def notify_cleanup_timeout_def
  by (auto simp: wp_simps calmly_def scope_inv_def tasks_of_def)

lemmas calm_cases = option.split run_point.split cleanup_reason.split wait_point.split

lemmas calm_intros = calm_bind calm_catch calm_basic calm_mod calmly_cancel calmly_close calmly_ask calmly_flags calm_notify

lemma calm_if: "(c \<Longrightarrow> calm_part f) \<Longrightarrow> (\<not> c \<Longrightarrow> calm_part g) \<Longrightarrow> calm_part (if c then f else g)"
  and calm_option: "calm_part f' \<Longrightarrow> (\<And>a. calm_part (g' a)) \<Longrightarrow> calm_part (case v of None \<Rightarrow> f' | Some a \<Rightarrow> g' a)"
  and calm_prod: "(\<And>a b. calm_part (h a b)) \<Longrightarrow> calm_part (case w of (a, b) \<Rightarrow> h a b)"
  by (auto split: option.split prod.split)

named_theorems calm_parts \<open>parts that end no task\<close>

lemma calm_check_open [calm_parts]: "calm_part (check_open e)"
  unfolding check_open_def
  by (intro calm_bind calm_basic calm_option calm_if calm_mod) (simp add: calmly_cancel)

text \<open>A check that passes has found the scope open.\<close>

lemma check_open_unfenced: "calmly s t \<Longrightarrow> wp (check_open e) (\<lambda>_. unfenced s) (\<lambda>_. calmly s) t"
  unfolding check_open_def
  by (auto simp: wp_simps unfenced_def fenced_def calmly_cancel)

lemma check_await_unfenced: "calmly s t \<Longrightarrow> wp (check_await e) (\<lambda>_. unfenced s) (\<lambda>_. calmly s) t"
  unfolding check_await_def wp_ebind
  by (rule wp_mono [OF check_open_unfenced]) (auto simp: wp_simps unfenced_def)

lemma calm_await [calm_parts]: "calm_part (check_await e)"
  unfolding check_await_def by (intro calm_bind calm_parts calm_basic calm_if)

lemma calm_deadline [calm_parts]: "calm_part (effective_deadline d)"
  unfolding effective_deadline_def by (intro calm_bind calm_basic calm_option)

lemma admit_unfenced:
  assumes "calm_part before" "calmly s t"
  shows "wp (admit_work e w name before) (\<lambda>_. unfenced s) (\<lambda>_. calmly s) t"
proof -
  have refused: "wp (ebind (emod (close_awaitable w)) (\<lambda>_. eraise x)) Q (\<lambda>_. calmly s) u" if "calmly s u" for x u Q
    using that by (simp add: wp_simps calmly_close)
  have checked: "wp (ebind (check_await e) (\<lambda>_. eret d)) (\<lambda>_. unfenced s) (\<lambda>_. calmly s) u" if "calmly s u" for d u
    unfolding wp_ebind by (rule wp_mono [OF check_await_unfenced [OF that]]) (simp_all add: wp_eret)
  have "wp (ebind before (\<lambda>d. ebind (check_await e) (\<lambda>_. eret d))) (\<lambda>_. unfenced s) (\<lambda>_. calmly s) t"
    unfolding wp_ebind [of before] by (rule wp_mono [OF calm_partD [OF assms]]) (simp_all add: checked)
  then have "wp (ecatch (ebind before (\<lambda>d. ebind (check_await e) (\<lambda>_. eret d))) (\<lambda>x. ebind (emod (close_awaitable w)) (\<lambda>_. eraise x)))
      (\<lambda>_. unfenced s) (\<lambda>_. calmly s) t"
    unfolding wp_ecatch by (rule wp_mono) (simp_all add: refused)
  then show ?thesis
    using assms(2) unfolding admit_work_def wp_ebind [where f = "if blank name then _ else _"]
    by (auto simp: wp_eret intro: refused)
qed

lemma spawn_unfenced:
  assumes "unfenced s t"
  shows "wp (spawn e w name) (\<lambda>_. calmly s) (\<lambda>_. calmly s) t"
proof -
  let ?t = "t\<lparr>next_task := next_task t + 1, pending := pending t @ [(next_task t, name)],
      scope_tasks := (scope_tasks t)(next_task t \<mapsto> \<lparr>task_name = name, task_work = w, supervises = None, task_started = False,
         task_done = None, cancel_asked = False, called_back = False\<rparr>)\<rparr>"
  have "calmly s ?t" using assms by (intro calmly_spawn) (simp_all add: unfenced_def)
  then have "calmly s ?t \<and> calmly s (ask_cancel (next_task t) ?t)" by (simp add: calmly_ask)
  with assms show ?thesis
    unfolding spawn_def by (auto simp: wp_simps unfenced_def calmly_close simp del: fun_upd_apply)
qed

lemma calm_run_begin [calm_parts]: "calm_part (run_begin e w name d)"
  unfolding calm_part_def run_begin_def wp_ebind
proof (intro allI impI)
  fix s t
  assume "calmly s t"
  then show "wp (admit_work e w name (effective_deadline d))
    (\<lambda>a. wp (spawn e w name) (\<lambda>b. wp (eret (Running b (map_option (\<lambda>q. max 0 (q - clock e)) a))) (\<lambda>_. calmly s) (\<lambda>_. calmly s)) (\<lambda>_. calmly s))
    (\<lambda>_. calmly s) t"
    by (rule wp_mono [OF admit_unfenced [OF calm_deadline]]) (auto simp: wp_eret intro: wp_mono [OF spawn_unfenced])
qed

lemma calm_create [calm_parts]: "calm_part (create_task e w name)"
  unfolding calm_part_def create_task_def wp_ebind
proof (intro allI impI)
  fix s t
  assume "calmly s t"
  then show "wp (admit_work e (Given w) name (eret ()))
    (\<lambda>_. wp (ecatch (spawn e (Supervise w name) (name @ '':scope'')) (\<lambda>x. ebind (emod (close_awaitable (Given w))) (\<lambda>_. eraise x)))
      (\<lambda>a. wp (emod (update_task a (supervises_update (\<lambda>_. Some w)))) (\<lambda>_. wp (eret a) (\<lambda>_. calmly s) (\<lambda>_. calmly s)) (\<lambda>_. calmly s))
      (\<lambda>_. calmly s))
    (\<lambda>_. calmly s) t"
    by (rule wp_mono [OF admit_unfenced [OF calm_basic(1)]])
      (auto simp: wp_simps calmly_close calmly_update intro: wp_mono [OF spawn_unfenced])
qed

lemma calm_clean_from [calm_parts]: "calm_part (clean_from n t why)"
  unfolding clean_from_def by (intro calm_bind calm_basic calm_mod calmly_ask)

lemma calm_resume [calm_parts]: "calm_part (run_resume e n c p)"
proof (cases p)
  case (Running t left)
  have end_case: "calm_part (case d of None \<Rightarrow> f' | Some (Returned v) \<Rightarrow> g v | Some (Raised x) \<Rightarrow> h x | Some Cancelled \<Rightarrow> l)"
    if "calm_part f'" "\<And>v. calm_part (g v)" "\<And>x. calm_part (h x)" "calm_part l" for d and f' :: "run_point sop" and g h l
    using that by (simp split: option.split task_end.split)
  show ?thesis unfolding Running run_resume_def run_wakes_def run_point.case
    by (intro calm_if calm_bind calm_basic calm_parts end_case calm_mod) simp
next
  case (Cleaning t d why)
  have reasons: "calm_part f \<Longrightarrow> calm_part g \<Longrightarrow> calm_part (case why of After_deadline \<Rightarrow> f | After_cancel \<Rightarrow> g)"
    for f g :: "run_point sop"
    by (cases why) simp_all
  show ?thesis unfolding Cleaning run_resume_def run_point.case cleaned_def not_cleaned_def
    by (intro reasons calm_if calm_bind calm_catch calm_basic calm_parts calm_notify)
next
  case (Ran v)
  then show ?thesis by (simp add: run_resume_def)
qed

lemma calm_wait_end [calm_parts]: "calm_part (wait_end e stopping left)"
  unfolding wait_end_def by (intro calm_if calm_bind calm_basic calm_notify calm_mod calmly_flags)

lemma calm_wait_begin [calm_parts]: "calm_part (wait_begin e stopping d)"
  unfolding wait_begin_def by (intro calm_if calm_bind calm_basic calm_parts calm_option)

lemma calm_stop_begin [calm_parts]: "calm_part (stop_begin e d)"
  unfolding stop_begin_def by (intro calm_bind calm_mod calmly_cancel calm_parts)

lemma calm_stop_points:
  "(\<And>b ts l. calm_part (f b ts l)) \<Longrightarrow> (\<And>ts d. calm_part (g ts d)) \<Longrightarrow> (\<And>os. calm_part (h os)) \<Longrightarrow>
   calm_part (case p of Waiting b ts l \<Rightarrow> f b ts l | Draining ts d \<Rightarrow> g ts d | Waited os \<Rightarrow> h os)"
  by (simp split: wait_point.split)

lemma calm_wait_resume [calm_parts]: "calm_part (wait_resume e n c p)"
  unfolding wait_resume_def drained_def
  by (intro calm_stop_points calm_if calm_bind calm_basic calm_parts calm_prod calm_notify calm_mod calmly_flags)

section \<open>The steps\<close>

definition kept :: "task_scope \<Rightarrow> task_scope \<Rightarrow> bool" where
  "kept s t \<longleftrightarrow> scope_inv t \<and> keeps s t"

lemma calmly_kept: "calmly s t \<Longrightarrow> kept s t"
  by (simp add: calmly_def kept_def calm_keeps)

lemma calm_part_step:
  assumes "calm_part f" "f s = (t, out)" "scope_inv s"
  shows "kept s t"
proof -
  have "wp f (\<lambda>_. calmly s) (\<lambda>_. calmly s) s" by (rule calm_partD [OF assms(1)]) (simp add: calmly_def assms(3))
  then have "calmly s t" by (cases out) (simp_all add: wp_def assms(2))
  then show ?thesis by (rule calmly_kept)
qed

lemma finish_kept:
  assumes "calmly s t" "scope_tasks t i = Some k" "task_done k = None" "(\<exists>v. d = Returned v) \<longrightarrow> \<not> fenced s"
  shows "kept s (update_task i (task_done_update (\<lambda>_. Some d)) t)" (is "kept s ?t")
proof -
  have inv: "scope_inv t" and calm: "calm s t" using assms(1) by (simp_all add: calmly_def)
  have "\<not> called_back k" using inv assms(2,3) by (fastforce simp: scope_inv_def)
  then have "scope_inv ?t" using inv assms(2) by (auto simp: scope_inv_def update_task_def tasks_of_def)
  moreover have "keeps s ?t"
    unfolding keeps_def
  proof (intro conjI allI impI)
    fix j k'
    assume "scope_tasks s j = Some k'"
    with calm assms(2,3) show "\<exists>k''. scope_tasks ?t j = Some k'' \<and> (task_done k' \<noteq> None \<longrightarrow> task_done k'' = task_done k')"
      by (fastforce simp: calm_def update_task_def)
  next
    fix j v
    assume f: "fenced s" and j: "task_end_of ?t j = Some (Returned v)"
    have "task_end_of t j = Some (Returned v)"
    proof (cases "j = i")
      case True
      then have "d = Returned v" using j assms(2) by (simp add: task_end_of_def update_task_def)
      then show ?thesis using f assms(4) by simp
    next
      case False
      then show ?thesis using j by (simp add: task_end_of_def update_task_def)
    qed
    then show "task_end_of s j = Some (Returned v)" using calm_keeps [OF calm] f by (simp add: keeps_def)
  qed (use calm in \<open>auto simp: calm_def update_task_def fenced_def\<close>)
  ultimately show ?thesis by (simp add: kept_def)
qed

text \<open>A task that had not ended still has not when a calm part raises, and then ends with the exception.\<close>

lemma calmly_undone:
  "calmly s t \<Longrightarrow> scope_tasks s i = Some k \<Longrightarrow> task_done k = None \<Longrightarrow> \<exists>k'. scope_tasks t i = Some k' \<and> task_done k' = None"
  by (fastforce simp: calmly_def calm_def)

lemma finish_raised:
  assumes "calmly s t" "scope_tasks s i = Some k" "task_done k = None"
  shows "kept s (update_task i (task_done_update (\<lambda>_. Some (end_of x))) t)"
  using calmly_undone [OF assms] finish_kept [OF assms(1)] by (auto simp: end_of_def)

lemma raising_part_kept:
  assumes "wp f (\<lambda>_. kept s) (\<lambda>_. calmly s) s" "scope_tasks s i = Some k" "task_done k = None"
  shows "wp (ecatch f (\<lambda>x. ebind (finish_task i (end_of x)) (\<lambda>_. eret a))) (\<lambda>_. kept s) (\<lambda>_. kept s) s"
  unfolding wp_ecatch
  by (rule wp_mono [OF assms(1)]) (simp_all add: finish_task_def wp_simps finish_raised [OF _ assms(2,3)])

lemma runner_start_kept:
  assumes "scope_inv s" "scope_tasks s i = Some k" "task_done k = None"
  shows "wp (runner_start e inner i) (\<lambda>_. kept s) (\<lambda>_. kept s) s"
proof -
  have works: "calm_part (case w of None \<Rightarrow> f | Some (Given v) \<Rightarrow> f | Some (Supervise v n) \<Rightarrow> g v n)"
    if "calm_part f" "\<And>v n. calm_part (g v n)" for w and f :: "run_point option sop" and g
    using that by (simp split: option.split awaitable.split)
  let ?f = "ebind (eres (observer_check e)) (\<lambda>_. ebind (check_await e) (\<lambda>_.
      ebind (emod (update_task i (task_started_update (\<lambda>_. True)))) (\<lambda>_.
      ebind (eget (\<lambda>s. (scope_tasks s i, scope_deadline s))) (\<lambda>(k, d).
      case map_option task_work k of
        Some (Supervise w name) \<Rightarrow> ebind (run_begin inner (Given w) name (map_option Fin d)) (\<lambda>p. eret (Some p))
      | _ \<Rightarrow> eret None))))"
  have "calm_part ?f"
    by (intro calm_bind calm_basic calm_parts calm_mod calmly_update calm_prod works) simp_all
  then have "wp ?f (\<lambda>_. calmly s) (\<lambda>_. calmly s) s" by (rule calm_partD) (simp add: calmly_def assms(1))
  then have "wp ?f (\<lambda>_. kept s) (\<lambda>_. calmly s) s" by (rule wp_mono) (simp_all add: calmly_kept)
  then show ?thesis unfolding runner_start_def by (rule raising_part_kept [OF _ assms(2,3)])
qed

lemma unfencedD: "unfenced s t \<Longrightarrow> \<not> fenced s"
  by (auto simp: unfenced_def calmly_def calm_def)

lemma runner_finish_kept:
  assumes "scope_inv s" "scope_tasks s i = Some k" "task_done k = None"
  shows "wp (runner_finish e i r) (\<lambda>_. kept s) (\<lambda>_. kept s) s"
proof -
  have s: "calmly s s" using assms(1) by (simp add: calmly_def)
  have accepted: "kept s (update_task i (task_done_update (\<lambda>_. Some (Returned v))) t)" if "unfenced s t" for v t
    using calmly_undone [OF _ assms(2,3), of t] finish_kept [of s t i] unfencedD [OF that] that by (auto simp: unfenced_def)
  have "wp (ebind (check_await e) (\<lambda>_. finish_task i (Returned v))) (\<lambda>_. kept s) (\<lambda>_. calmly s) s" for v
    unfolding wp_ebind by (rule wp_mono [OF check_await_unfenced [OF s]]) (simp_all add: finish_task_def wp_simps accepted)
  then have "wp (ebind (eres r) (\<lambda>v. ebind (check_await e) (\<lambda>_. finish_task i (Returned v)))) (\<lambda>_. kept s) (\<lambda>_. calmly s) s"
    using s unfolding wp_ebind [of "eres r"] by (cases r) (simp_all add: wp_eres)
  then show ?thesis
    unfolding runner_finish_def wp_ecatch
    by (rule wp_mono) (simp_all add: finish_task_def wp_simps finish_raised [OF _ assms(2,3)])
qed

lemma length_delete:
  "distinct (map fst d) \<Longrightarrow> k \<in> fst ` set d \<Longrightarrow> length (AList.delete k d) = length d - 1"
proof (induction d)
  case (Cons p d)
  show ?case
  proof (cases "fst p = k")
    case True
    then have "AList.delete k d = d" using Cons.prems by (auto simp: delete_id)
    with True show ?thesis by (cases p) simp
  next
    case False
    then have "length (AList.delete k d) = length d - 1" "d \<noteq> []" using Cons by auto
    with False show ?thesis by (cases p; cases d) auto
  qed
qed simp

lemma length_append_bounded: "0 < n \<Longrightarrow> length xs \<le> n \<Longrightarrow> length (append_bounded n x xs) = min n (length xs + 1)"
  by (simp add: append_bounded_def)

lemma callbacks_kept:
  assumes "scope_inv s" "done_callbacks e i s = (t, out)"
  shows "kept s t"
proof (cases "\<exists>k d. scope_tasks s i = Some k \<and> task_done k = Some d \<and> \<not> called_back k")
  case False
  then have "t = s" using assms(2) by (auto simp: done_callbacks_def emod_def split: option.splits)
  then show ?thesis using assms(1) by (simp add: kept_def)
next
  case True
  then obtain k d where k: "scope_tasks s i = Some k" "task_done k = Some d" "\<not> called_back k" by blast
  define u where "u = update_task i (called_back_update (\<lambda>_. True)) s"
  have t: "t = record_done e i (task_name k) d (close_never_started k u)"
    using assms(2) k by (simp add: done_callbacks_def emod_def u_def)
  have listed: "i \<in> fst ` set (pending s)" using assms(1) k by (auto simp: scope_inv_def tasks_of_def)
  have len: "length (AList.delete i (pending s)) = length (pending s) - 1" "0 < length (pending s)"
    using assms(1) listed length_delete [OF _ listed] by (auto simp: scope_inv_def tasks_of_def)
  have same: "pending (close_never_started k u) = pending s" "outcomes (close_never_started k u) = outcomes s"
      "history_limit (close_never_started k u) = history_limit s" "scope_tasks (close_never_started k u) = (scope_tasks s)(i \<mapsto> k\<lparr>called_back := True\<rparr>)"
      "next_task (close_never_started k u) = next_task s" "notices (close_never_started k u) = notices s"
      "cleanup_timeout_notified (close_never_started k u) = cleanup_timeout_notified s" "fenced (close_never_started k u) = fenced s"
    using k(1) by (auto simp: close_never_started_def close_awaitable_def u_def update_task_def fenced_def split: option.split)
  have fields: "pending t = AList.delete i (pending s)" "scope_tasks t = (scope_tasks s)(i \<mapsto> k\<lparr>called_back := True\<rparr>)"
      "next_task t = next_task s" "history_limit t = history_limit s" "fenced t = fenced s" "notices t = notices s"
      "cleanup_timeout_notified t = cleanup_timeout_notified s"
    using same unfolding t by (simp_all add: record_done_def fenced_def)
  have sizes: "length (outcomes s) = min (history_limit s) (next_task s - length (pending s))" "length (pending s) \<le> next_task s"
      "0 < history_limit s" "length (outcomes s) \<le> history_limit s"
    using assms(1) by (simp_all add: scope_inv_def)
  have "length (outcomes t) = min (history_limit s) (length (outcomes s) + 1)"
    using sizes(3,4) unfolding t by (simp add: record_done_def same length_append_bounded)
  then have count: "length (outcomes t) = min (history_limit t) (next_task t - length (pending t))"
    unfolding fields len(1) using sizes(1,2) len(2) by linarith
  have "scope_inv t"
    unfolding scope_inv_def
  proof (intro conjI)
    show "distinct (tasks_of t)" using assms(1) by (simp add: tasks_of_def fields scope_inv_def distinct_delete)
    show "\<forall>j. (j \<in> set (tasks_of t)) = (\<exists>k. scope_tasks t j = Some k \<and> \<not> called_back k)"
      using assms(1) by (auto simp: tasks_of_def fields scope_inv_def delete_keys)
    show "\<forall>j. (scope_tasks t j \<noteq> None) = (j < next_task t)"
      using assms(1) k(1) by (auto simp: fields scope_inv_def)
    show "\<forall>j k. scope_tasks t j = Some k \<longrightarrow> called_back k \<longrightarrow> task_done k \<noteq> None"
      using assms(1) k(2) by (simp add: fields scope_inv_def)
    show "length (pending t) \<le> next_task t" using sizes(2) len(1) by (simp add: fields)
  qed (use assms(1) count in \<open>simp_all add: fields scope_inv_def\<close>)
  moreover have "keeps s t"
    using k by (auto simp: keeps_def fields task_end_of_def split: if_splits option.splits)
  ultimately show ?thesis by (simp add: kept_def)
qed

lemma wp_kept: "wp f (\<lambda>_. kept s) (\<lambda>_. kept s) s \<Longrightarrow> f s = (t, out) \<Longrightarrow> kept s t"
  by (cases out) (simp_all add: wp_def)

lemma scope_step_kept:
  assumes "scope_step s t" "scope_inv s"
  shows "kept s t"
  using assms
proof (induction rule: scope_step.induct)
  case (s_cancel s)
  then show ?case by (intro calmly_kept calmly_cancel) (simp add: calmly_def)
next
  case (s_start s i k e inner t out)
  then show ?case by (blast intro: wp_kept runner_start_kept)
next
  case (s_cancelled s i k t out)
  then have "calmly s s" by (simp add: calmly_def)
  then show ?case using finish_kept [of s s i k Cancelled] s_cancelled by (auto simp: runner_cancelled_def finish_task_def emod_def)
next
  case (s_finish s i k e r t out)
  then show ?case by (blast intro: wp_kept runner_finish_kept)
next
  case (s_callbacks e i s t out)
  then show ?case by (blast intro: callbacks_kept)
qed (blast intro: calm_part_step calm_parts)+

lemma new_scope_fields:
  assumes "new_scope mid ep rv deadline check timeout limit callback = Inr s"
  shows "pending s = [] \<and> outcomes s = [] \<and> scope_tasks s = (\<lambda>_. None) \<and> next_task s = 0 \<and> notices s = [] \<and> 0 < history_limit s
    \<and> \<not> fenced s \<and> history_limit s = nat limit"
  using assms by (auto simp: new_scope_def res_iffs fenced_def)

interpretation scopes: transition_system initial_scope scope_step scope_inv
proof
  show "initial_scope s \<Longrightarrow> scope_inv s" for s
    by (auto simp: initial_scope_def scope_inv_def tasks_of_def dest!: new_scope_fields)
  show "scope_step s t \<Longrightarrow> scope_inv s \<Longrightarrow> scope_inv t" for s t
    using scope_step_kept by (auto simp: kept_def)
qed

lemma scope_run_keeps: "scope_step\<^sup>*\<^sup>* s t \<Longrightarrow> scope_inv s \<Longrightarrow> keeps s t"
  by (rule scopes.run_lift [where R = keeps]) (auto simp: scope_step_kept [unfolded kept_def] intro: keeps_trans)

section \<open>The promises\<close>

text \<open>C24: Once a scope is cancelled or closed it stays so, starts no further task and accepts no
  further result, whatever happens: a task that returns afterwards has ended otherwise.
\<close>

theorem fenced_scope_accepts_nothing:
  assumes "initial_scope s0" "scope_step\<^sup>*\<^sup>* s0 s" "cancel_requested s \<or> closed s" "scope_step\<^sup>*\<^sup>* s t"
  shows "(cancel_requested t \<or> closed t) \<and> next_task t = next_task s
    \<and> {(i, v). task_end_of t i = Some (Returned v)} \<subseteq> {(i, v). task_end_of s i = Some (Returned v)}"
proof -
  have "scope_inv s" using scopes.reachable_inv assms(1,2) by blast
  then have "keeps s t" using assms(4) by (simp add: scope_run_keeps)
  then show ?thesis using assms(3) by (auto simp: keeps_def fenced_def)
qed

text \<open>The history of a scope is bounded and complete: it holds every task whose callbacks have
  run, up to its limit, the unfinished tasks are exactly those still listed, and the cleanup
  callback is called at most once.
\<close>

theorem history_bounded:
  assumes "new_scope mid ep rv deadline check timeout limit callback = Inr s0" "scope_step\<^sup>*\<^sup>* s0 s"
  shows "length (outcomes s) = min (history_limit s) (next_task s - length (pending s)) \<and> length (notices s) \<le> 1
    \<and> distinct (tasks_of s) \<and> {i. i < next_task s \<and> \<not> task_finished s i} \<subseteq> set (tasks_of s)"
proof -
  have "initial_scope s0" unfolding initial_scope_def using assms(1) by blast
  then have inv: "scope_inv s" using scopes.reachable_inv assms(2) by blast
  have "i \<in> set (tasks_of s)" if "i < next_task s" "\<not> task_finished s i" for i
  proof -
    from that inv obtain k where "scope_tasks s i = Some k" "task_done k = None"
      by (auto simp: scope_inv_def task_finished_def split: option.splits)
    with inv show ?thesis by (fastforce simp: scope_inv_def)
  qed
  then have "{i. i < next_task s \<and> \<not> task_finished s i} \<subseteq> set (tasks_of s)" by blast
  with inv show ?thesis by (simp add: scope_inv_def)
qed

lemma unfinished_listed: "scope_inv s \<Longrightarrow> \<not> task_finished s i \<Longrightarrow> i \<in> set (tasks_of s)"
  by (fastforce simp: scope_inv_def task_finished_def split: option.splits)

lemma finished_kept:
  assumes "keeps s t" "scope_inv s" "scope_inv t" "fenced s" "task_finished s i"
  shows "task_finished t i"
proof (cases "scope_tasks s i")
  case None
  then have "scope_tasks t i = None" using assms(1-4) by (metis keeps_def scope_inv_def)
  then show ?thesis by (simp add: task_finished_def)
next
  case (Some k)
  with assms(1,5) show ?thesis by (force simp: keeps_def task_finished_def)
qed

lemma task_finished_closed [simp]: "task_finished (u\<lparr>closed := b\<rparr>) = task_finished u"
  by (simp add: fun_eq_iff task_finished_def)

lemma fenced_closed [simp]: "fenced (u\<lparr>closed := True\<rparr>)"
  by (simp add: fenced_def)

text \<open>A scope as a stop leaves it when it starts to wait for some tasks, or need not wait.\<close>

definition stopping_on :: "wait_point \<Rightarrow> task_scope \<Rightarrow> bool" where
  "stopping_on p t \<longleftrightarrow> fenced t \<and> (case p of
     Waiting b ts l \<Rightarrow> b \<and> (\<forall>i. \<not> task_finished t i \<longrightarrow> i \<in> set ts)
   | Draining ts d \<Rightarrow> False
   | Waited os \<Rightarrow> \<forall>i. task_finished t i)"

lemma stop_begin_stops:
  assumes "scope_inv s"
  shows "wp (stop_begin e timeout) stopping_on (\<lambda>_ _. True) s"
proof -
  have inv: "scope_inv (cancel_all s)" using calmly_cancel [of s s] assms by (simp add: calmly_def)
  have "fenced (fold ask_cancel is u) = fenced u" for "is" u
    by (induction "is" arbitrary: u) (auto simp: ask_cancel_def fenced_def split: option.split)
  then have fenced: "fenced (cancel_all s)" by (simp add: cancel_all_def) (simp add: fenced_def)
  have listed: "\<not> task_finished (cancel_all s) i \<Longrightarrow> i \<in> set (unfinished (cancel_all s) (tasks_of (cancel_all s)))" for i
    using unfinished_listed [OF inv] by (simp add: unfinished_def)
  have none: "unfinished (cancel_all s) (tasks_of (cancel_all s)) = [] \<Longrightarrow> task_finished (cancel_all s) i" for i
    using listed by fastforce
  show ?thesis
    unfolding stop_begin_def wait_begin_def wait_end_def
    using fenced listed none by (auto simp: wp_simps stopping_on_def)
qed

lemma wait_resume_done:
  assumes "wait_resume e loop_now cancelled p s = (t, Inr (Waited os))" "stopping_on p u" "keeps u s" "scope_inv u" "scope_inv s"
  shows "task_finished s i"
proof (cases "task_finished u i")
  case True
  then show ?thesis using finished_kept [OF assms(3-5)] assms(2) by (simp add: stopping_on_def)
next
  case False
  with assms(2) obtain b ts l where p: "p = Waiting b ts l" "i \<in> set ts"
    by (auto simp: stopping_on_def split: wait_point.splits)
  have "wp (wait_resume e loop_now cancelled p) (\<lambda>q _. \<forall>os. q = Waited os \<longrightarrow> unfinished s ts = []) (\<lambda>_ _. True) s"
    unfolding p wait_resume_def wait_point.case wait_end_def drained_def notify_cleanup_timeout_def
    by (auto simp: wp_simps)
  with assms(1) have "unfinished s ts = []" by (simp add: wp_def)
  with p(2) show ?thesis by (auto simp: unfinished_def filter_empty_conv)
qed

text \<open>C23: When a stop of a scope returns, at once or after a wait during which anything may happen,
  every task of the scope has ended, and no task is unfinished ever after.
\<close>

theorem stopped_scope_is_done:
  assumes "initial_scope s0" "scope_step\<^sup>*\<^sup>* s0 s" "stop_begin e timeout s = (s1, Inr p)" "scope_step\<^sup>*\<^sup>* s1 s2"
    and "wait_resume e' loop_now cancelled p s2 = (s3, Inr (Waited os))" "scope_step\<^sup>*\<^sup>* s3 t"
  shows "task_finished t i"
proof -
  have inv: "scope_inv s" using scopes.reachable_inv assms(1,2) by blast
  have step1: "scope_step s s1" using assms(3) by (rule s_stop)
  have inv1: "scope_inv s1" using scopes.step_inv step1 inv by blast
  have inv2: "scope_inv s2" using scopes.run_inv assms(4) inv1 by blast
  have run: "scope_step\<^sup>*\<^sup>* s2 t" using converse_rtranclp_into_rtranclp [OF s_wait_resume [OF assms(5)] assms(6)] .
  have stopping: "stopping_on p s1" using stop_begin_stops [OF inv, of e timeout] by (simp add: wp_def assms(3))
  have keeps: "keeps s1 s2" by (rule scope_run_keeps [OF assms(4) inv1])
  have "fenced s2" using stopping keeps by (simp add: stopping_on_def keeps_def)
  moreover have "task_finished s2 i" by (rule wait_resume_done [OF assms(5) stopping keeps inv1 inv2])
  ultimately show ?thesis
    using finished_kept [OF scope_run_keeps [OF run inv2] inv2 scopes.run_inv [OF run inv2]] by blast
qed

section \<open>Bounded waits\<close>













section \<open>A concrete scope\<close>

definition sc_env :: scope_env where
  "sc_env = \<lparr>clock = 0, current_answer = Inr (), observer_check = Inr (), observer_register = Inr (), callback_answer = Inr (),
     class_name = (\<lambda>_. ''Error'')\<rparr>"

definition sc0 :: task_scope where
  "sc0 = \<lparr>scope_module = ''p/m'', scope_epoch = 1, scope_revision = None, scope_deadline = None, cleanup_timeout = 5,
     history_limit = 128, has_current_check = False, has_cleanup_callback = True, pending = [], outcomes = [],
     cancel_requested = False, closed = False, deadline_exceeded = False, cleanup_timeout_notified = False,
     scope_tasks = (\<lambda>_. None), next_task = 0, closed_awaitables = [], notices = []\<rparr>"

lemma sc_new: "new_scope ''p/m'' 1 None None False (Fin 5) 128 True = Inr sc0"
  by (simp add: new_scope_def finite_duration_def sc0_def blank_def is_space_def)

lemma sc_initial: "initial_scope sc0"
  unfolding initial_scope_def using sc_new by blast

text \<open>One task is started, the scope is stopped, the task ends cancelled and the stop returns.\<close>

definition sc1 :: task_scope where "sc1 = fst (run_begin sc_env (Given 0) ''a'' None sc0)"
definition sc2 :: task_scope where "sc2 = fst (stop_begin sc_env None sc1)"
definition sc3 :: task_scope where "sc3 = fst (runner_cancelled 0 sc2)"
definition sc4 :: task_scope where "sc4 = fst (wait_resume sc_env 1 False (Waiting True [0] None) sc3)"
definition sc5 :: task_scope where "sc5 = fst (done_callbacks sc_env 0 sc4)"

lemmas sc_defs = sc1_def sc2_def sc3_def sc4_def sc5_def sc0_def sc_env_def

lemma step_run: "scope_step s (fst (run_begin e (Given w) name dl s))"
  and step_stop: "scope_step s (fst (stop_begin e dl s))"
  and step_callbacks: "scope_step s (fst (done_callbacks e i s))"
  and step_wait: "scope_step s (fst (wait_begin e b dl s))"
  and step_wait_resume: "scope_step s (fst (wait_resume e n c p s))"
  by (auto intro: scope_step.intros prod.collapse [symmetric])

lemma sc_tasks: "scope_tasks sc2 0 = Some \<lparr>task_name = ''a'', task_work = Given 0, supervises = None, task_started = False,
    task_done = None, cancel_asked = True, called_back = False\<rparr>"
  by code_simp

lemma sc_steps: "scope_step sc0 sc1" "scope_step sc1 sc2" "scope_step sc2 sc3" "scope_step sc3 sc4" "scope_step sc4 sc5"
proof -
  show "scope_step sc2 sc3"
    by (rule s_cancelled [OF sc_tasks _ _ _ prod.collapse [symmetric], folded sc3_def]) simp_all
qed (auto simp: sc1_def sc2_def sc4_def sc5_def intro: step_run step_stop step_wait_resume step_callbacks)

lemma sc_runs: "scope_step\<^sup>*\<^sup>* sc0 sc1" "scope_step\<^sup>*\<^sup>* sc0 sc2" "scope_step\<^sup>*\<^sup>* sc2 sc3" "scope_step\<^sup>*\<^sup>* sc2 sc5" "scope_step\<^sup>*\<^sup>* sc0 sc5"
  by (rule sc_steps rtranclp.rtrancl_refl converse_rtranclp_into_rtranclp)+

lemma sc_results: "snd (stop_begin sc_env None sc1) = Inr (Waiting True [0] None)"
    "snd (wait_resume sc_env 1 False (Waiting True [0] None) sc3) = Inr (Waited [])"
  by code_simp+

theorem fenced_scope_accepts_nothing_witness: 
  "(cancel_requested sc5 \<or> closed sc5) \<and> next_task sc5 = next_task sc2 
    \<and> {(i, v). task_end_of sc5 i = Some (Returned v)} \<subseteq> {(i, v). task_end_of sc2 i = Some (Returned v)}"
proof (rule fenced_scope_accepts_nothing [OF sc_initial sc_runs(2) _ sc_runs(4)])
  show "cancel_requested sc2 \<or> closed sc2" by code_simp
qed

theorem history_bounded_witness:
  "length (outcomes sc5) = min (history_limit sc5) (next_task sc5 - length (pending sc5)) \<and> length (notices sc5) \<le> 1
    \<and> distinct (tasks_of sc5) \<and> {i. i < next_task sc5 \<and> \<not> task_finished sc5 i} \<subseteq> set (tasks_of sc5)"
  by (rule history_bounded [OF sc_new sc_runs(5)])

theorem stopped_scope_is_done_witness: "task_finished sc4 0"
proof (rule stopped_scope_is_done [OF sc_initial sc_runs(1) _ sc_runs(3) _ rtranclp.rtrancl_refl])
  show "stop_begin sc_env None sc1 = (sc2, Inr (Waiting True [0] None))"
    unfolding sc2_def sc_results(1) [symmetric] by simp
  show "wait_resume sc_env 1 False (Waiting True [0] None) sc3 = (sc4, Inr (Waited []))"
    unfolding sc4_def sc_results(2) [symmetric] by simp
qed


text \<open>
  A wait that is no stop closes the scope although a task begun during the wait is unfinished;
  that task is then never asked to end, since cancelling a closed scope does nothing.
\<close>

definition sw1 :: task_scope where "sw1 = fst (wait_begin sc_env False None sc1)"
definition sw2 :: task_scope where "sw2 = fst (run_begin sc_env (Given 1) ''b'' None sw1)"
definition sw3 :: task_scope where "sw3 = fst (runner_start sc_env sc_env 0 sw2)"
definition sw4 :: task_scope where "sw4 = fst (runner_finish sc_env 0 (Inr 7) sw3)"
definition sw5 :: task_scope where "sw5 = fst (wait_resume sc_env 1 False (Waiting False [0] None) sw4)"

theorem wait_closes_running_scope:
  "scope_step\<^sup>*\<^sup>* sc0 sw5 \<and> snd (wait_begin sc_env False None sc1) = Inr (Waiting False [0] None)
    \<and> snd (wait_resume sc_env 1 False (Waiting False [0] None) sw4) = Inr (Waited [])
    \<and> closed sw5 \<and> \<not> task_finished sw5 1 \<and> cancel_all sw5 = sw5"
proof -
  have t: "scope_tasks sw2 0 = Some \<lparr>task_name = ''a'', task_work = Given 0, supervises = None, task_started = False,
    task_done = None, cancel_asked = False, called_back = False\<rparr>"
    "scope_tasks sw3 0 = Some \<lparr>task_name = ''a'', task_work = Given 0, supervises = None, task_started = True,
    task_done = None, cancel_asked = False, called_back = False\<rparr>"
    by code_simp+
  have steps: "scope_step sc0 sc1" "scope_step sc1 sw1" "scope_step sw1 sw2" "scope_step sw4 sw5"
    by (auto simp: sc1_def sw1_def sw2_def sw5_def intro: step_run step_wait step_wait_resume)
  have start: "scope_step sw2 sw3"
    by (rule s_start [OF t(1) _ _ _ prod.collapse [symmetric], where e = sc_env and inner = sc_env, folded sw3_def]) simp_all
  have finish: "scope_step sw3 sw4"
    by (rule s_finish [OF t(2) _ _ prod.collapse [symmetric], where e = sc_env and r = "Inr 7", folded sw4_def]) simp_all
  have "scope_step\<^sup>*\<^sup>* sc0 sw5"
    by (rule steps start finish rtranclp.rtrancl_refl converse_rtranclp_into_rtranclp)+
  moreover have "closed sw5" "\<not> task_finished sw5 1" "snd (wait_begin sc_env False None sc1) = Inr (Waiting False [0] None)"
      "snd (wait_resume sc_env 1 False (Waiting False [0] None) sw4) = Inr (Waited [])"
    by code_simp+
  ultimately show ?thesis by (simp add: cancel_all_def)
qed

end
