(* ===== verification/Timestamps.thy ===== *)
theory Timestamps
  imports Prelude "HOL-Library.Char_ord" "HOL-Library.List_Lexorder"
begin

text \<open>
  The texts of instants.  The repositories store a UTC \<open>datetime\<close> as the text of its
  \<open>isoformat\<close>, and their statements compare these texts.  An instant is the number of
  microseconds since the first day of year 1; its text is computed through the Gregorian calendar,
  and the order of the texts is the order of the instants.
\<close>

section \<open>Decimal fields\<close>

text \<open>The digits of a number in a field of fixed width.\<close>

fun padded :: "nat \<Rightarrow> nat \<Rightarrow> string" where
  "padded 0 n = []"
| "padded (Suc w) n = padded w (n div 10) @ [char_of (48 + n mod 10)]"

lemma length_padded [simp]: "length (padded w n) = w"
  by (induction w arbitrary: n) auto

text \<open>Two lists of the same length compare like their parts.\<close>

lemma append_less_iff:
  fixes xs ys us vs :: "'a::linorder list"
  shows "length xs = length ys \<Longrightarrow> xs @ us < ys @ vs \<longleftrightarrow> xs < ys \<or> xs = ys \<and> us < vs"
  by (induction xs ys rule: list_induct2) auto

lemma digit_less: "m < 10 \<Longrightarrow> n < 10 \<Longrightarrow> (char_of (48 + m) :: char) < char_of (48 + n) \<longleftrightarrow> (m::nat) < n"
  by (simp add: less_char_def)

lemma digit_eq: "m < 10 \<Longrightarrow> n < 10 \<Longrightarrow> (char_of (48 + m) :: char) = char_of (48 + n) \<longleftrightarrow> (m::nat) = n"
  using digit_less by (metis linorder_neqE_nat order_less_irrefl)

lemma div_less_iff:
  fixes a b k :: nat
  assumes "0 < k"
  shows "a < b \<longleftrightarrow> a div k < b div k \<or> a div k = b div k \<and> a mod k < b mod k"
proof (cases "a div k" "b div k" rule: linorder_cases)
  case less
  then have "a < b" by (metis div_le_mono not_le)
  with less show ?thesis by simp
next
  case equal
  then show ?thesis using div_mult_mod_eq [of a k] div_mult_mod_eq [of b k] by (metis nat_add_left_cancel_less less_irrefl)
next
  case greater
  then have "b < a" by (metis div_le_mono not_le)
  with greater show ?thesis by simp
qed

lemma padded_order:
  "m < 10 ^ w \<Longrightarrow> n < 10 ^ w \<Longrightarrow> (padded w m < padded w n \<longleftrightarrow> m < n) \<and> (padded w m = padded w n \<longleftrightarrow> m = n)"
proof (induction w arbitrary: m n)
  case (Suc w)
  have "m div 10 < 10 ^ w" "n div 10 < 10 ^ w" using Suc.prems by (simp_all add: less_mult_imp_div_less mult.commute)
  from Suc.IH [OF this] have IH: "padded w (m div 10) < padded w (n div 10) \<longleftrightarrow> m div 10 < n div 10"
      "padded w (m div 10) = padded w (n div 10) \<longleftrightarrow> m div 10 = n div 10" by simp_all
  have digits: "(char_of (48 + m mod 10) :: char) < char_of (48 + n mod 10) \<longleftrightarrow> m mod 10 < n mod 10"
      "(char_of (48 + m mod 10) :: char) = char_of (48 + n mod 10) \<longleftrightarrow> m mod 10 = n mod 10"
    by (simp_all add: digit_less digit_eq)
  have parts: "m < n \<longleftrightarrow> m div 10 < n div 10 \<or> m div 10 = n div 10 \<and> m mod 10 < n mod 10"
      "m = n \<longleftrightarrow> m div 10 = n div 10 \<and> m mod 10 = n mod 10"
    by (rule div_less_iff, simp) (metis div_mult_mod_eq)
  have one: "[c] < [d] \<longleftrightarrow> c < d" "[c] = [d] \<longleftrightarrow> c = d" for c d :: char by simp_all
  show ?case unfolding padded.simps parts by (simp add: append_less_iff append_eq_append_conv IH digits del: char_of_eq_iff)
qed simp

lemma field_less:
  "m < 10 ^ w \<Longrightarrow> n < 10 ^ w \<Longrightarrow> padded w m @ us < padded w n @ vs \<longleftrightarrow> m < n \<or> m = n \<and> us < vs"
  using padded_order [of m w n] by (simp add: append_less_iff)

section \<open>The calendar\<close>

text \<open>
  The days before a year and before a month of a year (as in the standard library's
  \<open>datetime\<close>), and the year and month a day lies in: the last ones that begin by then.
\<close>

definition days_before_year :: "nat \<Rightarrow> nat" where
  "days_before_year y = 365 * (y - 1) + (y - 1) div 4 - (y - 1) div 100 + (y - 1) div 400"

definition is_leap :: "nat \<Rightarrow> bool" where
  "is_leap y \<longleftrightarrow> y mod 4 = 0 \<and> (y mod 100 \<noteq> 0 \<or> y mod 400 = 0)"

definition days_in_month :: "nat \<Rightarrow> nat \<Rightarrow> nat" where
  "days_in_month y m = (if m = 2 \<and> is_leap y then 29 else [0, 31, 28, 31, 30, 31, 30, 31, 31, 30, 31, 30, 31] ! m)"

definition days_before_month :: "nat \<Rightarrow> nat \<Rightarrow> nat" where
  "days_before_month y m = sum_list (map (days_in_month y) [1..<m])"

definition last_begun :: "(nat \<Rightarrow> nat) \<Rightarrow> nat \<Rightarrow> nat \<Rightarrow> nat" where
  "last_begun f n d = length (filter (\<lambda>k. f k \<le> d) [1..<n])"

definition year_of :: "nat \<Rightarrow> nat" where
  "year_of d = last_begun days_before_year (d div 365 + 2) d"

definition day_of_year :: "nat \<Rightarrow> nat" where
  "day_of_year d = d - days_before_year (year_of d)"

definition month_of :: "nat \<Rightarrow> nat" where
  "month_of d = last_begun (days_before_month (year_of d)) 13 (day_of_year d)"

definition day_of_month :: "nat \<Rightarrow> nat" where
  "day_of_month d = day_of_year d - days_before_month (year_of d) (month_of d) + 1"

lemma steps_le:
  fixes f :: "nat \<Rightarrow> nat"
  shows "(\<And>k. 1 \<le> k \<Longrightarrow> f k \<le> f (Suc k)) \<Longrightarrow> 1 \<le> j \<Longrightarrow> j \<le> n \<Longrightarrow> f j \<le> f n"
  by (induction n) (auto simp: le_Suc_eq intro: le_trans)

lemma last_begun_split:
  assumes "\<And>k. 1 \<le> k \<Longrightarrow> f k \<le> f (Suc k)"
  shows "(\<forall>j. 1 \<le> j \<longrightarrow> j \<le> last_begun f n d \<longrightarrow> f j \<le> d) \<and> (\<forall>j. last_begun f n d < j \<longrightarrow> j < n \<longrightarrow> d < f j)
    \<and> last_begun f n d \<le> n - 1"
proof (induction n)
  case (Suc n)
  show ?case
  proof (cases "1 \<le> n \<and> f n \<le> d")
    case True
    have down: "f j \<le> f n" if "1 \<le> j" "j \<le> n" for j
      by (rule steps_le [of f, OF assms]) (use that in simp_all)
    have "last_begun f n d = n - 1"
    proof (rule ccontr)
      assume "last_begun f n d \<noteq> n - 1"
      then have "last_begun f n d < n - 1" using Suc by simp
      then have "d < f (n - 1)" using Suc by simp
      moreover have "1 \<le> n - 1" using \<open>last_begun f n d < n - 1\<close> by simp
      then have "f (n - 1) \<le> d" using down [of "n - 1"] True by simp
      ultimately show False by simp
    qed
    then have "last_begun f (Suc n) d = n" using True by (simp add: last_begun_def)
    moreover have "f j \<le> d" if "1 \<le> j" "j \<le> n" for j using down [OF that] True by simp
    ultimately show ?thesis by simp
  next
    case False
    then have same: "last_begun f (Suc n) d = last_begun f n d" by (cases "1 \<le> n") (simp_all add: last_begun_def)
    have "d < f j" if "last_begun f n d < j" "j < Suc n" for j
      using that Suc False by (cases "j = n") auto
    with Suc same show ?thesis by auto
  qed
qed (simp add: last_begun_def)

lemma last_begun_mono: "d \<le> d' \<Longrightarrow> n \<le> n' \<Longrightarrow> last_begun f n d \<le> last_begun f n' d'"
proof -
  assume le: "d \<le> d'" "n \<le> n'"
  have sub: "set (filter (\<lambda>k. f k \<le> d) [1..<n]) \<subseteq> set (filter (\<lambda>k. f k \<le> d') [1..<n'])" using le by auto
  have "card (set (filter (\<lambda>k. f k \<le> d) [1..<n])) \<le> card (set (filter (\<lambda>k. f k \<le> d') [1..<n']))"
    by (rule card_mono [OF _ sub]) simp
  then show ?thesis unfolding last_begun_def by (simp only: distinct_card distinct_filter distinct_upt)
qed

lemma year_arith:
  fixes a b c a' b' c' n :: nat
  assumes "a' \<le> a + 1" "b' \<le> b + 1" "c' \<le> c + 1" "b \<le> a" "b' \<le> a'" "a \<le> a'" "b \<le> b'" "c \<le> c'"
  shows "365 * n + a - b + c + 365 \<le> 365 * Suc n + a' - b' + c' + 1" "365 * Suc n + a' - b' + c' \<le> 365 * n + a - b + c + 367"
  using assms by simp_all

lemma year_length:
  assumes "1 \<le> y"
  shows "days_before_year y + 365 \<le> days_before_year (Suc y) + 1" "days_before_year (Suc y) \<le> days_before_year y + 367"
proof -
  obtain n where y: "y = Suc n" using assms by (cases y) auto
  have step: "Suc n div k \<le> n div k + 1" if "0 < k" for k
    using div_le_mono [of "Suc n" "n + k" k] that by simp
  have "n div 4 \<le> Suc n div 4" "Suc n div 4 \<le> n div 4 + 1" "n div 100 \<le> Suc n div 100" "Suc n div 100 \<le> n div 100 + 1"
    "n div 400 \<le> Suc n div 400" "Suc n div 400 \<le> n div 400 + 1" "n div 100 \<le> n div 4" "Suc n div 100 \<le> Suc n div 4"
    using step [of 4] step [of 100] step [of 400] by (simp_all add: div_le_mono div_le_mono2)
  moreover have "n div 4 \<le> Suc n div 4" "n div 100 \<le> Suc n div 100" "n div 400 \<le> Suc n div 400" by (simp_all add: div_le_mono)
  ultimately show "days_before_year y + 365 \<le> days_before_year (Suc y) + 1" "days_before_year (Suc y) \<le> days_before_year y + 367"
    unfolding days_before_year_def y diff_Suc_1 by - (rule year_arith, assumption+)+
qed

lemma year_lower: "365 * n \<le> days_before_year (Suc n)"
proof -
  have "n div 100 \<le> n div 4" by (simp add: div_le_mono2)
  then show ?thesis by (simp add: days_before_year_def)
qed

lemma year_bounds: "1 \<le> year_of d" "days_before_year (year_of d) \<le> d" "d < days_before_year (Suc (year_of d))"
proof -
  let ?n = "d div 365 + 2"
  have mono: "days_before_year k \<le> days_before_year (Suc k)" if "1 \<le> k" for k using year_length(1) [OF that] by simp
  note split = last_begun_split [of days_before_year ?n d, OF mono, folded year_of_def]
  show one: "1 \<le> year_of d"
  proof (rule ccontr)
    assume "\<not> 1 \<le> year_of d"
    then have "year_of d < 1" by simp
    then have "d < days_before_year 1" using split by auto
    then show False by (simp add: days_before_year_def)
  qed
  then show "days_before_year (year_of d) \<le> d" using split by auto
  show "d < days_before_year (Suc (year_of d))"
  proof (cases "Suc (year_of d) < ?n")
    case True
    then show ?thesis using split by auto
  next
    case False
    then have eq: "Suc (year_of d) = Suc (d div 365 + 1)" using split by auto
    have "d < 365 * (d div 365 + 1)" using dividend_less_times_div [of 365 d] by simp
    also have "\<dots> \<le> days_before_year (Suc (year_of d))" unfolding eq by (rule year_lower)
    finally show ?thesis .
  qed
qed

lemma day_of_year_bound: "day_of_year d < 367"
  using year_bounds(2,3) [of d] year_length(2) [OF year_bounds(1) [of d]] unfolding day_of_year_def by linarith

lemma months: "days_before_month y (Suc m) = days_before_month y m + (if 1 \<le> m then days_in_month y m else 0)"
  by (cases m) (simp_all add: days_before_month_def)

lemma month_length: "1 \<le> m \<Longrightarrow> m \<le> 12 \<Longrightarrow> days_in_month y m \<le> 31"
proof -
  assume m: "1 \<le> m" "m \<le> 12"
  then have "m \<in> set [1..<13]" by simp
  moreover have "\<forall>m \<in> set [1..<13]. days_in_month y m \<le> 31" by (simp add: days_in_month_def upt_rec)
  ultimately show ?thesis by blast
qed

lemma december: "334 \<le> days_before_month y 12"
  by (simp add: days_before_month_def days_in_month_def upt_rec numeral_eq_Suc)

lemma month_bounds:
  "1 \<le> month_of d" "month_of d \<le> 12" "days_before_month (year_of d) (month_of d) \<le> day_of_year d" "day_of_month d < 100"
proof -
  let ?f = "days_before_month (year_of d)"
  have "?f k \<le> ?f (Suc k)" for k by (simp add: months)
  note split = last_begun_split [of ?f 13 "day_of_year d", OF this, folded month_of_def]
  show one: "1 \<le> month_of d"
  proof (rule ccontr)
    assume "\<not> 1 \<le> month_of d"
    then have "month_of d < 1" by simp
    then have "day_of_year d < ?f 1" using split by auto
    then show False by (simp add: days_before_month_def)
  qed
  show twelve: "month_of d \<le> 12" using split by auto
  show low: "?f (month_of d) \<le> day_of_year d" using split one by auto
  show "day_of_month d < 100"
  proof (cases "month_of d = 12")
    case True
    then show ?thesis using december [of "year_of d"] day_of_year_bound [of d] by (simp add: day_of_month_def)
  next
    case False
    then have "day_of_year d < ?f (Suc (month_of d))" using split twelve by auto
    then show ?thesis using month_length [OF one twelve, of "year_of d"] one by (simp add: day_of_month_def months split: if_splits)
  qed
qed

lemma date_less:
  assumes "d < d'"
  shows "year_of d < year_of d' \<or> year_of d = year_of d' \<and>
    (month_of d < month_of d' \<or> month_of d = month_of d' \<and> day_of_month d < day_of_month d')"
proof -
  have "year_of d \<le> year_of d'" unfolding year_of_def using assms by (intro last_begun_mono) (simp_all add: div_le_mono)
  moreover have "month_of d < month_of d' \<or> month_of d = month_of d' \<and> day_of_month d < day_of_month d'" if "year_of d = year_of d'"
  proof -
    have less: "day_of_year d < day_of_year d'"
      using assms year_bounds(2) [of d] year_bounds(2) [of d'] that by (simp add: day_of_year_def)
    then have "month_of d \<le> month_of d'" unfolding month_of_def that by (intro last_begun_mono) simp_all
    moreover have "day_of_month d < day_of_month d'" if "month_of d = month_of d'"
      using less month_bounds(3) [of d] month_bounds(3) [of d'] that \<open>year_of d = year_of d'\<close> by (simp add: day_of_month_def)
    ultimately show ?thesis by auto
  qed
  ultimately show ?thesis by auto
qed

section \<open>The text of an instant\<close>

definition isoformat :: "nat \<Rightarrow> string" where
  "isoformat t =
     (let us = t mod 1000000; s = t div 1000000; mi = s div 60; h = mi div 60; d = h div 24 in
      padded 4 (year_of d) @ ''-'' @ padded 2 (month_of d) @ ''-'' @ padded 2 (day_of_month d) @ ''T''
      @ padded 2 (h mod 24) @ '':'' @ padded 2 (mi mod 60) @ '':'' @ padded 2 (s mod 60)
      @ (if us = 0 then [] else ''.'' @ padded 6 us) @ ''+00:00'')"

text \<open>The instants before year 10000, which a \<open>datetime\<close> can denote.\<close>

definition representable :: "nat \<Rightarrow> bool" where
  "representable t \<longleftrightarrow> year_of (t div 86400000000) < 10000"

lemma fraction_less:
  assumes "u < v" "v < 1000000"
  shows "(if u = 0 then [] else ''.'' @ padded 6 u) @ ''+00:00'' < (if v = 0 then [] else ''.'' @ padded 6 v) @ ''+00:00''"
proof (cases "u = 0")
  case True
  have "CHR ''+'' < CHR ''.''" by (simp add: less_char_def)
  with True assms show ?thesis by simp
next
  case False
  with assms show ?thesis by (simp add: field_less)
qed

lemma isoformat_less:
  assumes "t < t'" "representable t" "representable t'"
  shows "isoformat t < isoformat t'"
proof -
  define s mi h d where "s = t div 1000000" and "mi = s div 60" and "h = mi div 60" and "d = h div 24"
  define s' mi' h' d' where "s' = t' div 1000000" and "mi' = s' div 60" and "h' = mi' div 60" and "d' = h' div 24"
  note defs = s_def mi_def h_def d_def s'_def mi'_def h'_def d'_def
  have "d = t div 86400000000" "d' = t' div 86400000000" by (simp_all add: defs flip: div_mult2_eq)
  with assms(2,3) have y: "year_of d < 10 ^ 4" "year_of d' < 10 ^ 4" by (simp_all add: representable_def)
  have m: "month_of d < 10 ^ 2" "month_of d' < 10 ^ 2" using month_bounds(2) [of d] month_bounds(2) [of d'] by simp_all
  have dm: "day_of_month d < 10 ^ 2" "day_of_month d' < 10 ^ 2" using month_bounds(4) by simp_all
  have small: "n mod 24 < 10 ^ 2" "n mod 60 < 10 ^ 2" for n :: nat
    by (rule less_trans [OF mod_less_divisor], simp_all)+
  have order: "d < d' \<or> d = d' \<and> (h mod 24 < h' mod 24 \<or> h mod 24 = h' mod 24 \<and> (mi mod 60 < mi' mod 60 \<or> mi mod 60 = mi' mod 60 \<and>
      (s mod 60 < s' mod 60 \<or> s mod 60 = s' mod 60 \<and> t mod 1000000 < t' mod 1000000)))"
  proof -
    have "t < t' \<longleftrightarrow> s < s' \<or> s = s' \<and> t mod 1000000 < t' mod 1000000" unfolding s_def s'_def by (rule div_less_iff) simp
    moreover have "s < s' \<longleftrightarrow> mi < mi' \<or> mi = mi' \<and> s mod 60 < s' mod 60" unfolding mi_def mi'_def by (rule div_less_iff) simp
    moreover have "mi < mi' \<longleftrightarrow> h < h' \<or> h = h' \<and> mi mod 60 < mi' mod 60" unfolding h_def h'_def by (rule div_less_iff) simp
    moreover have "h < h' \<longleftrightarrow> d < d' \<or> d = d' \<and> h mod 24 < h' mod 24" unfolding d_def d'_def by (rule div_less_iff) simp
    moreover have "s = s' \<Longrightarrow> mi = mi' \<and> s mod 60 = s' mod 60" "mi = mi' \<Longrightarrow> h = h' \<and> mi mod 60 = mi' mod 60"
        "h = h' \<Longrightarrow> d = d' \<and> h mod 24 = h' mod 24"
      by (simp_all add: mi_def mi'_def h_def h'_def d_def d'_def)
    ultimately show ?thesis using assms(1) by blast
  qed
  have fraction: "t mod 1000000 < t' mod 1000000 \<Longrightarrow>
      (if t mod 1000000 = 0 then [] else ''.'' @ padded 6 (t mod 1000000)) @ ''+00:00''
        < (if t' mod 1000000 = 0 then [] else ''.'' @ padded 6 (t' mod 1000000)) @ ''+00:00''"
    by (rule fraction_less) simp_all
  show ?thesis
    unfolding isoformat_def Let_def
    unfolding s_def [symmetric] s'_def [symmetric]
    unfolding mi_def [symmetric] mi'_def [symmetric]
    unfolding h_def [symmetric] h'_def [symmetric]
    unfolding d_def [symmetric] d'_def [symmetric]
    using order date_less [of d d'] fraction
    by (auto simp only: append_Cons append_Nil field_less y m dm small Cons_less_Cons)
qed

lemma representable_le: "t \<le> t' \<Longrightarrow> representable t' \<Longrightarrow> representable t"
proof -
  assume "t \<le> t'"
  then have "t div 86400000000 \<le> t' div 86400000000" by (rule div_le_mono)
  then have "year_of (t div 86400000000) \<le> year_of (t' div 86400000000)"
    unfolding year_of_def by (intro last_begun_mono) (simp_all add: div_le_mono)
  then show "representable t' \<Longrightarrow> representable t" by (simp add: representable_def)
qed

lemma first_day: "t < 86400000000 \<Longrightarrow> representable t"
  by (simp add: representable_def year_of_def last_begun_def days_before_year_def)

text \<open>The texts of two instants compare like the instants, so a comparison of stored texts is a comparison of times.\<close>

lemma text_less: "representable t \<Longrightarrow> representable t' \<Longrightarrow> isoformat t < isoformat t' \<longleftrightarrow> t < t'"
  using isoformat_less [of t t'] isoformat_less [of t' t] by (cases t t' rule: linorder_cases) auto

lemma text_le: "representable t \<Longrightarrow> representable t' \<Longrightarrow> isoformat t \<le> isoformat t' \<longleftrightarrow> t \<le> t'"
  using text_less [of t' t] by (metis linorder_not_le)

text \<open>\<open>fromisoformat\<close> on the texts \<open>isoformat\<close> writes; the stored texts are such.\<close>

definition number :: "string \<Rightarrow> nat" where
  "number cs = foldl (\<lambda>n c. 10 * n + (of_char c - 48)) 0 cs"

lemma number_padded: "number (padded w n) = n mod 10 ^ w"
proof (induction w arbitrary: n)
  case (Suc w)
  have digit: "(of_char (char_of (48 + n mod 10)) :: nat) = 48 + n mod 10" by (simp add: of_char_of)
  have "number (padded (Suc w) n) = 10 * number (padded w (n div 10)) + n mod 10"
    unfolding number_def padded.simps foldl_append by (simp only: foldl.simps digit diff_add_inverse)
  then show ?case using mod_mult2_eq [of n 10 "10 ^ w"] by (simp add: Suc.IH)
qed (simp add: number_def)

definition instant_of :: "string \<Rightarrow> nat" where
  "instant_of s =
     (let field = (\<lambda>a n. number (take n (drop a s)));
          y = field 0 4; d = days_before_year y + days_before_month y (field 5 2) + field 8 2 - 1;
          us = (if take 1 (drop 19 s) = ''.'' then field 20 6 else 0) in
      (((d * 24 + field 11 2) * 60 + field 14 2) * 60 + field 17 2) * 1000000 + us)"

definition fromisoformat :: "string \<Rightarrow> nat res" where
  "fromisoformat s = (let t = instant_of s in if representable t \<and> isoformat t = s then Inr t else Inl ValueError)"

lemma instant_of_isoformat:
  assumes "representable t"
  shows "instant_of (isoformat t) = t"
proof -
  define s mi h d where "s = t div 1000000" and "mi = s div 60" and "h = mi div 60" and "d = h div 24"
  note defs = s_def mi_def h_def d_def
  have "d = t div 86400000000" by (simp add: defs flip: div_mult2_eq)
  with assms have y: "year_of d mod 10000 = year_of d" by (simp add: representable_def)
  have m: "month_of d mod 100 = month_of d" using month_bounds(2) [of d] by simp
  have dm: "day_of_month d mod 100 = day_of_month d" using month_bounds(4) [of d] by simp
  have small: "n mod 24 mod 100 = n mod 24" "n mod 60 mod 100 = n mod 60" for n :: nat by simp_all
  have iso: "isoformat t = padded 4 (year_of d) @ ''-'' @ padded 2 (month_of d) @ ''-'' @ padded 2 (day_of_month d) @ ''T''
      @ padded 2 (h mod 24) @ '':'' @ padded 2 (mi mod 60) @ '':'' @ padded 2 (s mod 60)
      @ (if t mod 1000000 = 0 then [] else ''.'' @ padded 6 (t mod 1000000)) @ ''+00:00''"
    by (simp add: isoformat_def defs Let_def)
  have day: "days_before_year (year_of d) + days_before_month (year_of d) (month_of d) + day_of_month d - Suc 0 = d"
    using year_bounds(2) [of d] month_bounds(3) [of d] by (simp add: day_of_month_def day_of_year_def)
  have "instant_of (isoformat t) = (((d * 24 + h mod 24) * 60 + mi mod 60) * 60 + s mod 60) * 1000000 + t mod 1000000"
    unfolding iso instant_of_def Let_def by (simp add: number_padded y m dm day)
  also have "\<dots> = t" by (simp add: defs)
  finally show ?thesis .
qed

lemma fromisoformat_isoformat: "representable t \<Longrightarrow> fromisoformat (isoformat t) = Inr t"
  by (simp add: fromisoformat_def instant_of_isoformat)

lemma fromisoformat_eq_Inr: "fromisoformat s = Inr t \<longleftrightarrow> representable t \<and> s = isoformat t"
  by (auto simp: fromisoformat_def Let_def fromisoformat_isoformat instant_of_isoformat split: if_splits)

end
