(* ===== verification/Root_Outputs.thy ===== *)
theory Root_Outputs
  imports Timestamps "HOL-Library.Product_Lexorder"
begin

text \<open>
  The store of root result sends (\<open>infrastructure/sqlite/repositories_output.py\<close>) with the
  claims of \<open>core/ports.py\<close>.  A key invocation has moment most one row; a claim of it carries the
  generation the database gave it, and every transition compares that generation.  A transaction
  is a function of the tables; an exception rolls it back.  Instants are microseconds, the columns
  hold their texts, and the statements compare the texts.
\<close>

section \<open>Claims\<close>

datatype message_status = ACCEPTED | FAILED | RECEIPT_UNKNOWN

datatype output_state = CLAIMED | SENDING | COMPLETED | UNKNOWN

datatype output_outcome = MESSAGE | TOOL_RETURNED | SUBSCRIPTION_ENQUEUED | CONTROLLED_RESULT

record message_receipt =
  receipt_status :: message_status
  platform_message_id :: "string option"

record output_claim =
  root_invocation_id :: string
  output_identity :: string
  payload_fingerprint :: string
  state :: output_state
  owner_token :: string
  claim_generation :: int
  claimed_at :: nat
  lease_expires_at :: nat
  outcome :: "output_outcome option"
  receipt :: "message_receipt option"
  error_code :: "string option"

definition check_output_identity :: "string \<Rightarrow> unit res" where
  "check_output_identity v =
     ensure (v \<noteq> [] \<and> length v \<le> 256 \<and> list_all (\<lambda>c. 32 \<le> (of_char c :: nat) \<and> (of_char c :: nat) \<noteq> 127) v) ValueError"

definition check_bounded_identifier :: "string \<Rightarrow> unit res" where
  "check_bounded_identifier v =
     ensure (\<not> blank v \<and> CHR ''/'' \<notin> set v \<and> CHR 0x5C \<notin> set v \<and> CHR 0x0A \<notin> set v) ValueError"

definition check_RootOutputClaim :: "output_claim \<Rightarrow> unit res" where
  "check_RootOutputClaim c =
     rbind (check_output_identity (root_invocation_id c)) (\<lambda>_.
     rbind (check_output_identity (output_identity c)) (\<lambda>_.
     rbind (ensure (length (payload_fingerprint c) = 64 \<and> set (payload_fingerprint c) \<subseteq> set ''0123456789abcdef'') ValueError) (\<lambda>_.
     rbind (check_output_identity (owner_token c)) (\<lambda>_.
     rbind (ensure (1 \<le> claim_generation c) ValueError) (\<lambda>_.
     rbind (ensure (claimed_at c < lease_expires_at c) ValueError) (\<lambda>_.
     rbind (case error_code c of None \<Rightarrow> Inr () | Some e \<Rightarrow> check_bounded_identifier e) (\<lambda>_.
     rbind (if state c = COMPLETED then
         rbind (ensure (outcome c \<noteq> None) ValueError) (\<lambda>_.
         rbind (ensure (outcome c = Some MESSAGE \<longleftrightarrow> receipt c \<noteq> None) ValueError) (\<lambda>_.
         rbind (ensure (error_code c = None \<or> outcome c = Some CONTROLLED_RESULT) ValueError) (\<lambda>_.
         ensure (outcome c = Some CONTROLLED_RESULT \<longrightarrow> error_code c \<noteq> None) ValueError)))
       else ensure (outcome c = None \<and> receipt c = None) ValueError) (\<lambda>_.
     rbind (ensure (state c = UNKNOWN \<longrightarrow> error_code c = Some ''interrupted_send'') ValueError) (\<lambda>_.
     ensure (state c \<in> {CLAIMED, SENDING} \<longrightarrow> error_code c = None) ValueError)))))))))"

section \<open>Tables\<close>

record output_row =
  col_root :: string
  col_identity :: string
  col_fingerprint :: string
  col_state :: output_state
  col_outcome :: "output_outcome option"
  col_owner :: string
  col_claimed :: string
  col_expires :: string
  col_receipt :: "message_status option"
  col_message :: "string option"
  col_error :: "string option"
  col_updated :: string
  col_generation :: int

text \<open>The rows by their primary key, and the counter of generations.\<close>

record outputs_db =
  output_rows :: "(string \<times> output_row) list"
  generation_row :: "int option"

definition read_output :: "output_row \<Rightarrow> output_claim res" where
  "read_output r =
     rbind (fromisoformat (col_claimed r)) (\<lambda>claimed.
     rbind (fromisoformat (col_expires r)) (\<lambda>expires.
     let c = \<lparr>root_invocation_id = col_root r, output_identity = col_identity r, payload_fingerprint = col_fingerprint r,
         state = col_state r, owner_token = col_owner r, claim_generation = col_generation r, claimed_at = claimed,
         lease_expires_at = expires, outcome = col_outcome r,
         receipt = (case col_receipt r of None \<Rightarrow> None
           | Some st \<Rightarrow> Some \<lparr>receipt_status = st, platform_message_id = col_message r\<rparr>),
         error_code = col_error r\<rparr> in
     rbind (check_RootOutputClaim c) (\<lambda>_. Inr c)))"

definition output_values :: "output_claim \<Rightarrow> nat \<Rightarrow> output_row" where
  "output_values c updated =
     \<lparr>col_root = root_invocation_id c, col_identity = output_identity c, col_fingerprint = payload_fingerprint c,
      col_state = state c, col_outcome = outcome c, col_owner = owner_token c, col_claimed = isoformat (claimed_at c),
      col_expires = isoformat (lease_expires_at c), col_receipt = map_option receipt_status (receipt c),
      col_message = Option.bind (receipt c) platform_message_id, col_error = error_code c, col_updated = isoformat updated,
      col_generation = claim_generation c\<rparr>"

definition output_lookup :: "outputs_db \<Rightarrow> string \<Rightarrow> output_row option" where
  "output_lookup db key = map_of (output_rows db) key"

text \<open>\<open>UPDATE ... WHERE root_invocation_id=? AND ...\<close> with its row count.\<close>

definition update_output :: "string \<Rightarrow> (output_row \<Rightarrow> bool) \<Rightarrow> (output_row \<Rightarrow> output_row) \<Rightarrow> outputs_db \<Rightarrow> outputs_db \<times> nat" where
  "update_output key p f db = (case output_lookup db key of
     None \<Rightarrow> (db, 0)
   | Some r \<Rightarrow> if p r then (db\<lparr>output_rows := AList.update key (f r) (output_rows db)\<rparr>, 1) else (db, 0))"

text \<open>The row of a claim after a statement that must have changed it.\<close>

definition reread :: "string \<Rightarrow> outputs_db \<Rightarrow> output_claim res" where
  "reread key db = (case output_lookup db key of None \<Rightarrow> Inl AssertionError | Some r \<Rightarrow> read_output r)"

definition changed_claim :: "string \<Rightarrow> outputs_db \<times> nat \<Rightarrow> (outputs_db \<times> output_claim option) res" where
  "changed_claim key u = (case u of (db, n) \<Rightarrow>
     if n \<noteq> 1 then Inr (db, None) else rbind (reread key db) (\<lambda>c. Inr (db, Some c)))"

definition next_output_generation :: "outputs_db \<Rightarrow> (int \<times> outputs_db) res" where
  "next_output_generation db = (case generation_row db of
     None \<Rightarrow> Inl RuntimeError
   | Some g \<Rightarrow> Inr (g, db\<lparr>generation_row := Some (g + 1)\<rparr>))"

section \<open>Transactions\<close>

text \<open>The retention a repository accepts: positive, at most 3650 days.\<close>

definition output_retention :: "int \<Rightarrow> nat res" where
  "output_retention t = (if 0 < t \<and> t \<le> 3650 * 86400000000 then Inr (nat t) else Inl ValueError)"

definition prune_outputs :: "string \<Rightarrow> outputs_db \<Rightarrow> outputs_db" where
  "prune_outputs cutoff db =
     db\<lparr>output_rows := filter (\<lambda>(_, r). \<not> (col_state r \<in> {COMPLETED, UNKNOWN} \<and> col_updated r < cutoff)) (output_rows db)\<rparr>"

definition save_output :: "output_claim \<Rightarrow> nat \<Rightarrow> outputs_db \<Rightarrow> outputs_db" where
  "save_output c updated db =
     fst (update_output (root_invocation_id c)
       (\<lambda>r. col_identity r = output_identity c \<and> col_generation r = claim_generation c)
       (\<lambda>r. (output_values c updated)\<lparr>col_root := col_root r, col_identity := col_identity r,
          col_fingerprint := col_fingerprint r, col_generation := col_generation r\<rparr>) db)"

text \<open>A send whose lease ended without an answer.\<close>

definition interrupted :: "output_claim \<Rightarrow> output_claim" where
  "interrupted c = c\<lparr>state := UNKNOWN, outcome := None, receipt := None, error_code := Some ''interrupted_send''\<rparr>"

definition claim_again :: "string \<Rightarrow> string \<Rightarrow> nat \<Rightarrow> nat \<Rightarrow> output_claim \<Rightarrow> outputs_db \<Rightarrow> (outputs_db \<times> output_claim) res" where
  "claim_again key owner now expires cur db =
     rbind (next_output_generation db) (\<lambda>(g, db1).
     let db2 = fst (update_output key
           (\<lambda>r. col_generation r = claim_generation cur \<and> col_state r = CLAIMED \<and> col_expires r \<le> isoformat now)
           (\<lambda>r. r\<lparr>col_owner := owner, col_claimed := isoformat now, col_expires := isoformat expires,
              col_updated := isoformat now, col_generation := g\<rparr>) db1) in
     rbind (reread key db2) (\<lambda>c. Inr (db2, c)))"

definition claim_output ::
  "nat \<Rightarrow> string \<Rightarrow> string \<Rightarrow> string \<Rightarrow> string \<Rightarrow> nat \<Rightarrow> nat \<Rightarrow> outputs_db \<Rightarrow> (outputs_db \<times> output_claim) res" where
  "claim_output retention key ident fingerprint owner now expires db =
     rbind (ensure (now < expires) ValueError) (\<lambda>_.
     rbind (ensure (retention \<le> now) OverflowError) (\<lambda>_.
     let db1 = prune_outputs (isoformat (now - retention)) db in
     case output_lookup db1 key of
       None \<Rightarrow>
         rbind (next_output_generation db1) (\<lambda>(g, db2).
         let c = \<lparr>root_invocation_id = key, output_identity = ident, payload_fingerprint = fingerprint, state = CLAIMED,
             owner_token = owner, claim_generation = g, claimed_at = now, lease_expires_at = expires, outcome = None,
             receipt = None, error_code = None\<rparr> in
         rbind (check_RootOutputClaim c) (\<lambda>_.
         Inr (db2\<lparr>output_rows := output_rows db2 @ [(key, output_values c now)]\<rparr>, c)))
     | Some r \<Rightarrow>
         rbind (read_output r) (\<lambda>cur.
         rbind (ensure (output_identity cur = ident \<and> payload_fingerprint cur = fingerprint) RootOutputConflict) (\<lambda>_.
         if state cur \<in> {COMPLETED, UNKNOWN} then Inr (db1, cur)
         else if now < lease_expires_at cur then Inr (db1, cur)
         else if state cur = SENDING then
           rbind (check_RootOutputClaim (interrupted cur)) (\<lambda>_. Inr (save_output (interrupted cur) now db1, interrupted cur))
         else claim_again key owner now expires cur db1))))"

text \<open>What every later statement compares: the row is the one of this claim.\<close>

definition same_claim :: "output_claim \<Rightarrow> output_row \<Rightarrow> bool" where
  "same_claim c r \<longleftrightarrow> col_identity r = output_identity c \<and> col_fingerprint r = payload_fingerprint c
     \<and> col_owner r = owner_token c \<and> col_generation r = claim_generation c"

definition begin_sending :: "output_claim \<Rightarrow> nat \<Rightarrow> nat \<Rightarrow> outputs_db \<Rightarrow> (outputs_db \<times> output_claim option) res" where
  "begin_sending c now expires db =
     rbind (ensure (state c = CLAIMED) TypeError) (\<lambda>_.
     rbind (ensure (now < expires) ValueError) (\<lambda>_.
     changed_claim (root_invocation_id c) (update_output (root_invocation_id c)
       (\<lambda>r. same_claim c r \<and> col_state r = CLAIMED \<and> isoformat now < col_expires r)
       (\<lambda>r. r\<lparr>col_state := SENDING, col_claimed := isoformat now, col_expires := isoformat expires,
          col_updated := isoformat now\<rparr>) db)))"

definition complete_output ::
  "output_claim \<Rightarrow> message_receipt option \<Rightarrow> output_outcome \<Rightarrow> nat \<Rightarrow> string option \<Rightarrow> outputs_db \<Rightarrow> (outputs_db \<times> output_claim option) res" where
  "complete_output c rcpt out moment err db =
     rbind (ensure (out = MESSAGE \<longleftrightarrow> rcpt \<noteq> None) ValueError) (\<lambda>_.
     let expected = (if rcpt \<noteq> None then SENDING else CLAIMED) in
     rbind (ensure (state c = expected) TypeError) (\<lambda>_.
     rbind (if out = CONTROLLED_RESULT then ensure (err \<noteq> None) ValueError else ensure (err = None) ValueError) (\<lambda>_.
     changed_claim (root_invocation_id c) (update_output (root_invocation_id c)
       (\<lambda>r. same_claim c r \<and> col_state r = expected)
       (\<lambda>r. r\<lparr>col_state := COMPLETED, col_outcome := Some out, col_receipt := map_option receipt_status rcpt,
          col_message := Option.bind rcpt platform_message_id, col_error := err, col_updated := isoformat moment\<rparr>) db))))"

definition abort_before_dispatch :: "output_claim \<Rightarrow> nat \<Rightarrow> string \<Rightarrow> outputs_db \<Rightarrow> (outputs_db \<times> output_claim option) res" where
  "abort_before_dispatch c moment err db =
     rbind (ensure (state c = SENDING \<and> receipt c = None) TypeError) (\<lambda>_.
     rbind (ensure (\<not> blank err) ValueError) (\<lambda>_.
     changed_claim (root_invocation_id c) (update_output (root_invocation_id c)
       (\<lambda>r. same_claim c r \<and> col_state r = SENDING \<and> col_receipt r = None \<and> col_message r = None)
       (\<lambda>r. r\<lparr>col_state := COMPLETED, col_outcome := Some CONTROLLED_RESULT, col_receipt := None, col_message := None,
          col_error := Some err, col_updated := isoformat moment\<rparr>) db)))"

definition recover_row :: "nat \<Rightarrow> nat \<Rightarrow> output_row \<Rightarrow> outputs_db \<times> output_claim list \<Rightarrow> (outputs_db \<times> output_claim list) res" where
  "recover_row before moment r acc = (case acc of (db, found) \<Rightarrow>
     rbind (read_output r) (\<lambda>cur.
     rbind (check_RootOutputClaim (interrupted cur)) (\<lambda>_.
     case update_output (root_invocation_id cur)
         (\<lambda>x. col_identity x = output_identity cur \<and> col_owner x = owner_token cur \<and> col_generation x = claim_generation cur
            \<and> col_state x = SENDING \<and> col_expires x \<le> isoformat before)
         (\<lambda>x. x\<lparr>col_state := UNKNOWN, col_outcome := None, col_receipt := None, col_message := None,
            col_error := Some ''interrupted_send'', col_updated := isoformat moment\<rparr>) db of
       (db', n) \<Rightarrow> Inr (db', if n = 1 then found @ [interrupted cur] else found))))"

definition recover_expired :: "nat \<Rightarrow> nat \<Rightarrow> outputs_db \<Rightarrow> (outputs_db \<times> output_claim list) res" where
  "recover_expired before moment db =
     rfold (recover_row before moment)
       (sort_key (\<lambda>r. (col_root r, col_identity r))
         (filter (\<lambda>r. col_state r = SENDING \<and> col_expires r \<le> isoformat before) (map snd (output_rows db))))
       (db, [])"

section \<open>Runs\<close>

text \<open>The transactions of a repository whose clock readings lie in a set of instants.\<close>

inductive output_step :: "nat \<Rightarrow> nat set \<Rightarrow> outputs_db \<Rightarrow> outputs_db \<Rightarrow> bool" for retention instants where
  o_claim: "claim_output retention key ident fingerprint owner now expires s = Inr (t, c) \<Longrightarrow> now \<in> instants \<Longrightarrow>
    representable now \<Longrightarrow> representable expires \<Longrightarrow> output_step retention instants s t"
| o_begin: "begin_sending c now expires s = Inr (t, out) \<Longrightarrow> now \<in> instants \<Longrightarrow> representable now \<Longrightarrow> representable expires \<Longrightarrow>
    output_step retention instants s t"
| o_complete: "complete_output c rcpt outc now err s = Inr (t, out) \<Longrightarrow> now \<in> instants \<Longrightarrow> representable now \<Longrightarrow>
    output_step retention instants s t"
| o_abort: "abort_before_dispatch c now err' s = Inr (t, out) \<Longrightarrow> now \<in> instants \<Longrightarrow> representable now \<Longrightarrow>
    output_step retention instants s t"
| o_recover: "recover_expired before now s = Inr (t, found) \<Longrightarrow> now \<in> instants \<Longrightarrow> representable now \<Longrightarrow> representable before \<Longrightarrow>
    output_step retention instants s t"

definition initial_outputs :: "outputs_db \<Rightarrow> bool" where
  "initial_outputs s \<longleftrightarrow> output_rows s = [] \<and> generation_row s = Some 1"

end
