(* ===== verification/Root_Outputs_Correct.thy ===== *)
theory Root_Outputs_Correct
  imports Root_Outputs
begin

text \<open>
  The promises of the store of root result sends: every stored row reads back as a valid claim, a
  root invocation is sent at most once within the retention, and an overtaken claim never acts
  again.  Every transaction is a few changes of single rows (\<open>row_change\<close>), and each change is a
  move of an abstract machine that knows only the phase and the generation of a root.
\<close>

section \<open>Rows\<close>

definition row_ok :: "output_row \<Rightarrow> bool" where
  "row_ok r \<longleftrightarrow> (\<exists>c. read_output r = Inr c) \<and> (\<exists>u. representable u \<and> col_updated r = isoformat u)
     \<and> (col_receipt r = None \<longrightarrow> col_message r = None)"

definition outputs_inv :: "outputs_db \<Rightarrow> bool" where
  "outputs_inv s \<longleftrightarrow> dict_ok (output_rows s)
     \<and> (\<exists>g. generation_row s = Some g \<and> 1 \<le> g
         \<and> (\<forall>k r. output_lookup s k = Some r \<longrightarrow> col_root r = k \<and> row_ok r \<and> col_generation r < g))"

lemma read_output_fields:
  assumes "read_output r = Inr c"
  shows "root_invocation_id c = col_root r" "output_identity c = col_identity r" "payload_fingerprint c = col_fingerprint r"
    "state c = col_state r" "owner_token c = col_owner r" "claim_generation c = col_generation r"
    "col_claimed r = isoformat (claimed_at c)" "col_expires r = isoformat (lease_expires_at c)" "representable (lease_expires_at c)"
    "representable (claimed_at c)" "check_RootOutputClaim c = Inr ()"
  using assms by (auto simp: read_output_def rbind_eq_Inr fromisoformat_eq_Inr Let_def)

text \<open>Reading the row written for a claim gives the claim.\<close>

lemma read_output_values:
  assumes "check_RootOutputClaim c = Inr ()" "representable (claimed_at c)" "representable (lease_expires_at c)"
  shows "read_output (output_values c u) = Inr c"
proof (cases c)
  case (fields i ident fp st owner g claimed expires out rcpt err)
  show ?thesis
  proof (cases rcpt)
    case None
    with assms fields show ?thesis by (simp add: read_output_def output_values_def fromisoformat_isoformat Let_def)
  next
    case (Some m)
    with assms fields show ?thesis by (cases m) (simp add: read_output_def output_values_def fromisoformat_isoformat Let_def)
  qed
qed

lemma row_ok_values:
  "check_RootOutputClaim c = Inr () \<Longrightarrow> representable (claimed_at c) \<Longrightarrow> representable (lease_expires_at c) \<Longrightarrow> representable u
    \<Longrightarrow> row_ok (output_values c u)"
  by (auto simp: row_ok_def read_output_values) (auto simp: output_values_def)

text \<open>An unanswered send can always be marked as interrupted.\<close>

lemma interrupted_ok: "check_RootOutputClaim c = Inr () \<Longrightarrow> check_RootOutputClaim (interrupted c) = Inr ()"
  by (auto simp: check_RootOutputClaim_def interrupted_def rbind_eq_Inr check_bounded_identifier_def blank_def is_space_def)

lemma read_interrupted:
  assumes "read_output r = Inr c" "representable moment"
  shows "row_ok (r\<lparr>col_state := UNKNOWN, col_outcome := None, col_receipt := None, col_message := None,
            col_error := Some ''interrupted_send'', col_updated := isoformat moment\<rparr>)"
proof -
  have "check_RootOutputClaim (interrupted c) = Inr ()" using read_output_fields(11) [OF assms(1)] by (rule interrupted_ok)
  note f = read_output_fields(1-10) [OF assms(1)]
  have "interrupted c = \<lparr>root_invocation_id = col_root r, output_identity = col_identity r, payload_fingerprint = col_fingerprint r,
      state = UNKNOWN, owner_token = col_owner r, claim_generation = col_generation r, claimed_at = claimed_at c,
      lease_expires_at = lease_expires_at c, outcome = None, receipt = None, error_code = Some ''interrupted_send''\<rparr>"
    using f(1-6) by (cases c) (simp add: interrupted_def)
  with \<open>check_RootOutputClaim (interrupted c) = Inr ()\<close> have
    "read_output (r\<lparr>col_state := UNKNOWN, col_outcome := None, col_receipt := None, col_message := None,
            col_error := Some ''interrupted_send'', col_updated := isoformat moment\<rparr>) = Inr (interrupted c)"
    using f(7-10) by (simp add: read_output_def fromisoformat_isoformat Let_def)
  with assms(2) show ?thesis by (auto simp: row_ok_def)
qed

section \<open>Changes of single rows\<close>

definition row_moves :: "(output_state \<times> output_state) set" where
  "row_moves = {(CLAIMED, SENDING), (CLAIMED, COMPLETED), (SENDING, COMPLETED), (SENDING, UNKNOWN)}"

definition put_row :: "string \<Rightarrow> output_row \<Rightarrow> outputs_db \<Rightarrow> outputs_db" where
  "put_row key r s = s\<lparr>output_rows := AList.update key r (output_rows s)\<rparr>"

definition next_gen :: "outputs_db \<Rightarrow> outputs_db" where
  "next_gen s = s\<lparr>generation_row := map_option (\<lambda>g. g + 1) (generation_row s)\<rparr>"

definition fresh_row :: "nat set \<Rightarrow> string \<Rightarrow> output_row \<Rightarrow> bool" where
  "fresh_row instants key r \<longleftrightarrow> row_ok r \<and> col_root r = key \<and> (\<exists>now \<in> instants. representable now \<and> col_updated r = isoformat now)"

inductive row_change :: "nat \<Rightarrow> nat set \<Rightarrow> outputs_db \<Rightarrow> outputs_db \<Rightarrow> bool" for retention instants where
  c_prune: "now \<in> instants \<Longrightarrow> representable now \<Longrightarrow> retention \<le> now \<Longrightarrow>
    row_change retention instants s (prune_outputs (isoformat (now - retention)) s)"
| c_new: "output_lookup s key = None \<Longrightarrow> fresh_row instants key r \<Longrightarrow> col_state r = CLAIMED \<Longrightarrow>
    generation_row s = Some (col_generation r) \<Longrightarrow> row_change retention instants s (put_row key r (next_gen s))"
| c_again: "output_lookup s key = Some r \<Longrightarrow> col_state r = CLAIMED \<Longrightarrow> fresh_row instants key r' \<Longrightarrow> col_state r' = CLAIMED \<Longrightarrow>
    generation_row s = Some (col_generation r') \<Longrightarrow> row_change retention instants s (put_row key r' (next_gen s))"
| c_move: "output_lookup s key = Some r \<Longrightarrow> fresh_row instants key r' \<Longrightarrow> (col_state r, col_state r') \<in> row_moves \<Longrightarrow>
    col_generation r' = col_generation r \<Longrightarrow> row_change retention instants s (put_row key r' s)"

lemma lookup_put [simp]: "output_lookup (put_row key r s) k = (if k = key then Some r else output_lookup s k)"
  by (simp add: output_lookup_def put_row_def)

lemma lookup_next_gen [simp]: "output_lookup (next_gen s) k = output_lookup s k"
  by (simp add: output_lookup_def next_gen_def)

lemma generation_put [simp]: "generation_row (put_row key r s) = generation_row s"
  and generation_next_gen [simp]: "generation_row (next_gen s) = map_option (\<lambda>g. g + 1) (generation_row s)"
  and generation_prune [simp]: "generation_row (prune_outputs cutoff s) = generation_row s"
  by (simp_all add: put_row_def next_gen_def prune_outputs_def)

lemma rows_ok [simp]:
  "dict_ok (output_rows s) \<Longrightarrow> dict_ok (output_rows (put_row key r s))"
  "dict_ok (output_rows (next_gen s)) = dict_ok (output_rows s)"
  "dict_ok (output_rows s) \<Longrightarrow> dict_ok (output_rows (prune_outputs cutoff s))"
  by (simp_all add: put_row_def next_gen_def prune_outputs_def)

lemma lookup_prune:
  "dict_ok (output_rows s) \<Longrightarrow> output_lookup (prune_outputs cutoff s) k = (case output_lookup s k of
     None \<Rightarrow> None | Some r \<Rightarrow> if col_state r \<in> {COMPLETED, UNKNOWN} \<and> col_updated r < cutoff then None else Some r)"
  by (auto simp: output_lookup_def prune_outputs_def map_of_filter_keep split: option.split)

lemma row_change_inv:
  assumes "row_change retention instants s t" "outputs_inv s"
  shows "outputs_inv t"
  using assms(1)
proof cases
  case (c_prune now)
  then show ?thesis using assms(2) by (auto simp: outputs_inv_def lookup_prune split: option.splits if_splits)
next
  case (c_new key r)
  then show ?thesis using assms(2) by (fastforce simp: outputs_inv_def fresh_row_def)
next
  case (c_again key r r')
  then show ?thesis using assms(2) by (fastforce simp: outputs_inv_def fresh_row_def)
next
  case (c_move key r r')
  then show ?thesis using assms(2) by (fastforce simp: outputs_inv_def fresh_row_def)
qed

lemma row_changes_inv: "(row_change retention instants)\<^sup>*\<^sup>* s t \<Longrightarrow> outputs_inv s \<Longrightarrow> outputs_inv t"
  by (induction rule: rtranclp_induct) (auto intro: row_change_inv)

section \<open>Every transaction is a sequence of row changes\<close>

lemma update_output_cases:
  assumes "update_output key p f s = (t, n)"
  obtains "t = s" "n = 0" | r where "output_lookup s key = Some r" "p r" "t = put_row key (f r) s" "n = 1"
  using assms that by (auto simp: update_output_def put_row_def split: option.splits if_splits)

text \<open>A guarded update that is read back afterwards.\<close>

lemma changed_claim_change:
  assumes "changed_claim key (update_output key p f s) = Inr (t, out)" "outputs_inv s"
    and "\<And>r. output_lookup s key = Some r \<Longrightarrow> p r \<Longrightarrow> (col_state r, col_state (f r)) \<in> row_moves \<and> col_root (f r) = col_root r
      \<and> col_generation (f r) = col_generation r \<and> (col_receipt (f r) = None \<longrightarrow> col_message (f r) = None) \<and> col_updated (f r) = isoformat now"
    and "now \<in> instants" "representable now"
  shows "(row_change retention instants)\<^sup>*\<^sup>* s t"
proof -
  obtain u n where u: "update_output key p f s = (u, n)" by (cases "update_output key p f s")
  then show ?thesis
  proof (cases rule: update_output_cases)
    case 1
    then show ?thesis using assms(1) u by (simp add: changed_claim_def)
  next
    case (2 r)
    with assms(1) u obtain c where c: "t = u" "read_output (f r) = Inr c"
      by (auto simp: changed_claim_def reread_def rbind_eq_Inr)
    have "col_root r = key" using assms(2) 2(1) by (auto simp: outputs_inv_def)
    with assms(3) [OF 2(1,2)] c assms(4,5) have "fresh_row instants key (f r)" by (auto simp: fresh_row_def row_ok_def)
    then have "row_change retention instants s u" unfolding 2(3) using 2(1) assms(3) [OF 2(1,2)] by (intro c_move) auto
    then show ?thesis using c by blast
  qed
qed

lemma row_ok_message: "outputs_inv s \<Longrightarrow> output_lookup s key = Some r \<Longrightarrow> col_receipt r = None \<Longrightarrow> col_message r = None"
  by (auto simp: outputs_inv_def row_ok_def)

lemma row_read: "outputs_inv s \<Longrightarrow> output_lookup s key = Some r \<Longrightarrow> \<exists>c. read_output r = Inr c"
  by (auto simp: outputs_inv_def row_ok_def)

lemma begin_changes:
  assumes "begin_sending c now expires s = Inr (t, out)" "outputs_inv s" "now \<in> instants" "representable now"
  shows "(row_change retention instants)\<^sup>*\<^sup>* s t"
proof -
  from assms(1) have "changed_claim (root_invocation_id c) (update_output (root_invocation_id c)
       (\<lambda>r. same_claim c r \<and> col_state r = CLAIMED \<and> isoformat now < col_expires r)
       (\<lambda>r. r\<lparr>col_state := SENDING, col_claimed := isoformat now, col_expires := isoformat expires,
          col_updated := isoformat now\<rparr>) s) = Inr (t, out)"
    by (auto simp: begin_sending_def rbind_eq_Inr)
  then show ?thesis
    by (rule changed_claim_change [OF _ assms(2) _ assms(3,4)]) (auto simp: row_moves_def row_ok_message [OF assms(2)])
qed

lemma complete_changes:
  assumes "complete_output c rcpt outc now err s = Inr (t, out)" "outputs_inv s" "now \<in> instants" "representable now"
  shows "(row_change retention instants)\<^sup>*\<^sup>* s t"
proof -
  from assms(1) have "changed_claim (root_invocation_id c) (update_output (root_invocation_id c)
       (\<lambda>r. same_claim c r \<and> col_state r = (if rcpt \<noteq> None then SENDING else CLAIMED))
       (\<lambda>r. r\<lparr>col_state := COMPLETED, col_outcome := Some outc, col_receipt := map_option receipt_status rcpt,
          col_message := Option.bind rcpt platform_message_id, col_error := err, col_updated := isoformat now\<rparr>) s) = Inr (t, out)"
    by (auto simp: complete_output_def rbind_eq_Inr Let_def simp del: not_None_eq)
  then show ?thesis
    by (rule changed_claim_change [OF _ assms(2) _ assms(3,4)]) (auto simp: row_moves_def split: if_splits)
qed

lemma abort_changes:
  assumes "abort_before_dispatch c now err s = Inr (t, out)" "outputs_inv s" "now \<in> instants" "representable now"
  shows "(row_change retention instants)\<^sup>*\<^sup>* s t"
proof -
  from assms(1) have "changed_claim (root_invocation_id c) (update_output (root_invocation_id c)
       (\<lambda>r. same_claim c r \<and> col_state r = SENDING \<and> col_receipt r = None \<and> col_message r = None)
       (\<lambda>r. r\<lparr>col_state := COMPLETED, col_outcome := Some CONTROLLED_RESULT, col_receipt := None, col_message := None,
          col_error := Some err, col_updated := isoformat now\<rparr>) s) = Inr (t, out)"
    by (auto simp: abort_before_dispatch_def rbind_eq_Inr)
  then show ?thesis
    by (rule changed_claim_change [OF _ assms(2) _ assms(3,4)]) (auto simp: row_moves_def)
qed

lemma save_put:
  assumes "outputs_inv s" "output_lookup s key = Some r" "read_output r = Inr c"
  shows "save_output (interrupted c) now s = put_row key (output_values (interrupted c) now) s"
proof -
  note f = read_output_fields [OF assms(3)]
  have "col_root r = key" using assms(1,2) by (auto simp: outputs_inv_def)
  moreover have "(output_values (interrupted c) now)\<lparr>col_root := col_root r, col_identity := col_identity r,
          col_fingerprint := col_fingerprint r, col_generation := col_generation r\<rparr> = output_values (interrupted c) now"
    using f(1-6) by (simp add: output_values_def interrupted_def)
  ultimately show ?thesis
    using f(1,2,6) assms(2) by (simp add: save_output_def update_output_def put_row_def) (simp add: interrupted_def)
qed

lemma save_changes:
  assumes "outputs_inv s" "output_lookup s key = Some r" "read_output r = Inr c" "state c = SENDING" "now \<in> instants" "representable now"
  shows "row_change retention instants s (put_row key (output_values (interrupted c) now) s)"
    and "read_output (output_values (interrupted c) now) = Inr (interrupted c)"
proof -
  note f = read_output_fields [OF assms(3)]
  have key: "col_root r = key" using assms(1,2) by (auto simp: outputs_inv_def)
  have "row_ok (output_values (interrupted c) now)"
    using interrupted_ok [OF f(11)] f(9,10) assms(6) by (intro row_ok_values) (simp_all add: interrupted_def)
  then have "fresh_row instants key (output_values (interrupted c) now)" using assms(5,6) key unfolding fresh_row_def
    by (auto simp: output_values_def interrupted_def f)
  then show "row_change retention instants s (put_row key (output_values (interrupted c) now) s)"
    using assms(2,4) f(4) by (intro c_move) (auto simp: row_moves_def output_values_def interrupted_def f)
  show "read_output (output_values (interrupted c) now) = Inr (interrupted c)"
    using interrupted_ok [OF f(11)] f(9,10) by (intro read_output_values) (simp_all add: interrupted_def)
qed

text \<open>A claim that returns has changed its row at most, and answers with what the row now holds.\<close>

lemma claim_outcome:
  assumes "claim_output retention key ident fp owner now expires s = Inr (t, c)" "outputs_inv s" "now \<in> instants" "representable now"
    "representable expires"
  shows "(row_change retention instants)\<^sup>*\<^sup>* s t \<and> (\<exists>r. output_lookup t key = Some r \<and> read_output r = Inr c)"
proof -
  define u where "u = prune_outputs (isoformat (now - retention)) s"
  from assms(1) have ret: "retention \<le> now" "now < expires" by (auto simp: claim_output_def rbind_eq_Inr)
  have step: "row_change retention instants s u" unfolding u_def using assms(3,4) ret(1) by (rule c_prune)
  then have inv: "outputs_inv u" using assms(2) row_change_inv by blast
  show ?thesis
  proof (cases "output_lookup u key")
    case None
    with assms(1) obtain g where g: "generation_row u = Some g" "check_RootOutputClaim c = Inr ()"
        "t = u\<lparr>generation_row := Some (g + 1), output_rows := output_rows u @ [(key, output_values c now)]\<rparr>"
        "root_invocation_id c = key" "state c = CLAIMED" "claim_generation c = g" "claimed_at c = now" "lease_expires_at c = expires"
      by (auto simp: claim_output_def rbind_eq_Inr u_def Let_def next_output_generation_def split: option.splits)
    have "t = put_row key (output_values c now) (next_gen u)"
      using None by (auto simp: g(1,3) put_row_def next_gen_def output_lookup_def update_fresh_key map_of_eq_None_iff)
    moreover have "fresh_row instants key (output_values c now)"
      using row_ok_values [of c now] g assms(3-5) by (auto simp: fresh_row_def) (auto simp: output_values_def)
    ultimately have "row_change retention instants u t"
      using None g by (auto simp: output_values_def intro!: c_new)
    moreover have "output_lookup t key = Some (output_values c now)" "read_output (output_values c now) = Inr c"
      using \<open>t = put_row key (output_values c now) (next_gen u)\<close> g assms(4,5) by (simp_all add: read_output_values)
    ultimately show ?thesis using step by (meson converse_rtranclp_into_rtranclp rtranclp.rtrancl_refl)
  next
    case (Some r)
    obtain cur where cur: "read_output r = Inr cur" using row_read [OF inv Some] by blast
    note f = read_output_fields [OF cur]
    from assms(1) have "rbind (ensure (output_identity cur = ident \<and> payload_fingerprint cur = fp) RootOutputConflict) (\<lambda>_.
         if state cur \<in> {COMPLETED, UNKNOWN} then Inr (u, cur)
         else if now < lease_expires_at cur then Inr (u, cur)
         else if state cur = SENDING then
           rbind (check_RootOutputClaim (interrupted cur)) (\<lambda>_. Inr (save_output (interrupted cur) now u, interrupted cur))
         else claim_again key owner now expires cur u) = Inr (t, c)"
      by (simp only: claim_output_def ensure_def ret if_True rbind_Inr Let_def u_def [symmetric] Some cur option.case)
    then have "(if state cur \<in> {COMPLETED, UNKNOWN} then Inr (u, cur)
         else if now < lease_expires_at cur then Inr (u, cur)
         else if state cur = SENDING then
           rbind (check_RootOutputClaim (interrupted cur)) (\<lambda>_. Inr (save_output (interrupted cur) now u, interrupted cur))
         else claim_again key owner now expires cur u) = Inr (t, c)"
      unfolding rbind_eq_Inr by blast
    then consider "(u, cur) = (t, c)"
      | "state cur = SENDING" "(save_output (interrupted cur) now u, interrupted cur) = (t, c)"
      | "state cur = CLAIMED" "\<not> now < lease_expires_at cur" "claim_again key owner now expires cur u = Inr (t, c)"
      by (cases "state cur") (simp_all only: rbind_eq_Inr insert_iff empty_iff output_state.distinct simp_thms if_True if_False sum.inject
          split: if_split_asm, blast+)
    then show ?thesis
    proof cases
      case 1
      then have "t = u" "c = cur" by simp_all
      with step Some cur show ?thesis by auto
    next
      case 2
      note saved = save_changes [OF inv Some cur 2(1) assms(3,4)]
      have t: "t = put_row key (output_values (interrupted cur) now) u" "c = interrupted cur"
        using 2(2) unfolding save_put [OF inv Some cur] prod.inject by (blast dest: sym)+
      have "row_change retention instants u t" using saved(1) unfolding t(1) .
      then have "(row_change retention instants)\<^sup>*\<^sup>* s t" using step by (meson converse_rtranclp_into_rtranclp r_into_rtranclp)
      then show ?thesis using saved(2) unfolding t by simp
    next
      case 3
      obtain g where g: "generation_row u = Some g" using inv by (auto simp: outputs_inv_def)
      let ?r = "r\<lparr>col_owner := owner, col_claimed := isoformat now, col_expires := isoformat expires,
              col_updated := isoformat now, col_generation := g\<rparr>"
      have "col_expires r \<le> isoformat now" using 3(2) f(8,9) assms(4) by (simp add: text_le)
      then have u: "update_output key (\<lambda>r. col_generation r = claim_generation cur \<and> col_state r = CLAIMED \<and> col_expires r \<le> isoformat now)
          (\<lambda>r. r\<lparr>col_owner := owner, col_claimed := isoformat now, col_expires := isoformat expires,
              col_updated := isoformat now, col_generation := g\<rparr>) (next_gen u) = (put_row key ?r (next_gen u), 1)"
        using Some 3(1) f by (simp add: update_output_def put_row_def)
      have adv: "u\<lparr>generation_row := Some (g + 1)\<rparr> = next_gen u" by (simp add: next_gen_def g)
      from 3(3) g u have t: "t = put_row key ?r (next_gen u)" "read_output ?r = Inr c"
        by (auto simp: claim_again_def next_output_generation_def rbind_eq_Inr Let_def adv reread_def)
      have "fresh_row instants key ?r"
        using t(2) inv Some assms(3,4) by (auto simp: fresh_row_def row_ok_def outputs_inv_def)
      then have "row_change retention instants u t"
        unfolding t(1) using Some 3(1) f g by (intro c_again) auto
      with step show ?thesis using t by auto
    qed
  qed
qed

lemma recover_row_changes:
  assumes "recover_row before now r (s, found) = Inr (t, found')" "outputs_inv s" "now \<in> instants" "representable now"
  shows "(row_change retention instants)\<^sup>*\<^sup>* s t"
proof -
  let ?f = "\<lambda>x. x\<lparr>col_state := UNKNOWN, col_outcome := None, col_receipt := None, col_message := None,
            col_error := Some ''interrupted_send'', col_updated := isoformat now\<rparr>"
  let ?p = "\<lambda>cur x. col_identity x = output_identity cur \<and> col_owner x = owner_token cur \<and> col_generation x = claim_generation cur
            \<and> col_state x = SENDING \<and> col_expires x \<le> isoformat before"
  from assms(1) obtain cur where cur: "read_output r = Inr cur" by (auto simp: recover_row_def rbind_eq_Inr)
  obtain u n where u: "update_output (root_invocation_id cur) (?p cur) ?f s = (u, n)"
    by (cases "update_output (root_invocation_id cur) (?p cur) ?f s")
  with assms(1) cur have "u = t"
    by (cases "check_RootOutputClaim (interrupted cur)") (simp_all add: recover_row_def)
  with u have "update_output (root_invocation_id cur) (?p cur) ?f s = (t, n)" by simp
  then show ?thesis
  proof (cases rule: update_output_cases)
    case (2 x)
    obtain c where "read_output x = Inr c" using row_read [OF assms(2) 2(1)] by blast
    from read_interrupted [OF this assms(4)] 2 assms(2-4) have "row_change retention instants s t"
      unfolding 2(3) by (intro c_move) (auto simp: row_moves_def fresh_row_def outputs_inv_def)
    then show ?thesis by blast
  qed simp
qed

lemma recover_changes:
  assumes "recover_expired before now s = Inr (t, found)" "outputs_inv s" "now \<in> instants" "representable now"
  shows "(row_change retention instants)\<^sup>*\<^sup>* s t"
proof -
  have "(row_change retention instants)\<^sup>*\<^sup>* s (fst (t, found))"
    using assms(1) unfolding recover_expired_def
  proof (rule rfold_invariant [where I = "\<lambda>acc. (row_change retention instants)\<^sup>*\<^sup>* s (fst acc)"])
    fix r acc acc'
    assume "(row_change retention instants)\<^sup>*\<^sup>* s (fst acc)" "recover_row before now r acc = Inr acc'"
    with recover_row_changes [of before now r "fst acc" "snd acc" "fst acc'" "snd acc'"] row_changes_inv [OF _ assms(2)] assms(3,4)
    show "(row_change retention instants)\<^sup>*\<^sup>* s (fst acc')" by (auto intro: rtranclp_trans)
  qed simp
  then show ?thesis by simp
qed

lemma output_step_changes:
  assumes "output_step retention instants s t" "outputs_inv s"
  shows "(row_change retention instants)\<^sup>*\<^sup>* s t"
  using assms by (cases rule: output_step.cases) (blast intro: claim_outcome [THEN conjunct1] begin_changes complete_changes abort_changes recover_changes)+

lemma initial_outputs_inv: "initial_outputs s \<Longrightarrow> outputs_inv s"
  by (simp add: initial_outputs_def outputs_inv_def output_lookup_def)

interpretation outputs: transition_system initial_outputs "output_step retention instants" outputs_inv for retention instants
  by unfold_locales (auto intro: initial_outputs_inv row_changes_inv output_step_changes)

lemma output_run_changes: "(output_step retention instants)\<^sup>*\<^sup>* s t \<Longrightarrow> outputs_inv s \<Longrightarrow> (row_change retention instants)\<^sup>*\<^sup>* s t"
  by (rule outputs.run_lift [where R = "(row_change retention instants)\<^sup>*\<^sup>*"]) (auto intro: output_step_changes rtranclp_trans)

section \<open>The abstract machine\<close>

text \<open>The next generation, and the phase and generation of every root with a row.\<close>

type_synonym output_machine = "int \<times> (string \<rightharpoonup> output_state \<times> int)"

inductive output_move :: "output_machine \<Rightarrow> output_machine \<Rightarrow> bool" where
  m_new: "m k = None \<Longrightarrow> output_move (g, m) (g + 1, m(k \<mapsto> (CLAIMED, g)))"
| m_again: "m k = Some (CLAIMED, h) \<Longrightarrow> output_move (g, m) (g + 1, m(k \<mapsto> (CLAIMED, g)))"
| m_move: "m k = Some (p, h) \<Longrightarrow> (p, q) \<in> row_moves \<Longrightarrow> output_move (g, m) (g, m(k \<mapsto> (q, h)))"
| m_forget: "(\<And>k. m' k = m k \<or> m' k = None \<and> (\<exists>h. m k = Some (COMPLETED, h) \<or> m k = Some (UNKNOWN, h))) \<Longrightarrow>
    output_move (g, m) (g, m')"

definition machine_of :: "outputs_db \<Rightarrow> output_machine" where
  "machine_of s = (case generation_row s of None \<Rightarrow> 0 | Some g \<Rightarrow> g,
     \<lambda>k. map_option (\<lambda>r. (col_state r, col_generation r)) (output_lookup s k))"

lemma machine_put:
  "machine_of (put_row key r s) = (fst (machine_of s), (snd (machine_of s))(key \<mapsto> (col_state r, col_generation r)))"
  by (auto simp: machine_of_def)

lemma row_change_move:
  assumes "row_change retention instants s t" "outputs_inv s"
  shows "output_move (machine_of s) (machine_of t)"
  using assms(1)
proof cases
  case (c_prune now)
  have "dict_ok (output_rows s)" using assms(2) by (simp add: outputs_inv_def)
  then show ?thesis unfolding c_prune(1) machine_of_def generation_prune
    by (intro m_forget) (auto simp: lookup_prune split: option.split)
next
  case (c_new key r)
  have "machine_of t = (col_generation r + 1, (snd (machine_of s))(key \<mapsto> (CLAIMED, col_generation r)))"
    "machine_of s = (col_generation r, snd (machine_of s))" "snd (machine_of s) key = None"
    using c_new by (auto simp: machine_of_def)
  then show ?thesis by (metis m_new)
next
  case (c_again key r r')
  have "machine_of t = (col_generation r' + 1, (snd (machine_of s))(key \<mapsto> (CLAIMED, col_generation r')))"
    "machine_of s = (col_generation r', snd (machine_of s))" "snd (machine_of s) key = Some (CLAIMED, col_generation r)"
    using c_again by (auto simp: machine_of_def)
  then show ?thesis by (metis m_again)
next
  case (c_move key r r')
  have "snd (machine_of s) key = Some (col_state r, col_generation r)" using c_move(2) by (simp add: machine_of_def)
  then have "output_move (fst (machine_of s), snd (machine_of s))
      (fst (machine_of s), (snd (machine_of s))(key \<mapsto> (col_state r', col_generation r)))"
    using c_move(4) by (rule m_move)
  then show ?thesis unfolding c_move(1) machine_put c_move(5) by simp
qed

lemma row_changes_move:
  "(row_change retention instants)\<^sup>*\<^sup>* s t \<Longrightarrow> outputs_inv s \<Longrightarrow> output_move\<^sup>*\<^sup>* (machine_of s) (machine_of t)"
proof (induction rule: rtranclp_induct)
  case (step t u)
  then show ?case using row_change_move row_changes_inv by (meson rtranclp.rtrancl_into_rtrancl)
qed simp

interpretation output_machine: simulation initial_outputs "output_step retention instants" outputs_inv machine_of "output_move\<^sup>*\<^sup>*"
  for retention instants
  by unfold_locales (blast intro: row_changes_move output_step_changes)

section \<open>Sent once, overtaken for good\<close>

text \<open>A root whose send has begun, seen from some instant on.\<close>

definition sent_since :: "nat \<Rightarrow> string \<Rightarrow> outputs_db \<Rightarrow> bool" where
  "sent_since a key s \<longleftrightarrow> (\<exists>r u. output_lookup s key = Some r \<and> col_state r \<noteq> CLAIMED \<and> col_updated r = isoformat u
     \<and> representable u \<and> a \<le> u)"

lemma row_change_sent:
  assumes "row_change retention {a..a + retention} s t" "outputs_inv s" "sent_since a key s"
  shows "sent_since a key t"
  using assms(1)
proof cases
  case (c_prune now)
  from assms(3) obtain r u where r: "output_lookup s key = Some r" "col_state r \<noteq> CLAIMED" "col_updated r = isoformat u" "representable u" "a \<le> u"
    by (auto simp: sent_since_def)
  have "\<not> isoformat u < isoformat (now - retention)"
    using text_less [of u "now - retention"] r(4,5) c_prune(2) representable_le [of "now - retention" now] c_prune(3) by auto
  then show ?thesis using assms(2) r unfolding c_prune(1) by (auto simp: sent_since_def lookup_prune outputs_inv_def)
next
  case (c_new key' r)
  then have "key' \<noteq> key" using assms(3) by (auto simp: sent_since_def)
  then show ?thesis using assms(3) unfolding c_new(1) by (simp add: sent_since_def)
next
  case (c_again key' r r')
  then have "key' \<noteq> key" using assms(3) by (auto simp: sent_since_def)
  then show ?thesis using assms(3) unfolding c_again(1) by (simp add: sent_since_def)
next
  case (c_move key' r r')
  show ?thesis
  proof (cases "key' = key")
    case True
    from c_move(3) obtain now where "a \<le> now" "representable now" "col_updated r' = isoformat now" by (auto simp: fresh_row_def)
    moreover have "col_state r' \<noteq> CLAIMED" using c_move(4) by (auto simp: row_moves_def)
    ultimately show ?thesis unfolding c_move(1) True by (auto simp: sent_since_def)
  next
    case False
    then show ?thesis using assms(3) unfolding c_move(1) by (simp add: sent_since_def)
  qed
qed

lemma row_changes_sent:
  "(row_change retention {a..a + retention})\<^sup>*\<^sup>* s t \<Longrightarrow> outputs_inv s \<Longrightarrow> sent_since a key s \<Longrightarrow> sent_since a key t"
proof (induction rule: rtranclp_induct)
  case (step t u)
  then show ?case using row_change_sent row_changes_inv by blast
qed

text \<open>A claim whose generation is no longer that of its root's row.\<close>

definition overtaken :: "output_claim \<Rightarrow> outputs_db \<Rightarrow> bool" where
  "overtaken c s \<longleftrightarrow> (\<exists>g. generation_row s = Some g \<and> claim_generation c < g)
     \<and> (\<forall>r. output_lookup s (root_invocation_id c) = Some r \<longrightarrow> col_generation r \<noteq> claim_generation c)"

lemma row_change_overtaken:
  assumes "row_change retention instants s t" "outputs_inv s" "overtaken c s"
  shows "overtaken c t"
  using assms(1)
proof cases
  case (c_prune now)
  then show ?thesis using assms(2,3) by (auto simp: overtaken_def lookup_prune outputs_inv_def split: option.splits if_splits)
qed (use assms(3) in \<open>auto simp: overtaken_def split: if_splits\<close>)

lemma row_changes_overtaken:
  "(row_change retention instants)\<^sup>*\<^sup>* s t \<Longrightarrow> outputs_inv s \<Longrightarrow> overtaken c s \<Longrightarrow> overtaken c t"
proof (induction rule: rtranclp_induct)
  case (step t u)
  then show ?case using row_change_overtaken row_changes_inv by blast
qed

text \<open>A transaction that raises, or reports that it found nothing to change and changed nothing.\<close>

definition without_effect :: "(outputs_db \<Rightarrow> (outputs_db \<times> 'a option) res) \<Rightarrow> outputs_db \<Rightarrow> bool" where
  "without_effect f s \<longleftrightarrow> (case f s of Inl _ \<Rightarrow> True | Inr (t, out) \<Rightarrow> t = s \<and> out = None)"

lemma unmatched_update:
  assumes "\<And>r. output_lookup s key = Some r \<Longrightarrow> \<not> p r"
  shows "changed_claim key (update_output key p f s) = Inr (s, None)"
  using assms by (auto simp: changed_claim_def update_output_def split: option.split)

lemma overtaken_without_effect:
  assumes "overtaken c s"
  shows "without_effect (begin_sending c now expires) s" "without_effect (complete_output c rcpt out now err) s"
    "without_effect (abort_before_dispatch c now why) s"
proof -
  have no: "\<not> same_claim c r" if "output_lookup s (root_invocation_id c) = Some r" for r
    using assms that by (auto simp: overtaken_def same_claim_def)
  show "without_effect (begin_sending c now expires) s" "without_effect (complete_output c rcpt out now err) s"
    "without_effect (abort_before_dispatch c now why) s"
    using no by (simp_all add: without_effect_def begin_sending_def complete_output_def abort_before_dispatch_def unmatched_update
        ensure_def Let_def)
qed

section \<open>Claims\<close>

text \<open>C14: The transactions of the store are moves of the claim machine: whatever happens, a root gets
  only new generations, and the phase of a generation goes from claimed through sending to its end.
\<close>

theorem outputs_follow_claims:
  assumes "initial_outputs s0" "(output_step retention instants)\<^sup>*\<^sup>* s0 s" "(output_step retention instants)\<^sup>*\<^sup>* s t"
  shows "output_move\<^sup>*\<^sup>* (machine_of s) (machine_of t)"
proof -
  have "outputs_inv s" using outputs.reachable_inv assms(1,2) by blast
  from output_machine.run_sim [OF assms(3) this] show ?thesis by (simp only: rtranclp_idemp)
qed

text \<open>C15: Every stored row reads back as a valid claim of its root: no transaction ever raises because
  of what the table holds.
\<close>

theorem stored_rows_are_claims:
  assumes "initial_outputs s0" "(output_step retention instants)\<^sup>*\<^sup>* s0 s" "output_lookup s key = Some r"
  shows "\<exists>c. read_output r = Inr c \<and> check_RootOutputClaim c = Inr () \<and> root_invocation_id c = key \<and> state c = col_state r
    \<and> claim_generation c = col_generation r"
proof -
  have inv: "outputs_inv s" using outputs.reachable_inv assms(1,2) by blast
  obtain c where c: "read_output r = Inr c" using row_read [OF inv assms(3)] by blast
  with inv assms(3) read_output_fields [OF c] show ?thesis by (auto simp: outputs_inv_def)
qed

text \<open>C12: A root invocation is sent at most once: after a claim of it began to send, no claim of it
  begins to send again while the retention lasts, whatever the transactions in between.
\<close>

theorem sent_at_most_once:
  assumes "initial_outputs s0" "(output_step retention instants)\<^sup>*\<^sup>* s0 s"
    and "begin_sending c now expires s = Inr (u, Some sent)" "representable now"
    and "(output_step retention {now..now + retention})\<^sup>*\<^sup>* u t" "root_invocation_id c' = root_invocation_id c"
    and "begin_sending c' now' expires' t = Inr (v, out)"
  shows "out = None"
proof -
  have inv: "outputs_inv s" using outputs.reachable_inv assms(1,2) by blast
  have "(row_change retention {now})\<^sup>*\<^sup>* s u" using begin_changes [OF assms(3) inv _ assms(4)] by simp
  then have inv_u: "outputs_inv u" using row_changes_inv inv by blast
  have "sent_since now (root_invocation_id c) u"
    using assms(3,4) by (auto simp: begin_sending_def rbind_eq_Inr changed_claim_def update_output_def output_lookup_def sent_since_def
        split: option.splits if_splits)
  then have "sent_since now (root_invocation_id c) t"
    using row_changes_sent [OF output_run_changes [OF assms(5) inv_u] inv_u] by simp
  then obtain r where r: "output_lookup t (root_invocation_id c') = Some r" "col_state r \<noteq> CLAIMED"
    using assms(6) by (auto simp: sent_since_def)
  then have "changed_claim (root_invocation_id c') (update_output (root_invocation_id c')
       (\<lambda>r. same_claim c' r \<and> col_state r = CLAIMED \<and> isoformat now' < col_expires r) f t) = Inr (t, None)" for f
    by (intro unmatched_update) simp
  then show ?thesis using assms(7) by (auto simp: begin_sending_def rbind_eq_Inr)
qed

text \<open>C13: A claim that was overtaken never acts again: once a claim of the root was answered with a
  newer generation, the older claim can neither begin to send nor complete nor abort, and trying
  leaves the store as it is.
\<close>

theorem overtaken_claim_is_dead:
  assumes "initial_outputs s0" "(output_step retention instants)\<^sup>*\<^sup>* s0 s"
    and "claim_output retention (root_invocation_id c) ident fp owner now expires s = Inr (u, newer)" "now \<in> instants" "representable now"
      "representable expires"
    and "claim_generation c < claim_generation newer" "(output_step retention instants)\<^sup>*\<^sup>* u t"
  shows "without_effect (begin_sending c at1 until) t \<and> without_effect (complete_output c rcpt out at2 err) t
    \<and> without_effect (abort_before_dispatch c at3 why) t"
proof -
  have inv: "outputs_inv s" using outputs.reachable_inv assms(1,2) by blast
  from claim_outcome [OF assms(3) inv assms(4-6)] obtain r where
    r: "(row_change retention instants)\<^sup>*\<^sup>* s u" "output_lookup u (root_invocation_id c) = Some r" "read_output r = Inr newer" by blast
  have inv_u: "outputs_inv u" using row_changes_inv r(1) inv by blast
  have "overtaken c u" using inv_u r(2) read_output_fields(6) [OF r(3)] assms(7) by (fastforce simp: overtaken_def outputs_inv_def)
  then have "overtaken c t" using row_changes_overtaken [OF output_run_changes [OF assms(8) inv_u] inv_u] by blast
  then show ?thesis by (intro conjI overtaken_without_effect)
qed

section \<open>A concrete store\<close>

definition oc :: "int \<Rightarrow> string \<Rightarrow> nat \<Rightarrow> nat \<Rightarrow> output_state \<Rightarrow> output_claim" where
  "oc g own begun ends st = \<lparr>root_invocation_id = ''r'', output_identity = ''o'', payload_fingerprint = replicate 64 (CHR ''0''),
     state = st, owner_token = own, claim_generation = g, claimed_at = begun, lease_expires_at = ends, outcome = None,
     receipt = None, error_code = None\<rparr>"

definition od :: "output_claim \<Rightarrow> nat \<Rightarrow> outputs_db" where
  "od c updated = \<lparr>output_rows = [(''r'', output_values c updated)], generation_row = Some (claim_generation c + 1)\<rparr>"

definition od0 :: outputs_db where
  "od0 = \<lparr>output_rows = [], generation_row = Some 1\<rparr>"

lemma oc_check: "check_RootOutputClaim (oc g [w] begun ends st) = Inr ()"
  if "1 \<le> g" "begun < ends" "st \<in> {CLAIMED, SENDING}" "w \<in> {CHR ''w'', CHR ''x''}"
  using that by (auto simp: check_RootOutputClaim_def oc_def check_output_identity_def rbind_eq_Inr)

lemma oc_read: "read_output (output_values (oc g [w] begun ends st) u) = Inr (oc g [w] begun ends st)"
  if "1 \<le> g" "begun < ends" "st \<in> {CLAIMED, SENDING}" "w \<in> {CHR ''w'', CHR ''x''}" "ends < 1000"
  using oc_check [OF that(1-4)] that(2,5) by (intro read_output_values) (simp_all add: oc_def first_day)

lemma oc_fields [simp]:
  "root_invocation_id (oc g own a e st) = ''r''" "output_identity (oc g own a e st) = ''o''" "state (oc g own a e st) = st"
  "payload_fingerprint (oc g own a e st) = replicate 64 (CHR ''0'')" "claim_generation (oc g own a e st) = g"
  "lease_expires_at (oc g own a e st) = e" "owner_token (oc g own a e st) = own"
  by (simp_all add: oc_def)

lemma od_lookup [simp]: "output_lookup (od c u) ''r'' = Some (output_values c u)"
  by (simp add: output_lookup_def od_def)

lemma od_prune: "state c \<in> {CLAIMED, SENDING} \<Longrightarrow> prune_outputs cutoff (od c u) = od c u"
  by (auto simp: prune_outputs_def od_def output_values_def)

text \<open>A claim, its send, and instead of the send a second claim after the lease of the first ended.\<close>

lemma od_claim: "claim_output 100 ''r'' ''o'' (replicate 64 (CHR ''0'')) ''w'' 110 120 od0
    = Inr (od (oc 1 ''w'' 110 120 CLAIMED) 110, oc 1 ''w'' 110 120 CLAIMED)"
proof -
  have "check_RootOutputClaim \<lparr>root_invocation_id = ''r'', output_identity = ''o'', payload_fingerprint = replicate 64 (CHR ''0''),
     state = CLAIMED, owner_token = ''w'', claim_generation = 1, claimed_at = 110, lease_expires_at = 120, outcome = None,
     receipt = None, error_code = None\<rparr> = Inr ()"
    using oc_check [of 1 110 120 CLAIMED "CHR ''w''"] by (simp add: oc_def)
  then show ?thesis
    by (simp add: claim_output_def od0_def prune_outputs_def output_lookup_def next_output_generation_def Let_def oc_def od_def ensure_def)
qed

lemma od_begin: "begin_sending (oc 1 ''w'' 110 120 CLAIMED) 111 130 (od (oc 1 ''w'' 110 120 CLAIMED) 110)
    = Inr (od (oc 1 ''w'' 111 130 SENDING) 111, Some (oc 1 ''w'' 111 130 SENDING))"
proof -
  let ?r = "output_values (oc 1 ''w'' 110 120 CLAIMED) 110"
  have "isoformat 111 < isoformat 120" by (simp add: text_less first_day)
  moreover have "?r\<lparr>col_state := SENDING, col_claimed := isoformat 111, col_expires := isoformat 130, col_updated := isoformat 111\<rparr>
      = output_values (oc 1 ''w'' 111 130 SENDING) 111"
    by (simp add: output_values_def oc_def)
  ultimately have "update_output ''r'' (\<lambda>r. same_claim (oc 1 ''w'' 110 120 CLAIMED) r \<and> col_state r = CLAIMED \<and> isoformat 111 < col_expires r)
       (\<lambda>r. r\<lparr>col_state := SENDING, col_claimed := isoformat 111, col_expires := isoformat 130, col_updated := isoformat 111\<rparr>)
       (od (oc 1 ''w'' 110 120 CLAIMED) 110) = (od (oc 1 ''w'' 111 130 SENDING) 111, 1)"
    by (simp add: update_output_def same_claim_def) (simp add: od_def output_values_def oc_def)
  then show ?thesis
    using oc_read [of 1 111 130 SENDING "CHR ''w''" 111] by (simp add: begin_sending_def changed_claim_def reread_def ensure_def)
qed

lemma od_again: "claim_output 100 ''r'' ''o'' (replicate 64 (CHR ''0'')) ''x'' 125 140 (od (oc 1 ''w'' 110 120 CLAIMED) 110)
    = Inr (od (oc 2 ''x'' 125 140 CLAIMED) 125, oc 2 ''x'' 125 140 CLAIMED)"
proof -
  let ?r = "output_values (oc 1 ''w'' 110 120 CLAIMED) 110"
  have "isoformat 120 \<le> isoformat 125" by (simp add: text_le first_day)
  moreover have "?r\<lparr>col_owner := ''x'', col_claimed := isoformat 125, col_expires := isoformat 140, col_updated := isoformat 125,
      col_generation := 2\<rparr> = output_values (oc 2 ''x'' 125 140 CLAIMED) 125"
    by (simp add: output_values_def oc_def)
  ultimately have "claim_again ''r'' ''x'' 125 140 (oc 1 ''w'' 110 120 CLAIMED) (od (oc 1 ''w'' 110 120 CLAIMED) 110)
      = Inr (od (oc 2 ''x'' 125 140 CLAIMED) 125, oc 2 ''x'' 125 140 CLAIMED)"
    using oc_read [of 2 125 140 CLAIMED "CHR ''x''" 125]
    by (simp add: claim_again_def next_output_generation_def od_def update_output_def output_lookup_def reread_def Let_def)
      (simp add: output_values_def oc_def)
  then show ?thesis
    using oc_read [of 1 110 120 CLAIMED "CHR ''w''" 110] by (simp add: claim_output_def od_prune Let_def ensure_def)
qed

lemma od_steps:
  "output_step 100 UNIV od0 (od (oc 1 ''w'' 110 120 CLAIMED) 110)"
  "output_step 100 UNIV (od (oc 1 ''w'' 110 120 CLAIMED) 110) (od (oc 1 ''w'' 111 130 SENDING) 111)"
  by (rule o_claim [OF od_claim] o_begin [OF od_begin]; simp add: first_day)+

lemma od_initial: "initial_outputs od0"
  by (simp add: initial_outputs_def od0_def)

lemma od_claimed: "(output_step 100 UNIV)\<^sup>*\<^sup>* od0 (od (oc 1 ''w'' 110 120 CLAIMED) 110)"
  using od_steps(1) by blast

theorem outputs_follow_claims_witness:
  "output_move\<^sup>*\<^sup>* (machine_of od0) (machine_of (od (oc 1 ''w'' 111 130 SENDING) 111))"
  by (rule outputs_follow_claims [OF od_initial rtranclp.rtrancl_refl rtranclp.rtrancl_into_rtrancl [OF od_claimed od_steps(2)]])

theorem stored_rows_are_claims_witness:
  "\<exists>c. read_output (output_values (oc 1 ''w'' 110 120 CLAIMED) 110) = Inr c \<and> check_RootOutputClaim c = Inr ()
    \<and> root_invocation_id c = ''r'' \<and> state c = col_state (output_values (oc 1 ''w'' 110 120 CLAIMED) 110)
    \<and> claim_generation c = col_generation (output_values (oc 1 ''w'' 110 120 CLAIMED) 110)"
  by (rule stored_rows_are_claims [OF od_initial od_claimed od_lookup])

lemma od_begin_again: "begin_sending (oc 1 ''w'' 110 120 CLAIMED) 112 130 (od (oc 1 ''w'' 111 130 SENDING) 111)
    = Inr (od (oc 1 ''w'' 111 130 SENDING) 111, snd (the (case begin_sending (oc 1 ''w'' 110 120 CLAIMED) 112 130
        (od (oc 1 ''w'' 111 130 SENDING) 111) of Inl _ \<Rightarrow> None | Inr p \<Rightarrow> Some p)))"
  by (simp add: begin_sending_def changed_claim_def update_output_def ensure_def output_values_def)

theorem sent_at_most_once_witness:
  "snd (the (case begin_sending (oc 1 ''w'' 110 120 CLAIMED) 112 130 (od (oc 1 ''w'' 111 130 SENDING) 111) of
     Inl _ \<Rightarrow> None | Inr p \<Rightarrow> Some p)) = None"
  by (rule sent_at_most_once [OF od_initial od_claimed od_begin _ rtranclp.rtrancl_refl _ od_begin_again]) (simp_all add: first_day)

theorem overtaken_claim_is_dead_witness:
  "without_effect (begin_sending (oc 1 ''w'' 110 120 CLAIMED) 126 140) (od (oc 2 ''x'' 125 140 CLAIMED) 125)
    \<and> without_effect (complete_output (oc 1 ''w'' 110 120 CLAIMED) None TOOL_RETURNED 126 None) (od (oc 2 ''x'' 125 140 CLAIMED) 125)
    \<and> without_effect (abort_before_dispatch (oc 1 ''w'' 110 120 CLAIMED) 126 ''late'') (od (oc 2 ''x'' 125 140 CLAIMED) 125)"
proof (rule overtaken_claim_is_dead [OF od_initial od_claimed _ _ _ _ _ rtranclp.rtrancl_refl])
  show "claim_output 100 (root_invocation_id (oc 1 ''w'' 110 120 CLAIMED)) ''o'' (replicate 64 (CHR ''0'')) ''x'' 125 140
      (od (oc 1 ''w'' 110 120 CLAIMED) 110) = Inr (od (oc 2 ''x'' 125 140 CLAIMED) 125, oc 2 ''x'' 125 140 CLAIMED)"
    using od_again by simp
qed (simp_all add: first_day)

end
