(* ===== verification/Deliveries.thy ===== *)
theory Deliveries
  imports Timestamps Json_Text "HOL-Library.Product_Lexorder"
begin

text \<open>
  The store of deliveries (\<open>SQLiteDeliveryRepository\<close> in
  \<open>infrastructure/sqlite/repositories_subscriptions.py\<close>) with the events and attempts of
  \<open>core/contracts/subscriptions.py\<close>.  An event has one row, and each attempt to send it one row of the
  ledger.  Every transaction is a function of the tables; an exception rolls it back.  A JSON column
  holds the record whose text the code stores there; reading it runs the checks of the record again.
  The hash of the idempotency key is the argument \<open>h\<close>, the gate bindings of the modules are the
  argument \<open>bindings\<close>.
\<close>

section \<open>Events and attempts\<close>

datatype delivery_state = PENDING | SENDING | SENT | FAILED | UNKNOWN | CANCELLED

datatype route_kind = DIRECT | GROUP

datatype privacy = PUBLIC | PRIVATE

record conversation_ref =
  adapter_id :: string
  route_kind :: route_kind
  conversation_id :: string
  delivery_route :: string

record grant_ref =
  grant_id :: string
  grant_revision :: int

text \<open>The document of an event: the repository looks at its privacy only.\<close>

record display_document =
  display_privacy :: privacy
  display_fields :: string

record delivery_attempt =
  attempt_number :: int
  attempt_state :: delivery_state
  attempt_key :: string
  started_at :: nat
  completed_at :: "nat option"
  attempt_error :: "string option"
  attempt_message :: "string option"

record delivery_event =
  event_key :: string
  event_version :: int
  event_subscription :: string
  event_revision :: int
  event_owner :: string
  event_grant :: "grant_ref option"
  event_recipient :: conversation_ref
  display_data :: display_document
  idempotency_key :: string
  event_state :: delivery_state
  attempt :: "delivery_attempt option"
  retry_at :: "nat option"
  public_contribution :: "string option"
  commentary :: "string option"

type_synonym event_id = "string \<times> int \<times> string \<times> int"

text \<open>The identity of an event, which is also its \<open>cursor\<close>.\<close>

definition cursor :: "delivery_event \<Rightarrow> event_id" where
  "cursor e = (event_key e, event_version e, event_subscription e, event_revision e)"

definition check_identifier :: "string \<Rightarrow> unit res" where
  "check_identifier v = ensure (\<not> blank v) ValueError"

definition positive_int :: "int \<Rightarrow> unit res" where
  "positive_int v = ensure (1 \<le> v) ValueError"

definition check_ConversationRef :: "conversation_ref \<Rightarrow> unit res" where
  "check_ConversationRef r = for_each
     (\<lambda>v. ensure (\<not> blank v \<and> CHR ''/'' \<notin> set v \<and> CHR 0x5C \<notin> set v \<and> CHR 0x0A \<notin> set v) ValueError)
     [adapter_id r, conversation_id r, delivery_route r]"

definition kind_text :: "route_kind \<Rightarrow> string" where
  "kind_text k = (case k of DIRECT \<Rightarrow> ''direct'' | GROUP \<Rightarrow> ''group'')"

definition canonical_delivery :: "event_id \<Rightarrow> conversation_ref \<Rightarrow> string" where
  "canonical_delivery i r = (case i of (key, version, sub, revision) \<Rightarrow>
     ''['' @ join_text [quoted key, int_text version, quoted sub, int_text revision, quoted (adapter_id r),
        quoted (kind_text (route_kind r)), quoted (conversation_id r), quoted (delivery_route r)] @ '']'')"

definition delivery_idempotency_key :: "(string \<Rightarrow> string) \<Rightarrow> event_id \<Rightarrow> conversation_ref \<Rightarrow> string res" where
  "delivery_idempotency_key h i r = (case i of (key, version, sub, revision) \<Rightarrow>
     rbind (check_identifier key) (\<lambda>_. rbind (check_identifier sub) (\<lambda>_.
     rbind (for_each positive_int [version, revision]) (\<lambda>_.
     Inr (''delivery:v1:'' @ h (canonical_delivery i r))))))"

definition check_option :: "('a \<Rightarrow> unit res) \<Rightarrow> 'a option \<Rightarrow> unit res" where
  "check_option f x = (case x of None \<Rightarrow> Inr () | Some v \<Rightarrow> f v)"

definition check_DeliveryAttempt :: "delivery_attempt \<Rightarrow> unit res" where
  "check_DeliveryAttempt a =
     rbind (positive_int (attempt_number a)) (\<lambda>_.
     rbind (check_identifier (attempt_key a)) (\<lambda>_.
     rbind (ensure (\<not> (attempt_state a \<in> {SENT, FAILED, UNKNOWN, CANCELLED} \<and> completed_at a = None)) ValueError) (\<lambda>_.
     rbind (ensure (\<not> (attempt_state a = SENDING \<and> completed_at a \<noteq> None)) ValueError) (\<lambda>_.
     rbind (check_option check_identifier (attempt_error a)) (\<lambda>_.
     rbind (check_option check_identifier (attempt_message a)) (\<lambda>_.
     ensure (\<not> (attempt_state a = UNKNOWN \<and> attempt_error a \<noteq> None)) ValueError))))))"

definition check_DeliveryEvent :: "(string \<Rightarrow> string) \<Rightarrow> delivery_event \<Rightarrow> unit res" where
  "check_DeliveryEvent h e =
     rbind (ensure (public_contribution e \<noteq> None \<longrightarrow> display_privacy (display_data e) = PUBLIC \<and> event_grant e = None) ValueError) (\<lambda>_.
     rbind (for_each check_identifier [event_key e, event_subscription e, event_owner e, idempotency_key e]) (\<lambda>_.
     rbind (for_each positive_int [event_version e, event_revision e]) (\<lambda>_.
     rbind (ensure (event_grant e \<noteq> None \<longrightarrow>
        route_kind (event_recipient e) = DIRECT \<and> display_privacy (display_data e) = PRIVATE) ValueError) (\<lambda>_.
     rbind (delivery_idempotency_key h (cursor e) (event_recipient e)) (\<lambda>k.
     rbind (ensure (idempotency_key e = k) ValueError) (\<lambda>_.
     rbind (check_option (\<lambda>a. ensure (attempt_key a = idempotency_key e) ValueError) (attempt e)) (\<lambda>_.
     rbind (check_option (\<lambda>a. ensure (attempt_state a = event_state e) ValueError) (attempt e)) (\<lambda>_.
     rbind (ensure (\<not> (event_state e = UNKNOWN \<and> attempt e = None)) ValueError) (\<lambda>_.
     ensure (retry_at e \<noteq> None \<longrightarrow> event_state e = FAILED) ValueError)))))))))"

text \<open>What \<open>_load\<close> checks of a stored event, its nested records first.\<close>

definition check_stored_event :: "(string \<Rightarrow> string) \<Rightarrow> delivery_event \<Rightarrow> unit res" where
  "check_stored_event h e =
     rbind (check_ConversationRef (event_recipient e)) (\<lambda>_.
     rbind (check_option (\<lambda>g. rbind (check_identifier (grant_id g)) (\<lambda>_. positive_int (grant_revision g))) (event_grant e)) (\<lambda>_.
     rbind (check_option check_DeliveryAttempt (attempt e)) (\<lambda>_.
     check_DeliveryEvent h e)))"

section \<open>Tables\<close>

record event_row =
  col_owner :: string
  col_grant_id :: "string option"
  col_grant_revision :: "int option"
  col_idempotency_key :: string
  col_state :: delivery_state
  col_attempt_number :: int
  col_retry_at :: "string option"
  event_json :: delivery_event
  row_gate_revision :: "int option"
  row_intent_revision :: "int option"

record attempt_row =
  ledger_state :: delivery_state
  attempt_json :: delivery_attempt

datatype subscription_status = SUBSCRIPTION_ACTIVE | SUBSCRIPTION_CANCELLED

record subscription_record =
  subscription_id :: string
  subscription_revision :: int
  subscription_module :: string
  subscription_recipient :: conversation_ref
  notification_mode :: string
  subscription_status :: subscription_status

text \<open>A subscription's row: the fields of its stored record that are read here, and whether the record still decodes.\<close>

record subscription_row =
  sub_revision :: int
  sub_status :: subscription_status
  record_json :: subscription_record
  record_decodes :: bool

datatype envelope_state = E_READY | E_CLAIMED | E_SENDING | E_SENT | E_FAILED | E_UNKNOWN | E_CANCELLED

record config_entry =
  value_json :: "string option"
  entry_revision :: int
  subscription_transition_at :: "string option"

record intent_row =
  desired_enabled :: int
  intent_revision :: int
  intent_updated_at :: string

type_synonym gate_key = "string \<times> string \<times> string"

record deliveries_db =
  events :: "(event_id \<times> event_row) list"
  attempts :: "((event_id \<times> int) \<times> attempt_row) list"
  subscriptions :: "(string \<times> subscription_row) list"
  digest_members :: "(string \<times> string \<times> event_id) list"
  digest_envelopes :: "(string \<times> string \<times> envelope_state) list"
  bootstrap_phase :: "string option"
  gate_initializations :: "gate_key list"
  declared_gates :: "gate_key list"
  gate_registrations :: "gate_key list"
  config_entries :: "(gate_key \<times> config_entry) list"
  runtime_intents :: "((string \<times> string) \<times> intent_row) list"

text \<open>\<open>UPDATE ... WHERE key=? AND ...\<close> on a table with a primary key, with its row count.\<close>

definition update_where :: "'k \<Rightarrow> ('v \<Rightarrow> bool) \<Rightarrow> ('v \<Rightarrow> 'v) \<Rightarrow> ('k \<times> 'v) list \<Rightarrow> ('k \<times> 'v) list \<times> nat" where
  "update_where k p f rows = (case map_of rows k of
     None \<Rightarrow> (rows, 0)
   | Some r \<Rightarrow> if p r then (AList.update k (f r) rows, 1) else (rows, 0))"

definition update_event :: "event_id \<Rightarrow> (event_row \<Rightarrow> bool) \<Rightarrow> (event_row \<Rightarrow> event_row) \<Rightarrow> deliveries_db \<Rightarrow> deliveries_db \<times> nat" where
  "update_event i p f db = (case update_where i p f (events db) of (rows, n) \<Rightarrow> (db\<lparr>events := rows\<rparr>, n))"

definition update_attempt :: "event_id \<Rightarrow> int \<Rightarrow> (attempt_row \<Rightarrow> bool) \<Rightarrow> (attempt_row \<Rightarrow> attempt_row) \<Rightarrow> deliveries_db \<Rightarrow> deliveries_db \<times> nat" where
  "update_attempt i n p f db = (case update_where (i, n) p f (attempts db) of (rows, c) \<Rightarrow> (db\<lparr>attempts := rows\<rparr>, c))"

text \<open>The constraints of the ledger: no pending attempts, one row per number; the event's row exists already.\<close>

definition insert_attempt :: "event_id \<Rightarrow> delivery_attempt \<Rightarrow> deliveries_db \<Rightarrow> deliveries_db res" where
  "insert_attempt i a db =
     rbind (ensure (attempt_state a \<noteq> PENDING \<and> 1 \<le> attempt_number a) IntegrityError) (\<lambda>_.
     rbind (ensure (map_of (attempts db) (i, attempt_number a) = None) UniqueConstraintViolation) (\<lambda>_.
     Inr (db\<lparr>attempts := attempts db @ [((i, attempt_number a), \<lparr>ledger_state = attempt_state a, attempt_json = a\<rparr>)]\<rparr>)))"

definition read_event :: "(string \<Rightarrow> string) \<Rightarrow> event_row \<Rightarrow> delivery_event res" where
  "read_event h r = rbind (check_stored_event h (event_json r)) (\<lambda>_. Inr (event_json r))"

definition event_for_update :: "(string \<Rightarrow> string) \<Rightarrow> event_id \<Rightarrow> deliveries_db \<Rightarrow> (event_row \<times> delivery_event) option res" where
  "event_for_update h i db = (case map_of (events db) i of
     None \<Rightarrow> Inr None
   | Some r \<Rightarrow> rbind (read_event h r) (\<lambda>e. Inr (Some (r, e))))"

definition current_event :: "(string \<Rightarrow> string) \<Rightarrow> event_id \<Rightarrow> deliveries_db \<Rightarrow> delivery_event option res" where
  "current_event h i db = rbind (event_for_update h i db) (\<lambda>r. Inr (map_option snd r))"

definition read_record :: "subscription_row \<Rightarrow> subscription_record res" where
  "read_record r = (if record_decodes r then Inr (record_json r) else Inl ValueError)"

section \<open>Fences\<close>

record subscription_fence =
  fence_gate :: int
  fence_intent :: int

record gate_binding =
  target_principal :: string
  target_module :: string
  gate_field :: string
  gate_package :: string
  gate_module :: string
  declared :: bool

definition make_fence :: "int \<Rightarrow> int \<Rightarrow> subscription_fence option" where
  "make_fence g i = (if 1 \<le> g \<and> 1 \<le> i then Some \<lparr>fence_gate = g, fence_intent = i\<rparr> else None)"

definition row_fence :: "event_row \<Rightarrow> subscription_fence option" where
  "row_fence r = (case (row_gate_revision r, row_intent_revision r) of
     (Some g, Some i) \<Rightarrow> make_fence g i | _ \<Rightarrow> None)"

text \<open>\<open>json.loads(text) is True\<close>: white space of JSON around the literal.\<close>

definition json_space :: "char \<Rightarrow> bool" where
  "json_space c \<longleftrightarrow> c \<in> {CHR '' '', CHR 0x09, CHR 0x0A, CHR 0x0D}"

definition json_is_true :: "string \<Rightarrow> bool" where
  "json_is_true s \<longleftrightarrow> rev (dropWhile json_space (rev (dropWhile json_space s))) = ''true''"

definition gate_of :: "gate_binding \<Rightarrow> gate_key" where
  "gate_of b = (target_principal b, target_module b, gate_field b)"

definition read_subscription_admission :: "deliveries_db \<Rightarrow> gate_binding option \<Rightarrow> (subscription_fence \<times> nat) option" where
  "read_subscription_admission db binding = (case binding of None \<Rightarrow> None | Some b \<Rightarrow>
     if declared b \<and> gate_of b \<notin> set (gate_registrations db) then None
     else if \<not> declared b \<and> bootstrap_phase db \<noteq> Some ''complete'' then None
     else if gate_of b \<notin> set (if declared b then declared_gates db else gate_initializations db) then None
     else case (map_of (config_entries db) (gate_of b), map_of (runtime_intents db) (gate_package b, gate_module b)) of
       (Some gate, Some intent) \<Rightarrow>
         if (case value_json gate of None \<Rightarrow> True | Some t \<Rightarrow> \<not> json_is_true t) \<or> desired_enabled intent \<noteq> 1 then None
         else case (Option.bind (subscription_transition_at gate) (\<lambda>t. case fromisoformat t of Inl _ \<Rightarrow> None | Inr x \<Rightarrow> Some x),
                    fromisoformat (intent_updated_at intent), make_fence (entry_revision gate) (intent_revision intent)) of
           (Some gate_cutoff, Inr intent_cutoff, Some f) \<Rightarrow> Some (f, max gate_cutoff intent_cutoff)
         | _ \<Rightarrow> None
     | _ \<Rightarrow> None)"

definition read_subscription_fence :: "deliveries_db \<Rightarrow> gate_binding option \<Rightarrow> subscription_fence option" where
  "read_subscription_fence db b = map_option fst (read_subscription_admission db b)"

definition event_qualified :: "(string \<Rightarrow> gate_binding option) \<Rightarrow> deliveries_db \<Rightarrow> event_row \<Rightarrow> delivery_event \<Rightarrow> bool res" where
  "event_qualified bindings db r e = (case map_of (subscriptions db) (event_subscription e) of
     None \<Rightarrow> Inr False
   | Some sr \<Rightarrow> rbind (read_record sr) (\<lambda>s.
       if subscription_revision s \<noteq> event_revision e \<or> subscription_status s \<noteq> SUBSCRIPTION_ACTIVE
         \<or> notification_mode s \<noteq> ''instant'' \<or> subscription_recipient s \<noteq> event_recipient e
       then Inr False
       else let current = read_subscription_fence db (bindings (subscription_module s)) in
         Inr (current \<noteq> None \<and> row_fence r = current)))"

text \<open>An event in an envelope that is being sent, was sent or may have been sent.\<close>

definition immutable_digest :: "deliveries_db \<Rightarrow> event_id \<Rightarrow> bool" where
  "immutable_digest db i \<longleftrightarrow> list_ex (\<lambda>(w, k, j). j = i \<and>
     list_ex (\<lambda>(w', k', st). w' = w \<and> k' = k \<and> st \<in> {E_SENDING, E_UNKNOWN, E_SENT}) (digest_envelopes db)) (digest_members db)"

definition is_current_for_send :: "(string \<Rightarrow> string) \<Rightarrow> (string \<Rightarrow> gate_binding option) \<Rightarrow> delivery_event \<Rightarrow> deliveries_db \<Rightarrow> bool res" where
  "is_current_for_send h bindings e db =
     rbind (event_for_update h (cursor e) db) (\<lambda>found. case found of
       None \<Rightarrow> Inr False
     | Some (r, e') \<Rightarrow> if e' \<noteq> e \<or> event_state e \<noteq> SENDING then Inr False
         else rbind (event_qualified bindings db r e) (\<lambda>q. Inr (q \<and> \<not> immutable_digest db (cursor e))))"

section \<open>Creating events\<close>

datatype upsert_error = StaleEvaluationCommit | Raised exn

definition event_values :: "delivery_event \<Rightarrow> subscription_fence option \<Rightarrow> event_row" where
  "event_values e f =
     \<lparr>col_owner = event_owner e, col_grant_id = map_option grant_id (event_grant e),
      col_grant_revision = map_option grant_revision (event_grant e), col_idempotency_key = idempotency_key e,
      col_state = event_state e, col_attempt_number = (case attempt e of None \<Rightarrow> 0 | Some a \<Rightarrow> attempt_number a),
      col_retry_at = map_option isoformat (retry_at e), event_json = e,
      row_gate_revision = map_option fence_gate f, row_intent_revision = map_option fence_intent f\<rparr>"

text \<open>
  \<open>_upsert_event\<close>: a second insertion fails on one of the two unique keys of the table, which the
  executor reports as \<open>UniqueConstraintViolation\<close>, and that exception is raised again; the other
  constraints of the table are checks of the event.
\<close>

definition upsert_event :: "delivery_event \<Rightarrow> subscription_fence option \<Rightarrow> deliveries_db \<Rightarrow> upsert_error + deliveries_db" where
  "upsert_event e f db =
     (if f \<noteq> None \<and> (case map_of (events db) (cursor e) of None \<Rightarrow> False | Some r \<Rightarrow> row_fence r \<noteq> f)
      then Inl StaleEvaluationCommit
      else if map_of (events db) (cursor e) \<noteq> None
        \<or> list_ex (\<lambda>(_, r). col_idempotency_key r = idempotency_key e) (events db)
      then Inl (Raised UniqueConstraintViolation)
      else let db1 = db\<lparr>events := events db @ [(cursor e, event_values e f)]\<rparr> in
        (case attempt e of None \<Rightarrow> Inr db1
         | Some a \<Rightarrow> (case insert_attempt (cursor e) a db1 of Inl x \<Rightarrow> Inl (Raised x) | Inr db2 \<Rightarrow> Inr db2)))"

definition create_event :: "(string \<Rightarrow> string) \<Rightarrow> delivery_event \<Rightarrow> deliveries_db \<Rightarrow> (deliveries_db \<times> delivery_event) res" where
  "create_event h e db =
     rbind (current_event h (cursor e) db) (\<lambda>existing. case existing of
       Some v \<Rightarrow> if v = e then Inr (db, v) else Inl UniqueConstraintViolation
     | None \<Rightarrow> (case upsert_event e None db of
         Inr db' \<Rightarrow> Inr (db', e) | Inl (Raised x) \<Rightarrow> Inl x | Inl StaleEvaluationCommit \<Rightarrow> Inl RuntimeError))"

section \<open>Attempts\<close>

definition moved_event :: "delivery_event \<Rightarrow> delivery_attempt \<Rightarrow> nat option \<Rightarrow> delivery_event" where
  "moved_event e a retry = e\<lparr>event_state := attempt_state a, attempt := Some a, retry_at := retry\<rparr>"

definition attempt_conflict :: "event_row \<Rightarrow> delivery_event \<Rightarrow> delivery_attempt \<Rightarrow> delivery_state \<Rightarrow> bool" where
  "attempt_conflict r e a expected \<longleftrightarrow>
     (let next_attempt = (if expected = SENDING then col_attempt_number r else col_attempt_number r + 1) in
      event_state e \<noteq> expected \<or> attempt_key a \<noteq> idempotency_key e \<or> attempt_number a \<noteq> next_attempt
      \<or> expected = SENDING \<and> (case attempt e of None \<Rightarrow> True
           | Some old \<Rightarrow> attempt_state old \<noteq> SENDING \<or> started_at a \<noteq> started_at old)
      \<or> attempt_state a \<notin> {SENT, FAILED, UNKNOWN, CANCELLED})"

definition record_ledger :: "delivery_event \<Rightarrow> delivery_attempt \<Rightarrow> delivery_state \<Rightarrow> deliveries_db \<Rightarrow> deliveries_db res" where
  "record_ledger e a expected db =
     (if expected = SENDING then
        (case update_attempt (cursor e) (attempt_number a)
             (\<lambda>l. ledger_state l = SENDING \<and> Some (attempt_json l) = attempt e)
             (\<lambda>l. \<lparr>ledger_state = attempt_state a, attempt_json = a\<rparr>) db of
           (db', n) \<Rightarrow> rbind (ensure (n = 1) (RevisionConflict (attempt_number a) (attempt_number a))) (\<lambda>_. Inr db'))
      else insert_attempt (cursor e) a db)"

definition record_attempt ::
  "(string \<Rightarrow> string) \<Rightarrow> event_id \<Rightarrow> delivery_attempt \<Rightarrow> delivery_state \<Rightarrow> nat option \<Rightarrow> deliveries_db \<Rightarrow> (deliveries_db \<times> delivery_event) res" where
  "record_attempt h i a expected retry db =
     rbind (ensure (retry = None \<or> attempt_state a = FAILED) ValueError) (\<lambda>_.
     rbind (event_for_update h i db) (\<lambda>found. case found of
       None \<Rightarrow> Inl KeyError
     | Some (r, e) \<Rightarrow>
         let conflict = RevisionConflict (col_attempt_number r) (attempt_number a) in
         rbind (ensure (\<not> attempt_conflict r e a expected) conflict) (\<lambda>_.
         rbind (ensure (\<not> (immutable_digest db (cursor e) \<and> (expected \<in> {PENDING, FAILED} \<or> attempt_state a = CANCELLED))) conflict) (\<lambda>_.
         rbind (check_DeliveryEvent h (moved_event e a retry)) (\<lambda>_.
         case update_event (cursor e) (\<lambda>x. col_state x = expected \<and> col_attempt_number x = col_attempt_number r)
             (\<lambda>x. x\<lparr>col_state := attempt_state a, col_attempt_number := attempt_number a,
                col_retry_at := map_option isoformat retry, event_json := moved_event e a retry\<rparr>) db of
           (db1, n) \<Rightarrow> rbind (ensure (n = 1) conflict) (\<lambda>_.
             rbind (record_ledger e a expected db1) (\<lambda>db2. Inr (db2, moved_event e a retry))))))))"

text \<open>A known failure is due again when its stored time has come; a broken text raises.\<close>

definition retry_not_due :: "event_row \<Rightarrow> delivery_event \<Rightarrow> nat \<Rightarrow> bool res" where
  "retry_not_due r e now = (case retry_at e of
     None \<Rightarrow> Inr True
   | Some t \<Rightarrow> if now < t then Inr True else (case col_retry_at r of
       None \<Rightarrow> Inr True
     | Some s \<Rightarrow> rbind (fromisoformat s) (\<lambda>x. Inr (now < x))))"

definition active_instant :: "event_id \<Rightarrow> deliveries_db \<Rightarrow> bool res" where
  "active_instant i db = (case i of (_, _, sub, revision) \<Rightarrow>
     (case map_of (subscriptions db) sub of
       None \<Rightarrow> Inr False
     | Some sr \<Rightarrow> if sub_revision sr \<noteq> revision \<or> sub_status sr \<noteq> SUBSCRIPTION_ACTIVE then Inr False
         else rbind (read_record sr) (\<lambda>s. Inr (subscription_id s = sub \<and> subscription_revision s = revision
           \<and> subscription_status s = SUBSCRIPTION_ACTIVE \<and> notification_mode s = ''instant''))))"

definition sending_attempt :: "delivery_event \<Rightarrow> int \<Rightarrow> nat \<Rightarrow> delivery_attempt" where
  "sending_attempt e n started = \<lparr>attempt_number = n, attempt_state = SENDING, attempt_key = idempotency_key e,
     started_at = started, completed_at = None, attempt_error = None, attempt_message = None\<rparr>"

definition start_sending :: "(string \<Rightarrow> string) \<Rightarrow> event_row \<Rightarrow> delivery_event \<Rightarrow> delivery_state \<Rightarrow> int \<Rightarrow> nat \<Rightarrow> deliveries_db
    \<Rightarrow> (deliveries_db \<times> delivery_event option) res" where
  "start_sending h r e expected n started db =
     (let a = sending_attempt e n started; e' = moved_event e a None in
      rbind (check_DeliveryAttempt a) (\<lambda>_.
      rbind (check_DeliveryEvent h e') (\<lambda>_.
      case update_event (cursor e) (\<lambda>x. col_state x = expected \<and> col_attempt_number x = col_attempt_number r)
          (\<lambda>x. x\<lparr>col_state := SENDING, col_attempt_number := n, col_retry_at := None, event_json := e'\<rparr>) db of
        (db1, c) \<Rightarrow> if c \<noteq> 1 then Inr (db1, None)
          else rbind (insert_attempt (cursor e) a db1) (\<lambda>db2. Inr (db2, Some e')))))"

definition claim_sending ::
  "(string \<Rightarrow> string) \<Rightarrow> (string \<Rightarrow> gate_binding option) \<Rightarrow> event_id \<Rightarrow> delivery_state \<Rightarrow> int \<Rightarrow> nat \<Rightarrow> nat \<Rightarrow> deliveries_db
    \<Rightarrow> (deliveries_db \<times> delivery_event option) res" where
  "claim_sending h bindings i expected n started now db =
     rbind (ensure (started \<le> now) ValueError) (\<lambda>_.
     rbind (event_for_update h i db) (\<lambda>found. case found of
       None \<Rightarrow> Inr (db, None)
     | Some (r, e) \<Rightarrow>
         rbind (event_qualified bindings db r e) (\<lambda>ok.
         if \<not> ok \<or> immutable_digest db (cursor e) then Inr (db, None)
         else rbind (active_instant i db) (\<lambda>active.
         if \<not> active then Inr (db, None)
         else if event_state e \<noteq> expected \<or> expected \<notin> {PENDING, FAILED} \<or> n \<noteq> col_attempt_number r + 1 then Inr (db, None)
         else rbind (if expected = FAILED then retry_not_due r e now else Inr False) (\<lambda>wait.
         if wait then Inr (db, None) else start_sending h r e expected n started db)))))"

text \<open>An unanswered attempt whose outcome stays unknown.\<close>

definition unknown_attempt :: "delivery_attempt \<Rightarrow> nat \<Rightarrow> delivery_attempt" where
  "unknown_attempt a t = \<lparr>attempt_number = attempt_number a, attempt_state = UNKNOWN, attempt_key = attempt_key a,
     started_at = started_at a, completed_at = Some t, attempt_error = None, attempt_message = attempt_message a\<rparr>"

definition become_unknown :: "(string \<Rightarrow> string) \<Rightarrow> delivery_event \<Rightarrow> delivery_attempt \<Rightarrow> nat \<Rightarrow> deliveries_db
    \<Rightarrow> (deliveries_db \<times> delivery_event option) res" where
  "become_unknown h e old t db =
     (let a = unknown_attempt old t; e' = moved_event e a None in
      rbind (check_DeliveryAttempt a) (\<lambda>_.
      rbind (check_DeliveryEvent h e') (\<lambda>_.
      case update_event (cursor e) (\<lambda>x. col_state x = SENDING \<and> col_attempt_number x = attempt_number old)
          (\<lambda>x. x\<lparr>col_state := UNKNOWN, col_retry_at := None, event_json := e'\<rparr>) db of
        (db1, c) \<Rightarrow> if c \<noteq> 1 then Inr (db1, None)
          else (case update_attempt (cursor e) (attempt_number old) (\<lambda>l. ledger_state l = SENDING)
              (\<lambda>l. \<lparr>ledger_state = UNKNOWN, attempt_json = a\<rparr>) db1 of
            (db2, m) \<Rightarrow> rbind (ensure (m = 1) (RevisionConflict (attempt_number old) (attempt_number old))) (\<lambda>_. Inr (db2, Some e'))))))"

definition mark_sending_unknown :: "(string \<Rightarrow> string) \<Rightarrow> event_id \<Rightarrow> int \<Rightarrow> nat \<Rightarrow> nat \<Rightarrow> deliveries_db
    \<Rightarrow> (deliveries_db \<times> delivery_event option) res" where
  "mark_sending_unknown h i n started completed db =
     rbind (event_for_update h i db) (\<lambda>found. case found of
       None \<Rightarrow> Inr (db, None)
     | Some (r, e) \<Rightarrow> (case attempt e of
         None \<Rightarrow> Inr (db, None)
       | Some old \<Rightarrow>
           if event_state e \<noteq> SENDING \<or> attempt_number old \<noteq> n \<or> started_at old \<noteq> started \<or> completed < started_at old
           then Inr (db, None) else become_unknown h e old completed db))"

definition recover_event :: "(string \<Rightarrow> string) \<Rightarrow> nat \<Rightarrow> delivery_event \<Rightarrow> deliveries_db \<times> delivery_event list
    \<Rightarrow> (deliveries_db \<times> delivery_event list) res" where
  "recover_event h before e acc = (case (acc, attempt e) of
     ((db, found), Some old) \<Rightarrow> rbind (become_unknown h e old before db) (\<lambda>(db', out).
        Inr (db', case out of None \<Rightarrow> found | Some e' \<Rightarrow> found @ [e']))
   | (_, None) \<Rightarrow> Inl AttributeError)"

definition stale_sending :: "nat \<Rightarrow> delivery_event \<Rightarrow> bool" where
  "stale_sending before e \<longleftrightarrow> (case attempt e of None \<Rightarrow> False | Some a \<Rightarrow> started_at a \<le> before)"

definition recover_stale_sending :: "(string \<Rightarrow> string) \<Rightarrow> nat \<Rightarrow> deliveries_db \<Rightarrow> (deliveries_db \<times> delivery_event list) res" where
  "recover_stale_sending h before db =
     rbind (rmap (read_event h) (map snd (sort_key (\<lambda>((key, version, sub, _), _). (key, version, sub))
         (filter (\<lambda>(_, r). col_state r = SENDING) (events db))))) (\<lambda>rows.
     rfold (recover_event h before) (filter (stale_sending before) rows) (db, []))"

section \<open>Due events\<close>

text \<open>The rows the dispatcher may look at: for a stale subscription too, so that it can clean up.\<close>

definition due_row :: "deliveries_db \<Rightarrow> nat \<Rightarrow> event_id \<times> event_row \<Rightarrow> bool" where
  "due_row db now x = (case x of (i, r) \<Rightarrow> (case i of (_, _, sub, revision) \<Rightarrow>
     let current = (case map_of (subscriptions db) sub of None \<Rightarrow> None
       | Some s \<Rightarrow> if sub_revision s = revision \<and> sub_status s = SUBSCRIPTION_ACTIVE then Some s else None) in
     (col_state r = PENDING \<or> col_state r = FAILED \<and> (case col_retry_at r of None \<Rightarrow> False | Some t \<Rightarrow> t \<le> isoformat now))
     \<and> public_contribution (event_json r) = None
     \<and> (case current of None \<Rightarrow> True
        | Some s \<Rightarrow> notification_mode (record_json s) = ''instant'')
     \<and> \<not> immutable_digest db i))"

definition due_ids :: "deliveries_db \<Rightarrow> nat \<Rightarrow> event_id option \<Rightarrow> (event_id \<times> event_row) list" where
  "due_ids db now after = sort_key fst (filter (\<lambda>x. due_row db now x \<and> (case after of None \<Rightarrow> True | Some c \<Rightarrow> c < fst x)) (events db))"

definition list_due_events :: "(string \<Rightarrow> string) \<Rightarrow> nat \<Rightarrow> int \<Rightarrow> event_id option \<Rightarrow> deliveries_db \<Rightarrow> delivery_event list res" where
  "list_due_events h now limit after db =
     rbind (ensure (1 \<le> limit) ValueError) (\<lambda>_.
     rmap (read_event h) (map snd (take (nat limit) (due_ids db now after))))"

end
