(* ===== verification/Delivery_Service.thy ===== *)
theory Delivery_Service
  imports Deliveries Effects
begin

text \<open>
  The part of \<open>services/delivery.py\<close> that decides about the state of one event: the last check before a
  send with its claim, and everything that ends an attempt.  The awaits of the repository are
  transactions; answers of other components (eligibility, clock, retry policy, the receipt of the
  message port) are arguments, and so is the way the wait for a claim ends.
\<close>

section \<open>Transactions as effects\<close>

type_synonym 'a dop = "(deliveries_db, 'a) eff"

definition transact :: "(deliveries_db \<Rightarrow> (deliveries_db \<times> 'a) res) \<Rightarrow> 'a dop" where
  "transact f s = (case f s of Inl x \<Rightarrow> (s, Inl x) | Inr (t, a) \<Rightarrow> (t, Inr a))"

definition query_db :: "(deliveries_db \<Rightarrow> 'a res) \<Rightarrow> 'a dop" where
  "query_db f s = (s, f s)"

text \<open>
  How a wait for a transaction ends: with its answer, or with an exception (a cancelled task, a closing
  executor) while the transaction was committed all the same, or was not.
\<close>

datatype answer = Answered | Lost bool exn

definition awaited :: "answer \<Rightarrow> 'a dop \<Rightarrow> 'a dop" where
  "awaited w f s = (case w of Answered \<Rightarrow> f s | Lost committed x \<Rightarrow> (if committed then fst (f s) else s, Inl x))"

section \<open>Results of a delivery\<close>

record delivery_result =
  result_state :: delivery_state
  result_code :: "string option"

record eligibility =
  allowed :: bool
  denial_code :: "string option"
  grant_expires_at :: "nat option"

datatype receipt_status = RECEIPT_ACCEPTED | RECEIPT_FAILED | RECEIPT_UNKNOWN

definition next_number :: "delivery_event \<Rightarrow> int" where
  "next_number e = (case attempt e of None \<Rightarrow> 0 | Some a \<Rightarrow> attempt_number a) + 1"

text \<open>A constructor that checks its fields.\<close>

definition make_attempt :: "delivery_attempt \<Rightarrow> delivery_attempt dop" where
  "make_attempt a = eres (rbind (check_DeliveryAttempt a) (\<lambda>_. Inr a))"

section \<open>Ends of an attempt\<close>

definition finish_without_send ::
  "(string \<Rightarrow> string) \<Rightarrow> (delivery_event \<Rightarrow> nat \<Rightarrow> nat option res) \<Rightarrow> delivery_event \<Rightarrow> string \<Rightarrow> nat \<Rightarrow> unit dop" where
  "finish_without_send h retry e code completed =
     (if event_state e \<notin> {PENDING, FAILED, SENDING} then eret ()
      else ebind (make_attempt \<lparr>attempt_number = next_number e,
          attempt_state = (if code \<noteq> ''display_render_failed'' then CANCELLED else FAILED), attempt_key = idempotency_key e,
          started_at = (case attempt e of Some a \<Rightarrow> if event_state e = SENDING then started_at a else completed | None \<Rightarrow> completed),
          completed_at = Some completed, attempt_error = Some code, attempt_message = None\<rparr>) (\<lambda>a.
        ebind (if attempt_state a = FAILED then eres (retry e completed) else eret None) (\<lambda>again.
        ebind (transact (record_attempt h (cursor e) a (event_state e) again)) (\<lambda>_. eret ()))))"

definition finish_without_send_result ::
  "(string \<Rightarrow> string) \<Rightarrow> (delivery_event \<Rightarrow> nat \<Rightarrow> nat option res) \<Rightarrow> delivery_event \<Rightarrow> string \<Rightarrow> nat \<Rightarrow> delivery_result dop" where
  "finish_without_send_result h retry e code completed =
     ecatch (ebind (finish_without_send h retry e code completed) (\<lambda>_.
         eret \<lparr>result_state = (if code = ''display_render_failed'' then FAILED else CANCELLED), result_code = Some code\<rparr>))
       (\<lambda>x. case x of RevisionConflict _ _ \<Rightarrow>
            ebind (query_db (current_event h (cursor e))) (\<lambda>current.
            eret (case current of None \<Rightarrow> \<lparr>result_state = CANCELLED, result_code = Some code\<rparr>
              | Some c \<Rightarrow> \<lparr>result_state = event_state c, result_code = None\<rparr>))
          | _ \<Rightarrow> eraise x)"

definition abort_event_send :: "(string \<Rightarrow> string) \<Rightarrow> delivery_event \<Rightarrow> nat \<Rightarrow> unit dop" where
  "abort_event_send h e completed = (case attempt e of
     None \<Rightarrow> eret ()
   | Some prior \<Rightarrow>
       if event_state e \<noteq> SENDING then eret ()
       else ebind (make_attempt \<lparr>attempt_number = attempt_number prior, attempt_state = CANCELLED, attempt_key = attempt_key prior,
           started_at = started_at prior, completed_at = Some completed, attempt_error = Some ''cancelled_before_dispatch'',
           attempt_message = None\<rparr>) (\<lambda>a.
         ebind (transact (record_attempt h (cursor e) a SENDING None)) (\<lambda>_. eret ())))"

text \<open>\<open>_drain_cleanup\<close>: the work runs to its end and its exception is dropped.\<close>

definition drain_cleanup :: "unit dop \<Rightarrow> unit dop" where
  "drain_cleanup f = ecatch f (\<lambda>_. eret ())"

definition reconcile_cancelled_event_claim :: "(string \<Rightarrow> string) \<Rightarrow> delivery_event \<Rightarrow> int \<Rightarrow> nat \<Rightarrow> nat \<Rightarrow> unit dop" where
  "reconcile_cancelled_event_claim h e n started completed =
     ebind (ecatch (query_db (current_event h (cursor e))) (\<lambda>_. eret None)) (\<lambda>current. case current of
       None \<Rightarrow> eret ()
     | Some c \<Rightarrow> (case attempt c of
         None \<Rightarrow> eret ()
       | Some a \<Rightarrow> if event_state c \<noteq> SENDING \<or> attempt_number a \<noteq> n \<or> started_at a \<noteq> started then eret ()
           else abort_event_send h c completed))"

definition receipt_state :: "receipt_status \<Rightarrow> delivery_state" where
  "receipt_state st = (case st of RECEIPT_ACCEPTED \<Rightarrow> SENT | RECEIPT_FAILED \<Rightarrow> FAILED | RECEIPT_UNKNOWN \<Rightarrow> UNKNOWN)"

definition unresolved :: "delivery_result" where
  "unresolved = \<lparr>result_state = UNKNOWN, result_code = Some ''storage_finish_failed''\<rparr>"

definition commit_event_receipt ::
  "(string \<Rightarrow> string) \<Rightarrow> (delivery_event \<Rightarrow> nat \<Rightarrow> nat option res) \<Rightarrow> delivery_event \<Rightarrow> receipt_status \<Rightarrow> string option \<Rightarrow> string option
    \<Rightarrow> nat \<Rightarrow> delivery_result dop" where
  "commit_event_receipt h retry e status code message completed = (case attempt e of
     None \<Rightarrow> eret unresolved
   | Some prior \<Rightarrow>
       if attempt_state prior \<noteq> SENDING then eret unresolved
       else ebind (make_attempt \<lparr>attempt_number = attempt_number prior, attempt_state = receipt_state status, attempt_key = idempotency_key e,
           started_at = started_at prior, completed_at = Some completed,
           attempt_error = (if receipt_state status \<noteq> UNKNOWN then code else None), attempt_message = message\<rparr>) (\<lambda>a.
         ebind (if receipt_state status = FAILED then eres (retry e completed) else eret None) (\<lambda>again.
         ecatch (ebind (transact (record_attempt h (cursor e) a SENDING again)) (\<lambda>_.
             eret \<lparr>result_state = receipt_state status, result_code = code\<rparr>))
           (\<lambda>_. eret unresolved))))"

definition timed_out :: "delivery_state \<Rightarrow> delivery_result" where
  "timed_out st = \<lparr>result_state = st, result_code = Some ''host_send_timeout''\<rparr>"

definition mark_event_timeout_unknown ::
  "(string \<Rightarrow> string) \<Rightarrow> (delivery_event \<Rightarrow> nat \<Rightarrow> nat option res) \<Rightarrow> delivery_event option \<Rightarrow> delivery_event \<Rightarrow> nat \<Rightarrow> delivery_result dop" where
  "mark_event_timeout_unknown h retry sending e completed =
     (if Option.bind sending attempt = None then eret (timed_out UNKNOWN)
      else ebind (ecatch (query_db (current_event h (cursor e))) (\<lambda>_. eret None)) (\<lambda>current. case current of
         None \<Rightarrow> eret (timed_out UNKNOWN)
       | Some c \<Rightarrow>
           if attempt c \<noteq> Option.bind sending attempt then eret (timed_out UNKNOWN)
           else if event_state c \<noteq> SENDING then eret (timed_out (event_state c))
           else commit_event_receipt h retry c RECEIPT_UNKNOWN (Some ''host_send_timeout'') None completed))"

section \<open>The last check before a send\<close>

text \<open>The readings of the clock in the order of the code; the outcome is an approval or a result.\<close>

definition denied :: "eligibility \<Rightarrow> string" where
  "denied a = (case denial_code a of Some c \<Rightarrow> if c = [] then ''subscription_unavailable'' else c | None \<Rightarrow> ''subscription_unavailable'')"

definition lost_claim :: "(string \<Rightarrow> string) \<Rightarrow> (delivery_event \<Rightarrow> nat \<Rightarrow> nat option res) \<Rightarrow> delivery_event \<Rightarrow> eligibility \<Rightarrow> nat
    \<Rightarrow> delivery_result dop" where
  "lost_claim h retry e latest completed =
     ebind (query_db (current_event h (cursor e))) (\<lambda>current. case current of
       None \<Rightarrow> eret \<lparr>result_state = CANCELLED, result_code = None\<rparr>
     | Some c \<Rightarrow>
         if event_state c \<in> {PENDING, FAILED} \<and> \<not> allowed latest then finish_without_send_result h retry c (denied latest) completed
         else eret \<lparr>result_state = event_state c, result_code = None\<rparr>)"

definition final_check ::
  "(string \<Rightarrow> string) \<Rightarrow> (string \<Rightarrow> gate_binding option) \<Rightarrow> (delivery_event \<Rightarrow> nat \<Rightarrow> nat option res) \<Rightarrow> delivery_event \<Rightarrow> delivery_state
    \<Rightarrow> eligibility \<Rightarrow> eligibility \<Rightarrow> answer \<Rightarrow> (nat \<Rightarrow> nat) \<Rightarrow> (delivery_event + delivery_result) dop" where
  "final_check h bindings retry e expected final latest w clk =
     (if \<not> allowed final then ebind (finish_without_send_result h retry e (denied final) (clk 0)) (\<lambda>r. eret (Inr r))
      else ebind (ecatch (ebind (awaited w (transact (claim_sending h bindings (cursor e) expected (next_number e) (clk 1) (clk 1))))
                (\<lambda>claimed. eret (Inl claimed)))
              (\<lambda>x. ebind (drain_cleanup (reconcile_cancelled_event_claim h e (next_number e) (clk 1) (clk 2))) (\<lambda>_.
                if x = CancelledError then eraise x else eret (Inr unresolved)))) (\<lambda>outcome.
       case outcome of
         Inr r \<Rightarrow> eret (Inr r)
       | Inl None \<Rightarrow> ebind (lost_claim h retry e latest (clk 3)) (\<lambda>r. eret (Inr r))
       | Inl (Some claimed) \<Rightarrow>
           if (case grant_expires_at final of None \<Rightarrow> False | Some t \<Rightarrow> t \<le> clk 2)
           then ebind (drain_cleanup (abort_event_send h claimed (clk 3))) (\<lambda>_.
             eret (Inr \<lparr>result_state = CANCELLED, result_code = Some ''grant_unavailable''\<rparr>))
           else eret (Inl claimed)))"

section \<open>Due events\<close>

text \<open>
  \<open>dispatch_due_events\<close>: page after page behind a cursor.  What a dispatch does to the store is an
  argument.  The result is the store and the events in the order they were dispatched; with too
  little fuel there is none.
\<close>

fun dispatch_page :: "(delivery_event \<Rightarrow> deliveries_db \<Rightarrow> deliveries_db) \<Rightarrow> delivery_event list \<Rightarrow> deliveries_db \<Rightarrow> deliveries_db" where
  "dispatch_page dispatch [] s = s"
| "dispatch_page dispatch (e # es) s = dispatch_page dispatch es (dispatch e s)"

fun dispatch_due_events ::
  "(string \<Rightarrow> string) \<Rightarrow> (delivery_event \<Rightarrow> deliveries_db \<Rightarrow> deliveries_db) \<Rightarrow> int \<Rightarrow> nat \<Rightarrow> nat \<Rightarrow> event_id option
    \<Rightarrow> deliveries_db \<Rightarrow> (deliveries_db \<times> delivery_event list res) option" where
  "dispatch_due_events h dispatch page_size now 0 after s = None"
| "dispatch_due_events h dispatch page_size now (Suc fuel) after s =
     (case list_due_events h now page_size after s of
        Inl x \<Rightarrow> Some (s, Inl x)
      | Inr [] \<Rightarrow> Some (s, Inr [])
      | Inr (e # es) \<Rightarrow>
          (case dispatch_due_events h dispatch page_size now fuel (Some (cursor (last (e # es)))) (dispatch_page dispatch (e # es) s) of
             None \<Rightarrow> None
           | Some (t, Inl x) \<Rightarrow> Some (t, Inl x)
           | Some (t, Inr done) \<Rightarrow> Some (t, Inr ((e # es) @ done))))"

section \<open>Runs\<close>

text \<open>
  The transactions on the tables of deliveries, in any order.  Attempts are recorded with the states
  the service expects, events are created by an evaluation or directly, and everything else in the
  database may change in between.
\<close>

inductive delivery_step :: "(string \<Rightarrow> string) \<Rightarrow> (string \<Rightarrow> gate_binding option) \<Rightarrow> deliveries_db \<Rightarrow> deliveries_db \<Rightarrow> bool" for h bindings where
  d_commit: "upsert_event e f s = Inr t \<Longrightarrow> check_stored_event h e = Inr () \<Longrightarrow> pred_option representable (retry_at e) \<Longrightarrow>
    delivery_step h bindings s t"
| d_create: "create_event h e s = Inr (t, e') \<Longrightarrow> check_stored_event h e = Inr () \<Longrightarrow> pred_option representable (retry_at e) \<Longrightarrow>
    delivery_step h bindings s t"
| d_claim: "claim_sending h bindings i expected n started now s = Inr (t, out) \<Longrightarrow> delivery_step h bindings s t"
| d_record: "record_attempt h i a expected retry s = Inr (t, e) \<Longrightarrow> expected \<in> {PENDING, FAILED, SENDING} \<Longrightarrow>
    check_DeliveryAttempt a = Inr () \<Longrightarrow> pred_option representable retry \<Longrightarrow> delivery_step h bindings s t"
| d_unknown: "mark_sending_unknown h i n started completed s = Inr (t, out) \<Longrightarrow> delivery_step h bindings s t"
| d_recover: "recover_stale_sending h before s = Inr (t, found) \<Longrightarrow> delivery_step h bindings s t"
| d_other: "events t = events s \<Longrightarrow> attempts t = attempts s \<Longrightarrow> delivery_step h bindings s t"

definition initial_deliveries :: "deliveries_db \<Rightarrow> bool" where
  "initial_deliveries s \<longleftrightarrow> events s = [] \<and> attempts s = []"

end
