(* ===== verification/Deliveries_Correct.thy ===== *)
theory Deliveries_Correct
  imports Delivery_Service
begin

text \<open>
  The promises of the store of deliveries: the ledger of attempts agrees with the events, at most one
  attempt of an event was sent or may have been sent, a settled event never changes, a claim succeeds
  exactly for a due event whose subscription and gates are as they were when it was stored, recovery
  resolves every interrupted send, and the pages of the due scan are the due events in order.
\<close>

declare split_paired_All [simp del] split_paired_Ex [simp del]

section \<open>The invariant\<close>

definition event_row_ok :: "(string \<Rightarrow> string) \<Rightarrow> event_id \<Rightarrow> event_row \<Rightarrow> bool" where
  "event_row_ok h i r \<longleftrightarrow> cursor (event_json r) = i \<and> check_stored_event h (event_json r) = Inr ()
     \<and> col_state r = event_state (event_json r)
     \<and> col_attempt_number r = (case attempt (event_json r) of None \<Rightarrow> 0 | Some a \<Rightarrow> attempt_number a)
     \<and> col_retry_at r = map_option isoformat (retry_at (event_json r)) \<and> pred_option representable (retry_at (event_json r))
     \<and> (col_state r = PENDING \<longrightarrow> attempt (event_json r) = None)"

definition ledger_row_ok :: "event_row \<Rightarrow> int \<Rightarrow> attempt_row \<Rightarrow> bool" where
  "ledger_row_ok r n l \<longleftrightarrow> 1 \<le> n \<and> n \<le> col_attempt_number r \<and> ledger_state l = attempt_state (attempt_json l)
     \<and> (if n = col_attempt_number r then attempt (event_json r) = Some (attempt_json l) else ledger_state l = FAILED)"

definition deliveries_inv :: "(string \<Rightarrow> string) \<Rightarrow> deliveries_db \<Rightarrow> bool" where
  "deliveries_inv h s \<longleftrightarrow> dict_ok (events s) \<and> dict_ok (attempts s)
     \<and> (\<forall>i r. map_of (events s) i = Some r \<longrightarrow> event_row_ok h i r
         \<and> (\<forall>a. attempt (event_json r) = Some a \<longrightarrow>
              map_of (attempts s) (i, attempt_number a) = Some \<lparr>ledger_state = attempt_state a, attempt_json = a\<rparr>))
     \<and> (\<forall>i n l. map_of (attempts s) (i, n) = Some l \<longrightarrow> (\<exists>r. map_of (events s) i = Some r \<and> ledger_row_ok r n l))"

lemma inv_row: "deliveries_inv h s \<Longrightarrow> map_of (events s) i = Some r \<Longrightarrow> event_row_ok h i r"
  and inv_attempt: "deliveries_inv h s \<Longrightarrow> map_of (events s) i = Some r \<Longrightarrow> attempt (event_json r) = Some a \<Longrightarrow>
    map_of (attempts s) (i, attempt_number a) = Some \<lparr>ledger_state = attempt_state a, attempt_json = a\<rparr>"
  and inv_ledger: "deliveries_inv h s \<Longrightarrow> map_of (attempts s) (i, n) = Some l \<Longrightarrow>
    \<exists>r. map_of (events s) i = Some r \<and> ledger_row_ok r n l"
  by (auto simp: deliveries_inv_def)

lemma read_event_ok: "event_row_ok h i r \<Longrightarrow> read_event h r = Inr (event_json r)"
  by (simp add: read_event_def event_row_ok_def)

lemma stored_event_checked: "check_stored_event h e = Inr () \<longleftrightarrow> check_ConversationRef (event_recipient e) = Inr ()
    \<and> check_option (\<lambda>g. rbind (check_identifier (grant_id g)) (\<lambda>_. positive_int (grant_revision g))) (event_grant e) = Inr ()
    \<and> check_option check_DeliveryAttempt (attempt e) = Inr () \<and> check_DeliveryEvent h e = Inr ()"
  by (auto simp: check_stored_event_def rbind_eq_Inr)

lemma event_attempt_state:
  assumes "check_DeliveryEvent h e = Inr ()" "attempt e = Some a"
  shows "attempt_state a = event_state e" "attempt_key a = idempotency_key e"
  using assms by (auto simp: check_DeliveryEvent_def rbind_eq_Inr check_option_def)

lemma attempt_positive: "check_DeliveryAttempt a = Inr () \<Longrightarrow> 1 \<le> attempt_number a"
  by (auto simp: check_DeliveryAttempt_def rbind_eq_Inr positive_int_def)

lemma row_attempt:
  assumes "event_row_ok h i r" "attempt (event_json r) = Some a"
  shows "attempt_state a = col_state r" "attempt_number a = col_attempt_number r" "1 \<le> attempt_number a"
    "attempt_key a = idempotency_key (event_json r)" "check_DeliveryAttempt a = Inr ()"
proof -
  from assms have c: "check_DeliveryEvent h (event_json r) = Inr ()" "check_DeliveryAttempt a = Inr ()"
    by (auto simp: event_row_ok_def stored_event_checked check_option_def)
  with assms show "attempt_state a = col_state r" "attempt_number a = col_attempt_number r" "1 \<le> attempt_number a"
      "attempt_key a = idempotency_key (event_json r)" "check_DeliveryAttempt a = Inr ()"
    using event_attempt_state [OF c(1) assms(2)] attempt_positive [OF c(2)] by (auto simp: event_row_ok_def)
qed

section \<open>Changes of single events\<close>

definition put_event :: "event_id \<Rightarrow> event_row \<Rightarrow> deliveries_db \<Rightarrow> deliveries_db" where
  "put_event i r s = s\<lparr>events := AList.update i r (events s)\<rparr>"

definition put_ledger :: "event_id \<Rightarrow> delivery_attempt \<Rightarrow> deliveries_db \<Rightarrow> deliveries_db" where
  "put_ledger i a s = s\<lparr>attempts := AList.update (i, attempt_number a) \<lparr>ledger_state = attempt_state a, attempt_json = a\<rparr> (attempts s)\<rparr>"

lemma put_simps [simp]:
  "map_of (events (put_event i r s)) = (map_of (events s))(i \<mapsto> r)" "attempts (put_event i r s) = attempts s"
  "events (put_ledger i a s) = events s"
  "map_of (attempts (put_ledger i a s)) = (map_of (attempts s))((i, attempt_number a) \<mapsto> \<lparr>ledger_state = attempt_state a, attempt_json = a\<rparr>)"
  "dict_ok (events s) \<Longrightarrow> dict_ok (events (put_event i r s))" "dict_ok (attempts s) \<Longrightarrow> dict_ok (attempts (put_ledger i a s))"
  by (simp_all add: put_event_def put_ledger_def)

text \<open>An event is created, starts another attempt, or its attempt ends.\<close>

definition event_start :: "(delivery_state \<times> int) \<Rightarrow> (delivery_state \<times> int) \<Rightarrow> bool" where
  "event_start x y \<longleftrightarrow> fst x \<in> {PENDING, FAILED} \<and> fst y \<noteq> PENDING \<and> snd y = snd x + 1"

definition event_end :: "(delivery_state \<times> int) \<Rightarrow> (delivery_state \<times> int) \<Rightarrow> bool" where
  "event_end x y \<longleftrightarrow> fst x = SENDING \<and> fst y \<in> {SENT, FAILED, UNKNOWN, CANCELLED} \<and> snd y = snd x"

definition phase :: "event_row \<Rightarrow> delivery_state \<times> int" where
  "phase r = (col_state r, col_attempt_number r)"

inductive event_change :: "(string \<Rightarrow> string) \<Rightarrow> deliveries_db \<Rightarrow> deliveries_db \<Rightarrow> bool" for h where
  c_new: "map_of (events s) i = None \<Longrightarrow> event_row_ok h i r \<Longrightarrow> attempt (event_json r) = None \<Longrightarrow>
    event_change h s (put_event i r s)"
| c_new_attempt: "map_of (events s) i = None \<Longrightarrow> event_row_ok h i r \<Longrightarrow> attempt (event_json r) = Some a \<Longrightarrow>
    event_change h s (put_ledger i a (put_event i r s))"
| c_move: "map_of (events s) i = Some r \<Longrightarrow> event_row_ok h i r' \<Longrightarrow> attempt (event_json r') = Some a \<Longrightarrow>
    event_start (phase r) (phase r') \<or> event_end (phase r) (phase r') \<Longrightarrow>
    event_change h s (put_ledger i a (put_event i r' s))"
| c_other: "events t = events s \<Longrightarrow> attempts t = attempts s \<Longrightarrow> event_change h s t"

lemma ledger_current: "event_row_ok h i r \<Longrightarrow> attempt (event_json r) = Some a \<Longrightarrow>
    ledger_row_ok r (attempt_number a) \<lparr>ledger_state = attempt_state a, attempt_json = a\<rparr>"
  using row_attempt [of h i r a] by (simp add: ledger_row_ok_def)

text \<open>A ledger row stays in order when the event moves on.\<close>

lemma ledger_moves:
  assumes "event_row_ok h i r" "event_row_ok h i r'" "attempt (event_json r') = Some a" "ledger_row_ok r n l"
    and "event_start (phase r) (phase r') \<or> event_end (phase r) (phase r')" "n \<noteq> attempt_number a"
  shows "ledger_row_ok r' n l"
proof -
  have n: "attempt_number a = col_attempt_number r'" using row_attempt [OF assms(2,3)] by simp
  from assms(5) show ?thesis
  proof
    assume start: "event_start (phase r) (phase r')"
    then have next_n: "col_attempt_number r' = col_attempt_number r + 1" "col_state r \<in> {PENDING, FAILED}"
      by (auto simp: event_start_def phase_def)
    show ?thesis
    proof (cases "n = col_attempt_number r")
      case True
      with assms(4) have "attempt (event_json r) = Some (attempt_json l)" by (simp add: ledger_row_ok_def)
      then have "attempt_state (attempt_json l) = FAILED"
        using row_attempt(1) [OF assms(1)] next_n(2) assms(1) by (auto simp: event_row_ok_def)
      then show ?thesis using assms(4) True next_n by (simp add: ledger_row_ok_def)
    next
      case False
      then show ?thesis using assms(4) next_n by (auto simp: ledger_row_ok_def)
    qed
  next
    assume "event_end (phase r) (phase r')"
    then have "col_attempt_number r' = col_attempt_number r" by (simp add: event_end_def phase_def)
    then show ?thesis using assms(4,6) n by (auto simp: ledger_row_ok_def)
  qed
qed

lemma no_ledger: "deliveries_inv h s \<Longrightarrow> map_of (events s) i = None \<Longrightarrow> map_of (attempts s) (i, n) = None"
  using inv_ledger [of h s i n] by (cases "map_of (attempts s) (i, n)") auto

lemma event_change_inv:
  assumes "event_change h s t" "deliveries_inv h s"
  shows "deliveries_inv h t"
  using assms(1)
proof cases
  case (c_new i r)
  have dicts: "dict_ok (events t)" "dict_ok (attempts t)" using assms(2) by (auto simp: c_new deliveries_inv_def)
  show ?thesis unfolding deliveries_inv_def
    using dicts c_new(3,4) inv_row [OF assms(2)] inv_attempt [OF assms(2)] inv_ledger [OF assms(2)] no_ledger [OF assms(2) c_new(2)]
    by (auto simp: c_new(1))
next
  case (c_new_attempt i r a)
  have dicts: "dict_ok (events t)" "dict_ok (attempts t)" using assms(2) by (auto simp: c_new_attempt deliveries_inv_def)
  show ?thesis unfolding deliveries_inv_def
  proof (intro conjI dicts allI impI)
    fix j x assume x: "map_of (events t) j = Some x"
    then show "event_row_ok h j x" using c_new_attempt inv_row [OF assms(2)] by (auto split: if_splits)
    fix b assume "attempt (event_json x) = Some b"
    then show "map_of (attempts t) (j, attempt_number b) = Some \<lparr>ledger_state = attempt_state b, attempt_json = b\<rparr>"
      using x c_new_attempt inv_attempt [OF assms(2)] by (auto split: if_splits)
  next
    fix j n l assume "map_of (attempts t) (j, n) = Some l"
    then show "\<exists>x. map_of (events t) j = Some x \<and> ledger_row_ok x n l"
      using c_new_attempt inv_ledger [OF assms(2), of j n] no_ledger [OF assms(2) c_new_attempt(2)] ledger_current [OF c_new_attempt(3,4)]
      by (auto split: if_splits)
  qed
next
  case (c_move i r r' a)
  have dicts: "dict_ok (events t)" "dict_ok (attempts t)" using assms(2) by (auto simp: c_move deliveries_inv_def)
  have r: "event_row_ok h i r" using inv_row [OF assms(2) c_move(2)] .
  show ?thesis unfolding deliveries_inv_def
  proof (intro conjI dicts allI impI)
    fix j x assume x: "map_of (events t) j = Some x"
    then show "event_row_ok h j x" using c_move inv_row [OF assms(2)] by (auto split: if_splits)
    fix b assume "attempt (event_json x) = Some b"
    then show "map_of (attempts t) (j, attempt_number b) = Some \<lparr>ledger_state = attempt_state b, attempt_json = b\<rparr>"
      using x c_move inv_attempt [OF assms(2)] by (auto split: if_splits)
  next
    fix j n l assume l: "map_of (attempts t) (j, n) = Some l"
    show "\<exists>x. map_of (events t) j = Some x \<and> ledger_row_ok x n l"
    proof (cases "j = i \<and> n = attempt_number a")
      case True
      then show ?thesis using l c_move(1) ledger_current [OF c_move(3,4)] by simp
    next
      case False
      then have old: "map_of (attempts s) (j, n) = Some l" using l c_move(1) by (auto split: if_splits)
      then show ?thesis using inv_ledger [OF assms(2) old] ledger_moves [OF r c_move(3,4) _ c_move(5)] c_move(1,2) False by auto
    qed
  qed
next
  case c_other
  then show ?thesis using assms(2) by (simp add: deliveries_inv_def)
qed

lemma event_changes_inv: "(event_change h)\<^sup>*\<^sup>* s t \<Longrightarrow> deliveries_inv h s \<Longrightarrow> deliveries_inv h t"
  by (induction rule: rtranclp_induct) (auto intro: event_change_inv)

section \<open>Every transaction is a sequence of changes\<close>

lemma moved_event_simps [simp]:
  "cursor (moved_event e a retry) = cursor e" "event_state (moved_event e a retry) = attempt_state a"
  "attempt (moved_event e a retry) = Some a" "retry_at (moved_event e a retry) = retry"
  "event_recipient (moved_event e a retry) = event_recipient e" "event_grant (moved_event e a retry) = event_grant e"
  "idempotency_key (moved_event e a retry) = idempotency_key e"
  by (simp_all add: moved_event_def cursor_def)

text \<open>What the checks of an event say about one with another attempt.\<close>

lemma check_moved:
  assumes "check_stored_event h e = Inr ()" "check_DeliveryAttempt a = Inr ()" "check_DeliveryEvent h (moved_event e a retry) = Inr ()"
  shows "check_stored_event h (moved_event e a retry) = Inr ()"
  using assms by (simp add: stored_event_checked check_option_def)

lemma check_moved_exact:
  assumes "check_stored_event h e = Inr ()"
  shows "check_DeliveryEvent h (moved_event e a retry) = Inr () \<longleftrightarrow>
    attempt_key a = idempotency_key e \<and> (retry \<noteq> None \<longrightarrow> attempt_state a = FAILED)"
proof -
  have "check_DeliveryEvent h e = Inr ()" using assms by (simp add: stored_event_checked)
  then show ?thesis
    by (auto simp: check_DeliveryEvent_def rbind_eq_Inr check_option_def moved_event_def cursor_def)
qed

lemma update_where_cases:
  assumes "update_where k p f rows = (rows', n)"
  obtains "rows' = rows" "n = 0" "\<forall>r. map_of rows k = Some r \<longrightarrow> \<not> p r"
  | r where "map_of rows k = Some r" "p r" "rows' = AList.update k (f r) rows" "n = 1"
  using assms that by (auto simp: update_where_def split: option.splits if_splits)

lemma update_event_put: "map_of (events s) i = Some r \<Longrightarrow> p r \<Longrightarrow> update_event i p f s = (put_event i (f r) s, 1)"
  and update_event_miss: "(\<And>r. map_of (events s) i = Some r \<Longrightarrow> \<not> p r) \<Longrightarrow> update_event i p f s = (s, 0)"
  by (auto simp: update_event_def update_where_def put_event_def split: option.split)

lemma update_attempt_put:
  "map_of (attempts s) (i, attempt_number a) = Some l \<Longrightarrow> p l \<Longrightarrow>
    update_attempt i (attempt_number a) p (\<lambda>_. \<lparr>ledger_state = attempt_state a, attempt_json = a\<rparr>) s = (put_ledger i a s, 1)"
  by (simp add: update_attempt_def update_where_def put_ledger_def)

lemma insert_attempt_put:
  "insert_attempt i a s = Inr t \<longleftrightarrow>
     attempt_state a \<noteq> PENDING \<and> 1 \<le> attempt_number a \<and> map_of (attempts s) (i, attempt_number a) = None \<and> t = put_ledger i a s"
  by (auto simp: insert_attempt_def rbind_eq_Inr put_ledger_def update_absent_key)

lemma event_for_update_inv:
  assumes "deliveries_inv h s"
  shows "event_for_update h i s = Inr (case map_of (events s) i of None \<Rightarrow> None | Some r \<Rightarrow> Some (r, event_json r))"
  by (cases "map_of (events s) i") (simp_all add: event_for_update_def read_event_ok [OF inv_row [OF assms]])

lemma inv_cursor: "deliveries_inv h s \<Longrightarrow> map_of (events s) i = Some r \<Longrightarrow> cursor (event_json r) = i"
  by (auto dest!: inv_row simp: event_row_ok_def)

lemma inv_checked: "deliveries_inv h s \<Longrightarrow> map_of (events s) i = Some r \<Longrightarrow> check_stored_event h (event_json r) = Inr ()"
  by (auto dest!: inv_row simp: event_row_ok_def)

lemma upsert_changes:
  assumes "upsert_event e f s = Inr t" "deliveries_inv h s" "check_stored_event h e = Inr ()" "pred_option representable (retry_at e)"
  shows "event_change h s t"
proof -
  from assms(1) have none: "map_of (events s) (cursor e) = None" by (auto simp: upsert_event_def split: if_splits)
  have put: "s\<lparr>events := events s @ [(cursor e, event_values e f)]\<rparr> = put_event (cursor e) (event_values e f) s"
    using none by (simp add: put_event_def update_absent_key)
  show ?thesis
  proof (cases "attempt e")
    case None
    then have t: "t = put_event (cursor e) (event_values e f) s" using assms(1) put by (auto simp: upsert_event_def Let_def split: if_splits)
    have "event_row_ok h (cursor e) (event_values e f)" using assms(3,4) None by (simp add: event_row_ok_def event_values_def)
    then show ?thesis unfolding t using none None by (intro c_new) (simp_all add: event_values_def)
  next
    case (Some a)
    from assms(1) Some put have "insert_attempt (cursor e) a (put_event (cursor e) (event_values e f) s) = Inr t"
      by (auto simp: upsert_event_def Let_def split: if_splits sum.splits)
    then have t: "t = put_ledger (cursor e) a (put_event (cursor e) (event_values e f) s)" "attempt_state a \<noteq> PENDING"
      by (auto simp: insert_attempt_put)
    have "check_DeliveryEvent h e = Inr ()" using assms(3) by (simp add: stored_event_checked)
    then have "event_state e \<noteq> PENDING" using event_attempt_state(1) [of h e a] Some t(2) by simp
    then have "event_row_ok h (cursor e) (event_values e f)" using assms(3,4) Some by (simp add: event_row_ok_def event_values_def)
    then show ?thesis unfolding t(1) using none Some by (intro c_new_attempt) (simp_all add: event_values_def)
  qed
qed

lemma create_changes:
  assumes "create_event h e s = Inr (t, e')" "deliveries_inv h s" "check_stored_event h e = Inr ()" "pred_option representable (retry_at e)"
  shows "event_change h s t"
proof -
  have "t = s \<or> upsert_event e None s = Inr t"
    using assms(1) by (auto simp: create_event_def rbind_eq_Inr split: option.splits if_splits sum.splits upsert_error.splits)
  then show ?thesis using upsert_changes [OF _ assms(2-4)] by (auto intro: c_other)
qed

text \<open>A row that moved with its event.\<close>

lemma moved_row_ok:
  assumes "event_row_ok h i r" "check_DeliveryAttempt a = Inr ()" "check_DeliveryEvent h (moved_event (event_json r) a retry) = Inr ()"
    and "attempt_state a \<noteq> PENDING" "pred_option representable retry"
  shows "event_row_ok h i (r\<lparr>col_state := attempt_state a, col_attempt_number := attempt_number a,
     col_retry_at := map_option isoformat retry, event_json := moved_event (event_json r) a retry\<rparr>)"
  using assms check_moved [of h "event_json r" a retry] by (simp add: event_row_ok_def)

lemma record_changes:
  assumes "record_attempt h i a expected retry s = Inr (t, e)" "deliveries_inv h s" "expected \<in> {PENDING, FAILED, SENDING}"
    and "check_DeliveryAttempt a = Inr ()" "pred_option representable retry"
  shows "event_change h s t"
proof -
  obtain r where r: "map_of (events s) i = Some r"
    using assms(1) by (auto simp: record_attempt_def rbind_eq_Inr event_for_update_inv [OF assms(2)] split: option.splits)
  note ok = inv_row [OF assms(2) r]
  define r' where "r' = r\<lparr>col_state := attempt_state a, col_attempt_number := attempt_number a,
     col_retry_at := map_option isoformat retry, event_json := moved_event (event_json r) a retry\<rparr>"
  have cur: "cursor (event_json r) = i" using inv_cursor [OF assms(2) r] .
  from assms(1) obtain p where p: "\<not> attempt_conflict r (event_json r) a expected" "check_DeliveryEvent h (moved_event (event_json r) a retry) = Inr ()"
      "update_event i (\<lambda>x. col_state x = expected \<and> col_attempt_number x = col_attempt_number r)
             (\<lambda>x. x\<lparr>col_state := attempt_state a, col_attempt_number := attempt_number a,
                col_retry_at := map_option isoformat retry, event_json := moved_event (event_json r) a retry\<rparr>) s = (p, 1)"
      "record_ledger (event_json r) a expected p = Inr t"
    by (auto simp: record_attempt_def rbind_eq_Inr event_for_update_inv [OF assms(2)] r Let_def cur split: option.splits prod.splits)
  from p(1) have c: "event_state (event_json r) = expected" "attempt_state a \<in> {SENT, FAILED, UNKNOWN, CANCELLED}"
      "attempt_number a = (if expected = SENDING then col_attempt_number r else col_attempt_number r + 1)"
    by (auto simp: attempt_conflict_def Let_def)
  have st: "col_state r = expected" using ok c(1) by (simp add: event_row_ok_def)
  have "(p, 1::nat) = (put_event i r' s, 1)" unfolding p(3) [symmetric] r'_def by (rule update_event_put [OF r]) (simp add: st)
  then have pp: "p = put_event i r' s" by simp
  have ok': "event_row_ok h i r'" unfolding r'_def using c(2) by (intro moved_row_ok [OF ok assms(4) p(2) _ assms(5)]) auto
  have "t = put_ledger i a p"
  proof (cases "expected = SENDING")
    case True
    obtain q n where q: "update_attempt i (attempt_number a) (\<lambda>l. ledger_state l = SENDING \<and> Some (attempt_json l) = attempt (event_json r))
             (\<lambda>l. \<lparr>ledger_state = attempt_state a, attempt_json = a\<rparr>) p = (q, n)" by (metis surj_pair)
    with p(4) True have "n = 1" "q = t" by (auto simp: record_ledger_def cur rbind_eq_Inr)
    with q show ?thesis
      unfolding update_attempt_def by (auto simp: put_ledger_def split: prod.splits elim!: update_where_cases)
  next
    case False
    then show ?thesis using p(4) by (simp add: record_ledger_def cur insert_attempt_put)
  qed
  then have t: "t = put_ledger i a (put_event i r' s)" using pp by simp
  have "event_start (phase r) (phase r') \<or> event_end (phase r) (phase r')"
    using c st assms(3) by (auto simp: event_start_def event_end_def phase_def r'_def)
  then show ?thesis unfolding t using r ok' by (intro c_move) (simp_all add: r'_def)
qed

section \<open>Claims\<close>

text \<open>When an event may be sent: its subscription, its gates and its own state allow it.\<close>

definition subscription_current :: "(string \<Rightarrow> gate_binding option) \<Rightarrow> deliveries_db \<Rightarrow> event_row \<Rightarrow> bool" where
  "subscription_current bindings s r \<longleftrightarrow> (case map_of (subscriptions s) (event_subscription (event_json r)) of
     None \<Rightarrow> False
   | Some sr \<Rightarrow> (let rec = record_json sr; e = event_json r in
       sub_revision sr = event_revision e \<and> sub_status sr = SUBSCRIPTION_ACTIVE
       \<and> subscription_id rec = event_subscription e \<and> subscription_revision rec = event_revision e
       \<and> subscription_status rec = SUBSCRIPTION_ACTIVE \<and> notification_mode rec = ''instant''
       \<and> subscription_recipient rec = event_recipient e
       \<and> row_fence r \<noteq> None \<and> read_subscription_fence s (bindings (subscription_module rec)) = row_fence r))"

definition may_send :: "(string \<Rightarrow> gate_binding option) \<Rightarrow> deliveries_db \<Rightarrow> event_row \<Rightarrow> delivery_state \<Rightarrow> int \<Rightarrow> nat \<Rightarrow> bool" where
  "may_send bindings s r expected n now \<longleftrightarrow>
     col_state r = expected \<and> expected \<in> {PENDING, FAILED} \<and> n = col_attempt_number r + 1
     \<and> (expected = FAILED \<longrightarrow> (case retry_at (event_json r) of None \<Rightarrow> False | Some t \<Rightarrow> t \<le> now))
     \<and> \<not> immutable_digest s (cursor (event_json r)) \<and> subscription_current bindings s r"

definition records_decode :: "deliveries_db \<Rightarrow> bool" where
  "records_decode s \<longleftrightarrow> list_all (\<lambda>(_, sr). record_decodes sr) (subscriptions s)"

definition claimed_event :: "event_row \<Rightarrow> int \<Rightarrow> nat \<Rightarrow> delivery_event" where
  "claimed_event r n started = moved_event (event_json r) (sending_attempt (event_json r) n started) None"

definition claimed_db :: "event_row \<Rightarrow> int \<Rightarrow> nat \<Rightarrow> deliveries_db \<Rightarrow> deliveries_db" where
  "claimed_db r n started s =
     put_ledger (cursor (event_json r)) (sending_attempt (event_json r) n started)
       (put_event (cursor (event_json r)) (r\<lparr>col_state := SENDING, col_attempt_number := n, col_retry_at := None,
          event_json := claimed_event r n started\<rparr>) s)"

lemma number_not_negative: "event_row_ok h i r \<Longrightarrow> 0 \<le> col_attempt_number r"
  using row_attempt(2,3) [of h i r] by (cases "attempt (event_json r)") (fastforce simp: event_row_ok_def)+

lemma sending_attempt_ok:
  assumes "check_stored_event h e = Inr ()" "1 \<le> n"
  shows "check_DeliveryAttempt (sending_attempt e n started) = Inr ()"
proof -
  have "check_identifier (idempotency_key e) = Inr ()"
    using assms(1) by (auto simp: stored_event_checked check_DeliveryEvent_def rbind_eq_Inr)
  with assms(2) show ?thesis by (simp add: check_DeliveryAttempt_def sending_attempt_def positive_int_def check_option_def)
qed

lemma start_sending_inv:
  assumes "deliveries_inv h s" "map_of (events s) i = Some r" "col_state r = expected" "expected \<in> {PENDING, FAILED}" "n = col_attempt_number r + 1"
  shows "start_sending h r (event_json r) expected n started s = Inr (claimed_db r n started s, Some (claimed_event r n started))"
    and "event_change h s (claimed_db r n started s)"
proof -
  note ok = inv_row [OF assms(1,2)]
  have cur: "cursor (event_json r) = i" using inv_cursor [OF assms(1,2)] .
  have stored: "check_stored_event h (event_json r) = Inr ()" using inv_checked [OF assms(1,2)] .
  define a where "a = sending_attempt (event_json r) n started"
  have a: "check_DeliveryAttempt a = Inr ()" "attempt_state a = SENDING" "attempt_number a = n" "attempt_key a = idempotency_key (event_json r)"
    using sending_attempt_ok [OF stored, of n started] number_not_negative [OF ok] assms(5) by (simp_all add: a_def) (simp_all add: sending_attempt_def)
  have e: "check_DeliveryEvent h (moved_event (event_json r) a None) = Inr ()" using check_moved_exact [OF stored] a(4) by simp
  define r' where "r' = r\<lparr>col_state := SENDING, col_attempt_number := n, col_retry_at := None, event_json := moved_event (event_json r) a None\<rparr>"
  have db: "claimed_db r n started s = put_ledger i a (put_event i r' s)" and ev: "claimed_event r n started = moved_event (event_json r) a None"
    by (simp_all add: claimed_db_def claimed_event_def cur a_def r'_def)
  have "map_of (attempts s) (i, n) = None"
    using inv_ledger [OF assms(1), of i n] assms(2,5) by (cases "map_of (attempts s) (i, n)") (auto simp: ledger_row_ok_def)
  then have ins: "insert_attempt i a (put_event i r' s) = Inr (put_ledger i a (put_event i r' s))"
    using a(2,3) number_not_negative [OF ok] assms(5) by (simp add: insert_attempt_put)
  have upd: "update_event i (\<lambda>x. col_state x = expected \<and> col_attempt_number x = col_attempt_number r)
          (\<lambda>x. x\<lparr>col_state := SENDING, col_attempt_number := n, col_retry_at := None, event_json := moved_event (event_json r) a None\<rparr>) s
        = (put_event i r' s, 1)"
    unfolding r'_def by (rule update_event_put [OF assms(2)]) (simp add: assms(3))
  show "start_sending h r (event_json r) expected n started s = Inr (claimed_db r n started s, Some (claimed_event r n started))"
    by (simp add: start_sending_def Let_def cur upd ins a e db ev flip: a_def)
  have "event_row_ok h i (r\<lparr>col_state := attempt_state a, col_attempt_number := attempt_number a,
     col_retry_at := map_option isoformat None, event_json := moved_event (event_json r) a None\<rparr>)"
    by (rule moved_row_ok [OF ok a(1) e]) (simp_all add: a)
  then have "event_row_ok h i r'" by (simp add: r'_def a)
  then show "event_change h s (claimed_db r n started s)"
    unfolding db using assms(2-5) by (intro c_move) (auto simp: r'_def event_start_def phase_def)
qed

lemma retry_not_due_row:
  assumes "event_row_ok h i r"
  shows "retry_not_due r (event_json r) now = Inr (\<not> (case retry_at (event_json r) of None \<Rightarrow> False | Some t \<Rightarrow> t \<le> now))"
  using assms by (auto simp: retry_not_due_def event_row_ok_def fromisoformat_isoformat split: option.split)

lemma decoded: "records_decode s \<Longrightarrow> map_of (subscriptions s) k = Some sr \<Longrightarrow> read_record sr = Inr (record_json sr)"
  by (auto simp: records_decode_def list_all_iff read_record_def dest!: map_of_SomeD)

lemma qualified_and_active:
  assumes "deliveries_inv h s" "map_of (events s) i = Some r" "records_decode s"
  shows "\<exists>q a. event_qualified bindings s r (event_json r) = Inr q \<and> active_instant i s = Inr a
    \<and> (q \<and> a \<longleftrightarrow> subscription_current bindings s r)"
proof -
  have i: "i = (event_key (event_json r), event_version (event_json r), event_subscription (event_json r), event_revision (event_json r))"
    using inv_cursor [OF assms(1,2)] by (auto simp: cursor_def)
  show ?thesis
  proof (cases "map_of (subscriptions s) (event_subscription (event_json r))")
    case None
    then have "event_qualified bindings s r (event_json r) = Inr False \<and> active_instant i s = Inr False \<and> \<not> subscription_current bindings s r"
      by (simp add: event_qualified_def active_instant_def subscription_current_def i)
    then show ?thesis by blast
  next
    case (Some sr)
    then show ?thesis
      by (auto simp: event_qualified_def active_instant_def subscription_current_def i decoded [OF assms(3) Some] Let_def)
  qed
qed

lemma claim_sending_inv:
  assumes "deliveries_inv h s" "map_of (events s) i = Some r" "records_decode s" "started \<le> now"
  shows "claim_sending h bindings i expected n started now s =
    Inr (if may_send bindings s r expected n now then (claimed_db r n started s, Some (claimed_event r n started)) else (s, None))"
proof -
  note ok = inv_row [OF assms(1,2)]
  have cur: "cursor (event_json r) = i" using inv_cursor [OF assms(1,2)] .
  have st: "event_state (event_json r) = col_state r" using ok by (simp add: event_row_ok_def)
  obtain q a where qa: "event_qualified bindings s r (event_json r) = Inr q" "active_instant i s = Inr a" "q \<and> a \<longleftrightarrow> subscription_current bindings s r"
    using qualified_and_active [OF assms(1-3)] by blast
  show ?thesis
  proof (cases "may_send bindings s r expected n now")
    case True
    then have m: "col_state r = expected" "expected \<in> {PENDING, FAILED}" "n = col_attempt_number r + 1" "\<not> immutable_digest s i" "q" "a"
        "expected = FAILED \<longrightarrow> (case retry_at (event_json r) of None \<Rightarrow> False | Some t \<Rightarrow> t \<le> now)"
      using qa(3) by (auto simp: may_send_def cur)
    have "(if expected = FAILED then retry_not_due r (event_json r) now else Inr False) = Inr False"
      using m(7) by (simp add: retry_not_due_row [OF ok])
    then show ?thesis using True m(1-6) start_sending_inv(1) [OF assms(1,2) m(1-3)]
      by (simp add: claim_sending_def event_for_update_inv [OF assms(1)] assms(2,4) qa(1,2) cur st)
  next
    case False
    then consider "\<not> q \<or> immutable_digest s i" | "\<not> a" | "col_state r \<noteq> expected \<or> expected \<notin> {PENDING, FAILED} \<or> n \<noteq> col_attempt_number r + 1"
      | "expected = FAILED" "\<not> (case retry_at (event_json r) of None \<Rightarrow> False | Some t \<Rightarrow> t \<le> now)"
      using qa(3) by (auto simp: may_send_def cur)
    then have "claim_sending h bindings i expected n started now s = Inr (s, None)"
      by cases (simp_all add: claim_sending_def event_for_update_inv [OF assms(1)] assms(2,4) qa(1,2) cur st retry_not_due_row [OF ok])
    then show ?thesis using False by simp
  qed
qed

lemma claim_changes:
  assumes "claim_sending h bindings i expected n started now s = Inr (t, out)" "deliveries_inv h s"
  shows "event_change h s t"
proof (cases "map_of (events s) i")
  case None
  then have "t = s" using assms(1) by (auto simp: claim_sending_def rbind_eq_Inr event_for_update_inv [OF assms(2)])
  then show ?thesis by (auto intro: c_other)
next
  case (Some r)
  have st: "event_state (event_json r) = col_state r" using inv_row [OF assms(2) Some] by (simp add: event_row_ok_def)
  from assms(1) have "t = s \<or> col_state r = expected \<and> expected \<in> {PENDING, FAILED} \<and> n = col_attempt_number r + 1
      \<and> start_sending h r (event_json r) expected n started s = Inr (t, out)"
    by (auto simp: claim_sending_def event_for_update_inv [OF assms(2)] Some st rbind_eq_Inr split: if_split_asm)
  then show ?thesis using start_sending_inv [OF assms(2) Some] by (auto intro: c_other)
qed

section \<open>Interrupted sends\<close>

definition unknown_row :: "nat \<Rightarrow> event_row \<Rightarrow> event_row" where
  "unknown_row t r = (case attempt (event_json r) of None \<Rightarrow> r
   | Some old \<Rightarrow> r\<lparr>col_state := UNKNOWN, col_retry_at := None, event_json := moved_event (event_json r) (unknown_attempt old t) None\<rparr>)"

lemma unknown_attempt_simps [simp]:
  "attempt_number (unknown_attempt a t) = attempt_number a" "attempt_state (unknown_attempt a t) = UNKNOWN"
  "attempt_key (unknown_attempt a t) = attempt_key a"
  by (simp_all add: unknown_attempt_def)

lemma unknown_attempt_ok: "check_DeliveryAttempt a = Inr () \<Longrightarrow> check_DeliveryAttempt (unknown_attempt a t) = Inr ()"
  by (auto simp: check_DeliveryAttempt_def unknown_attempt_def rbind_eq_Inr check_option_def split: option.splits)

lemma become_unknown_inv:
  assumes "deliveries_inv h s" "map_of (events s) i = Some r" "col_state r = SENDING" "attempt (event_json r) = Some old"
  shows "become_unknown h (event_json r) old t s =
      Inr (put_ledger i (unknown_attempt old t) (put_event i (unknown_row t r) s), Some (event_json (unknown_row t r)))"
    and "event_change h s (put_ledger i (unknown_attempt old t) (put_event i (unknown_row t r) s))"
proof -
  note ok = inv_row [OF assms(1,2)]
  note old = row_attempt [OF ok assms(4)]
  have cur: "cursor (event_json r) = i" using inv_cursor [OF assms(1,2)] .
  have checks: "check_DeliveryAttempt (unknown_attempt old t) = Inr ()"
      "check_DeliveryEvent h (moved_event (event_json r) (unknown_attempt old t) None) = Inr ()"
    using unknown_attempt_ok [OF old(5)] check_moved_exact [OF inv_checked [OF assms(1,2)]] old(4) by simp_all
  have row: "unknown_row t r = r\<lparr>col_state := UNKNOWN, col_retry_at := None, event_json := moved_event (event_json r) (unknown_attempt old t) None\<rparr>"
    by (simp add: unknown_row_def assms(4))
  have upd: "update_event i (\<lambda>x. col_state x = SENDING \<and> col_attempt_number x = attempt_number old)
          (\<lambda>x. x\<lparr>col_state := UNKNOWN, col_retry_at := None, event_json := moved_event (event_json r) (unknown_attempt old t) None\<rparr>) s
        = (put_event i (unknown_row t r) s, 1)"
    unfolding row by (rule update_event_put [OF assms(2)]) (simp add: assms(3) old)
  have led: "update_attempt i (attempt_number old) (\<lambda>l. ledger_state l = SENDING)
              (\<lambda>l. \<lparr>ledger_state = UNKNOWN, attempt_json = unknown_attempt old t\<rparr>) (put_event i (unknown_row t r) s)
      = (put_ledger i (unknown_attempt old t) (put_event i (unknown_row t r) s), 1)"
    using update_attempt_put [of "put_event i (unknown_row t r) s" i "unknown_attempt old t" "\<lparr>ledger_state = attempt_state old, attempt_json = old\<rparr>"
        "\<lambda>l. ledger_state l = SENDING"] inv_attempt [OF assms(1,2,4)] old(1) assms(3) by simp
  show "become_unknown h (event_json r) old t s =
      Inr (put_ledger i (unknown_attempt old t) (put_event i (unknown_row t r) s), Some (event_json (unknown_row t r)))"
    by (simp add: become_unknown_def Let_def cur upd led checks) (simp add: row)
  have "event_row_ok h i (r\<lparr>col_state := attempt_state (unknown_attempt old t), col_attempt_number := attempt_number (unknown_attempt old t),
     col_retry_at := map_option isoformat None, event_json := moved_event (event_json r) (unknown_attempt old t) None\<rparr>)"
    by (rule moved_row_ok [OF ok checks]) simp_all
  then have "event_row_ok h i (unknown_row t r)" using old(2) by (simp add: row)
  then show "event_change h s (put_ledger i (unknown_attempt old t) (put_event i (unknown_row t r) s))"
    using assms(2,3) by (intro c_move) (auto simp: row event_end_def phase_def)
qed

lemma unknown_changes:
  assumes "mark_sending_unknown h i n started completed s = Inr (t, out)" "deliveries_inv h s"
  shows "event_change h s t"
proof (cases "map_of (events s) i")
  case None
  then have "t = s" using assms(1) by (auto simp: mark_sending_unknown_def event_for_update_inv [OF assms(2)])
  then show ?thesis by (auto intro: c_other)
next
  case (Some r)
  have st: "event_state (event_json r) = col_state r" using inv_row [OF assms(2) Some] by (simp add: event_row_ok_def)
  from assms(1) consider "t = s" | old where "attempt (event_json r) = Some old" "col_state r = SENDING"
      "become_unknown h (event_json r) old completed s = Inr (t, out)"
    by (auto simp: mark_sending_unknown_def event_for_update_inv [OF assms(2)] Some st split: option.splits if_splits)
  then show ?thesis
  proof cases
    case (2 old)
    then show ?thesis using become_unknown_inv [OF assms(2) Some 2(2,1), of completed] by simp
  qed (auto intro: c_other)
qed

lemma unknown_row_cursor [simp]: "cursor (event_json (unknown_row t r)) = cursor (event_json r)"
  by (auto simp: unknown_row_def split: option.split)

text \<open>Recovery of a list of different events that are being sent.\<close>

lemma recover_fold:
  assumes "deliveries_inv h s" "distinct (map fst rs)"
    and "\<And>i r. (i, r) \<in> set rs \<Longrightarrow> map_of (events s) i = Some r \<and> col_state r = SENDING \<and> attempt (event_json r) \<noteq> None"
  shows "\<exists>t. rfold (recover_event h before) (map (event_json \<circ> snd) rs) (s, found)
        = Inr (t, found @ map (event_json \<circ> unknown_row before \<circ> snd) rs)
      \<and> (event_change h)\<^sup>*\<^sup>* s t
      \<and> (\<forall>i. map_of (events t) i = (if i \<in> fst ` set rs then map_option (unknown_row before) (map_of (events s) i) else map_of (events s) i))"
  using assms
proof (induction rs arbitrary: s found)
  case (Cons x rs)
  obtain i r where x: "x = (i, r)" by (cases x)
  have r: "map_of (events s) i = Some r" "col_state r = SENDING" "attempt (event_json r) \<noteq> None" using Cons.prems(3) [of i r] x by auto
  then obtain old where old: "attempt (event_json r) = Some old" by blast
  define u where "u = put_ledger i (unknown_attempt old before) (put_event i (unknown_row before r) s)"
  note step = become_unknown_inv [OF Cons.prems(1) r(1,2) old, where t = before, folded u_def]
  have inv: "deliveries_inv h u" using event_change_inv [OF step(2) Cons.prems(1)] .
  have rows: "map_of (events u) = (map_of (events s))(i \<mapsto> unknown_row before r)" by (simp add: u_def)
  have "distinct (map fst rs)" using Cons.prems(2) by simp
  moreover have "map_of (events u) j = Some y \<and> col_state y = SENDING \<and> attempt (event_json y) \<noteq> None" if "(j, y) \<in> set rs" for j y
  proof -
    have "j \<noteq> i" using that Cons.prems(2) x by force
    then show ?thesis using Cons.prems(3) [of j y] that by (simp add: rows)
  qed
  ultimately obtain t where t: "rfold (recover_event h before) (map (event_json \<circ> snd) rs) (u, found @ [event_json (unknown_row before r)])
        = Inr (t, (found @ [event_json (unknown_row before r)]) @ map (event_json \<circ> unknown_row before \<circ> snd) rs)"
      "(event_change h)\<^sup>*\<^sup>* u t"
      "\<forall>j. map_of (events t) j = (if j \<in> fst ` set rs then map_option (unknown_row before) (map_of (events u) j) else map_of (events u) j)"
    using Cons.IH [OF inv, of "found @ [event_json (unknown_row before r)]"] by blast
  have "rfold (recover_event h before) (map (event_json \<circ> snd) (x # rs)) (s, found) = Inr (t, found @ map (event_json \<circ> unknown_row before \<circ> snd) (x # rs))"
    using t(1) by (simp add: x recover_event_def old step(1))
  moreover have "(event_change h)\<^sup>*\<^sup>* s t" using step(2) t(2) by (rule converse_rtranclp_into_rtranclp)
  moreover have "i \<notin> fst ` set rs" using Cons.prems(2) by (simp add: x)
  then have "\<forall>j. map_of (events t) j = (if j \<in> fst ` set (x # rs) then map_option (unknown_row before) (map_of (events s) j) else map_of (events s) j)"
    using t(3) r(1) by (auto simp: rows x)
  ultimately show ?case by blast
qed auto

definition is_stale :: "nat \<Rightarrow> event_row \<Rightarrow> bool" where
  "is_stale before r \<longleftrightarrow> col_state r = SENDING \<and> stale_sending before (event_json r)"

lemma recovery_inv:
  assumes "deliveries_inv h s"
  shows "\<exists>t found. recover_stale_sending h before s = Inr (t, found) \<and> (event_change h)\<^sup>*\<^sup>* s t
    \<and> (\<forall>i. map_of (events t) i = (case map_of (events s) i of None \<Rightarrow> None
         | Some r \<Rightarrow> Some (if is_stale before r then unknown_row before r else r)))"
proof -
  define xs where "xs = sort_key (\<lambda>((key, version, sub, _ :: int), _ :: event_row). (key, version, sub)) (filter (\<lambda>(_, r). col_state r = SENDING) (events s))"
  define rs where "rs = filter (\<lambda>(_, r). stale_sending before (event_json r)) xs"
  have keys: "distinct (map fst (events s))" using assms by (simp add: deliveries_inv_def dict_ok_def)
  have mem: "(i, r) \<in> set xs \<longleftrightarrow> map_of (events s) i = Some r \<and> col_state r = SENDING" for i r
    using keys by (auto simp: xs_def)
  have "rmap (read_event h) (map snd xs) = Inr (map event_json (map snd xs))"
    unfolding rmap_eq_Inr list_all2_conv_all_nth
  proof (intro conjI allI impI)
    fix k assume k: "k < length (map snd xs)"
    then have "xs ! k \<in> set xs" by simp
    then have "map_of (events s) (fst (xs ! k)) = Some (snd (xs ! k))" using mem [of "fst (xs ! k)" "snd (xs ! k)"] by simp
    then show "read_event h (map snd xs ! k) = Inr (map event_json (map snd xs) ! k)"
      using k read_event_ok [OF inv_row [OF assms]] by simp
  qed simp
  moreover have "filter (stale_sending before) (map event_json (map snd xs)) = map (event_json \<circ> snd) rs"
    by (simp add: rs_def filter_map comp_def split_def)
  ultimately have run: "recover_stale_sending h before s = rfold (recover_event h before) (map (event_json \<circ> snd) rs) (s, [])"
    by (simp add: recover_stale_sending_def xs_def)
  have "distinct (events s)" using keys by (rule distinct_map [THEN iffD1, THEN conjunct1])
  then have "distinct xs" by (simp add: xs_def)
  moreover have "inj_on fst (set xs)"
  proof (rule inj_onI)
    fix x y assume "x \<in> set xs" "y \<in> set xs" and key: "fst x = fst y"
    then have "map_of (events s) (fst x) = Some (snd x)" "map_of (events s) (fst y) = Some (snd y)"
      using mem by (metis prod.collapse)+
    then have "snd x = snd y" by (simp add: key)
    with key show "x = y" by (rule prod_eqI)
  qed
  ultimately have "distinct (map fst xs)" by (simp add: distinct_map)
  then have "distinct (map fst rs)" by (simp add: rs_def distinct_map_filter)
  moreover have rs: "(i, r) \<in> set rs \<longleftrightarrow> map_of (events s) i = Some r \<and> is_stale before r" for i r
    using mem by (auto simp: rs_def is_stale_def)
  then have "map_of (events s) i = Some r \<and> col_state r = SENDING \<and> attempt (event_json r) \<noteq> None" if "(i, r) \<in> set rs" for i r
    using that by (auto simp: is_stale_def stale_sending_def split: option.splits)
  ultimately obtain t where t: "recover_stale_sending h before s = Inr (t, [] @ map (event_json \<circ> unknown_row before \<circ> snd) rs)" "(event_change h)\<^sup>*\<^sup>* s t"
      "\<forall>i. map_of (events t) i = (if i \<in> fst ` set rs then map_option (unknown_row before) (map_of (events s) i) else map_of (events s) i)"
    using recover_fold [OF assms, of rs before "[]"] unfolding run by blast
  have "i \<in> fst ` set rs \<longleftrightarrow> (\<exists>r. map_of (events s) i = Some r \<and> is_stale before r)" for i
    by (simp add: rs [symmetric] image_iff Bex_def) (metis fst_conv prod.collapse)
  then have "\<forall>i. map_of (events t) i = (case map_of (events s) i of None \<Rightarrow> None
         | Some r \<Rightarrow> Some (if is_stale before r then unknown_row before r else r))"
    using t(3) by (auto split: option.split)
  with t(1,2) show ?thesis by blast
qed

lemma step_changes:
  assumes "delivery_step h bindings s t" "deliveries_inv h s"
  shows "(event_change h)\<^sup>*\<^sup>* s t"
  using assms(1)
proof cases
  case (d_recover before found)
  then show ?thesis using recovery_inv [OF assms(2), of before] by auto
next
  case d_other
  then show ?thesis by (auto intro: event_change.c_other)
qed (use assms(2) in \<open>auto dest!: upsert_changes create_changes claim_changes record_changes unknown_changes\<close>)

end
