(* ===== verification/Deliveries_Properties.thy ===== *)
theory Deliveries_Properties
  imports Deliveries_Correct
begin

text \<open>
  The properties of the store of deliveries over all runs of its transactions, the operations of the
  service as runs, and a small database on which the properties are instantiated.
\<close>

section \<open>Runs\<close>

interpretation deliveries: transition_system initial_deliveries "delivery_step h bindings" "deliveries_inv h" for h bindings
proof
  show "deliveries_inv h s" if "initial_deliveries s" for s
    using that by (simp add: initial_deliveries_def deliveries_inv_def)
  show "deliveries_inv h t" if "delivery_step h bindings s t" "deliveries_inv h s" for s t
    using event_changes_inv [OF step_changes [OF that] that(2)] .
qed

text \<open>The abstract machine of one event: it appears, starts its next attempt, or its attempt ends.\<close>

inductive delivery_move :: "(event_id \<Rightarrow> (delivery_state \<times> int) option) \<Rightarrow> (event_id \<Rightarrow> (delivery_state \<times> int) option) \<Rightarrow> bool" where
  m_new: "f i = None \<Longrightarrow> delivery_move f (f(i \<mapsto> p))"
| m_start: "f i = Some p \<Longrightarrow> event_start p q \<Longrightarrow> delivery_move f (f(i \<mapsto> q))"
| m_end: "f i = Some p \<Longrightarrow> event_end p q \<Longrightarrow> delivery_move f (f(i \<mapsto> q))"

definition phases :: "deliveries_db \<Rightarrow> event_id \<Rightarrow> (delivery_state \<times> int) option" where
  "phases s i = map_option phase (map_of (events s) i)"

lemma phases_put: "phases (put_event i r s) = (phases s)(i \<mapsto> phase r)" "phases (put_ledger i a s) = phases s"
  by (auto simp: phases_def fun_eq_iff)

lemma change_moves:
  assumes "event_change h s t"
  shows "delivery_move\<^sup>*\<^sup>* (phases s) (phases t)"
  using assms
proof cases
  case (c_new i r)
  then have "delivery_move (phases s) (phases t)" by (auto simp: phases_put intro!: m_new) (simp add: phases_def)
  then show ?thesis by blast
next
  case (c_new_attempt i r a)
  then have "delivery_move (phases s) (phases t)" by (auto simp: phases_put intro!: m_new) (simp add: phases_def)
  then show ?thesis by blast
next
  case (c_move i r r' a)
  then have "phases s i = Some (phase r)" by (simp add: phases_def)
  with c_move have "delivery_move (phases s) (phases t)" by (auto simp: phases_put intro: m_start m_end)
  then show ?thesis by blast
next
  case c_other
  then have "phases t = phases s" by (simp add: phases_def fun_eq_iff)
  then show ?thesis by simp
qed

lemma changes_move: "(event_change h)\<^sup>*\<^sup>* s t \<Longrightarrow> delivery_move\<^sup>*\<^sup>* (phases s) (phases t)"
  by (induction rule: rtranclp_induct) (auto dest: change_moves)

interpretation delivery_machine: simulation initial_deliveries "delivery_step h bindings" "deliveries_inv h" phases "delivery_move\<^sup>*\<^sup>*" for h bindings
  by unfold_locales (auto dest: step_changes intro: changes_move)






section \<open>A database\<close>

definition sample_recipient :: conversation_ref where
  "sample_recipient = \<lparr>adapter_id = ''qq'', route_kind = DIRECT, conversation_id = ''c1'', delivery_route = ''r1''\<rparr>"

definition sample_id :: event_id where
  "sample_id = (''ev'', 1, ''sub'', 1)"

definition sample_event :: delivery_event where
  "sample_event = \<lparr>event_key = ''ev'', event_version = 1, event_subscription = ''sub'', event_revision = 1, event_owner = ''u1'',
     event_grant = None, event_recipient = sample_recipient, display_data = \<lparr>display_privacy = PUBLIC, display_fields = ''{}''\<rparr>,
     idempotency_key = ''delivery:v1:'' @ canonical_delivery sample_id sample_recipient, event_state = PENDING, attempt = None,
     retry_at = None, public_contribution = None, commentary = None\<rparr>"

definition sample_gate :: gate_binding where
  "sample_gate = \<lparr>target_principal = ''host'', target_module = ''p/m'', gate_field = ''on'', gate_package = ''p'', gate_module = ''m'', declared = False\<rparr>"

definition sample_bindings :: "string \<Rightarrow> gate_binding option" where
  "sample_bindings m = (if m = ''p/m'' then Some sample_gate else None)"

definition sample_db :: deliveries_db where
  "sample_db = \<lparr>events = [], attempts = [],
     subscriptions = [(''sub'', \<lparr>sub_revision = 1, sub_status = SUBSCRIPTION_ACTIVE, record_json = \<lparr>subscription_id = ''sub'',
        subscription_revision = 1, subscription_module = ''p/m'', subscription_recipient = sample_recipient, notification_mode = ''instant'',
        subscription_status = SUBSCRIPTION_ACTIVE\<rparr>, record_decodes = True\<rparr>)],
     digest_members = [], digest_envelopes = [], bootstrap_phase = Some ''complete'',
     gate_initializations = [(''host'', ''p/m'', ''on'')], declared_gates = [], gate_registrations = [],
     config_entries = [((''host'', ''p/m'', ''on''), \<lparr>value_json = Some ''true'', entry_revision = 3, subscription_transition_at = Some (isoformat 5)\<rparr>)],
     runtime_intents = [((''p'', ''m''), \<lparr>desired_enabled = 1, intent_revision = 4, intent_updated_at = isoformat 6\<rparr>)]\<rparr>"

definition sample_fence :: subscription_fence where
  "sample_fence = \<lparr>fence_gate = 3, fence_intent = 4\<rparr>"

definition sample_row :: event_row where
  "sample_row = event_values sample_event (Some sample_fence)"

definition sample_stored :: deliveries_db where
  "sample_stored = put_event sample_id sample_row sample_db"

text \<open>The hash of the demonstration is the identity on texts.\<close>

definition sample_hash :: "string \<Rightarrow> string" where
  "sample_hash t = t"

lemmas sample_defs = sample_recipient_def sample_id_def sample_event_def sample_gate_def sample_bindings_def sample_db_def sample_fence_def
  sample_row_def sample_stored_def sample_hash_def

lemma sample_cursor: "cursor sample_event = sample_id"
  by (simp add: cursor_def sample_event_def sample_id_def)

lemma sample_checked: "check_stored_event sample_hash sample_event = Inr ()"
  by (simp add: sample_event_def sample_recipient_def sample_id_def sample_hash_def check_stored_event_def check_ConversationRef_def
      check_option_def check_DeliveryEvent_def check_identifier_def positive_int_def blank_def is_space_def
      delivery_idempotency_key_def cursor_def)

lemma sample_initial: "initial_deliveries sample_db"
  by (simp add: initial_deliveries_def sample_db_def)

lemma sample_upsert: "upsert_event sample_event (Some sample_fence) sample_db = Inr sample_stored"
  by (simp add: upsert_event_def sample_cursor sample_stored_def sample_row_def put_event_def) (simp add: sample_db_def sample_event_def)

lemma sample_run: "(delivery_step sample_hash sample_bindings)\<^sup>*\<^sup>* sample_db sample_stored"
  using d_commit [OF sample_upsert sample_checked] by (simp add: sample_event_def r_into_rtranclp)

lemma sample_lookup: "map_of (events sample_stored) sample_id = Some sample_row"
  by (simp add: sample_stored_def)

lemma sample_event_json: "event_json sample_row = sample_event"
  by (simp add: sample_row_def event_values_def)

lemma sample_fenced: "read_subscription_fence sample_stored (Some sample_gate) = Some sample_fence"
  by (simp add: read_subscription_fence_def read_subscription_admission_def sample_stored_def put_event_def sample_db_def sample_gate_def gate_of_def
      json_is_true_def json_space_def fromisoformat_isoformat first_day make_fence_def sample_fence_def)

lemma sample_may_send: "may_send sample_bindings sample_stored sample_row PENDING 1 now"
proof -
  have sub: "map_of (subscriptions sample_stored) (event_subscription sample_event) = map_of (subscriptions sample_db) ''sub''"
    by (simp add: sample_stored_def put_event_def sample_event_def)
  have "subscription_current sample_bindings sample_stored sample_row"
    unfolding subscription_current_def sample_event_json sub
    by (simp add: sample_db_def sample_event_def sample_bindings_def sample_fenced) (simp add: sample_row_def event_values_def row_fence_def make_fence_def sample_fence_def)
  then show ?thesis
    by (simp add: may_send_def sample_event_json) (simp add: sample_row_def event_values_def sample_event_def immutable_digest_def sample_stored_def put_event_def sample_db_def)
qed

lemma sample_decodes: "records_decode sample_stored"
  by (simp add: records_decode_def sample_stored_def put_event_def sample_db_def)

definition sample_sending :: deliveries_db where
  "sample_sending = claimed_db sample_row 1 10 sample_stored"

definition sample_sending_row :: event_row where
  "sample_sending_row = sample_row\<lparr>col_state := SENDING, col_attempt_number := 1, col_retry_at := None, event_json := claimed_event sample_row 1 10\<rparr>"

lemma sample_stored_inv: "deliveries_inv sample_hash sample_stored"
  using deliveries.reachable_inv [OF sample_initial sample_run] .

lemma sample_claim: "claim_sending sample_hash sample_bindings sample_id PENDING 1 10 10 sample_stored = Inr (sample_sending, Some (claimed_event sample_row 1 10))"
  using claim_sending_inv [OF sample_stored_inv sample_lookup sample_decodes, of 10 10 sample_bindings PENDING 1] sample_may_send
  by (simp add: sample_sending_def)

lemma sample_sending_run: "(delivery_step sample_hash sample_bindings)\<^sup>*\<^sup>* sample_db sample_sending"
  using sample_run d_claim [OF sample_claim] by (rule rtranclp.rtrancl_into_rtrancl)

lemma sample_sending_lookup: "map_of (events sample_sending) sample_id = Some sample_sending_row"
  by (simp add: sample_sending_def claimed_db_def sample_event_json sample_cursor sample_sending_row_def)


section \<open>Properties\<close>




text \<open>C17: A claim succeeds exactly when the event is pending, or failed and due again, the caller knows the number of
  its next attempt, no digest holds it, and its subscription and both gates are those it was stored under;
  then the event and the ledger show the new attempt, and otherwise nothing changes.\<close>

theorem claim_sending_exact:
  assumes "initial_deliveries s0" "(delivery_step h bindings)\<^sup>*\<^sup>* s0 s"
    and "map_of (events s) i = Some r" "records_decode s" "started \<le> now"
  shows "claim_sending h bindings i expected n started now s =
    Inr (if may_send bindings s r expected n now then (claimed_db r n started s, Some (claimed_event r n started)) else (s, None))"
proof -
  have "deliveries_inv h s" using assms(1,2) by (rule deliveries.reachable_inv)
  then show ?thesis using assms(3-5) by (rule claim_sending_inv)
qed

theorem claim_sending_exact_witness:
  "claim_sending sample_hash sample_bindings sample_id PENDING 1 20 30 sample_stored = Inr (claimed_db sample_row 1 20 sample_stored, Some (claimed_event sample_row 1 20))
    \<and> claim_sending sample_hash sample_bindings sample_id FAILED 1 20 30 sample_stored = Inr (sample_stored, None)"
  using claim_sending_exact [OF sample_initial sample_run sample_lookup sample_decodes, of 20 30 PENDING 1]
    claim_sending_exact [OF sample_initial sample_run sample_lookup sample_decodes, of 20 30 FAILED 1] sample_may_send
  by (simp add: may_send_def sample_row_def event_values_def sample_event_def)

text \<open>C19: Recovery never fails on a reachable database: it turns exactly the sends that started by the given
  instant into unknown ones and leaves every other event as it is.\<close>

theorem recovery_resolves_sends:
  assumes "initial_deliveries s0" "(delivery_step h bindings)\<^sup>*\<^sup>* s0 s"
  shows "\<exists>t found. recover_stale_sending h before s = Inr (t, found)
    \<and> (\<forall>i. map_of (events t) i = (case map_of (events s) i of None \<Rightarrow> None
         | Some r \<Rightarrow> Some (if is_stale before r then unknown_row before r else r)))"
proof -
  have "deliveries_inv h s" using assms by (rule deliveries.reachable_inv)
  then show ?thesis using recovery_inv by blast
qed

lemma sample_stale: "is_stale 50 sample_sending_row" "col_state (unknown_row 50 sample_sending_row) = UNKNOWN"
  by (simp_all add: is_stale_def stale_sending_def unknown_row_def sample_sending_row_def claimed_event_def sending_attempt_def)

theorem recovery_resolves_sends_witness:
  "\<exists>t found. recover_stale_sending sample_hash 50 sample_sending = Inr (t, found)
    \<and> map_of (events t) sample_id = Some (unknown_row 50 sample_sending_row)"
  using recovery_resolves_sends [OF sample_initial sample_sending_run, of 50] sample_sending_lookup sample_stale by auto


end
