(* ===== verification/Jobs.thy ===== *)
theory Jobs
  imports Schema Json_Text "HOL-Library.Char_ord" "HOL-Library.List_Lexorder" "HOL-Library.Product_Lexorder"
begin

text \<open>
  Durable jobs (\<open>infrastructure/sqlite/repositories_jobs.py\<close>) over the three tables of
  migration \<open>0180_jobs_resources.sql\<close>.  Every operation is one transaction: it returns the
  new tables or an exception, and then the tables are unchanged.  The \<open>check\<close> a caller
  passes runs at the start and again, as a fence, when the transaction commits; both outcomes
  are arguments.  Times are the ISO texts the code stores and compares as texts.  A JSON column
  holds the value whose canonical text the code stores there.
\<close>

section \<open>Canonical JSON\<close>

text \<open>\<open>float.__repr__\<close> and the hash are arguments.\<close>

fun key_text :: "pyval \<Rightarrow> string" where
  "key_text (VStr s) = s"
| "key_text _ = []"

record json_env =
  float_text :: "rat \<Rightarrow> string"
  sha256_hex :: "string \<Rightarrow> string"

text \<open>An integer of more than 4300 digits cannot be written.\<close>

fun json_text :: "json_env \<Rightarrow> pyval \<Rightarrow> string res" where
  "json_text j VNone = Inr ''null''"
| "json_text j (VBool b) = Inr (if b then ''true'' else ''false'')"
| "json_text j (VInt i) = (if length (nat_text (nat \<bar>i\<bar>)) \<le> 4300 then Inr (int_text i) else Inl ValueError)"
| "json_text j (VFloat f) = (case f of Fin q \<Rightarrow> Inr (float_text j q) | _ \<Rightarrow> Inl ValueError)"
| "json_text j (VStr s) = Inr (quoted s)"
| "json_text j (VList vs) = rbind (rmap (json_text j) vs) (\<lambda>ts. Inr (''['' @ join_text ts @ '']''))"
| "json_text j (VTuple vs) = rbind (rmap (json_text j) vs) (\<lambda>ts. Inr (''['' @ join_text ts @ '']''))"
| "json_text j (VMap kvs) =
     rbind (rmap (\<lambda>kv. rbind (json_text j (snd kv)) (\<lambda>t. Inr (quoted (key_text (fst kv)) @ '':'' @ t))) kvs)
       (\<lambda>ts. Inr ([CHR 0x7B] @ join_text ts @ [CHR 0x7D]))"
| "json_text j (VObj _) = Inl TypeError"

text \<open>
  \<open>plain\<close>: mappings as plain dictionaries, sequences as lists, at most 16 levels deep.  The
  keys are sorted as \<open>json.dumps\<close> writes and \<open>json.loads\<close> reads them back.
\<close>

fun json_plain :: "nat \<Rightarrow> pyval \<Rightarrow> pyval res" where
  "json_plain depth v =
     (if depth > 16 then Inl (JobError ''job_data_limit'')
      else case v of
        VMap kvs \<Rightarrow>
          rbind (rmap (\<lambda>kv. rbind (json_plain (Suc depth) (snd kv)) (\<lambda>x. Inr (fst kv, x))) kvs)
            (\<lambda>kvs'. Inr (VMap (sort_key (\<lambda>kv. key_text (fst kv)) kvs')))
      | VTuple vs \<Rightarrow> rbind (rmap (json_plain (Suc depth)) vs) (\<lambda>vs'. Inr (VList vs'))
      | VList vs \<Rightarrow> rbind (rmap (json_plain (Suc depth)) vs) (\<lambda>vs'. Inr (VList vs'))
      | _ \<Rightarrow> Inr v)"

declare json_plain.simps [simp del]

definition utf8_length :: "string \<Rightarrow> nat" where
  "utf8_length s = sum_list (map (\<lambda>c. if (of_char c :: nat) < 128 then 1 else 2) s)"

text \<open>\<open>json_object\<close>: the value and the text it stands for.\<close>

definition json_object :: "json_env \<Rightarrow> nat \<Rightarrow> pyval \<Rightarrow> (dict \<times> string) res" where
  "json_object j max_bytes v =
     (if \<not> is_map v then Inl (JobError ''invalid_job_data'')
      else rbind (reraise (\<lambda>e. e \<in> {TypeError, ValueError}) (JobError ''invalid_job_data'')
                    (rbind (freeze_json v) (\<lambda>f. rbind (json_plain 0 f) (\<lambda>p.
                     rbind (json_text j p) (\<lambda>t. Inr (p, t)))))) (\<lambda>(p, t).
           rbind (ensure (utf8_length t \<le> max_bytes) (JobError ''job_data_limit'')) (\<lambda>_.
           case p of VMap d \<Rightarrow> Inr (d, t) | _ \<Rightarrow> Inl TypeError)))"

text \<open>\<open>{**d, k: v}\<close>.\<close>

definition with_key :: "dict \<Rightarrow> string \<Rightarrow> pyval \<Rightarrow> pyval" where
  "with_key d k v = VMap (AList.update (VStr k) v d)"

section \<open>Tables\<close>

datatype job_status = QUEUED | RUNNING | SUCCEEDED | FAILED | CANCELLED | INTERRUPTED

record job_row =
  row_job :: string
  row_module :: string
  row_owner :: string
  row_handler :: string
  row_declaration :: string
  row_parameters :: dict
  input_digest :: string
  row_status :: job_status
  row_revision :: int
  progress_json :: dict
  checkpoint_json :: dict
  summary_json :: dict
  error_code :: "string option"
  row_token :: "string option"
  created_at :: string
  updated_at :: string
  expires_at :: string
  result_bytes :: rat
  attempt :: int

record jobs_db =
  principals :: "string list"
  durable_jobs :: "job_row list"
  job_requests :: "((string \<times> string \<times> string) \<times> (string \<times> string)) list"
  job_results :: "(string \<times> nat \<times> dict) list"

text \<open>\<open>status IN ('queued','running')\<close>.\<close>

definition active :: "job_row \<Rightarrow> bool" where
  "active r \<longleftrightarrow> row_status r \<in> {QUEUED, RUNNING}"

text \<open>\<open>UPDATE durable_jobs SET f WHERE p\<close> and \<open>DELETE FROM durable_jobs WHERE p\<close> with its cascades.\<close>

definition update_rows :: "(job_row \<Rightarrow> bool) \<Rightarrow> (job_row \<Rightarrow> job_row) \<Rightarrow> jobs_db \<Rightarrow> jobs_db" where
  "update_rows p f db = db\<lparr>durable_jobs := map (\<lambda>r. if p r then f r else r) (durable_jobs db)\<rparr>"

definition delete_rows :: "(job_row \<Rightarrow> bool) \<Rightarrow> jobs_db \<Rightarrow> jobs_db" where
  "delete_rows p db = (let gone = row_job ` set (filter p (durable_jobs db)) in
     db\<lparr>durable_jobs := filter (\<lambda>r. \<not> p r) (durable_jobs db),
        job_requests := filter (\<lambda>(_, _, i). i \<notin> gone) (job_requests db),
        job_results := filter (\<lambda>(i, _). i \<notin> gone) (job_results db)\<rparr>)"

definition results_of :: "jobs_db \<Rightarrow> string \<Rightarrow> (nat \<times> dict) list" where
  "results_of db i = map snd (filter (\<lambda>(k, _). k = i) (job_results db))"

text \<open>\<open>revision=revision+1,updated_at=now\<close>, part of every change of a row.\<close>

definition touch :: "string \<Rightarrow> job_row \<Rightarrow> job_row" where
  "touch t r = r\<lparr>row_revision := row_revision r + 1, updated_at := t\<rparr>"

section \<open>Operations\<close>

definition recover :: "string \<Rightarrow> jobs_db \<Rightarrow> jobs_db" where
  "recover t = update_rows (\<lambda>r. row_status r = RUNNING)
     (\<lambda>r. (touch t r)\<lparr>row_status := INTERRUPTED, row_token := None, error_code := Some ''process_interrupted''\<rparr>)"

definition owned :: "jobs_db \<Rightarrow> string \<Rightarrow> string \<Rightarrow> string \<Rightarrow> job_row res" where
  "owned db owner mid i =
     (case find (\<lambda>r. row_job r = i \<and> row_owner r = owner \<and> row_module r = mid) (durable_jobs db) of
        None \<Rightarrow> Inl (JobError ''job_not_found'') | Some r \<Rightarrow> Inr r)"

text \<open>The two counts of \<open>submit\<close> and \<open>change\<close>.\<close>

definition active_of :: "jobs_db \<Rightarrow> string \<Rightarrow> string \<Rightarrow> string \<Rightarrow> nat" where
  "active_of db owner mid h =
     length (filter (\<lambda>r. row_owner r = owner \<and> row_module r = mid \<and> row_handler r = h \<and> active r) (durable_jobs db))"

definition active_total :: "jobs_db \<Rightarrow> nat" where
  "active_total db = length (filter active (durable_jobs db))"

definition same_input :: "string \<Rightarrow> string \<Rightarrow> string \<Rightarrow> string \<Rightarrow> job_row \<Rightarrow> bool" where
  "same_input owner mid h digest r \<longleftrightarrow> row_owner r = owner \<and> row_module r = mid \<and> row_handler r = h
     \<and> input_digest r = digest \<and> active r"

record submission =
  sub_owner :: string
  sub_module :: string
  sub_handler :: string
  sub_declaration :: string
  sub_parameters :: pyval
  request_key :: "string option"
  sub_now :: string
  sub_expires :: string
  max_active :: nat
  max_queued :: nat

definition new_row :: "submission \<Rightarrow> string \<Rightarrow> dict \<Rightarrow> string \<Rightarrow> job_row" where
  "new_row q i params digest =
     \<lparr>row_job = i, row_module = sub_module q, row_owner = sub_owner q, row_handler = sub_handler q,
      row_declaration = sub_declaration q, row_parameters = params, input_digest = digest, row_status = QUEUED,
      row_revision = 1, progress_json = [], checkpoint_json = [], summary_json = [], error_code = None, row_token = None,
      created_at = sub_now q, updated_at = sub_now q, expires_at = sub_expires q, result_bytes = 0, attempt = 1\<rparr>"

text \<open>The job the submission gets: the active one with the same input, or a new one within capacity.\<close>

definition submit_job :: "submission \<Rightarrow> string \<Rightarrow> dict \<Rightarrow> string \<Rightarrow> jobs_db \<Rightarrow> (jobs_db \<times> string) res" where
  "submit_job q i params digest db =
     (case find (same_input (sub_owner q) (sub_module q) (sub_handler q) digest) (durable_jobs db) of
        Some r \<Rightarrow> Inr (db, row_job r)
      | None \<Rightarrow>
          rbind (ensure (active_of db (sub_owner q) (sub_module q) (sub_handler q) < max_active q
                   \<and> active_total db < max_queued q) (JobError ''job_capacity_exceeded'')) (\<lambda>_.
          rbind (ensure (i \<notin> row_job ` set (durable_jobs db) \<and> sub_owner q \<in> set (principals db)) IntegrityError) (\<lambda>_.
          Inr (db\<lparr>durable_jobs := durable_jobs db @ [new_row q i params digest]\<rparr>, i))))"

definition input_hash :: "json_env \<Rightarrow> submission \<Rightarrow> string \<Rightarrow> string" where
  "input_hash j q raw = sha256_hex j (sub_handler q @ '':'' @ sub_declaration q @ '':'' @ raw)"

definition add_request :: "submission \<Rightarrow> string \<Rightarrow> string \<Rightarrow> jobs_db \<Rightarrow> jobs_db" where
  "add_request q digest jid db = (case request_key q of
     None \<Rightarrow> db
   | Some k \<Rightarrow> db\<lparr>job_requests := job_requests db @ [((sub_owner q, sub_module q, k), (digest, jid))]\<rparr>)"

definition submit :: "json_env \<Rightarrow> unit res \<Rightarrow> unit res \<Rightarrow> string \<Rightarrow> submission \<Rightarrow> jobs_db \<Rightarrow> (jobs_db \<times> job_row) res" where
  "submit j chk fence i q db =
     rbind (json_object j 262144 (sub_parameters q)) (\<lambda>(params, raw).
     let digest = input_hash j q raw in
     rbind chk (\<lambda>_.
     case Option.bind (request_key q) (\<lambda>k. map_of (job_requests db) (sub_owner q, sub_module q, k)) of
       Some (d, prev) \<Rightarrow>
         rbind (ensure (d = digest) (JobError ''job_request_conflict'')) (\<lambda>_.
         rbind (owned db (sub_owner q) (sub_module q) prev) (\<lambda>r. Inr (db, r)))
     | None \<Rightarrow>
         rbind (submit_job q i params digest db) (\<lambda>(db1, jid).
         let db2 = add_request q digest jid db1 in
         rbind (owned db2 (sub_owner q) (sub_module q) jid) (\<lambda>r.
         rbind fence (\<lambda>_. Inr (db2, r))))))"

text \<open>\<open>ORDER BY created_at,job_id LIMIT n\<close>.\<close>

definition queued :: "jobs_db \<Rightarrow> nat \<Rightarrow> job_row list" where
  "queued db n = take n (sort_key (\<lambda>r. (created_at r, row_job r)) (filter (\<lambda>r. row_status r = QUEUED) (durable_jobs db)))"

definition reject_queued :: "string \<Rightarrow> string \<Rightarrow> string \<Rightarrow> jobs_db \<Rightarrow> jobs_db" where
  "reject_queued i code t = update_rows (\<lambda>r. row_job r = i \<and> row_status r = QUEUED)
     (\<lambda>r. (touch t r)\<lparr>row_status := FAILED, error_code := Some code\<rparr>)"

definition claimable :: "string \<Rightarrow> string \<Rightarrow> int \<Rightarrow> job_row \<Rightarrow> bool" where
  "claimable t i rv r \<longleftrightarrow> row_job r = i \<and> row_status r = QUEUED \<and> row_revision r = rv \<and> t < expires_at r"

definition claim :: "unit res \<Rightarrow> unit res \<Rightarrow> string \<Rightarrow> job_row \<Rightarrow> string \<Rightarrow> jobs_db \<Rightarrow> (jobs_db \<times> job_row option) res" where
  "claim chk fence token row t db =
     rbind chk (\<lambda>_.
     let p = claimable t (row_job row) (row_revision row);
         db' = update_rows p (\<lambda>r. (touch t r)\<lparr>row_status := RUNNING, row_token := Some token\<rparr>) db in
     if length (filter p (durable_jobs db)) \<noteq> 1 then Inr (db', None)
     else rbind fence (\<lambda>_. Inr (db', find (\<lambda>r. row_job r = row_job row) (durable_jobs db'))))"

definition running :: "jobs_db \<Rightarrow> string \<Rightarrow> string \<Rightarrow> job_row res" where
  "running db i token =
     (case find (\<lambda>r. row_job r = i \<and> row_status r = RUNNING \<and> row_token r = Some token) (durable_jobs db) of
        None \<Rightarrow> Inl (JobError ''job_run_revoked'') | Some r \<Rightarrow> Inr r)"

definition update_job ::
  "json_env \<Rightarrow> unit res \<Rightarrow> unit res \<Rightarrow> string \<Rightarrow> string \<Rightarrow> pyval \<Rightarrow> pyval option \<Rightarrow> string \<Rightarrow> jobs_db \<Rightarrow> jobs_db res" where
  "update_job j chk fence i token progress checkpoint t db =
     rbind (json_object j 16384 progress) (\<lambda>(praw, _).
     rbind (case checkpoint of None \<Rightarrow> Inr None
            | Some c \<Rightarrow> rbind (json_object j 262144 c) (\<lambda>(d, _). Inr (Some d))) (\<lambda>craw.
     rbind chk (\<lambda>_.
     rbind (running db i token) (\<lambda>row.
     rbind (json_object j 16384 (with_key praw ''result_entries'' (VInt (int (length (results_of db i)))))) (\<lambda>(eff, _).
     let db' = update_rows (\<lambda>r. row_job r = i \<and> row_token r = Some token)
           (\<lambda>r. (touch t r)\<lparr>progress_json := eff,
                  checkpoint_json := (case craw of None \<Rightarrow> checkpoint_json row | Some d \<Rightarrow> d)\<rparr>) db in
     rbind fence (\<lambda>_. Inr db'))))))"

text \<open>\<open>entry.get("resource", {}).get("size_bytes", 0)\<close> as a summand.\<close>

definition resource_size :: "pyval \<Rightarrow> rat res" where
  "resource_size v = (case v of
     VMap e \<Rightarrow> (case dict_get e ''resource'' of
         None \<Rightarrow> Inr 0
       | Some (VMap d) \<Rightarrow> (case dict_get d ''size_bytes'' of
             None \<Rightarrow> Inr 0
           | Some n \<Rightarrow> (case num_of n of None \<Rightarrow> Inl TypeError | Some q \<Rightarrow> Inr q))
       | Some _ \<Rightarrow> Inl AttributeError)
   | _ \<Rightarrow> Inl AttributeError)"

definition next_sequence :: "jobs_db \<Rightarrow> string \<Rightarrow> nat" where
  "next_sequence db i = (case map fst (results_of db i) of [] \<Rightarrow> 0 | ns \<Rightarrow> Suc (Max (set ns)))"

definition publish ::
  "json_env \<Rightarrow> unit res \<Rightarrow> unit res \<Rightarrow> string \<Rightarrow> string \<Rightarrow> pyval list \<Rightarrow> string \<Rightarrow> rat \<Rightarrow> jobs_db \<Rightarrow> jobs_db res" where
  "publish j chk fence i token entries t max_result_bytes db =
     rbind (ensure (1 \<le> length entries \<and> length entries \<le> 100) (JobError ''job_publish_limit'')) (\<lambda>_.
     rbind (rmap (json_object j 65536) entries) (\<lambda>encoded.
     let encoded_size = sum_list (map (\<lambda>(_, raw). utf8_length raw) encoded) in
     rbind (rmap resource_size entries) (\<lambda>sizes.
     let size = of_nat encoded_size + sum_list sizes in
     rbind (ensure (encoded_size \<le> 262144) (JobError ''job_publish_limit'')) (\<lambda>_.
     rbind chk (\<lambda>_.
     rbind (running db i token) (\<lambda>row.
     rbind (ensure (result_bytes row + size \<le> max_result_bytes) (JobError ''job_result_limit'')) (\<lambda>_.
     let sequence = next_sequence db i in
     rbind (json_object j 16384 (with_key (progress_json row) ''result_entries'' (VInt (int (sequence + length encoded))))) (\<lambda>(eff, _).
     rbind (ensure (0 \<le> result_bytes row + size) IntegrityError) (\<lambda>_.
     let db' = update_rows (\<lambda>r. row_job r = i)
           (\<lambda>r. (touch t r)\<lparr>result_bytes := result_bytes r + size, progress_json := eff\<rparr>)
           (db\<lparr>job_results := job_results db @ map (\<lambda>(k, (d, _)). (i, sequence + k, d)) (enumerate 0 encoded)\<rparr>) in
     rbind fence (\<lambda>_. Inr db'))))))))))"

definition finish ::
  "json_env \<Rightarrow> unit res \<Rightarrow> unit res \<Rightarrow> string \<Rightarrow> string \<Rightarrow> job_status \<Rightarrow> pyval \<Rightarrow> string option \<Rightarrow> string \<Rightarrow> jobs_db \<Rightarrow> jobs_db res" where
  "finish j chk fence i token status summary err t db =
     rbind (json_object j 65536 summary) (\<lambda>(raw, _).
     rbind chk (\<lambda>_.
     rbind (json_object j 65536 (with_key raw ''result_entries'' (VInt (int (length (results_of db i)))))) (\<lambda>(eff, _).
     let db' = update_rows (\<lambda>r. row_job r = i \<and> row_status r = RUNNING \<and> row_token r = Some token)
           (\<lambda>r. (touch t r)\<lparr>row_status := status, summary_json := eff, error_code := err, row_token := None\<rparr>) db in
     rbind fence (\<lambda>_. Inr db'))))"

record change_request =
  chg_owner :: string
  chg_module :: string
  chg_job :: string
  expected_revision :: int
  retry :: bool
  chg_now :: string
  chg_max_active :: nat
  chg_max_queued :: nat

text \<open>The guards of a retry.\<close>

definition retry_guards :: "change_request \<Rightarrow> job_row \<Rightarrow> jobs_db \<Rightarrow> unit res" where
  "retry_guards q row db =
     rbind (ensure (row_status row \<in> {INTERRUPTED, FAILED, CANCELLED} \<and> chg_now q < expires_at row)
              (JobError ''job_not_retryable'')) (\<lambda>_.
     rbind (ensure (active_of db (chg_owner q) (chg_module q) (row_handler row) < chg_max_active q
              \<and> active_total db < chg_max_queued q) (JobError ''job_capacity_exceeded'')) (\<lambda>_.
     ensure (\<not> list_ex (same_input (chg_owner q) (chg_module q) (row_handler row) (input_digest row)) (durable_jobs db))
       (JobError ''job_request_conflict'')))"

definition retry_job :: "string \<Rightarrow> string \<Rightarrow> jobs_db \<Rightarrow> jobs_db" where
  "retry_job i t db = update_rows (\<lambda>r. row_job r = i)
     (\<lambda>r. (touch t r)\<lparr>row_status := QUEUED, progress_json := [], checkpoint_json := [], summary_json := [], error_code := None,
            result_bytes := 0, row_token := None, attempt := attempt r + 1\<rparr>)
     (db\<lparr>job_results := filter (\<lambda>(k, _). k \<noteq> i) (job_results db)\<rparr>)"

definition cancel_job :: "string \<Rightarrow> string \<Rightarrow> jobs_db \<Rightarrow> jobs_db" where
  "cancel_job i t = update_rows (\<lambda>r. row_job r = i) (\<lambda>r. (touch t r)\<lparr>row_status := CANCELLED, row_token := None\<rparr>)"

definition change :: "unit res \<Rightarrow> unit res \<Rightarrow> change_request \<Rightarrow> jobs_db \<Rightarrow> (jobs_db \<times> job_row) res" where
  "change chk fence q db =
     rbind chk (\<lambda>_.
     rbind (owned db (chg_owner q) (chg_module q) (chg_job q)) (\<lambda>row.
     rbind (ensure (row_revision row = expected_revision q) (RevisionConflict (expected_revision q) (row_revision row))) (\<lambda>_.
     rbind (if retry q then rbind (retry_guards q row db) (\<lambda>_. Inr (retry_job (chg_job q) (chg_now q) db))
            else Inr (if active row then cancel_job (chg_job q) (chg_now q) db else db)) (\<lambda>db'.
     rbind (owned db' (chg_owner q) (chg_module q) (chg_job q)) (\<lambda>r.
     rbind fence (\<lambda>_. Inr (db', r)))))))"

definition results :: "jobs_db \<Rightarrow> string \<Rightarrow> string \<Rightarrow> string \<Rightarrow> nat \<Rightarrow> nat \<Rightarrow> (job_row \<times> dict list) res" where
  "results db owner mid i offset limit =
     rbind (owned db owner mid i) (\<lambda>row.
     Inr (row, map snd (take (limit + 1) (sort_key fst (filter (\<lambda>(n, _). offset \<le> n) (results_of db i))))))"

definition expire :: "string \<Rightarrow> jobs_db \<Rightarrow> jobs_db" where
  "expire t = delete_rows (\<lambda>r. expires_at r \<le> t \<and> row_status r \<noteq> RUNNING)"

end
