(* ===== verification/Jobs_Correct.thy ===== *)
theory Jobs_Correct
  imports Jobs
begin

text \<open>
  The durable jobs are a set of state machines: every transaction moves the rows it changes
  along the allowed transitions, and the tables stay consistent with each other.  The
  abstract life cycle of a job is what callers may rely on.
\<close>

section \<open>Rows\<close>

text \<open>The transitions of a job and what a change of a row may do.\<close>

fun moves :: "job_status \<Rightarrow> job_status \<Rightarrow> bool" where
  "moves QUEUED s \<longleftrightarrow> s \<in> {RUNNING, FAILED, CANCELLED}"
| "moves RUNNING s \<longleftrightarrow> s \<noteq> QUEUED"
| "moves SUCCEEDED s \<longleftrightarrow> False"
| "moves _ s \<longleftrightarrow> s = QUEUED"

definition same_job :: "job_row \<Rightarrow> job_row \<Rightarrow> bool" where
  "same_job r r' \<longleftrightarrow> row_job r' = row_job r \<and> row_module r' = row_module r \<and> row_owner r' = row_owner r
     \<and> row_handler r' = row_handler r \<and> row_declaration r' = row_declaration r \<and> row_parameters r' = row_parameters r
     \<and> input_digest r' = input_digest r \<and> created_at r' = created_at r \<and> expires_at r' = expires_at r"

definition row_step :: "job_row \<Rightarrow> job_row \<Rightarrow> bool" where
  "row_step r r' \<longleftrightarrow> same_job r r' \<and> row_revision r' = row_revision r + 1 \<and> moves (row_status r) (row_status r')
     \<and> (row_token r' \<noteq> None \<longleftrightarrow> row_status r' = RUNNING)
     \<and> (row_status r = RUNNING \<and> row_status r' = RUNNING \<longrightarrow> row_token r' = row_token r)
     \<and> attempt r' = (if row_status r' = QUEUED then attempt r + 1 else attempt r)"

definition row_ok :: "job_row \<Rightarrow> bool" where
  "row_ok r \<longleftrightarrow> 1 \<le> row_revision r \<and> 1 \<le> attempt r \<and> 0 \<le> result_bytes r \<and> (row_token r \<noteq> None \<longleftrightarrow> row_status r = RUNNING)"

definition input_of :: "job_row \<Rightarrow> string \<times> string \<times> string \<times> string" where
  "input_of r = (row_owner r, row_module r, row_handler r, input_digest r)"

lemma same_job_refl [simp]: "same_job r r" by (simp add: same_job_def)

lemma same_job_input: "same_job r r' \<Longrightarrow> input_of r' = input_of r" by (simp add: same_job_def input_of_def)

section \<open>Consistent tables\<close>

definition numbered :: "jobs_db \<Rightarrow> string \<Rightarrow> bool" where
  "numbered db i \<longleftrightarrow> map fst (results_of db i) = [0..<length (results_of db i)]"

definition unique_active :: "job_row set \<Rightarrow> bool" where
  "unique_active R \<longleftrightarrow> (\<forall>r \<in> R. \<forall>r' \<in> R. active r \<longrightarrow> active r' \<longrightarrow> input_of r = input_of r' \<longrightarrow> r = r')"

text \<open>Every request leads to a job of the same owner, module and input.\<close>

definition requests_ok :: "((string \<times> string \<times> string) \<times> (string \<times> string)) list \<Rightarrow> job_row set \<Rightarrow> bool" where
  "requests_ok reqs R \<longleftrightarrow> dict_ok reqs \<and> (\<forall>q \<in> set reqs. \<exists>r \<in> R. (row_owner r, row_module r) = (fst (fst q), fst (snd (fst q)))
     \<and> snd q = (input_digest r, row_job r))"

definition jobs_inv :: "jobs_db \<Rightarrow> bool" where
  "jobs_inv db \<longleftrightarrow> distinct (map row_job (durable_jobs db)) \<and> list_all row_ok (durable_jobs db)
     \<and> unique_active (set (durable_jobs db)) \<and> requests_ok (job_requests db) (set (durable_jobs db))
     \<and> fst ` set (job_results db) \<subseteq> row_job ` set (durable_jobs db) \<and> (\<forall>i. numbered db i)"

lemma jobs_invD:
  assumes "jobs_inv db"
  shows "distinct (map row_job (durable_jobs db))" "list_all row_ok (durable_jobs db)"
    "unique_active (set (durable_jobs db))" "requests_ok (job_requests db) (set (durable_jobs db))"
    "fst ` set (job_results db) \<subseteq> row_job ` set (durable_jobs db)" "numbered db i"
  using assms unfolding jobs_inv_def by simp_all

lemma row_okD: "jobs_inv db \<Longrightarrow> r \<in> set (durable_jobs db) \<Longrightarrow> row_ok r"
  using jobs_invD(2) by (simp add: list_all_iff)

lemma unique_activeD:
  "jobs_inv db \<Longrightarrow> r \<in> set (durable_jobs db) \<Longrightarrow> r' \<in> set (durable_jobs db) \<Longrightarrow> active r \<Longrightarrow> active r' \<Longrightarrow>
     input_of r = input_of r' \<Longrightarrow> r = r'"
  using jobs_invD(3) unfolding unique_active_def by blast

lemma job_unique:
  assumes "jobs_inv db" "r \<in> set (durable_jobs db)" "r' \<in> set (durable_jobs db)" "row_job r = row_job r'"
  shows "r = r'"
  using jobs_invD(1) [OF assms(1)] assms(2-4) unfolding distinct_map by (auto dest: inj_onD)

lemma find_job:
  assumes "jobs_inv db" "r \<in> set (durable_jobs db)" "P r" "\<And>x. P x \<Longrightarrow> row_job x = row_job r"
  shows "find P (durable_jobs db) = Some r"
proof (cases "find P (durable_jobs db)")
  case None
  then show ?thesis using assms(2,3) unfolding find_None_iff by blast
next
  case (Some x)
  then have "x \<in> set (durable_jobs db)" "P x" unfolding find_Some_iff by auto
  from job_unique [OF assms(1) this(1) assms(2) assms(4) [OF this(2)]] Some show ?thesis by simp
qed

lemma find_member: "find P xs = Some x \<Longrightarrow> x \<in> set xs \<and> P x"
  by (auto simp: find_Some_iff)

lemma results_simps [simp]:
  "results_of (update_rows p f db) = results_of db" "job_results (update_rows p f db) = job_results db"
  "job_requests (update_rows p f db) = job_requests db" "principals (update_rows p f db) = principals db"
  by (simp_all add: update_rows_def results_of_def fun_eq_iff)

lemma durable_jobs_update_rows [simp]:
  "durable_jobs (update_rows p f db) = map (\<lambda>r. if p r then f r else r) (durable_jobs db)"
  by (simp add: update_rows_def)

text \<open>A transaction that rewrites rows in place.\<close>

lemma jobs_inv_rewrite:
  assumes inv: "jobs_inv db"
    and rows: "durable_jobs db' = map g (durable_jobs db)" and req: "job_requests db' = job_requests db"
    and res: "fst ` set (job_results db') \<subseteq> row_job ` set (durable_jobs db)" "\<And>i. numbered db' i"
    and g: "\<And>r. r \<in> set (durable_jobs db) \<Longrightarrow> same_job r (g r) \<and> row_ok (g r)"
    and act: "\<And>r r'. r \<in> set (durable_jobs db) \<Longrightarrow> r' \<in> set (durable_jobs db) \<Longrightarrow> active (g r) \<Longrightarrow> active (g r') \<Longrightarrow>
      input_of r = input_of r' \<Longrightarrow> r = r'"
  shows "jobs_inv db'"
proof -
  note I = jobs_invD [OF inv]
  have ids: "map row_job (map g (durable_jobs db)) = map row_job (durable_jobs db)"
    using g by (simp add: same_job_def)
  have img: "row_job ` g ` set (durable_jobs db) = row_job ` set (durable_jobs db)"
    using arg_cong [OF ids, of set] by (simp add: image_image)
  have uniq: "unique_active (g ` set (durable_jobs db))"
    unfolding unique_active_def
  proof (intro ballI impI)
    fix a b assume "a \<in> g ` set (durable_jobs db)" "b \<in> g ` set (durable_jobs db)" and ab: "active a" "active b" "input_of a = input_of b"
    then obtain r r' where r: "r \<in> set (durable_jobs db)" "a = g r" "r' \<in> set (durable_jobs db)" "b = g r'" by blast
    have "input_of r = input_of r'" using ab(3) r g same_job_input by metis
    with act [OF r(1,3)] ab r show "a = b" by simp
  qed
  have "requests_ok (job_requests db) (g ` set (durable_jobs db))"
    using I(4) g unfolding requests_ok_def same_job_def by fastforce
  moreover have "distinct (map row_job (map g (durable_jobs db)))" unfolding ids by (rule I(1))
  moreover have "list_all row_ok (map g (durable_jobs db))" using g by (simp add: list_all_iff)
  moreover have "\<forall>i. numbered db' i" using res(2) by blast
  ultimately show ?thesis unfolding jobs_inv_def rows req
    using img res(1) uniq by simp
qed

lemma row_step_ok: "row_step r r' \<Longrightarrow> row_ok r \<Longrightarrow> 0 \<le> result_bytes r' \<Longrightarrow> row_ok r'"
  by (auto simp: row_step_def row_ok_def)

text \<open>Rows change along their transitions; a row that becomes active again is alone with its input.\<close>

lemma jobs_inv_update:
  assumes inv: "jobs_inv db"
    and step: "\<And>r. r \<in> set (durable_jobs db) \<Longrightarrow> p r \<Longrightarrow> row_step r (f r) \<and> 0 \<le> result_bytes (f r)"
    and act: "\<And>r. r \<in> set (durable_jobs db) \<Longrightarrow> p r \<Longrightarrow> active (f r) \<Longrightarrow> active r
      \<or> (\<forall>r' \<in> set (durable_jobs db). active r' \<longrightarrow> input_of r' \<noteq> input_of r) \<and> (\<forall>r' \<in> set (durable_jobs db). p r' \<longrightarrow> r' = r)"
    and res: "fst ` set (job_results db') \<subseteq> row_job ` set (durable_jobs db)" "\<And>i. numbered db' i"
    and db': "durable_jobs db' = durable_jobs db" "job_requests db' = job_requests db"
  shows "jobs_inv (update_rows p f db')"
proof (rule jobs_inv_rewrite [OF inv, of _ "\<lambda>r. if p r then f r else r"])
  show "durable_jobs (update_rows p f db') = map (\<lambda>r. if p r then f r else r) (durable_jobs db)" by (simp add: db')
  show "job_requests (update_rows p f db') = job_requests db" by (simp add: db')
  show "fst ` set (job_results (update_rows p f db')) \<subseteq> row_job ` set (durable_jobs db)" using res(1) by simp
  show "numbered (update_rows p f db') i" for i using res(2) [of i] by (simp add: numbered_def)
  show "same_job r (if p r then f r else r) \<and> row_ok (if p r then f r else r)" if "r \<in> set (durable_jobs db)" for r
    using step [OF that] row_okD [OF inv that] row_step_ok [of r "f r"] by (auto simp: row_step_def)
next
  fix r r' assume r: "r \<in> set (durable_jobs db)" "r' \<in> set (durable_jobs db)" "input_of r = input_of r'"
    and a: "active (if p r then f r else r)" "active (if p r' then f r' else r')"
  have one: "active x \<or> p x \<and> (\<forall>y \<in> set (durable_jobs db). active y \<longrightarrow> input_of y \<noteq> input_of x)
      \<and> (\<forall>y \<in> set (durable_jobs db). p y \<longrightarrow> y = x)"
    if "x \<in> set (durable_jobs db)" "active (if p x then f x else x)" for x
    using act [OF that(1)] that(2) by (cases "p x") auto
  from one [OF r(1) a(1)] one [OF r(2) a(2)] show "r = r'"
  proof (elim disjE conjE)
    assume "active r" "active r'"
    then show ?thesis by (rule unique_activeD [OF inv r(1,2) _ _ r(3)])
  next
    assume "active r" "\<forall>y \<in> set (durable_jobs db). active y \<longrightarrow> input_of y \<noteq> input_of r'"
    then show ?thesis using r(1,3) by blast
  next
    assume "active r'" "\<forall>y \<in> set (durable_jobs db). active y \<longrightarrow> input_of y \<noteq> input_of r"
    then show ?thesis using r(2) r(3) [symmetric] by blast
  next
    assume "p r" "\<forall>y \<in> set (durable_jobs db). p y \<longrightarrow> y = r'"
    then show ?thesis using r(1) by blast
  qed
qed

lemma jobs_inv_update_same:
  assumes "jobs_inv db" "\<And>r. r \<in> set (durable_jobs db) \<Longrightarrow> p r \<Longrightarrow> row_step r (f r) \<and> 0 \<le> result_bytes (f r) \<and> (active (f r) \<longrightarrow> active r)"
  shows "jobs_inv (update_rows p f db)"
  using assms(2) jobs_invD(5,6) [OF assms(1)] by (intro jobs_inv_update [OF assms(1)]) auto

lemma numbered_filter:
  "numbered (db\<lparr>durable_jobs := x, job_requests := y, job_results := filter (\<lambda>(k, _). Q k) (job_results db)\<rparr>) i
     \<longleftrightarrow> (Q i \<longrightarrow> numbered db i)"
proof -
  have "filter (\<lambda>(k, _). k = i) (filter (\<lambda>(k, _). Q k) rs) = (if Q i then filter (\<lambda>(k, _). k = i) rs else [])"
    for rs :: "(string \<times> nat \<times> dict) list" by (induction rs) auto
  then show ?thesis by (auto simp: numbered_def results_of_def)
qed

lemma jobs_inv_delete:
  assumes inv: "jobs_inv db"
  shows "jobs_inv (delete_rows p db)"
proof -
  note I = jobs_invD [OF inv]
  let ?gone = "row_job ` set (filter p (durable_jobs db))"
  let ?kept = "filter (\<lambda>r. \<not> p r) (durable_jobs db)"
  have alive: "r \<in> set ?kept" if "r \<in> set (durable_jobs db)" "row_job r \<notin> ?gone" for r using that by auto
  have "distinct (map row_job ?kept)" using I(1) by (simp add: distinct_map_filter)
  moreover have "list_all row_ok ?kept" using I(2) by (simp add: list_all_iff)
  moreover have "unique_active (set ?kept)" using I(3) by (auto simp: unique_active_def)
  moreover have "requests_ok (filter (\<lambda>(_, _, i). i \<notin> ?gone) (job_requests db)) (set ?kept)"
    unfolding requests_ok_def
  proof (intro conjI ballI)
    show "dict_ok (filter (\<lambda>(_, _, i). i \<notin> ?gone) (job_requests db))" using I(4) by (simp add: requests_ok_def)
    fix q assume "q \<in> set (filter (\<lambda>(_, _, i). i \<notin> ?gone) (job_requests db))"
    then have q: "q \<in> set (job_requests db)" "snd (snd q) \<notin> ?gone" by (auto split: prod.splits)
    from I(4) q(1) obtain r where r: "r \<in> set (durable_jobs db)" "(row_owner r, row_module r) = (fst (fst q), fst (snd (fst q)))"
      "snd q = (input_digest r, row_job r)" unfolding requests_ok_def by blast
    with alive [OF r(1)] q(2) show "\<exists>r \<in> set ?kept. (row_owner r, row_module r) = (fst (fst q), fst (snd (fst q)))
        \<and> snd q = (input_digest r, row_job r)" by auto
  qed
  moreover have "fst ` set (filter (\<lambda>(i, _). i \<notin> ?gone) (job_results db)) \<subseteq> row_job ` set ?kept"
  proof
    fix i assume "i \<in> fst ` set (filter (\<lambda>(i, _). i \<notin> ?gone) (job_results db))"
    then have "i \<in> fst ` set (job_results db)" "i \<notin> ?gone" by auto
    from subsetD [OF I(5) this(1)] obtain r where r: "r \<in> set (durable_jobs db)" "i = row_job r" by (rule imageE)
    have "r \<in> set ?kept" by (rule alive [OF r(1)]) (use \<open>i \<notin> ?gone\<close> r(2) in simp)
    then show "i \<in> row_job ` set ?kept" using r(2) by (rule rev_image_eqI)
  qed
  moreover have "\<forall>i. numbered (delete_rows p db) i"
  proof
    fix i show "numbered (delete_rows p db) i"
      using I(6) unfolding delete_rows_def Let_def numbered_filter by blast
  qed
  moreover have "durable_jobs (delete_rows p db) = ?kept"
    "job_requests (delete_rows p db) = filter (\<lambda>(_, _, i). i \<notin> ?gone) (job_requests db)"
    "job_results (delete_rows p db) = filter (\<lambda>(i, _). i \<notin> ?gone) (job_results db)"
    by (simp_all add: delete_rows_def Let_def)
  ultimately show ?thesis unfolding jobs_inv_def by (simp only: simp_thms)
qed

section \<open>Every operation\<close>

lemma active_simps: "row_status r = QUEUED \<Longrightarrow> active r" "row_status r = RUNNING \<Longrightarrow> active r"
  "active r \<longleftrightarrow> row_status r = QUEUED \<or> row_status r = RUNNING"
  by (auto simp: active_def)

lemma touch_simps [simp]:
  "row_status (touch t r) = row_status r" "row_revision (touch t r) = row_revision r + 1" "row_token (touch t r) = row_token r"
  "attempt (touch t r) = attempt r" "result_bytes (touch t r) = result_bytes r" "row_job (touch t r) = row_job r"
  by (simp_all add: touch_def)

text \<open>The changes of one row.\<close>

lemma row_steps:
  "row_status r = RUNNING \<Longrightarrow> s \<noteq> QUEUED \<Longrightarrow> s \<noteq> RUNNING \<Longrightarrow> row_step r ((touch t r)\<lparr>row_status := s, row_token := None, error_code := c\<rparr>)"
  "row_ok r \<Longrightarrow> row_status r = QUEUED \<Longrightarrow> row_step r ((touch t r)\<lparr>row_status := FAILED, error_code := c\<rparr>)"
  "row_status r = QUEUED \<Longrightarrow> row_step r ((touch t r)\<lparr>row_status := RUNNING, row_token := Some k\<rparr>)"
  "row_ok r \<Longrightarrow> row_status r = RUNNING \<Longrightarrow> row_step r ((touch t r)\<lparr>progress_json := p, checkpoint_json := d\<rparr>)"
  "row_ok r \<Longrightarrow> row_status r = RUNNING \<Longrightarrow> row_step r ((touch t r)\<lparr>result_bytes := n, progress_json := p\<rparr>)"
  "row_status r = RUNNING \<Longrightarrow> s \<noteq> QUEUED \<Longrightarrow> s \<noteq> RUNNING \<Longrightarrow>
     row_step r ((touch t r)\<lparr>row_status := s, summary_json := d, error_code := c, row_token := None\<rparr>)"
  "active r \<Longrightarrow> row_step r ((touch t r)\<lparr>row_status := CANCELLED, row_token := None\<rparr>)"
  "row_status r \<in> {INTERRUPTED, FAILED, CANCELLED} \<Longrightarrow> row_step r ((touch t r)\<lparr>row_status := QUEUED, progress_json := [],
     checkpoint_json := [], summary_json := [], error_code := None, result_bytes := 0, row_token := None, attempt := attempt r + 1\<rparr>)"
  by (auto simp: row_step_def same_job_def touch_def row_ok_def active_def)

lemma owned_cases:
  "owned db o' m i = Inr r \<Longrightarrow> r \<in> set (durable_jobs db) \<and> row_job r = i \<and> row_owner r = o' \<and> row_module r = m"
  by (auto simp: owned_def split: option.splits dest: find_member)

lemma running_cases:
  "running db i token = Inr r \<Longrightarrow> r \<in> set (durable_jobs db) \<and> row_job r = i \<and> row_status r = RUNNING \<and> row_token r = Some token"
  by (auto simp: running_def split: option.splits dest: find_member)

lemma recover_inv: "jobs_inv db \<Longrightarrow> jobs_inv (recover t db)"
  unfolding recover_def
  by (rule jobs_inv_update_same) (auto intro: row_steps simp: active_def row_ok_def dest: row_okD)

lemma reject_queued_inv: "jobs_inv db \<Longrightarrow> jobs_inv (reject_queued i c t db)"
  unfolding reject_queued_def
  by (rule jobs_inv_update_same) (auto intro: row_steps simp: active_def row_ok_def dest: row_okD)

lemma claim_inv: "claim chk fence token row t db = Inr (db', out) \<Longrightarrow> jobs_inv db \<Longrightarrow> jobs_inv db'"
proof -
  assume inv: "jobs_inv db" and c: "claim chk fence token row t db = Inr (db', out)"
  from c have db': "db' = update_rows (claimable t (row_job row) (row_revision row))
      (\<lambda>r. (touch t r)\<lparr>row_status := RUNNING, row_token := Some token\<rparr>) db"
    by (auto simp: claim_def Let_def rbind_eq_Inr split: if_splits)
  show "jobs_inv db'" unfolding db'
    by (rule jobs_inv_update_same [OF inv])
      (auto intro: row_steps simp: claimable_def active_def row_ok_def dest: row_okD [OF inv])
qed

text \<open>A run's row is the only one with its token among the rows of its identifier.\<close>

lemma update_job_cases:
  assumes "update_job j chk fence i token progress checkpoint t db = Inr db'"
  obtains row eff c where "running db i token = Inr row" "chk = Inr ()" "fence = Inr ()"
    "db' = update_rows (\<lambda>r. row_job r = i \<and> row_token r = Some token) (\<lambda>r. (touch t r)\<lparr>progress_json := eff, checkpoint_json := c\<rparr>) db"
  using assms by (auto simp: update_job_def Let_def rbind_eq_Inr)

lemma update_job_inv:
  assumes "update_job j chk fence i token progress checkpoint t db = Inr db'" "jobs_inv db"
  shows "jobs_inv db'"
proof -
  from assms(1) obtain row eff c where run: "running db i token = Inr row" and db':
    "db' = update_rows (\<lambda>r. row_job r = i \<and> row_token r = Some token) (\<lambda>r. (touch t r)\<lparr>progress_json := eff, checkpoint_json := c\<rparr>) db"
    by (rule update_job_cases)
  have "row_status r = RUNNING" if "r \<in> set (durable_jobs db)" "row_token r = Some token" for r
    using row_okD [OF assms(2) that(1)] that(2) by (simp add: row_ok_def)
  then show ?thesis unfolding db'
    by (intro jobs_inv_update_same [OF assms(2)])
      (auto intro: row_steps simp: active_def dest: row_okD [OF assms(2)] simp: row_ok_def)
qed

lemma finish_cases:
  assumes "finish j chk fence i token status summary err t db = Inr db'"
  obtains eff where "chk = Inr ()" "fence = Inr ()" "db' = update_rows (\<lambda>r. row_job r = i \<and> row_status r = RUNNING \<and> row_token r = Some token)
     (\<lambda>r. (touch t r)\<lparr>row_status := status, summary_json := eff, error_code := err, row_token := None\<rparr>) db"
  using assms by (auto simp: finish_def Let_def rbind_eq_Inr)

lemma finish_inv:
  assumes "finish j chk fence i token status summary err t db = Inr db'" "jobs_inv db" "status \<noteq> QUEUED" "status \<noteq> RUNNING"
  shows "jobs_inv db'"
proof -
  from assms(1) obtain eff where db': "db' = update_rows (\<lambda>r. row_job r = i \<and> row_status r = RUNNING \<and> row_token r = Some token)
     (\<lambda>r. (touch t r)\<lparr>row_status := status, summary_json := eff, error_code := err, row_token := None\<rparr>) db"
    by (rule finish_cases)
  show ?thesis unfolding db'
    by (rule jobs_inv_update_same [OF assms(2)])
      (use assms(3,4) in \<open>auto intro: row_steps simp: active_def row_ok_def dest: row_okD [OF assms(2)]\<close>)
qed

text \<open>Published entries continue the numbering of the job.\<close>

lemma next_sequence_eq: "jobs_inv db \<Longrightarrow> next_sequence db i = length (results_of db i)"
proof -
  assume "jobs_inv db"
  then have num: "map fst (results_of db i) = [0..<length (results_of db i)]" using jobs_invD(6) by (simp add: numbered_def)
  have split: "next_sequence db i = (if results_of db i = [] then 0 else Suc (Max (set (map fst (results_of db i)))))"
    by (cases "results_of db i") (simp_all add: next_sequence_def)
  show ?thesis
  proof (cases "results_of db i = []")
    case False
    then have "Max (set [0..<length (results_of db i)]) = length (results_of db i) - 1" by (intro Max_eqI) auto
    then show ?thesis using False unfolding split num by simp
  qed (simp add: split)
qed

definition entries_from :: "string \<Rightarrow> nat \<Rightarrow> (dict \<times> string) list \<Rightarrow> (string \<times> nat \<times> dict) list" where
  "entries_from i n encoded = map (\<lambda>(k, (d, _)). (i, n + k, d)) (enumerate 0 encoded)"

lemma entries_from_Nil [simp]: "entries_from i n [] = []"
  by (simp add: entries_from_def)

lemma entries_from_snoc: "entries_from i n (xs @ [x]) = entries_from i n xs @ [(i, n + length xs, fst x)]"
  by (cases x) (simp add: entries_from_def enumerate_append_eq)

lemma results_of_append:
  "results_of (db\<lparr>job_results := job_results db @ entries_from i n xs\<rparr>) k
     = results_of db k @ (if k = i then zip [n..<n + length xs] (map fst xs) else [])"
proof -
  have "map snd (filter (\<lambda>(j, _). j = k) (entries_from i n xs)) = (if k = i then zip [n..<n + length xs] (map fst xs) else [])"
    by (induction xs rule: rev_induct) (auto simp: entries_from_snoc)
  then show ?thesis by (simp add: results_of_def)
qed

lemma publish_cases:
  assumes "publish j chk fence i token entries t maxb db = Inr db'" "jobs_inv db"
  obtains row encoded size eff where "running db i token = Inr row" "rmap (json_object j 65536) entries = Inr encoded"
    "chk = Inr ()" "fence = Inr ()" "result_bytes row + size \<le> maxb" "0 \<le> result_bytes row + size"
    "db' = update_rows (\<lambda>r. row_job r = i) (\<lambda>r. (touch t r)\<lparr>result_bytes := result_bytes r + size, progress_json := eff\<rparr>)
      (db\<lparr>job_results := job_results db @ entries_from i (length (results_of db i)) encoded\<rparr>)"
  using assms(1) next_sequence_eq [OF assms(2), of i]
  by (auto simp: publish_def Let_def rbind_eq_Inr entries_from_def)

lemma numbered_publish:
  assumes "jobs_inv db"
  shows "numbered (db\<lparr>job_results := job_results db @ entries_from i (length (results_of db i)) xs\<rparr>) k"
proof -
  let ?n = "length (results_of db k)"
  have old: "map fst (results_of db k) = [0..<?n]" using jobs_invD(6) [OF assms] by (simp add: numbered_def)
  show ?thesis
  proof (cases "k = i")
    case True
    have "map fst (results_of db k @ zip [?n..<?n + length xs] (map fst xs)) = [0..<?n + length xs]"
      unfolding map_append old by (simp add: upt_add_eq_append [of 0 ?n])
    then show ?thesis unfolding numbered_def results_of_append using True by simp
  next
    case False
    then show ?thesis unfolding numbered_def results_of_append using old by simp
  qed
qed

lemma publish_inv:
  assumes "publish j chk fence i token entries t maxb db = Inr db'" "jobs_inv db"
  shows "jobs_inv db'"
proof -
  from publish_cases [OF assms] obtain row encoded size eff where run: "running db i token = Inr row"
    and "rmap (json_object j 65536) entries = Inr encoded" "chk = Inr ()" "fence = Inr ()" "result_bytes row + size \<le> maxb"
    and size: "0 \<le> result_bytes row + size"
    and db': "db' = update_rows (\<lambda>r. row_job r = i) (\<lambda>r. (touch t r)\<lparr>result_bytes := result_bytes r + size, progress_json := eff\<rparr>)
      (db\<lparr>job_results := job_results db @ entries_from i (length (results_of db i)) encoded\<rparr>)" .
  from running_cases [OF run] have row: "row \<in> set (durable_jobs db)" "row_job row = i" "row_status row = RUNNING" by auto
  have only: "r = row" if "r \<in> set (durable_jobs db)" "row_job r = i" for r
    using job_unique [OF assms(2) that(1) row(1)] that(2) row(2) by simp
  have "fst ` set (entries_from i n xs) \<subseteq> {i}" for n xs
    by (induction xs rule: rev_induct) (auto simp: entries_from_snoc)
  moreover have "i \<in> row_job ` set (durable_jobs db)" using row(2) [symmetric] row(1) by (rule image_eqI)
  ultimately have "fst ` set (entries_from i n xs) \<subseteq> row_job ` set (durable_jobs db)" for n xs
    by (meson empty_subsetI insert_subset subset_trans)
  with jobs_invD(5) [OF assms(2)]
  have res: "fst ` set (job_results db @ entries_from i (length (results_of db i)) encoded) \<subseteq> row_job ` set (durable_jobs db)"
    by (simp add: image_Un)
  show ?thesis unfolding db'
  proof (rule jobs_inv_update [OF assms(2)])
    fix r assume r: "r \<in> set (durable_jobs db)" "row_job r = i"
    with only have "r = row" by blast
    then show "row_step r ((touch t r)\<lparr>result_bytes := result_bytes r + size, progress_json := eff\<rparr>)
        \<and> 0 \<le> result_bytes ((touch t r)\<lparr>result_bytes := result_bytes r + size, progress_json := eff\<rparr>)"
      using row_steps(5) [OF row_okD [OF assms(2) row(1)] row(3)] size by simp
    show "active r \<or> (\<forall>r' \<in> set (durable_jobs db). active r' \<longrightarrow> input_of r' \<noteq> input_of r) \<and> (\<forall>r' \<in> set (durable_jobs db). row_job r' = i \<longrightarrow> r' = r)"
      using \<open>r = row\<close> row(3) by (simp add: active_def)
  qed (use res numbered_publish [OF assms(2)] in simp_all)
qed

lemma expire_inv: "jobs_inv db \<Longrightarrow> jobs_inv (expire t db)"
  unfolding expire_def by (rule jobs_inv_delete)

lemma retry_guards_cases:
  assumes "retry_guards q row db = Inr ()"
  shows "row_status row \<in> {INTERRUPTED, FAILED, CANCELLED}" "active_of db (chg_owner q) (chg_module q) (row_handler row) < chg_max_active q"
    "active_total db < chg_max_queued q"
    "\<forall>r \<in> set (durable_jobs db). \<not> same_input (chg_owner q) (chg_module q) (row_handler row) (input_digest row) r"
  using assms by (auto simp: retry_guards_def rbind_eq_Inr list_ex_iff)

lemma change_cases:
  assumes "change chk fence q db = Inr (db', r)"
  obtains row where "owned db (chg_owner q) (chg_module q) (chg_job q) = Inr row" "row_revision row = expected_revision q"
    "retry q \<and> retry_guards q row db = Inr () \<and> db' = retry_job (chg_job q) (chg_now q) db
     \<or> \<not> retry q \<and> active row \<and> db' = cancel_job (chg_job q) (chg_now q) db
     \<or> \<not> retry q \<and> \<not> active row \<and> db' = db"
    "owned db' (chg_owner q) (chg_module q) (chg_job q) = Inr r"
  using assms by (auto simp: change_def rbind_eq_Inr split: if_splits)

lemma cancel_job_inv:
  assumes "jobs_inv db" "row \<in> set (durable_jobs db)" "active row"
  shows "jobs_inv (cancel_job (row_job row) t db)"
proof -
  have only: "r = row" if "r \<in> set (durable_jobs db)" "row_job r = row_job row" for r
    using job_unique [OF assms(1) that(1) assms(2)] that(2) by simp
  show ?thesis unfolding cancel_job_def
    by (rule jobs_inv_update_same [OF assms(1)], frule only)
      (use assms(3) row_okD [OF assms(1,2)] in \<open>auto intro: row_steps(7) simp: row_ok_def active_def\<close>)
qed

lemma retry_job_inv:
  assumes "jobs_inv db" "row \<in> set (durable_jobs db)" "row_status row \<in> {INTERRUPTED, FAILED, CANCELLED}"
    and "\<forall>r \<in> set (durable_jobs db). \<not> same_input (row_owner row) (row_module row) (row_handler row) (input_digest row) r"
  shows "jobs_inv (retry_job (row_job row) t db)"
  unfolding retry_job_def
proof (rule jobs_inv_update [OF assms(1)])
  have only: "r = row" if "r \<in> set (durable_jobs db)" "row_job r = row_job row" for r
    using job_unique [OF assms(1) that(1) assms(2)] that(2) by simp
  fix r assume r: "r \<in> set (durable_jobs db)" "row_job r = row_job row"
  then have "r = row" by (rule only)
  let ?f = "(touch t r)\<lparr>row_status := QUEUED, progress_json := [], checkpoint_json := [], summary_json := [], error_code := None,
            result_bytes := 0, row_token := None, attempt := attempt r + 1\<rparr>"
  show "row_step r ?f \<and> 0 \<le> result_bytes ?f" using row_steps(8) assms(3) \<open>r = row\<close> by simp
  show "active r \<or> (\<forall>r' \<in> set (durable_jobs db). active r' \<longrightarrow> input_of r' \<noteq> input_of r)
      \<and> (\<forall>r' \<in> set (durable_jobs db). row_job r' = row_job row \<longrightarrow> r' = r)"
    using assms(4) only \<open>r = row\<close> by (auto simp: same_input_def input_of_def)
next
  show "fst ` set (job_results (db\<lparr>job_results := filter (\<lambda>(k, _). k \<noteq> row_job row) (job_results db)\<rparr>)) \<subseteq> row_job ` set (durable_jobs db)"
    using jobs_invD(5) [OF assms(1)] by auto
  show "numbered (db\<lparr>job_results := filter (\<lambda>(k, _). k \<noteq> row_job row) (job_results db)\<rparr>) i" for i
    using numbered_filter [where db = db and x = "durable_jobs db" and y = "job_requests db" and Q = "\<lambda>k. k \<noteq> row_job row" and i = i] jobs_invD(6) [OF assms(1)] by simp
qed simp_all

lemma change_inv:
  assumes "change chk fence q db = Inr (db', r)" "jobs_inv db"
  shows "jobs_inv db'"
proof -
  from assms(1) obtain row where own: "owned db (chg_owner q) (chg_module q) (chg_job q) = Inr row"
    and c: "retry q \<and> retry_guards q row db = Inr () \<and> db' = retry_job (chg_job q) (chg_now q) db
     \<or> \<not> retry q \<and> active row \<and> db' = cancel_job (chg_job q) (chg_now q) db
     \<or> \<not> retry q \<and> \<not> active row \<and> db' = db" by (rule change_cases)
  from owned_cases [OF own] have row: "row \<in> set (durable_jobs db)" "row_job row = chg_job q" "row_owner row = chg_owner q"
    "row_module row = chg_module q" by auto
  from c show ?thesis
  proof (elim disjE conjE)
    assume g: "retry_guards q row db = Inr ()" and "db' = retry_job (chg_job q) (chg_now q) db"
    then show ?thesis
      using retry_job_inv [OF assms(2) row(1) retry_guards_cases(1) [OF g]] retry_guards_cases(4) [OF g] row by simp
  qed (use cancel_job_inv [OF assms(2) row(1)] row(2) assms(2) in auto)
qed

text \<open>Submitting.\<close>

definition previous_request :: "submission \<Rightarrow> jobs_db \<Rightarrow> (string \<times> string) option" where
  "previous_request q db = Option.bind (request_key q) (\<lambda>k. map_of (job_requests db) (sub_owner q, sub_module q, k))"

lemma submit_cases:
  assumes "submit j chk fence i q db = Inr (db', r)"
  obtains (replay) params raw prev where "json_object j 262144 (sub_parameters q) = Inr (params, raw)"
      "previous_request q db = Some (input_hash j q raw, prev)" "db' = db" "owned db (sub_owner q) (sub_module q) prev = Inr r"
  | (run) params raw db1 jid where "json_object j 262144 (sub_parameters q) = Inr (params, raw)" "previous_request q db = None"
      "submit_job q i params (input_hash j q raw) db = Inr (db1, jid)" "db' = add_request q (input_hash j q raw) jid db1"
      "owned db' (sub_owner q) (sub_module q) jid = Inr r"
  using assms unfolding submit_def previous_request_def [symmetric] Let_def
  by (cases "previous_request q db") (auto simp: rbind_eq_Inr)

lemma submit_job_cases:
  assumes "submit_job q i params digest db = Inr (db1, jid)"
  obtains (existing) row where "row \<in> set (durable_jobs db)" "same_input (sub_owner q) (sub_module q) (sub_handler q) digest row"
      "jid = row_job row" "db1 = db"
  | (new) "\<forall>r \<in> set (durable_jobs db). \<not> same_input (sub_owner q) (sub_module q) (sub_handler q) digest r"
      "active_of db (sub_owner q) (sub_module q) (sub_handler q) < max_active q" "active_total db < max_queued q"
      "i \<notin> row_job ` set (durable_jobs db)" "jid = i" "db1 = db\<lparr>durable_jobs := durable_jobs db @ [new_row q i params digest]\<rparr>"
proof (cases "find (same_input (sub_owner q) (sub_module q) (sub_handler q) digest) (durable_jobs db)")
  case None
  then have "\<forall>r \<in> set (durable_jobs db). \<not> same_input (sub_owner q) (sub_module q) (sub_handler q) digest r"
    unfolding find_None_iff by blast
  moreover from None assms have "active_of db (sub_owner q) (sub_module q) (sub_handler q) < max_active q"
    "active_total db < max_queued q" "i \<notin> row_job ` set (durable_jobs db)" "jid = i"
    "db1 = db\<lparr>durable_jobs := durable_jobs db @ [new_row q i params digest]\<rparr>"
    by (auto simp: submit_job_def rbind_eq_Inr)
  ultimately show ?thesis by (rule new)
next
  case (Some row)
  from find_member [OF Some] assms Some show ?thesis by (intro existing [of row]) (auto simp: submit_job_def)
qed

lemma new_row_ok: "row_ok (new_row q i params digest)" "active (new_row q i params digest)"
  by (simp_all add: row_ok_def new_row_def active_def)

lemma add_row_inv:
  assumes inv: "jobs_inv db" and fresh: "i \<notin> row_job ` set (durable_jobs db)"
    and alone: "\<forall>r \<in> set (durable_jobs db). \<not> same_input (sub_owner q) (sub_module q) (sub_handler q) digest r"
  shows "jobs_inv (db\<lparr>durable_jobs := durable_jobs db @ [new_row q i params digest]\<rparr>)"
proof -
  note I = jobs_invD [OF inv]
  let ?n = "new_row q i params digest"
  have n: "row_job ?n = i" "input_of ?n = (sub_owner q, sub_module q, sub_handler q, digest)" by (simp_all add: new_row_def input_of_def)
  have other: "input_of r \<noteq> input_of ?n" if "r \<in> set (durable_jobs db)" "active r" for r
    using alone that unfolding n(2) by (auto simp: same_input_def input_of_def)
  have "unique_active (insert ?n (set (durable_jobs db)))"
    using I(3) other unfolding unique_active_def by (metis insert_iff)
  moreover have "requests_ok (job_requests db) (insert ?n (set (durable_jobs db)))"
    using I(4) unfolding requests_ok_def by blast
  moreover have "\<forall>k. numbered (db\<lparr>durable_jobs := durable_jobs db @ [?n]\<rparr>) k"
    using I(6) by (simp add: numbered_def results_of_def)
  ultimately show ?thesis using I(1,2,5) fresh new_row_ok(1) unfolding jobs_inv_def
    by (simp add: n(1) subset_insertI2)
qed

lemma submit_job_inv:
  assumes "submit_job q i params digest db = Inr (db1, jid)" "jobs_inv db"
  shows "jobs_inv db1 \<and> job_requests db1 = job_requests db
    \<and> (\<exists>r \<in> set (durable_jobs db1). row_job r = jid \<and> same_input (sub_owner q) (sub_module q) (sub_handler q) digest r)"
  using assms(1)
proof (cases rule: submit_job_cases)
  case (existing row)
  then show ?thesis using assms(2) by auto
next
  case new
  then show ?thesis using add_row_inv [OF assms(2)] new_row_ok(2) by (simp add: same_input_def) (simp add: new_row_def)
qed

lemma add_request_inv:
  assumes "jobs_inv db" "previous_request q db = None" "r \<in> set (durable_jobs db)" "row_job r = jid"
    and "same_input (sub_owner q) (sub_module q) (sub_handler q) digest r"
  shows "jobs_inv (add_request q digest jid db)"
proof (cases "request_key q")
  case (Some k)
  note I = jobs_invD [OF assms(1)]
  let ?q = "((sub_owner q, sub_module q, k), (digest, jid))"
  from assms(2) Some have "(sub_owner q, sub_module q, k) \<notin> fst ` set (job_requests db)"
    by (simp add: previous_request_def map_of_eq_None_iff)
  then have "requests_ok (job_requests db @ [?q]) (set (durable_jobs db))"
    using I(4) assms(3-5) unfolding requests_ok_def dict_ok_def same_input_def by auto
  moreover have "\<forall>i. numbered (add_request q digest jid db) i"
    using I(6) by (simp add: numbered_def results_of_def add_request_def Some)
  ultimately show ?thesis using I(1-3,5) unfolding jobs_inv_def by (simp add: add_request_def Some)
qed (use assms in \<open>simp add: add_request_def\<close>)

lemma submit_inv:
  assumes "submit j chk fence i q db = Inr (db', r)" "jobs_inv db"
  shows "jobs_inv db'"
  using assms(1)
proof (cases rule: submit_cases)
  case (run params raw db1 jid)
  from submit_job_inv [OF run(3) assms(2)] obtain x where x: "jobs_inv db1" "job_requests db1 = job_requests db"
    "x \<in> set (durable_jobs db1)" "row_job x = jid" "same_input (sub_owner q) (sub_module q) (sub_handler q) (input_hash j q raw) x" by blast
  have "previous_request q db1 = None" using run(2) x(2) by (simp add: previous_request_def)
  from add_request_inv [OF x(1) this x(3-5)] run(4) show ?thesis by simp
qed (use assms(2) in simp)

section \<open>Runs\<close>

text \<open>The limits the service passes, fixed for a run.\<close>

record job_limits =
  owner_limit :: "string \<Rightarrow> string \<Rightarrow> nat"
  queue_limit :: nat
  byte_limit :: rat

text \<open>One transaction.  \<open>fresh\<close> describes the run tokens that are drawn; a run ends in one of three states.\<close>

inductive jobs_step :: "(string \<Rightarrow> bool) \<Rightarrow> job_limits \<Rightarrow> jobs_db \<Rightarrow> jobs_db \<Rightarrow> bool" for fresh lm where
  j_submit: "submit j chk fence i q s = Inr (t, r) \<Longrightarrow> max_active q = owner_limit lm (sub_module q) (sub_handler q) \<Longrightarrow>
    max_queued q = queue_limit lm \<Longrightarrow> jobs_step fresh lm s t"
| j_reject: "jobs_step fresh lm s (reject_queued i code now s)"
| j_claim: "claim chk fence token row now s = Inr (t, out) \<Longrightarrow> fresh token \<Longrightarrow> jobs_step fresh lm s t"
| j_update: "update_job j chk fence i token progress checkpoint now s = Inr t \<Longrightarrow> jobs_step fresh lm s t"
| j_publish: "publish j chk fence i token entries now (byte_limit lm) s = Inr t \<Longrightarrow> jobs_step fresh lm s t"
| j_finish: "finish j chk fence i token status summary err now s = Inr t \<Longrightarrow> status \<in> {SUCCEEDED, FAILED, INTERRUPTED} \<Longrightarrow>
    jobs_step fresh lm s t"
| j_change: "change chk fence q s = Inr (t, r) \<Longrightarrow> owned s (chg_owner q) (chg_module q) (chg_job q) = Inr row \<Longrightarrow>
    chg_max_active q = owner_limit lm (chg_module q) (row_handler row) \<Longrightarrow>
    chg_max_queued q = queue_limit lm \<Longrightarrow> jobs_step fresh lm s t"
| j_expire: "jobs_step fresh lm s (expire now s)"
| j_recover: "jobs_step fresh lm s (recover now s)"

lemma jobs_step_inv: "jobs_step fresh lm s t \<Longrightarrow> jobs_inv s \<Longrightarrow> jobs_inv t"
  by (induction rule: jobs_step.induct)
    (auto intro: submit_inv reject_queued_inv claim_inv update_job_inv publish_inv finish_inv change_inv expire_inv recover_inv)

definition empty_db :: "jobs_db \<Rightarrow> bool" where
  "empty_db db \<longleftrightarrow> durable_jobs db = [] \<and> job_requests db = [] \<and> job_results db = []"

lemma empty_db_inv: "empty_db db \<Longrightarrow> jobs_inv db"
  by (simp add: empty_db_def jobs_inv_def unique_active_def requests_ok_def numbered_def results_of_def)

section \<open>The life cycle of a job\<close>

text \<open>What a transaction does to the table of jobs: it rewrites rows, adds one, or drops some that do not run.\<close>

definition rewritten :: "(job_row \<Rightarrow> job_row) \<Rightarrow> jobs_db \<Rightarrow> jobs_db \<Rightarrow> bool" where
  "rewritten g s t \<longleftrightarrow> durable_jobs t = map g (durable_jobs s) \<and> (\<forall>r \<in> set (durable_jobs s). g r = r \<or> row_step r (g r))"

lemma rewritten_update:
  assumes "durable_jobs s' = durable_jobs s" "\<And>r. r \<in> set (durable_jobs s) \<Longrightarrow> p r \<Longrightarrow> row_step r (f r)"
  shows "\<exists>g. rewritten g s (update_rows p f s')"
  using assms by (intro exI [of _ "\<lambda>r. if p r then f r else r"]) (simp add: rewritten_def)

lemma rewritten_same: "durable_jobs t = durable_jobs s \<Longrightarrow> rewritten (\<lambda>r. r) s t"
  by (simp add: rewritten_def)

lemma only_job:
  assumes "jobs_inv s" "row \<in> set (durable_jobs s)" "P row" "r \<in> set (durable_jobs s)" "row_job r = row_job row"
  shows "P r"
  using job_unique [OF assms(1,4,2,5)] assms(3) by simp

lemma change_rewritten:
  assumes "change chk fence q s = Inr (t, r)" "jobs_inv s"
  shows "\<exists>g. rewritten g s t"
proof -
  from assms(1) obtain row where own: "owned s (chg_owner q) (chg_module q) (chg_job q) = Inr row"
    and c: "retry q \<and> retry_guards q row s = Inr () \<and> t = retry_job (chg_job q) (chg_now q) s
     \<or> \<not> retry q \<and> active row \<and> t = cancel_job (chg_job q) (chg_now q) s
     \<or> \<not> retry q \<and> \<not> active row \<and> t = s" by (rule change_cases)
  from owned_cases [OF own] have row: "row \<in> set (durable_jobs s)" "row_job row = chg_job q" by auto
  from c show ?thesis
  proof (elim disjE conjE)
    assume g: "retry_guards q row s = Inr ()" and t: "t = retry_job (chg_job q) (chg_now q) s"
    have "row_status x \<in> {INTERRUPTED, FAILED, CANCELLED}" if "x \<in> set (durable_jobs s)" "row_job x = chg_job q" for x
      using only_job [OF assms(2) row(1), of "\<lambda>r. row_status r \<in> {INTERRUPTED, FAILED, CANCELLED}"]
        retry_guards_cases(1) [OF g] that row(2) by simp
    then show ?thesis unfolding t retry_job_def by (intro rewritten_update) (auto intro: row_steps(8))
  next
    assume a: "active row" and t: "t = cancel_job (chg_job q) (chg_now q) s"
    have "active x" if "x \<in> set (durable_jobs s)" "row_job x = chg_job q" for x
      using only_job [OF assms(2) row(1), of active] a that row(2) by simp
    then show ?thesis unfolding t cancel_job_def by (intro rewritten_update) (auto intro: row_steps(7))
  qed (auto intro: rewritten_same)
qed

lemma claim_eq:
  "claim chk fence token row now s = Inr (t, out) \<Longrightarrow> t = update_rows (claimable now (row_job row) (row_revision row))
      (\<lambda>r. (touch now r)\<lparr>row_status := RUNNING, row_token := Some token\<rparr>) s"
  by (auto simp: claim_def Let_def rbind_eq_Inr split: if_splits)

lemma publish_rewritten:
  assumes "publish j chk fence i token entries now b s = Inr t" "jobs_inv s"
  shows "\<exists>g. rewritten g s t"
proof -
  from publish_cases [OF assms] obtain row encoded size eff where run: "running s i token = Inr row"
    and "rmap (json_object j 65536) entries = Inr encoded" "chk = Inr ()" "fence = Inr ()" "result_bytes row + size \<le> b"
      "0 \<le> result_bytes row + size"
    and t: "t = update_rows (\<lambda>r. row_job r = i) (\<lambda>r. (touch now r)\<lparr>result_bytes := result_bytes r + size, progress_json := eff\<rparr>)
      (s\<lparr>job_results := job_results s @ entries_from i (length (results_of s i)) encoded\<rparr>)" .
  from running_cases [OF run] have row: "row \<in> set (durable_jobs s)" "row_job row = i" "row_status row = RUNNING" by auto
  have "row_status r = RUNNING" if "r \<in> set (durable_jobs s)" "row_job r = i" for r
    using only_job [OF assms(2) row(1), of "\<lambda>r. row_status r = RUNNING"] row that by simp
  then show ?thesis unfolding t
    by (intro rewritten_update) (auto intro: row_steps(5) row_okD [OF assms(2)])
qed

lemma running_token:
  "jobs_inv s \<Longrightarrow> r \<in> set (durable_jobs s) \<Longrightarrow> row_token r = Some token \<Longrightarrow> row_status r = RUNNING"
  using row_okD [of s r] by (simp add: row_ok_def)

lemma step_shape:
  assumes "jobs_step fresh lm s t" "jobs_inv s"
  shows "(\<exists>g. rewritten g s t)
    \<or> (\<exists>r. durable_jobs t = durable_jobs s @ [r] \<and> row_job r \<notin> row_job ` set (durable_jobs s)
         \<and> row_status r = QUEUED \<and> row_revision r = 1 \<and> row_token r = None)
    \<or> (\<exists>p. durable_jobs t = filter (\<lambda>r. \<not> p r) (durable_jobs s) \<and> (\<forall>r. p r \<longrightarrow> row_status r \<noteq> RUNNING))"
  using assms
proof (induction rule: jobs_step.induct)
  case (j_submit j chk fence i q s t r)
  from j_submit(1) show ?case
  proof (cases rule: submit_cases)
    case (run params raw db1 jid)
    have rows: "durable_jobs t = durable_jobs db1" by (simp add: run(4) add_request_def split: option.split)
    from run(3) show ?thesis
    proof (cases rule: submit_job_cases)
      case (existing row)
      then show ?thesis using rows rewritten_same by blast
    next
      case new
      then show ?thesis using rows by (intro disjI2 disjI1 exI [of _ "new_row q i params (input_hash j q raw)"]) (simp add: new_row_def)
    qed
  qed (use rewritten_same in blast)
next
  case (j_reject s i code now)
  then show ?case unfolding reject_queued_def
    by (intro disjI1 rewritten_update) (auto intro: row_steps(2) row_okD)
next
  case (j_claim chk fence token row now s t out)
  then show ?case unfolding claim_eq [OF j_claim(1)]
    by (intro disjI1 rewritten_update) (auto intro: row_steps(3) simp: claimable_def)
next
  case (j_update j chk fence i token progress checkpoint now s t)
  from j_update(1) obtain row eff c where t: "t = update_rows (\<lambda>r. row_job r = i \<and> row_token r = Some token)
      (\<lambda>r. (touch now r)\<lparr>progress_json := eff, checkpoint_json := c\<rparr>) s" by (rule update_job_cases)
  show ?case unfolding t using running_token [OF j_update(2)]
    by (intro disjI1 rewritten_update) (auto intro: row_steps(4) row_okD [OF j_update(2)])
next
  case (j_publish j chk fence i token entries now s t)
  then show ?case using publish_rewritten by blast
next
  case (j_finish j chk fence i token status summary err now s t)
  from j_finish(1) obtain eff where t: "t = update_rows (\<lambda>r. row_job r = i \<and> row_status r = RUNNING \<and> row_token r = Some token)
     (\<lambda>r. (touch now r)\<lparr>row_status := status, summary_json := eff, error_code := err, row_token := None\<rparr>) s" by (rule finish_cases)
  show ?case unfolding t using j_finish(2)
    by (intro disjI1 rewritten_update) (auto intro: row_steps(6))
next
  case (j_change chk fence q s t r row)
  then show ?case using change_rewritten by blast
next
  case (j_expire s now)
  show ?case unfolding expire_def delete_rows_def Let_def
    by (intro disjI2 exI [of _ "\<lambda>r. expires_at r \<le> now \<and> row_status r \<noteq> RUNNING"]) auto
next
  case (j_recover s now)
  show ?case unfolding recover_def
    by (intro disjI1 rewritten_update) (auto intro: row_steps(1))
qed

text \<open>The abstract machine: a partial map from identifiers to phase, revision and run token.\<close>

record job_state =
  phase :: job_status
  job_revision :: int
  holder :: "string option"

definition job_move :: "job_state \<Rightarrow> job_state \<Rightarrow> bool" where
  "job_move a b \<longleftrightarrow> job_revision b = job_revision a + 1 \<and> moves (phase a) (phase b)
     \<and> (holder b \<noteq> None \<longleftrightarrow> phase b = RUNNING) \<and> (phase a = RUNNING \<and> phase b = RUNNING \<longrightarrow> holder b = holder a)"

inductive life_step :: "(string \<rightharpoonup> job_state) \<Rightarrow> (string \<rightharpoonup> job_state) \<Rightarrow> bool" where
  l_move: "(\<forall>i. m' i = m i \<or> (\<exists>a b. m i = Some a \<and> m' i = Some b \<and> job_move a b)) \<Longrightarrow> life_step m m'"
| l_new: "m i = None \<Longrightarrow> life_step m (m(i \<mapsto> \<lparr>phase = QUEUED, job_revision = 1, holder = None\<rparr>))"
| l_drop: "(\<forall>i. m' i = m i \<or> m' i = None \<and> (\<exists>a. m i = Some a \<and> phase a \<noteq> RUNNING)) \<Longrightarrow> life_step m m'"

inductive_cases life_stepE: "life_step m m'"

definition state_of :: "job_row \<Rightarrow> job_state" where
  "state_of r = \<lparr>phase = row_status r, job_revision = row_revision r, holder = row_token r\<rparr>"

definition jobs_of :: "jobs_db \<Rightarrow> string \<rightharpoonup> job_state" where
  "jobs_of db i = map_option state_of (find (\<lambda>r. row_job r = i) (durable_jobs db))"

lemma jobs_of_Some:
  assumes "jobs_inv db"
  shows "jobs_of db i = Some a \<longleftrightarrow> (\<exists>r \<in> set (durable_jobs db). row_job r = i \<and> a = state_of r)"
proof
  assume "jobs_of db i = Some a"
  then show "\<exists>r \<in> set (durable_jobs db). row_job r = i \<and> a = state_of r"
    by (auto simp: jobs_of_def dest!: find_member)
next
  assume "\<exists>r \<in> set (durable_jobs db). row_job r = i \<and> a = state_of r"
  then obtain r where r: "r \<in> set (durable_jobs db)" "row_job r = i" "a = state_of r" by blast
  have "find (\<lambda>x. row_job x = i) (durable_jobs db) = Some r" by (rule find_job [OF assms r(1)]) (simp_all add: r(2))
  then show "jobs_of db i = Some a" by (simp add: jobs_of_def r(3))
qed

lemma row_step_move: "row_step r r' \<Longrightarrow> job_move (state_of r) (state_of r')"
  by (auto simp: row_step_def job_move_def state_of_def)

lemma jobs_of_map:
  assumes "\<And>r. r \<in> set xs \<Longrightarrow> row_job (g r) = row_job r"
  shows "find (\<lambda>r. row_job r = i) (map g xs) = map_option g (find (\<lambda>r. row_job r = i) xs)"
  using assms by (induction xs) auto

lemma step_sim:
  assumes "jobs_inv s" "jobs_step fresh lm s t"
  shows "life_step (jobs_of s) (jobs_of t)"
proof -
  have inv: "jobs_inv t" using jobs_step_inv assms by blast
  from step_shape [OF assms(2,1)] show ?thesis
  proof (elim disjE exE conjE)
    fix g assume g: "rewritten g s t"
    then have rows: "durable_jobs t = map g (durable_jobs s)" by (simp add: rewritten_def)
    have step: "g r = r \<or> row_step r (g r)" if "r \<in> set (durable_jobs s)" for r using g that by (simp add: rewritten_def)
    have id: "row_job (g r) = row_job r" if "r \<in> set (durable_jobs s)" for r
      using step [OF that] by (auto simp: row_step_def same_job_def)
    show ?thesis
    proof (rule l_move, rule allI)
      fix i
      show "jobs_of t i = jobs_of s i \<or> (\<exists>a b. jobs_of s i = Some a \<and> jobs_of t i = Some b \<and> job_move a b)"
      proof (cases "find (\<lambda>r. row_job r = i) (durable_jobs s)")
        case None
        then show ?thesis by (simp add: jobs_of_def rows jobs_of_map [of _ g, OF id])
      next
        case (Some r)
        with find_member [OF Some] step [of r] show ?thesis
          by (auto simp: jobs_of_def rows jobs_of_map [of _ g, OF id] dest: row_step_move)
      qed
    qed
  next
    fix r assume r: "durable_jobs t = durable_jobs s @ [r]" "row_job r \<notin> row_job ` set (durable_jobs s)"
      "row_status r = QUEUED" "row_revision r = 1" "row_token r = None"
    have none: "find (\<lambda>x. row_job x = row_job r) (durable_jobs s) = None" using r(2) unfolding find_None_iff by (metis image_eqI)
    have "find P (xs @ [y]) = (case find P xs of None \<Rightarrow> if P y then Some y else None | Some z \<Rightarrow> Some z)" for P xs and y :: job_row
      by (induction xs) auto
    then have "jobs_of t = (jobs_of s)(row_job r \<mapsto> \<lparr>phase = QUEUED, job_revision = 1, holder = None\<rparr>)"
      using none by (auto simp: fun_eq_iff jobs_of_def r(1) state_of_def r(3-5) split: option.split)
    then show ?thesis using l_new [of "jobs_of s" "row_job r"] none by (simp add: jobs_of_def)
  next
    fix p assume p: "durable_jobs t = filter (\<lambda>r. \<not> p r) (durable_jobs s)" "\<forall>r. p r \<longrightarrow> row_status r \<noteq> RUNNING"
    show ?thesis
    proof (rule l_drop, rule allI)
      fix i
      show "jobs_of t i = jobs_of s i \<or> jobs_of t i = None \<and> (\<exists>a. jobs_of s i = Some a \<and> phase a \<noteq> RUNNING)"
      proof (cases "find (\<lambda>r. row_job r = i) (durable_jobs s)")
        case None
        then have "find (\<lambda>r. row_job r = i) (durable_jobs t) = None" by (auto simp: p(1) find_None_iff)
        with None show ?thesis by (simp add: jobs_of_def)
      next
        case (Some r)
        from find_member [OF Some] have r: "r \<in> set (durable_jobs s)" "row_job r = i" by auto
        show ?thesis
        proof (cases "p r")
          case True
          have "find (\<lambda>r. row_job r = i) (durable_jobs t) = None"
            unfolding p(1) find_None_iff using job_unique [OF assms(1) _ r(1)] r(2) True by auto
          then show ?thesis using Some p(2) True by (auto simp: jobs_of_def state_of_def)
        next
          case False
          then have "find (\<lambda>x. row_job x = i) (durable_jobs t) = Some r"
            using r by (intro find_job [OF inv]) (auto simp: p(1))
          with Some show ?thesis by (simp add: jobs_of_def)
        qed
      qed
    qed
  qed
qed

interpretation jobs: simulation empty_db "jobs_step fresh lm" jobs_inv jobs_of life_step for fresh lm
proof unfold_locales
  show "jobs_inv s" if "empty_db s" for s using that by (rule empty_db_inv)
  show "jobs_inv t" if "jobs_step fresh lm s t" "jobs_inv s" for s t using that by (rule jobs_step_inv)
  show "life_step (jobs_of s) (jobs_of t)" if "jobs_inv s" "jobs_step fresh lm s t" for s t using that by (rule step_sim)
qed

section \<open>Tokens, capacity and results\<close>

lemma step_tokens:
  assumes "jobs_step fresh lm s t" "r' \<in> set (durable_jobs t)" "row_token r' = Some k"
  shows "(\<exists>r \<in> set (durable_jobs s). row_token r = Some k) \<or> fresh k"
  using assms
proof (induction rule: jobs_step.induct)
  case (j_submit j chk fence i q s t r)
  from j_submit(1) show ?case
  proof (cases rule: submit_cases)
    case (run params raw db1 jid)
    have rows: "durable_jobs t = durable_jobs db1" by (simp add: run(4) add_request_def split: option.split)
    from run(3) show ?thesis
      by (cases rule: submit_job_cases) (use j_submit(4,5) rows in \<open>auto simp: new_row_def\<close>)
  qed (use j_submit(4,5) in auto)
next
  case (j_claim chk fence token row now s t out)
  then show ?case unfolding claim_eq [OF j_claim(1)] by (auto split: if_splits)
next
  case (j_update j chk fence i token progress checkpoint now s t)
  from j_update(1) obtain row eff c where t: "t = update_rows (\<lambda>r. row_job r = i \<and> row_token r = Some token)
      (\<lambda>r. (touch now r)\<lparr>progress_json := eff, checkpoint_json := c\<rparr>) s" by (rule update_job_cases)
  then show ?case using j_update(2,3) by (auto split: if_splits)
next
  case (j_publish j chk fence i token entries now s t)
  then obtain n size eff xs where "t = update_rows (\<lambda>r. row_job r = i) (\<lambda>r. (touch now r)\<lparr>result_bytes := result_bytes r + size, progress_json := eff\<rparr>)
      (s\<lparr>job_results := xs\<rparr>)" by (auto simp: publish_def Let_def rbind_eq_Inr)
  then show ?case using j_publish(2,3) by (auto split: if_splits)
next
  case (j_finish j chk fence i token status summary err now s t)
  from j_finish(1) obtain eff where t: "t = update_rows (\<lambda>r. row_job r = i \<and> row_status r = RUNNING \<and> row_token r = Some token)
     (\<lambda>r. (touch now r)\<lparr>row_status := status, summary_json := eff, error_code := err, row_token := None\<rparr>) s" by (rule finish_cases)
  then show ?case using j_finish(3,4) by (auto split: if_splits)
next
  case (j_change chk fence q s t r row)
  from j_change(1) obtain row' where "retry q \<and> retry_guards q row' s = Inr () \<and> t = retry_job (chg_job q) (chg_now q) s
     \<or> \<not> retry q \<and> active row' \<and> t = cancel_job (chg_job q) (chg_now q) s \<or> \<not> retry q \<and> \<not> active row' \<and> t = s" by (rule change_cases)
  then show ?case using j_change(5,6) by (auto simp: retry_job_def cancel_job_def split: if_splits)
qed (auto simp: reject_queued_def recover_def expire_def delete_rows_def Let_def split: if_splits)

lemma run_tokens:
  assumes "(jobs_step (\<lambda>x. x \<noteq> k) lm)\<^sup>*\<^sup>* s t" "\<forall>r \<in> set (durable_jobs s). row_token r \<noteq> Some k"
  shows "\<forall>r \<in> set (durable_jobs t). row_token r \<noteq> Some k"
  using assms
proof (induction rule: rtranclp_induct)
  case (step t u)
  then show ?case using step_tokens [OF step(2)] by blast
qed simp

text \<open>Counting the active rows.\<close>

lemma length_filter_map_le:
  "(\<And>x. x \<in> set xs \<Longrightarrow> P (g x) \<Longrightarrow> P x) \<Longrightarrow> length (filter P (map g xs)) \<le> length (filter P xs)"
  by (induction xs) auto

lemma length_filter_map_Suc:
  assumes "distinct (map key xs)" "\<And>x. x \<in> set xs \<Longrightarrow> P (g x) \<Longrightarrow> P x \<or> key x = k"
  shows "length (filter P (map g xs)) \<le> Suc (length (filter P xs))"
  using assms
proof (induction xs)
  case (Cons x xs)
  show ?case
  proof (cases "key x = k")
    case True
    then have "P y" if "y \<in> set xs" "P (g y)" for y using Cons.prems that by (metis distinct.simps(2) image_eqI list.set_map list.simps(9) list.set_intros(2))
    then have "length (filter P (map g xs)) \<le> length (filter P xs)" by (rule length_filter_map_le)
    then show ?thesis by simp
  next
    case False
    then show ?thesis using Cons by auto
  qed
qed simp

definition within_limits :: "job_limits \<Rightarrow> jobs_db \<Rightarrow> bool" where
  "within_limits lm db \<longleftrightarrow> active_total db \<le> queue_limit lm \<and> (\<forall>o' m h. active_of db o' m h \<le> owner_limit lm m h)
     \<and> (\<forall>r \<in> set (durable_jobs db). result_bytes r \<le> byte_limit lm)"

definition counted :: "string \<Rightarrow> string \<Rightarrow> string \<Rightarrow> job_row \<Rightarrow> bool" where
  "counted o' m h r \<longleftrightarrow> row_owner r = o' \<and> row_module r = m \<and> row_handler r = h \<and> active r"

lemma active_of_counted: "active_of db o' m h = length (filter (counted o' m h) (durable_jobs db))"
  by (simp add: active_of_def counted_def [abs_def])

lemma same_job_counted: "same_job r r' \<Longrightarrow> (active r' \<longrightarrow> active r) \<Longrightarrow> counted o' m h r' \<Longrightarrow> counted o' m h r"
  by (simp add: same_job_def counted_def)

text \<open>Rows that do not become active.\<close>

lemma within_limits_update:
  assumes "within_limits lm s" "durable_jobs s' = durable_jobs s"
    and "\<And>r. r \<in> set (durable_jobs s) \<Longrightarrow> p r \<Longrightarrow> same_job r (f r) \<and> (active (f r) \<longrightarrow> active r) \<and> result_bytes (f r) \<le> byte_limit lm"
  shows "within_limits lm (update_rows p f s')"
proof -
  let ?g = "\<lambda>r. if p r then f r else r"
  have "active x" if "x \<in> set (durable_jobs s)" "active (?g x)" for x using assms(3) [OF that(1)] that(2) by (auto split: if_splits)
  then have "active_total (update_rows p f s') \<le> active_total s"
    unfolding active_total_def durable_jobs_update_rows assms(2) by (rule length_filter_map_le)
  moreover have "counted o' m h x" if "x \<in> set (durable_jobs s)" "counted o' m h (?g x)" for x o' m h
    using assms(3) [OF that(1)] that(2) same_job_counted [of x "f x"] by (auto split: if_splits)
  then have "active_of (update_rows p f s') o' m h \<le> active_of s o' m h" for o' m h
    unfolding active_of_counted durable_jobs_update_rows assms(2) by (rule length_filter_map_le)
  moreover have "\<forall>r \<in> set (durable_jobs (update_rows p f s')). result_bytes r \<le> byte_limit lm"
    using assms(1,3) by (auto simp: within_limits_def assms(2))
  ultimately show ?thesis using assms(1) unfolding within_limits_def by (meson order.trans)
qed

text \<open>A row that becomes active, when there is room for it.\<close>

lemma within_limits_retry:
  assumes "jobs_inv s" "within_limits lm s" "row \<in> set (durable_jobs s)" "durable_jobs s' = durable_jobs s" "0 \<le> byte_limit lm"
    and f: "\<And>r. same_job r (f r) \<and> result_bytes (f r) = 0"
    and room: "active_of s (row_owner row) (row_module row) (row_handler row) < owner_limit lm (row_module row) (row_handler row)"
      "active_total s < queue_limit lm"
  shows "within_limits lm (update_rows (\<lambda>r. row_job r = row_job row) f s')"
proof -
  let ?g = "\<lambda>r. if row_job r = row_job row then f r else r"
  note dis = jobs_invD(1) [OF assms(1)]
  have total: "active_total (update_rows (\<lambda>r. row_job r = row_job row) f s') \<le> Suc (active_total s)"
    unfolding active_total_def durable_jobs_update_rows assms(4)
    by (rule length_filter_map_Suc [OF dis, of _ _ "row_job row"]) (auto split: if_splits)
  have one: "active_of (update_rows (\<lambda>r. row_job r = row_job row) f s') o' m h \<le> Suc (active_of s o' m h)" for o' m h
    unfolding active_of_counted durable_jobs_update_rows assms(4)
    by (rule length_filter_map_Suc [OF dis, of _ _ "row_job row"]) (auto split: if_splits)
  have other: "active_of (update_rows (\<lambda>r. row_job r = row_job row) f s') o' m h \<le> active_of s o' m h"
    if "(o', m, h) \<noteq> (row_owner row, row_module row, row_handler row)" for o' m h
    unfolding active_of_counted durable_jobs_update_rows assms(4)
  proof (rule length_filter_map_le)
    fix x assume x: "x \<in> set (durable_jobs s)" "counted o' m h (?g x)"
    show "counted o' m h x"
    proof (cases "row_job x = row_job row")
      case True
      then have "x = row" by (rule job_unique [OF assms(1) x(1) assms(3)])
      then show ?thesis using x(2) f [of row] that by (auto simp: counted_def same_job_def)
    qed (use x in simp)
  qed
  have "active_of (update_rows (\<lambda>r. row_job r = row_job row) f s') o' m h \<le> owner_limit lm m h" for o' m h
  proof (cases "(o', m, h) = (row_owner row, row_module row, row_handler row)")
    case True
    then show ?thesis using one [of o' m h] room(1) by simp
  next
    case False
    then show ?thesis using other [of o' m h] assms(2) by (force simp: within_limits_def intro: order.trans)
  qed
  moreover have "\<forall>r \<in> set (durable_jobs (update_rows (\<lambda>r. row_job r = row_job row) f s')). result_bytes r \<le> byte_limit lm"
    using f assms(2,5) by (auto simp: within_limits_def assms(4))
  ultimately show ?thesis using total room(2) unfolding within_limits_def by simp
qed

lemma within_limits_new:
  assumes "within_limits lm s" "result_bytes r \<le> byte_limit lm"
    and "active_of s (row_owner r) (row_module r) (row_handler r) < owner_limit lm (row_module r) (row_handler r)"
    and "active_total s < queue_limit lm" "durable_jobs t = durable_jobs s @ [r]"
  shows "within_limits lm t"
proof -
  have "active_of t o' m h \<le> owner_limit lm m h" for o' m h
    using assms(1,3) unfolding within_limits_def active_of_counted assms(5)
    by (auto simp: counted_def [of o' m h r] less_eq_Suc_le)
  moreover have "active_total t \<le> queue_limit lm" using assms(1,4) by (auto simp: within_limits_def active_total_def assms(5))
  ultimately show ?thesis using assms(1,2) by (auto simp: within_limits_def assms(5))
qed

lemma step_within_limits:
  assumes "jobs_step fresh lm s t" "jobs_inv s" "within_limits lm s" "0 \<le> byte_limit lm"
  shows "within_limits lm t"
  using assms
proof (induction rule: jobs_step.induct)
  case (j_submit j chk fence i q s t r)
  from j_submit(1) show ?case
  proof (cases rule: submit_cases)
    case (run params raw db1 jid)
    have rows: "durable_jobs t = durable_jobs db1" by (simp add: run(4) add_request_def split: option.split)
    from run(3) show ?thesis
    proof (cases rule: submit_job_cases)
      case (existing row)
      then show ?thesis using rows j_submit(5) by (simp add: within_limits_def active_of_def active_total_def)
    next
      case new
      let ?n = "new_row q i params (input_hash j q raw)"
      have n: "row_owner ?n = sub_owner q" "row_module ?n = sub_module q" "row_handler ?n = sub_handler q" "result_bytes ?n = 0"
        by (simp_all add: new_row_def)
      have t: "durable_jobs t = durable_jobs s @ [?n]" using rows new(6) by simp
      show ?thesis
      proof (rule within_limits_new [OF j_submit(5) _ _ _ t])
        show "result_bytes ?n \<le> byte_limit lm" using j_submit(6) by (simp only: n)
        show "active_of s (row_owner ?n) (row_module ?n) (row_handler ?n) < owner_limit lm (row_module ?n) (row_handler ?n)"
          unfolding n using new(2) unfolding j_submit(2) .
        show "active_total s < queue_limit lm" using new(3) unfolding j_submit(3) .
      qed
    qed
  qed (use j_submit(5) in simp)
next
  case (j_publish j chk fence i token entries now s t)
  from publish_cases [OF j_publish(1,2)] obtain row encoded size eff where run: "running s i token = Inr row"
    and "rmap (json_object j 65536) entries = Inr encoded" "chk = Inr ()" "fence = Inr ()"
    and size: "result_bytes row + size \<le> byte_limit lm" "0 \<le> result_bytes row + size"
    and t: "t = update_rows (\<lambda>r. row_job r = i) (\<lambda>r. (touch now r)\<lparr>result_bytes := result_bytes r + size, progress_json := eff\<rparr>)
      (s\<lparr>job_results := job_results s @ entries_from i (length (results_of s i)) encoded\<rparr>)" .
  from running_cases [OF run] have row: "row \<in> set (durable_jobs s)" "row_job row = i" by auto
  have "r = row" if "r \<in> set (durable_jobs s)" "row_job r = i" for r
    using job_unique [OF j_publish(2) that(1) row(1)] that(2) row(2) by simp
  then show ?case unfolding t using size
    by (intro within_limits_update [OF j_publish(3)]) (auto simp: same_job_def touch_def active_def)
next
  case (j_update j chk fence i token progress checkpoint now s t)
  from j_update(1) obtain row eff c where t: "t = update_rows (\<lambda>r. row_job r = i \<and> row_token r = Some token)
      (\<lambda>r. (touch now r)\<lparr>progress_json := eff, checkpoint_json := c\<rparr>) s" by (rule update_job_cases)
  show ?case unfolding t using j_update(3)
    by (intro within_limits_update [OF j_update(3)]) (auto simp: same_job_def touch_def active_def within_limits_def)
next
  case (j_finish j chk fence i token status summary err now s t)
  from j_finish(1) obtain eff where t: "t = update_rows (\<lambda>r. row_job r = i \<and> row_status r = RUNNING \<and> row_token r = Some token)
     (\<lambda>r. (touch now r)\<lparr>row_status := status, summary_json := eff, error_code := err, row_token := None\<rparr>) s" by (rule finish_cases)
  show ?case unfolding t using j_finish(2,4)
    by (intro within_limits_update [OF j_finish(4)]) (auto simp: same_job_def touch_def active_def within_limits_def)
next
  case (j_change chk fence q s t r row)
  from j_change(1) obtain row' where own: "owned s (chg_owner q) (chg_module q) (chg_job q) = Inr row'"
    and c: "retry q \<and> retry_guards q row' s = Inr () \<and> t = retry_job (chg_job q) (chg_now q) s
     \<or> \<not> retry q \<and> active row' \<and> t = cancel_job (chg_job q) (chg_now q) s \<or> \<not> retry q \<and> \<not> active row' \<and> t = s" by (rule change_cases)
  have [simp]: "row' = row" using own j_change(2) by simp
  from owned_cases [OF own] have row: "row \<in> set (durable_jobs s)" "chg_job q = row_job row" "chg_owner q = row_owner row"
    "chg_module q = row_module row" by auto
  from c show ?case
  proof (elim disjE conjE)
    assume g: "retry_guards q row' s = Inr ()" and t: "t = retry_job (chg_job q) (chg_now q) s"
    show ?thesis unfolding t retry_job_def row(2)
      by (rule within_limits_retry [OF j_change(5,6) row(1)])
        (use retry_guards_cases(2,3) [OF g] j_change(3,4,7) row in \<open>simp_all add: same_job_def touch_def\<close>)
  next
    assume "active row'" and t: "t = cancel_job (chg_job q) (chg_now q) s"
    show ?thesis unfolding t cancel_job_def using j_change(6)
      by (intro within_limits_update [OF j_change(6)]) (auto simp: same_job_def touch_def active_def within_limits_def)
  qed (use j_change(6) in simp)
next
  case (j_reject s i code now)
  then show ?case unfolding reject_queued_def
    by (intro within_limits_update [of lm s]) (auto simp: same_job_def touch_def active_def within_limits_def)
next
  case (j_claim chk fence token row now s t out)
  then show ?case unfolding claim_eq [OF j_claim(1)]
    by (intro within_limits_update [of lm s]) (auto simp: same_job_def touch_def active_def within_limits_def claimable_def)
next
  case (j_recover s now)
  then show ?case unfolding recover_def
    by (intro within_limits_update [of lm s]) (auto simp: same_job_def touch_def active_def within_limits_def)
next
  case (j_expire s now)
  let ?t = "expire now s"
  have rows: "durable_jobs ?t = filter (\<lambda>r. \<not> (expires_at r \<le> now \<and> row_status r \<noteq> RUNNING)) (durable_jobs s)"
    by (simp add: expire_def delete_rows_def Let_def)
  have le: "length (filter P (filter Q xs)) \<le> length (filter P xs)" for P Q and xs :: "job_row list" by (induction xs) auto
  have "active_total ?t \<le> active_total s" unfolding active_total_def rows by (rule le)
  moreover have "active_of ?t o' m h \<le> active_of s o' m h" for o' m h unfolding active_of_def rows by (rule le)
  moreover have "set (durable_jobs ?t) \<subseteq> set (durable_jobs s)" unfolding rows by (rule filter_is_subset)
  ultimately show ?case using j_expire(2) unfolding within_limits_def by (meson order.trans subsetD)
qed

end
