(* ===== verification/Jobs_Properties.thy ===== *)
theory Jobs_Properties
  imports Jobs_Correct
begin

text \<open>
  What the durable jobs promise over every run of transactions from an empty store, and a
  concrete run of one job through its life cycle.
\<close>

section \<open>Further facts about runs\<close>

lemmas reachable_inv = jobs.run_inv [OF _ empty_db_inv]

lemma reachable_limits:
  assumes "(jobs_step fresh lm)\<^sup>*\<^sup>* s0 s" "empty_db s0" "0 \<le> byte_limit lm"
  shows "within_limits lm s"
  using assms
proof (induction rule: rtranclp_induct)
  case base
  then show ?case by (simp add: within_limits_def empty_db_def active_total_def active_of_def)
next
  case (step t u)
  then show ?case using step_within_limits reachable_inv by blast
qed

text \<open>A stored request leads its resubmission to the same job.\<close>

lemma submit_stored:
  assumes "submit j chk fence i q s = Inr (t, r)" "jobs_inv s" "request_key q = Some k"
  obtains params raw where "json_object j 262144 (sub_parameters q) = Inr (params, raw)" "input_digest r = input_hash j q raw"
    "map_of (job_requests t) (sub_owner q, sub_module q, k) = Some (input_hash j q raw, row_job r)"
    "owned t (sub_owner q) (sub_module q) (row_job r) = Inr r"
proof -
  have inv: "jobs_inv t" by (rule submit_inv [OF assms(1,2)])
  from assms(1) obtain params raw jid where c: "json_object j 262144 (sub_parameters q) = Inr (params, raw)"
    "map_of (job_requests t) (sub_owner q, sub_module q, k) = Some (input_hash j q raw, jid)"
    "owned t (sub_owner q) (sub_module q) jid = Inr r"
  proof (cases rule: submit_cases)
    case (replay params raw prev)
    then show ?thesis using assms(3) by (intro that [of params raw prev]) (simp_all add: previous_request_def)
  next
    case (run params raw db1 jid)
    from submit_job_inv [OF run(3) assms(2)] have "job_requests db1 = job_requests s" by blast
    then have "map_of (job_requests t) (sub_owner q, sub_module q, k) = Some (input_hash j q raw, jid)"
      using run(2,4) assms(3) by (simp add: previous_request_def add_request_def map_add_Some_iff)
    then show ?thesis using run(1,5) by (intro that [of params raw jid])
  qed
  from owned_cases [OF c(3)] have r: "r \<in> set (durable_jobs t)" "row_job r = jid" by auto
  from jobs_invD(4) [OF inv] have "\<forall>e \<in> set (job_requests t). \<exists>r \<in> set (durable_jobs t).
      (row_owner r, row_module r) = (fst (fst e), fst (snd (fst e))) \<and> snd e = (input_digest r, row_job r)"
    unfolding requests_ok_def ..
  from bspec [OF this map_of_SomeD [OF c(2)]] obtain r' where r': "r' \<in> set (durable_jobs t)"
    "snd ((sub_owner q, sub_module q, k), input_hash j q raw, jid) = (input_digest r', row_job r')" by (elim bexE conjE)
  have "r' = r" using job_unique [OF inv r'(1) r(1)] r'(2) r(2) by simp
  then show ?thesis using c r r'(2) by (intro that [of params raw]) simp_all
qed

text \<open>A page of results of a numbered job.\<close>

lemma sorted_page:
  assumes "map fst xs = [m..<m + length xs]"
  shows "filter (\<lambda>(n, _). k \<le> n) xs = drop (k - m) xs"
  using assms
proof (induction xs arbitrary: m)
  case (Cons x xs)
  have x: "fst x = m" and xs: "map fst xs = [Suc m..<Suc m + length xs]" using Cons.prems by (simp_all add: upt_conv_Cons del: upt_Suc)
  show ?case
  proof (cases "k \<le> m")
    case True
    then show ?thesis using Cons.IH [OF xs] x by (cases x) simp
  next
    case False
    then show ?thesis using Cons.IH [OF xs] x by (cases x) (simp add: drop_Cons')
  qed
qed simp

lemma results_page:
  assumes "numbered db i" "owned db o' m i = Inr r"
  shows "results db o' m i offset n = Inr (r, take (n + 1) (drop offset (map snd (results_of db i))))"
proof -
  have num: "map fst (results_of db i) = [0..<0 + length (results_of db i)]" using assms(1) by (simp add: numbered_def)
  have "sorted (map fst (drop offset (results_of db i)))" unfolding drop_map [symmetric] num by (simp add: drop_upt)
  then have "sort_key fst (drop offset (results_of db i)) = drop offset (results_of db i)" by (rule sort_key_id_if_sorted)
  then show ?thesis using sorted_page [OF num, of offset] assms(2) by (simp add: results_def take_map drop_map)
qed

text \<open>A job that waits has published nothing.\<close>

definition queued_clean :: "jobs_db \<Rightarrow> bool" where
  "queued_clean db \<longleftrightarrow> (\<forall>r \<in> set (durable_jobs db). row_status r = QUEUED \<longrightarrow> results_of db (row_job r) = [])"

lemma queued_clean_update:
  assumes "queued_clean s" "\<And>r. p r \<Longrightarrow> row_job (f r) = row_job r \<and> (row_status (f r) = QUEUED \<longrightarrow> row_status r = QUEUED)"
  shows "queued_clean (update_rows p f s)"
  using assms unfolding queued_clean_def by auto

lemma queued_clean_publish:
  assumes "publish j chk fence i token entries now b s = Inr t" "jobs_inv s" "queued_clean s"
  shows "queued_clean t"
proof -
  from publish_cases [OF assms(1,2)] obtain row encoded size eff where run: "running s i token = Inr row"
    and "rmap (json_object j 65536) entries = Inr encoded" "chk = Inr ()" "fence = Inr ()" "result_bytes row + size \<le> b"
      "0 \<le> result_bytes row + size"
    and t: "t = update_rows (\<lambda>r. row_job r = i) (\<lambda>r. (touch now r)\<lparr>result_bytes := result_bytes r + size, progress_json := eff\<rparr>)
      (s\<lparr>job_results := job_results s @ entries_from i (length (results_of s i)) encoded\<rparr>)" .
  from running_cases [OF run] have row: "row \<in> set (durable_jobs s)" "row_job row = i" "row_status row = RUNNING" by auto
  have "row_job r \<noteq> i" if "r \<in> set (durable_jobs s)" "row_status r = QUEUED" for r
    using job_unique [OF assms(2) that(1) row(1)] that(2) row(2,3) by auto
  then have "queued_clean (s\<lparr>job_results := job_results s @ entries_from i (length (results_of s i)) encoded\<rparr>)"
    using assms(3) unfolding queued_clean_def results_of_append by simp
  then show ?thesis unfolding t by (rule queued_clean_update) simp
qed

lemma queued_clean_submit:
  assumes "submit j chk fence i q s = Inr (t, r)" "jobs_inv s" "queued_clean s"
  shows "queued_clean t"
  using assms(1)
proof (cases rule: submit_cases)
  case (run params raw db1 jid)
  have same: "durable_jobs t = durable_jobs db1" "results_of t = results_of db1"
    by (simp_all add: run(4) add_request_def results_of_def fun_eq_iff split: option.split)
  from run(3) show ?thesis
  proof (cases rule: submit_job_cases)
    case existing
    then show ?thesis using same assms(3) by (simp add: queued_clean_def)
  next
    case new
    have "i \<notin> fst ` set (job_results s)" using new(4) jobs_invD(5) [OF assms(2)] by blast
    then have "results_of s i = []" by (force simp: results_of_def filter_empty_conv)
    then show ?thesis using same new(6) assms(3) by (auto simp: queued_clean_def results_of_def new_row_def)
  qed
qed (use assms(3) in simp)

lemma queued_clean_change:
  assumes "change chk fence q s = Inr (t, r)" "queued_clean s"
  shows "queued_clean t"
proof -
  let ?i = "chg_job q"
  let ?s = "s\<lparr>job_results := filter (\<lambda>(k, _). k \<noteq> ?i) (job_results s)\<rparr>"
  have res: "results_of ?s k = (if k = ?i then [] else results_of s k)" for k
  proof -
    have "filter (\<lambda>(j, _). j = k) (filter (\<lambda>(k, _). k \<noteq> ?i) xs) = (if k = ?i then [] else filter (\<lambda>(j, _). j = k) xs)"
      for xs :: "(string \<times> nat \<times> dict) list" by (induction xs) auto
    then show ?thesis by (simp add: results_of_def)
  qed
  from assms(1) obtain row where "retry q \<and> retry_guards q row s = Inr () \<and> t = retry_job ?i (chg_now q) s
     \<or> \<not> retry q \<and> active row \<and> t = cancel_job ?i (chg_now q) s \<or> \<not> retry q \<and> \<not> active row \<and> t = s" by (rule change_cases)
  then show ?thesis
  proof (elim disjE conjE)
    assume "t = retry_job ?i (chg_now q) s"
    then show ?thesis using assms(2) res by (auto simp: queued_clean_def retry_job_def)
  next
    assume "t = cancel_job ?i (chg_now q) s"
    then show ?thesis using queued_clean_update [OF assms(2)] by (simp add: cancel_job_def)
  qed (use assms(2) in simp)
qed

lemma queued_clean_expire: "queued_clean s \<Longrightarrow> queued_clean (expire now s)"
proof -
  assume q: "queued_clean s"
  have "filter (\<lambda>(k, _). k = i) xs = [] \<Longrightarrow> filter (\<lambda>(k, _). k = i) (filter P xs) = []" for P i and xs :: "(string \<times> nat \<times> dict) list"
    by (induction xs) (auto split: if_splits)
  with q show ?thesis unfolding queued_clean_def results_of_def expire_def delete_rows_def Let_def by simp
qed

lemma step_queued_clean: "jobs_step fresh lm s t \<Longrightarrow> jobs_inv s \<Longrightarrow> queued_clean s \<Longrightarrow> queued_clean t"
proof (induction rule: jobs_step.induct)
  case (j_update j chk fence i token progress checkpoint now s t)
  from j_update(1) show ?case by (rule update_job_cases) (use j_update(3) in \<open>auto intro: queued_clean_update\<close>)
next
  case (j_finish j chk fence i token status summary err now s t)
  from j_finish(1) show ?case by (rule finish_cases) (use j_finish(2,4) in \<open>auto intro: queued_clean_update\<close>)
next
  case (j_claim chk fence token row now s t out)
  then show ?case unfolding claim_eq [OF j_claim(1)] by (intro queued_clean_update) auto
qed (auto intro: queued_clean_submit queued_clean_publish queued_clean_change queued_clean_expire queued_clean_update
    simp: reject_queued_def recover_def)

lemma reachable_queued_clean:
  assumes "(jobs_step fresh lm)\<^sup>*\<^sup>* s0 s" "empty_db s0"
  shows "queued_clean s"
  using assms
proof (induction rule: rtranclp_induct)
  case base
  then show ?case by (simp add: queued_clean_def empty_db_def)
next
  case (step t u)
  then show ?case using step_queued_clean reachable_inv by blast
qed

section \<open>A run of one job\<close>

lemma json_empty: "2 \<le> n \<Longrightarrow> json_object j n (VMap []) = Inr ([], ''{}'')"
  by (simp add: json_object_def json_plain.simps utf8_length_def reraise_def)

lemma json_entries:
  assumes "20 \<le> n" "k < 10"
  shows "\<exists>raw. json_object j n (with_key [] ''result_entries'' (VInt (int k))) = Inr ([(VStr ''result_entries'', VInt (int k))], raw)
    \<and> utf8_length raw \<le> 20"
proof -
  have digit: "nat_text k = [char_of (48 + k)]" using assms(2) by (simp add: nat_text.simps [of k])
  have ascii: "(of_char (char_of (48 + k) :: char) :: nat) < 128" using assms(2) by simp
  show ?thesis using assms digit ascii
    by (simp add: json_object_def json_plain.simps utf8_length_def reraise_def with_key_def freeze_json.simps int_text_def quoted_def
        escape_char_def)
qed

lemma claim_queued:
  assumes "jobs_inv s" "r \<in> set (durable_jobs s)" "row_status r = QUEUED" "now < expires_at r"
  shows "claim (Inr ()) (Inr ()) token r now s =
    Inr (update_rows (claimable now (row_job r) (row_revision r)) (\<lambda>r. (touch now r)\<lparr>row_status := RUNNING, row_token := Some token\<rparr>) s,
      Some ((touch now r)\<lparr>row_status := RUNNING, row_token := Some token\<rparr>))"
proof -
  let ?p = "claimable now (row_job r) (row_revision r)"
  let ?g = "\<lambda>x. if ?p x then (touch now x)\<lparr>row_status := RUNNING, row_token := Some token\<rparr> else x"
  have r: "?p r" using assms(3,4) by (simp add: claimable_def)
  have only: "?p x \<longleftrightarrow> x = r" if "x \<in> set (durable_jobs s)" for x
    using job_unique [OF assms(1) that assms(2)] r by (auto simp: claimable_def)
  have dis: "distinct (durable_jobs s)" using jobs_invD(1) [OF assms(1)] by (simp add: distinct_map)
  have "set (filter ?p (durable_jobs s)) = {r}" using only assms(2) by auto
  then have one: "length (filter ?p (durable_jobs s)) = 1"
    using distinct_card [of "filter ?p (durable_jobs s)"] dis by simp
  have "find (\<lambda>x. row_job x = row_job r) (durable_jobs s) = Some r" by (rule find_job [OF assms(1,2)]) simp_all
  then have "find (\<lambda>x. row_job x = row_job r) (map ?g (durable_jobs s)) = Some (?g r)"
    using jobs_of_map [of "durable_jobs s" ?g "row_job r"] by simp
  then show ?thesis using one r by (simp add: claim_def Let_def)
qed

lemma finish_running:
  assumes "jobs_inv s" "r \<in> set (durable_jobs s)" "row_status r = RUNNING" "row_token r = Some token"
    and "results_of s (row_job r) = []"
  shows "\<exists>u. finish j (Inr ()) (Inr ()) (row_job r) token SUCCEEDED (VMap []) None now s = Inr u
    \<and> jobs_of u (row_job r) = Some \<lparr>phase = SUCCEEDED, job_revision = row_revision r + 1, holder = None\<rparr>"
proof -
  obtain eff raw where eff: "json_object j 65536 (with_key [] ''result_entries'' (VInt (int (length (results_of s (row_job r)))))) = Inr (eff, raw)"
    using json_entries [of 65536 0 j] assms(5) by auto
  let ?p = "\<lambda>x. row_job x = row_job r \<and> row_status x = RUNNING \<and> row_token x = Some token"
  let ?f = "\<lambda>x. (touch now x)\<lparr>row_status := SUCCEEDED, summary_json := eff, error_code := None, row_token := None\<rparr>"
  have "finish j (Inr ()) (Inr ()) (row_job r) token SUCCEEDED (VMap []) None now s = Inr (update_rows ?p ?f s)"
    using eff by (simp add: finish_def json_empty)
  moreover have "find (\<lambda>x. row_job x = row_job r) (durable_jobs s) = Some r" by (rule find_job [OF assms(1,2)]) simp_all
  then have "jobs_of (update_rows ?p ?f s) (row_job r) = Some \<lparr>phase = SUCCEEDED, job_revision = row_revision r + 1, holder = None\<rparr>"
    using jobs_of_map [of "durable_jobs s" "\<lambda>x. if ?p x then ?f x else x" "row_job r"] assms(3,4)
    by (simp add: jobs_of_def state_of_def)
  ultimately show ?thesis by blast
qed

text \<open>A job of one owner: submitted, claimed, published to and cancelled.\<close>

definition demo_env :: json_env where
  "demo_env = \<lparr>float_text = (\<lambda>_. ''0.0''), sha256_hex = (\<lambda>s. s)\<rparr>"

definition demo_limits :: job_limits where
  "demo_limits = \<lparr>owner_limit = (\<lambda>_ _. 1), queue_limit = 4, byte_limit = 100\<rparr>"

definition demo_db :: jobs_db where
  "demo_db = \<lparr>principals = [''o''], durable_jobs = [], job_requests = [], job_results = []\<rparr>"

definition demo_submission :: submission where
  "demo_submission = \<lparr>sub_owner = ''o'', sub_module = ''m'', sub_handler = ''h'', sub_declaration = ''1'', sub_parameters = VMap [],
     request_key = Some ''r'', sub_now = ''2026-01-01'', sub_expires = ''2026-01-09'', max_active = 1, max_queued = 4\<rparr>"

definition demo_row :: job_row where
  "demo_row = new_row demo_submission ''j'' [] ''h:1:{}''"

definition demo_submitted :: jobs_db where
  "demo_submitted = demo_db\<lparr>durable_jobs := [demo_row], job_requests := [((''o'', ''m'', ''r''), (''h:1:{}'', ''j''))]\<rparr>"

definition demo_run :: job_row where
  "demo_run = (touch ''2026-01-02'' demo_row)\<lparr>row_status := RUNNING, row_token := Some ''k''\<rparr>"

definition demo_claimed :: jobs_db where
  "demo_claimed = demo_submitted\<lparr>durable_jobs := [demo_run]\<rparr>"

definition demo_cancel :: change_request where
  "demo_cancel = \<lparr>chg_owner = ''o'', chg_module = ''m'', chg_job = ''j'', expected_revision = 2, retry = False, chg_now = ''2026-01-04'',
     chg_max_active = 1, chg_max_queued = 4\<rparr>"

lemma demo_empty: "empty_db demo_db"
  by (simp add: empty_db_def demo_db_def)

lemmas demo_rows = demo_run_def demo_row_def new_row_def demo_submission_def touch_def

lemma demo_submit: "submit demo_env (Inr ()) (Inr ()) ''j'' demo_submission demo_db = Inr (demo_submitted, demo_row)"
  by (simp add: submit_def demo_submission_def json_empty submit_job_def demo_db_def active_of_def active_total_def add_request_def
      input_hash_def demo_env_def demo_submitted_def demo_row_def new_row_def owned_def Let_def)

lemma demo_claim: "claim (Inr ()) (Inr ()) ''k'' demo_row ''2026-01-02'' demo_submitted = Inr (demo_claimed, Some demo_run)"
  by (simp add: claim_def claimable_def demo_submitted_def demo_claimed_def update_rows_def demo_db_def demo_rows)

lemma demo_reaches:
  "(jobs_step (\<lambda>x. x = ''k'') demo_limits)\<^sup>*\<^sup>* demo_db demo_submitted"
  "(jobs_step (\<lambda>x. x = ''k'') demo_limits)\<^sup>*\<^sup>* demo_db demo_claimed"
proof -
  have "jobs_step (\<lambda>x. x = ''k'') demo_limits demo_db demo_submitted"
    by (rule j_submit [OF demo_submit]) (simp_all add: demo_limits_def demo_submission_def)
  then show one: "(jobs_step (\<lambda>x. x = ''k'') demo_limits)\<^sup>*\<^sup>* demo_db demo_submitted" by (rule r_into_rtranclp)
  have "jobs_step (\<lambda>x. x = ''k'') demo_limits demo_submitted demo_claimed"
    by (rule j_claim [OF demo_claim]) (rule refl)
  with one show "(jobs_step (\<lambda>x. x = ''k'') demo_limits)\<^sup>*\<^sup>* demo_db demo_claimed" by (rule rtranclp.rtrancl_into_rtrancl)
qed

lemma demo_inv: "jobs_inv demo_submitted" "jobs_inv demo_claimed"
  using demo_reaches [THEN reachable_inv] demo_empty by simp_all

lemma demo_publish:
  obtains t row where "publish demo_env (Inr ()) (Inr ()) ''j'' ''k'' [VMap []] ''2026-01-03'' 100 demo_claimed = Inr t"
    "owned t ''o'' ''m'' ''j'' = Inr row"
proof -
  obtain raw where "json_object demo_env 16384 (with_key [] ''result_entries'' (VInt (int 1))) = Inr ([(VStr ''result_entries'', VInt (int 1))], raw)"
    using json_entries [of 16384 1 demo_env] by auto
  then have "\<exists>t row. publish demo_env (Inr ()) (Inr ()) ''j'' ''k'' [VMap []] ''2026-01-03'' 100 demo_claimed = Inr t
      \<and> owned t ''o'' ''m'' ''j'' = Inr row"
    by (simp add: publish_def json_empty resource_size_def dict_get_def demo_claimed_def demo_submitted_def demo_db_def running_def demo_rows
        next_sequence_def results_of_def utf8_length_def owned_def update_rows_def)
  then show ?thesis using that by blast
qed

lemma demo_change:
  "change (Inr ()) (Inr ()) demo_cancel demo_claimed =
     Inr (cancel_job ''j'' ''2026-01-04'' demo_claimed, (touch ''2026-01-04'' demo_run)\<lparr>row_status := CANCELLED, row_token := None\<rparr>)"
  by (simp add: change_def demo_cancel_def owned_def demo_claimed_def demo_submitted_def demo_db_def cancel_job_def update_rows_def
      active_def demo_rows)

section \<open>Properties\<close>

text \<open>C26: every run of job transactions from an empty store is a run of the abstract life cycle: a
  job appears queued at revision 1, moves only along the allowed transitions with its revision
  raised by one each time, holds a run token exactly while it runs, keeps that token until it
  stops, and is dropped only while it does not run.
\<close>

theorem jobs_follow_lifecycle:
  assumes "empty_db s0" "(jobs_step fresh lm)\<^sup>*\<^sup>* s0 s"
  shows "life_step\<^sup>*\<^sup>* (\<lambda>_. None) (jobs_of s)"
proof -
  have "jobs_of s0 = (\<lambda>_. None)" using assms(1) by (simp add: fun_eq_iff jobs_of_def empty_db_def)
  then show ?thesis using jobs.run_sim [OF assms(2) empty_db_inv [OF assms(1)]] by simp
qed

theorem jobs_follow_lifecycle_witness:
  "empty_db demo_db \<and> life_step\<^sup>*\<^sup>* (\<lambda>_. None) (jobs_of demo_claimed)
   \<and> jobs_of demo_claimed ''j'' = Some \<lparr>phase = RUNNING, job_revision = 2, holder = Some ''k''\<rparr>"
  using jobs_follow_lifecycle [OF demo_empty demo_reaches(2)] demo_empty
  by (simp add: jobs_of_def state_of_def demo_claimed_def demo_rows)

text \<open>C27: a run that lost its token cannot write.  Once no row holds the token (the job was
  cancelled, retried, finished or interrupted by a restart), then after any further transactions
  that draw other tokens no progress and no result is accepted for it, and finishing it changes
  nothing.
\<close>

theorem stale_run_cannot_write:
  assumes "\<forall>r \<in> set (durable_jobs s). row_token r \<noteq> Some k" "(jobs_step (\<lambda>x. x \<noteq> k) lm)\<^sup>*\<^sup>* s t"
  shows "isl (update_job j chk fence i k progress checkpoint now t) \<and> isl (publish j chk fence i k entries now b t)
    \<and> (finish j chk fence i k status summary err now t = Inr u \<longrightarrow> u = t)"
proof -
  have none: "row_token r \<noteq> Some k" if "r \<in> set (durable_jobs t)" for r using run_tokens [OF assms(2,1)] that by blast
  then have "find (\<lambda>r. row_job r = i \<and> row_status r = RUNNING \<and> row_token r = Some k) (durable_jobs t) = None" by (simp add: find_None_iff)
  then have run: "running t i k = Inl (JobError ''job_run_revoked'')" by (simp add: running_def)
  have "update_job j chk fence i k progress checkpoint now t \<noteq> Inr x" for x
    using run by (auto simp: update_job_def Let_def rbind_eq_Inr)
  moreover have "publish j chk fence i k entries now b t \<noteq> Inr x" for x
    using run by (auto simp: publish_def Let_def rbind_eq_Inr)
  moreover have "u = t" if "finish j chk fence i k status summary err now t = Inr u"
    using that by (rule finish_cases) (simp add: update_rows_def none cong: map_cong)
  ultimately show ?thesis by (simp add: sum.collapse isl_def) (metis sum.exhaust)
qed

theorem stale_run_cannot_write_witness:
  "isl (publish demo_env (Inr ()) (Inr ()) ''j'' ''k'' [VMap []] ''2026-01-05'' 100 (cancel_job ''j'' ''2026-01-04'' demo_claimed))
   \<and> \<not> isl (publish demo_env (Inr ()) (Inr ()) ''j'' ''k'' [VMap []] ''2026-01-03'' 100 demo_claimed)"
proof
  have "\<forall>r \<in> set (durable_jobs (cancel_job ''j'' ''2026-01-04'' demo_claimed)). row_token r \<noteq> Some ''k''"
    by (simp add: cancel_job_def demo_claimed_def demo_rows)
  from stale_run_cannot_write [OF this rtranclp.rtrancl_refl]
  show "isl (publish demo_env (Inr ()) (Inr ()) ''j'' ''k'' [VMap []] ''2026-01-05'' 100 (cancel_job ''j'' ''2026-01-04'' demo_claimed))"
    by blast
  show "\<not> isl (publish demo_env (Inr ()) (Inr ()) ''j'' ''k'' [VMap []] ''2026-01-03'' 100 demo_claimed)"
    by (rule demo_publish) simp
qed

text \<open>C28: the capacity limits hold in every reachable store: at most the queue limit of jobs are
  queued or running, at most the declared number for one owner and handler, and no job holds
  more result bytes than its limit.
\<close>

theorem job_capacity_bounds:
  assumes "empty_db s0" "(jobs_step fresh lm)\<^sup>*\<^sup>* s0 s" "0 \<le> byte_limit lm"
  shows "active_total s \<le> queue_limit lm \<and> active_of s owner m h \<le> owner_limit lm m h
    \<and> list_all (\<lambda>r. result_bytes r \<le> byte_limit lm) (durable_jobs s)"
  using reachable_limits [OF assms(2,1,3)] by (simp add: within_limits_def list_all_iff)

theorem job_capacity_bounds_witness:
  "active_total demo_claimed = 1 \<and> active_total demo_claimed \<le> queue_limit demo_limits
   \<and> active_of demo_claimed ''o'' ''m'' ''h'' \<le> owner_limit demo_limits ''m'' ''h''"
  using job_capacity_bounds [OF demo_empty demo_reaches(2), of "''o''" "''m''" "''h''"]
  by (simp add: demo_limits_def active_total_def demo_claimed_def active_def demo_rows)

text \<open>C35: submission is idempotent.  When a submission with a request key succeeded, submitting the
  same input again under that key (at any time, with any limits) returns the same job and
  changes no table.
\<close>

theorem resubmission_returns_same_job:
  assumes "empty_db s0" "(jobs_step fresh lm)\<^sup>*\<^sup>* s0 s"
    and "submit j chk fence i q s = Inr (t, r)" "request_key q = Some k"
  shows "submit j (Inr ()) fence' i' (q\<lparr>sub_now := now, sub_expires := expires, max_active := a, max_queued := b\<rparr>) t = Inr (t, r)"
  using assms(3) reachable_inv [OF assms(2,1)] assms(4)
  by (rule submit_stored) (simp add: submit_def assms(4) input_hash_def)

theorem resubmission_returns_same_job_witness:
  "submit demo_env (Inr ()) (Inr ()) ''j2'' (demo_submission\<lparr>sub_now := ''2026-01-03'', sub_expires := ''2026-01-10'', max_active := 0,
     max_queued := 0\<rparr>) demo_submitted = Inr (demo_submitted, demo_row)"
  by (rule resubmission_returns_same_job [OF demo_empty rtranclp.rtrancl_refl demo_submit, where k = "''r''"])
    (simp add: demo_submission_def)

text \<open>A request key is bound to its input.  When a submission succeeded, a later submission of
  the same owner and module under the same key whose input has another digest is refused as a
  conflict.
\<close>

theorem request_key_conflict:
  assumes "empty_db s0" "(jobs_step fresh lm)\<^sup>*\<^sup>* s0 s"
    and "submit j chk fence i q s = Inr (t, r)" "request_key q = Some k"
    and "sub_owner q' = sub_owner q" "sub_module q' = sub_module q" "request_key q' = Some k"
    and "json_object j 262144 (sub_parameters q') = Inr (params, raw)" "input_hash j q' raw \<noteq> input_digest r"
  shows "submit j (Inr ()) fence' i' q' t = Inl (JobError ''job_request_conflict'')"
  using assms(3) reachable_inv [OF assms(2,1)] assms(4)
  by (rule submit_stored) (use assms(5-9) in \<open>auto simp: submit_def\<close>)

theorem request_key_conflict_witness:
  "submit demo_env (Inr ()) (Inr ()) ''j2'' (demo_submission\<lparr>sub_handler := ''h2''\<rparr>) demo_submitted
     = Inl (JobError ''job_request_conflict'')"
  by (rule request_key_conflict [OF demo_empty rtranclp.rtrancl_refl demo_submit, where k = "''r''" and params = "[]" and raw = "''{}''"])
    (simp_all add: demo_submission_def json_empty input_hash_def demo_env_def demo_row_def new_row_def)

text \<open>C34: what is published is what is read back: after a publication every page of the job's
  results is the corresponding part of the earlier entries followed by the canonical forms of
  the new ones, in order.
\<close>

theorem published_entries_are_read_back:
  assumes "empty_db s0" "(jobs_step fresh lm)\<^sup>*\<^sup>* s0 s"
    and "publish j chk fence i token entries now b s = Inr t" "owned t owner m i = Inr row"
  shows "\<exists>encoded. rmap (json_object j 65536) entries = Inr encoded
    \<and> (\<forall>offset limit. results t owner m i offset limit
         = Inr (row, take (limit + 1) (drop offset (map snd (results_of s i) @ map fst encoded))))"
proof -
  have inv: "jobs_inv s" by (rule reachable_inv [OF assms(2,1)])
  from publish_cases [OF assms(3) inv] obtain r encoded size eff where "running s i token = Inr r"
    and enc: "rmap (json_object j 65536) entries = Inr encoded" and "chk = Inr ()" "fence = Inr ()" "result_bytes r + size \<le> b"
      "0 \<le> result_bytes r + size"
    and t: "t = update_rows (\<lambda>r. row_job r = i) (\<lambda>r. (touch now r)\<lparr>result_bytes := result_bytes r + size, progress_json := eff\<rparr>)
      (s\<lparr>job_results := job_results s @ entries_from i (length (results_of s i)) encoded\<rparr>)" .
  have "map snd (results_of t i) = map snd (results_of s i) @ map fst encoded" by (simp add: t results_of_append)
  moreover have "numbered t i" using jobs_invD(6) [OF publish_inv [OF assms(3) inv]] .
  ultimately show ?thesis using results_page [OF _ assms(4)] enc by auto
qed

theorem published_entries_are_read_back_witness:
  "\<exists>t row. publish demo_env (Inr ()) (Inr ()) ''j'' ''k'' [VMap []] ''2026-01-03'' 100 demo_claimed = Inr t
     \<and> results t ''o'' ''m'' ''j'' 0 10 = Inr (row, [[]])"
proof -
  obtain t row where t: "publish demo_env (Inr ()) (Inr ()) ''j'' ''k'' [VMap []] ''2026-01-03'' 100 demo_claimed = Inr t"
    and row: "owned t ''o'' ''m'' ''j'' = Inr row" by (rule demo_publish)
  have "results_of demo_claimed ''j'' = []" by (simp add: demo_claimed_def demo_submitted_def demo_db_def results_of_def)
  with published_entries_are_read_back [OF demo_empty demo_reaches(2) t row]
  have "results t ''o'' ''m'' ''j'' 0 10 = Inr (row, [[]])" by (auto simp: json_empty)
  with t show ?thesis by blast
qed

text \<open>recovery at start-up interrupts exactly the running jobs: they lose their token and move
  to the interrupted state, every other job, all requests and all results stay as they were.
\<close>

theorem recovery_interrupts_runs:
  assumes "empty_db s0" "(jobs_step fresh lm)\<^sup>*\<^sup>* s0 s"
  shows "jobs_of (recover now s) = (\<lambda>i. map_option (\<lambda>a. if phase a = RUNNING
      then \<lparr>phase = INTERRUPTED, job_revision = job_revision a + 1, holder = None\<rparr> else a) (jobs_of s i))
    \<and> list_all (\<lambda>r. row_token r = None) (durable_jobs (recover now s))
    \<and> job_requests (recover now s) = job_requests s \<and> job_results (recover now s) = job_results s"
proof -
  have inv: "jobs_inv s" by (rule reachable_inv [OF assms(2,1)])
  have "row_token r = None" if "r \<in> set (durable_jobs s)" "row_status r \<noteq> RUNNING" for r
    using row_okD [OF inv that(1)] that(2) by (simp add: row_ok_def)
  then have "list_all (\<lambda>r. row_token r = None) (durable_jobs (recover now s))"
    by (auto simp: recover_def list_all_iff)
  then show ?thesis
    by (auto simp: recover_def jobs_of_def jobs_of_map fun_eq_iff option.map_comp state_of_def intro!: option.map_cong)
qed

theorem recovery_interrupts_runs_witness:
  "jobs_of demo_claimed ''j'' = Some \<lparr>phase = RUNNING, job_revision = 2, holder = Some ''k''\<rparr>
   \<and> jobs_of (recover ''2026-01-05'' demo_claimed) ''j'' = Some \<lparr>phase = INTERRUPTED, job_revision = 3, holder = None\<rparr>"
proof -
  have "jobs_of demo_claimed ''j'' = Some \<lparr>phase = RUNNING, job_revision = 2, holder = Some ''k''\<rparr>"
    by (simp add: jobs_of_def state_of_def demo_claimed_def demo_rows)
  then show ?thesis using recovery_interrupts_runs [OF demo_empty demo_reaches(2), of "''2026-01-05''"] by simp
qed

text \<open>a queued job that has not expired can be run to success: claiming it with the row as it
  was read gives the worker the job, running under the new token, and finishing that run leaves
  the job succeeded.
\<close>

theorem queued_job_can_succeed:
  assumes "empty_db s0" "(jobs_step fresh lm)\<^sup>*\<^sup>* s0 s"
    and "r \<in> set (durable_jobs s)" "row_status r = QUEUED" "now < expires_at r"
  shows "\<exists>t r' u. claim (Inr ()) (Inr ()) token r now s = Inr (t, Some r') \<and> row_status r' = RUNNING \<and> row_token r' = Some token
    \<and> finish j (Inr ()) (Inr ()) (row_job r) token SUCCEEDED (VMap []) None later t = Inr u
    \<and> jobs_of u (row_job r) = Some \<lparr>phase = SUCCEEDED, job_revision = row_revision r + 2, holder = None\<rparr>"
proof -
  have inv: "jobs_inv s" by (rule reachable_inv [OF assms(2,1)])
  let ?r = "(touch now r)\<lparr>row_status := RUNNING, row_token := Some token\<rparr>"
  let ?t = "update_rows (claimable now (row_job r) (row_revision r)) (\<lambda>r. (touch now r)\<lparr>row_status := RUNNING, row_token := Some token\<rparr>) s"
  have claim: "claim (Inr ()) (Inr ()) token r now s = Inr (?t, Some ?r)" by (rule claim_queued [OF inv assms(3-5)])
  have row: "?r \<in> set (durable_jobs ?t)" using assms(3-5) by (force simp: claimable_def)
  have none: "results_of ?t (row_job ?r) = []"
    using reachable_queued_clean [OF assms(2,1)] assms(3,4) by (simp add: queued_clean_def)
  from finish_running [OF claim_inv [OF claim inv] row _ _ none, of token j later] claim show ?thesis by auto
qed

theorem queued_job_can_succeed_witness:
  "\<exists>t r' u. claim (Inr ()) (Inr ()) ''k'' demo_row ''2026-01-02'' demo_submitted = Inr (t, Some r') \<and> row_status r' = RUNNING
    \<and> row_token r' = Some ''k''
    \<and> finish demo_env (Inr ()) (Inr ()) ''j'' ''k'' SUCCEEDED (VMap []) None ''2026-01-03'' t = Inr u
    \<and> jobs_of u ''j'' = Some \<lparr>phase = SUCCEEDED, job_revision = 3, holder = None\<rparr>"
  using queued_job_can_succeed [OF demo_empty demo_reaches(1), of demo_row "''2026-01-02''" "''k''" demo_env "''2026-01-03''"]
  by (simp add: demo_submitted_def demo_row_def new_row_def demo_submission_def)

text \<open>The tables stay consistent: job identifiers are unique, a row holds a run token exactly
  while it runs, no two active jobs of an owner and module share handler and input, every
  result belongs to a job, and the results of a job are numbered from 0 without gaps.
\<close>

theorem job_tables_consistent:
  assumes "empty_db s0" "(jobs_step fresh lm)\<^sup>*\<^sup>* s0 s"
  shows "distinct (map row_job (durable_jobs s)) \<and> list_all (\<lambda>r. row_token r \<noteq> None \<longleftrightarrow> row_status r = RUNNING) (durable_jobs s)
    \<and> distinct (map input_of (filter active (durable_jobs s)))
    \<and> fst ` set (job_results s) \<subseteq> row_job ` set (durable_jobs s)
    \<and> map fst (results_of s i) = [0..<length (results_of s i)]"
proof -
  have inv: "jobs_inv s" by (rule reachable_inv [OF assms(2,1)])
  have "inj_on input_of (set (filter active (durable_jobs s)))"
    using unique_activeD [OF inv] by (auto intro!: inj_onI)
  moreover have "distinct (durable_jobs s)" using jobs_invD(1) [OF inv] by (simp add: distinct_map)
  ultimately have "distinct (map input_of (filter active (durable_jobs s)))" by (simp add: distinct_map)
  moreover have "list_all (\<lambda>r. row_token r \<noteq> None \<longleftrightarrow> row_status r = RUNNING) (durable_jobs s)"
    using row_okD [OF inv] by (auto simp: list_all_iff row_ok_def)
  ultimately show ?thesis using jobs_invD [OF inv] unfolding numbered_def by simp
qed

theorem job_tables_consistent_witness:
  "durable_jobs demo_claimed = [demo_run] \<and> distinct (map row_job (durable_jobs demo_claimed))"
  using job_tables_consistent [OF demo_empty demo_reaches(2)] by (simp add: demo_claimed_def)

end
