(* ===== verification/Health.thy ===== *)
theory Health
  imports Lifecycle "HOL-Library.Sublist"
begin

text \<open>
  The health of capabilities (\<open>core/health.py\<close>): the readiness of configuration and sources,
  kept per module run, combined on each query with the lifecycle's report and the health of the
  capabilities it depends on.  The sections of \<open>prepare\<close> and \<open>refresh_source\<close> that hold the
  mutation lock are separate steps; between them other operations run, and what was loaded
  meanwhile is an argument.
\<close>

section \<open>Configuration snapshots\<close>

datatype secret_state = SECRET_ACTIVE | TOMBSTONED

record secret_ref =
  secret_token :: string
  secret_principal :: string
  secret_module :: string
  secret_field :: string
  secret_operation :: string

record secret_metadata =
  meta_field :: string
  meta_ref :: "secret_ref option"
  meta_revision :: int
  meta_state :: secret_state

record config_target =
  target_principal :: string
  target_module :: string

record config_snapshot =
  config_revision :: int
  config_values :: pyval
  secrets :: "secret_metadata list"
  target :: "config_target option"

definition check_SecretRef :: "secret_ref \<Rightarrow> unit res" where
  "check_SecretRef r =
     rbind (for_each (\<lambda>s. ensure (s \<noteq> [] \<and> \<not> list_ex (\<lambda>c. is_space c \<or> c = CHR ''/'' \<or> c = CHR 0x5C) s) ValueError)
       [secret_token r, secret_principal r, secret_field r, secret_operation r]) (\<lambda>_.
     rbind (validate_module_id (secret_module r)) (\<lambda>_.
     ensure (starts_with ''secret_'' (secret_token r)) ValueError))"

definition check_SecretMetadata :: "secret_metadata \<Rightarrow> unit res" where
  "check_SecretMetadata m =
     rbind (case meta_ref m of None \<Rightarrow> Inr () | Some r \<Rightarrow> check_SecretRef r) (\<lambda>_.
     rbind (ensure (\<not> blank (meta_field m)) ValueError) (\<lambda>_.
     rbind (ensure (1 \<le> meta_revision m) ValueError) (\<lambda>_.
     rbind (ensure (\<not> (meta_state m = SECRET_ACTIVE \<and> meta_ref m = None)) ValueError) (\<lambda>_.
     ensure (\<not> (meta_state m = TOMBSTONED \<and> meta_ref m \<noteq> None)) ValueError))))"

definition check_ConfigTarget :: "config_target \<Rightarrow> unit res" where
  "check_ConfigTarget t =
     rbind (ensure (\<not> blank (target_principal t)) ValueError) (\<lambda>_.
     rbind (ensure (\<not> list_ex (\<lambda>c. c = CHR ''/'' \<or> c = CHR 0x5C \<or> c = CHR 0x0A) (target_principal t)) ValueError) (\<lambda>_.
     validate_module_id (target_module t)))"

text \<open>
  \<open>_SENSITIVE_FIELD.search\<close>, without regard to case: a word between separators or the ends,
  where the end may be followed by one newline.
\<close>

fun word :: "string \<Rightarrow> regex" where
  "word [] = Eps"
| "word (c # cs) = Seq (lit c) (word cs)"

fun words :: "string list \<Rightarrow> regex" where
  "words [] = Never"
| "words (w # ws) = Alt (word w) (words ws)"

definition SENSITIVE_FIELD :: regex where
  "SENSITIVE_FIELD = (let any = Star (Cls [(0, 255)]); sep = Cls [(95, 95), (45, 45), (46, 46)] in
     Seq (opt (Seq any sep))
       (Seq (Alt (Seq (word ''api'') (Seq (opt sep) (word ''key'')))
          (words [''auth'', ''authorization'', ''bearer'', ''cookie'', ''credential'', ''key'', ''password'', ''private'', ''refresh'',
                  ''secret'', ''token'']))
       (Alt Eps (Alt (Cls [(10, 10)]) (Seq sep any)))))"

definition is_sensitive_field :: "string \<Rightarrow> bool" where
  "is_sensitive_field f =
     (let l = casefold f; normalized = filter (in_class [(97, 122), (48, 57)]) l in
      fullmatch SENSITIVE_FIELD l
      \<or> list_ex (\<lambda>marker. sublist marker normalized)
          [''apikey'', ''accesskey'', ''auth'', ''bearer'', ''cookie'', ''credential'', ''password'', ''passwd'', ''pwd'', ''pin'',
           ''privatekey'', ''refreshtoken'', ''sessionid'', ''secret'', ''signingkey'', ''token''])"

function (sequential) snapshot_values_ok :: "pyval \<Rightarrow> unit res" where
  "snapshot_values_ok v = (case v of
     VMap kvs \<Rightarrow>
       for_each (\<lambda>kv. rbind (case fst kv of
           VStr k \<Rightarrow> ensure (is_sensitive_field k \<longrightarrow>
             (case snd kv of VStr s \<Rightarrow> s \<in> {''configured'', ''unset'', ''redacted'', ''disabled'', ''unavailable'', ''present''} | _ \<Rightarrow> False))
             ValueError
         | _ \<Rightarrow> Inr ()) (\<lambda>_. snapshot_values_ok (snd kv))) kvs
   | VTuple vs \<Rightarrow> for_each snapshot_values_ok vs
   | _ \<Rightarrow> Inr ())"
  by pat_completeness auto
termination
  by (relation "measure size")
    (auto simp: less_Suc_eq_le intro: size_list_estimation' [where f = size]
       size_list_estimation' [where f = "size_prod size size"])

declare snapshot_values_ok.simps [simp del]

text \<open>\<open>validate_contract\<close> of a snapshot: its contents, then its own check.\<close>

definition validate_ConfigSnapshot :: "config_snapshot \<Rightarrow> config_snapshot res" where
  "validate_ConfigSnapshot c =
     rbind (visit 1 (config_values c)) (\<lambda>_.
     rbind (for_each check_SecretMetadata (secrets c)) (\<lambda>_.
     rbind (case target c of None \<Rightarrow> Inr () | Some t \<Rightarrow> check_ConfigTarget t) (\<lambda>_.
     rbind (ensure (1 \<le> config_revision c) ValueError) (\<lambda>_.
     rbind (freeze_json (config_values c)) (\<lambda>v.
     rbind (ensure (is_map v) TypeError) (\<lambda>_.
     rbind (ensure (distinct (map meta_field (secrets c))) ValueError) (\<lambda>_.
     rbind (for_each (\<lambda>m. ensure (case meta_ref m of None \<Rightarrow> True | Some r \<Rightarrow> secret_field r = meta_field m) ValueError) (secrets c)) (\<lambda>_.
     rbind (snapshot_values_ok v) (\<lambda>_.
     Inr (c\<lparr>config_values := v\<rparr>))))))))))"

section \<open>The resolver\<close>

definition UNKNOWN_CONFIG :: cap_health where "UNKNOWN_CONFIG = (UNKNOWN, Some ''configuration_unknown'')"

definition MISSING_CONFIG :: cap_health where "MISSING_CONFIG = (UNAVAILABLE, Some ''configuration_missing'')"

definition UNKNOWN_SOURCE :: cap_health where "UNKNOWN_SOURCE = (UNKNOWN, Some ''source_unknown'')"

definition UNKNOWN_DEPENDENCY :: cap_health where "UNKNOWN_DEPENDENCY = (UNKNOWN, Some ''dependency_unknown'')"

definition UNAVAILABLE_DEPENDENCY :: cap_health where "UNAVAILABLE_DEPENDENCY = (UNAVAILABLE, Some ''dependency_unavailable'')"

record config_readiness =
  ready_revision :: int
  ready_fields :: "string \<rightharpoonup> cap_health"

record run_health =
  health_identity :: run_ref
  health_sources :: "string \<rightharpoonup> cap_health"
  health_generations :: "string \<rightharpoonup> int"
  health_revisions :: "string \<rightharpoonup> int"
  last_health :: "string \<rightharpoonup> cap_health"

text \<open>A run is a mutable object: the table holds its address with its contents.\<close>

record resolver =
  bound :: bool
  configs :: "string \<rightharpoonup> config_readiness"
  runs :: "string \<rightharpoonup> nat \<times> run_health"
  source_generations :: "string \<times> string \<rightharpoonup> int"
  next_run :: nat

definition resolver_init :: resolver where
  "resolver_init = \<lparr>bound = False, configs = Map.empty, runs = Map.empty, source_generations = Map.empty, next_run = 0\<rparr>"

text \<open>\<open>same\<close>: the lifecycle works with the admission gate it is bound together with.\<close>

definition bind_runtime :: "bool \<Rightarrow> resolver \<Rightarrow> resolver res" where
  "bind_runtime same s =
     rbind (ensure same ValueError) (\<lambda>_.
     rbind (ensure (\<not> bound s) RuntimeError) (\<lambda>_. Inr (s\<lparr>bound := True\<rparr>)))"

definition runtime :: "resolver \<Rightarrow> unit res" where
  "runtime s = ensure (bound s) RuntimeError"

definition registered_manifest :: "lifecycle_env \<Rightarrow> string \<Rightarrow> module_manifest res" where
  "registered_manifest e mid = (case snapshot_module (lc_registry e) mid of Inl _ \<Rightarrow> Inl ValueError | Inr m \<Rightarrow> Inr (manifest (contents m)))"

definition same_run :: "lifecycle_env \<Rightarrow> string \<Rightarrow> run_ref \<Rightarrow> bool \<Rightarrow> bool" where
  "same_run e mid r starting = (case lifecycle_state_of e mid of
     Inl _ \<Rightarrow> False
   | Inr st \<Rightarrow> opt_is (identity st) r \<and> lifecycle st \<in> (if starting then {STARTING, ACTIVE} else {ACTIVE}))"

section \<open>Readiness of configuration and sources\<close>

definition secret_ready :: "config_target \<Rightarrow> string \<Rightarrow> secret_metadata option \<Rightarrow> bool" where
  "secret_ready t name item = (case item of
     None \<Rightarrow> False
   | Some m \<Rightarrow> meta_state m = SECRET_ACTIVE \<and> (case meta_ref m of
       None \<Rightarrow> False
     | Some r \<Rightarrow> secret_field r = name \<and> secret_module r = target_module t \<and> secret_principal r = target_principal t \<and> secret_token r \<noteq> []))"

definition field_health :: "config_snapshot \<Rightarrow> config_target \<Rightarrow> config_field \<Rightarrow> cap_health" where
  "field_health c t f =
     (if \<not> sensitive f then
        (if (case config_values c of VMap d \<Rightarrow> dict_get d (cfg_name f) \<noteq> None | _ \<Rightarrow> False) then (AVAILABLE, None) else MISSING_CONFIG)
      else if secret_ready t (cfg_name f) (map_of (rev (map (\<lambda>m. (meta_field m, m)) (secrets c))) (cfg_name f)) then (AVAILABLE, None)
      else MISSING_CONFIG)"

text \<open>
  Later declarations of a name replace earlier ones in the dictionary.  The manifest itself was
  validated when it was registered.
\<close>

definition declarations :: "module_manifest \<Rightarrow> string \<rightharpoonup> config_field" where
  "declarations m = map_of (rev (map (\<lambda>f. (cfg_name f, f)) (config_fields m)))"

definition readiness :: "string \<Rightarrow> module_manifest \<Rightarrow> config_snapshot \<Rightarrow> config_readiness res" where
  "readiness mid m c =
     rbind (validate_ConfigSnapshot c) (\<lambda>c'.
     Inr (case target c' of
         Some t \<Rightarrow>
           if target_module t = mid then \<lparr>ready_revision = config_revision c', ready_fields = (\<lambda>n. map_option (field_health c' t) (declarations m n))\<rparr>
           else \<lparr>ready_revision = config_revision c', ready_fields = (\<lambda>n. map_option (\<lambda>_. UNKNOWN_CONFIG) (declarations m n))\<rparr>
       | None \<Rightarrow> \<lparr>ready_revision = config_revision c', ready_fields = (\<lambda>n. map_option (\<lambda>_. UNKNOWN_CONFIG) (declarations m n))\<rparr>))"

text \<open>What \<open>_load_config\<close> and \<open>_load_source\<close> make of the answer of the loader and of the provider.\<close>

definition load_config :: "string \<Rightarrow> module_manifest \<Rightarrow> config_snapshot res \<Rightarrow> config_snapshot option" where
  "load_config mid m answer = (if config_fields m = [] then None else case answer of
     Inl _ \<Rightarrow> None
   | Inr c \<Rightarrow> (case target c of None \<Rightarrow> None | Some t \<Rightarrow> if target_module t = mid then Some c else None))"

definition load_source :: "cap_health res option \<Rightarrow> cap_health" where
  "load_source answer = (case answer of
     Some (Inr (AVAILABLE, _)) \<Rightarrow> (AVAILABLE, None)
   | Some (Inr (UNAVAILABLE, _)) \<Rightarrow> (UNAVAILABLE, Some ''source_unavailable'')
   | _ \<Rightarrow> UNKNOWN_SOURCE)"

section \<open>Effective health\<close>

definition dependency_target :: "string \<Rightarrow> capability_dependency \<Rightarrow> string \<times> string" where
  "dependency_target mid d = (case d of LocalCapability c \<Rightarrow> (mid, c) | CapabilityReference m c \<Rightarrow> (m, c))"

definition config_results :: "resolver \<Rightarrow> string \<Rightarrow> capability_descriptor \<Rightarrow> cap_health list" where
  "config_results s mid d = map (\<lambda>n. case configs s mid of
     None \<Rightarrow> UNKNOWN_CONFIG | Some c \<Rightarrow> (case ready_fields c n of None \<Rightarrow> MISSING_CONFIG | Some h \<Rightarrow> h)) (required_config d)"

definition source_results :: "resolver \<Rightarrow> string \<Rightarrow> run_ref \<Rightarrow> capability_descriptor \<Rightarrow> cap_health list" where
  "source_results s mid r d = map (\<lambda>n. case runs s mid of
     None \<Rightarrow> UNKNOWN_SOURCE
   | Some (_, run) \<Rightarrow>
       if \<not> is_same (health_identity run) r then UNKNOWN_SOURCE
       else (case health_sources run n of None \<Rightarrow> UNKNOWN_SOURCE | Some h \<Rightarrow> h)) (required_sources d)"

text \<open>
  The part of \<open>_effective\<close> before the dependencies: its answer, or the descriptor when nothing
  speaks against it.  The state of a registered module is always defined.
\<close>

definition own_health :: "lifecycle_env \<Rightarrow> resolver \<Rightarrow> cap_health option \<Rightarrow> string \<Rightarrow> string \<Rightarrow> cap_health + capability_descriptor" where
  "own_health e s override mid cid = (case snapshot_module (lc_registry e) mid of
     Inl _ \<Rightarrow> Inl UNAVAILABLE_DEPENDENCY
   | Inr m \<Rightarrow> (case find (\<lambda>c. cap_id c = cid) (capabilities (manifest (contents m))) of
       None \<Rightarrow> Inl UNAVAILABLE_DEPENDENCY
     | Some d \<Rightarrow> (case lifecycle_state_of e mid of
         Inl _ \<Rightarrow> Inl UNAVAILABLE_DEPENDENCY
       | Inr st \<Rightarrow>
           if \<not> enabled (contents m) \<or> lifecycle st \<noteq> ACTIVE then Inl (UNAVAILABLE, Some ''module_unavailable'')
           else (case identity st of
               None \<Rightarrow> Inl (UNAVAILABLE, Some ''module_unavailable'')
             | Some r \<Rightarrow>
                 if run_epoch (contents r) \<noteq> epoch (contents m) then Inl (UNAVAILABLE, Some ''module_unavailable'')
                 else (case (case override of Some h \<Rightarrow> Some h
                             | None \<Rightarrow> Option.bind (report st) (\<lambda>rep. map_of (capability_health rep) cid)) of
                     None \<Rightarrow> Inl (UNKNOWN, Some ''health_unknown'')
                   | Some base \<Rightarrow>
                       if fst base \<noteq> AVAILABLE then Inl base
                       else (let cs = config_results s mid d; ss = source_results s mid r d in
                         case find (\<lambda>h. fst h = UNAVAILABLE) (cs @ ss) of
                           Some h \<Rightarrow> Inl h
                         | None \<Rightarrow>
                             if list_ex (\<lambda>h. fst h = UNKNOWN) (cs @ ss)
                             then Inl (if list_ex (\<lambda>h. fst h = UNKNOWN) cs then UNKNOWN_CONFIG else UNKNOWN_SOURCE)
                             else Inr d))))))"

fun dependencies_health :: "(string \<times> string \<Rightarrow> cap_health) \<Rightarrow> (string \<times> string) list \<Rightarrow> cap_health" where
  "dependencies_health f [] = (AVAILABLE, None)"
| "dependencies_health f (k # ks) = (case fst (f k) of
     UNAVAILABLE \<Rightarrow> UNAVAILABLE_DEPENDENCY | UNKNOWN \<Rightarrow> UNKNOWN_DEPENDENCY | AVAILABLE \<Rightarrow> dependencies_health f ks)"

lemma dependencies_health_cong [fundef_cong]:
  "ks = ks' \<Longrightarrow> (\<And>k. k \<in> set ks' \<Longrightarrow> f k = g k) \<Longrightarrow> dependencies_health f ks = dependencies_health g ks'"
  by (induction ks arbitrary: ks') (auto split: health_status.split)

text \<open>The declared capabilities: a stack of distinct ones cannot grow beyond them.\<close>

definition declared_keys :: "lifecycle_env \<Rightarrow> (string \<times> string) set" where
  "declared_keys e = set (concat (map (\<lambda>(mid, m). map (\<lambda>c. (mid, cap_id c)) (capabilities (manifest (contents m)))) (snapshot_modules (lc_registry e))))"

lemma finite_declared_keys [simp]: "finite (declared_keys e)"
  unfolding declared_keys_def by (rule finite_set)

lemma own_health_descriptor:
  assumes "own_health e s ov mid cid = Inr d"
  obtains m where "map_of (snapshot_modules (lc_registry e)) mid = Some m"
    "find (\<lambda>c. cap_id c = cid) (capabilities (manifest (contents m))) = Some d"
proof (cases "map_of (snapshot_modules (lc_registry e)) mid")
  case None
  then show ?thesis using assms by (simp add: own_health_def snapshot_module_def)
next
  case (Some m)
  then show ?thesis
  proof (cases "find (\<lambda>c. cap_id c = cid) (capabilities (manifest (contents m)))")
    case None
    with Some show ?thesis using assms by (simp add: own_health_def snapshot_module_def)
  next
    case (Some d')
    have "d' = d" using assms \<open>map_of _ mid = Some m\<close> Some unfolding own_health_def snapshot_module_def Let_def
      by (auto split: sum.splits if_splits option.splits)
    with Some that [OF \<open>map_of _ mid = Some m\<close>] show ?thesis by simp
  qed
qed

lemma own_health_declared:
  assumes "own_health e s ov mid cid = Inr d"
  shows "(mid, cid) \<in> declared_keys e"
proof -
  from assms obtain m where m: "map_of (snapshot_modules (lc_registry e)) mid = Some m"
    "find (\<lambda>c. cap_id c = cid) (capabilities (manifest (contents m))) = Some d" by (rule own_health_descriptor)
  from m(2) have "d \<in> set (capabilities (manifest (contents m)))" "cap_id d = cid" by (auto simp: find_Some_iff)
  then show ?thesis using map_of_SomeD [OF m(1)] unfolding declared_keys_def by force
qed

function effective :: "lifecycle_env \<Rightarrow> resolver \<Rightarrow> cap_health option \<Rightarrow> (string \<times> string) list \<Rightarrow> string \<times> string \<Rightarrow> cap_health" where
  "effective e s override stack key =
     (if key \<in> set stack then UNAVAILABLE_DEPENDENCY
      else case own_health e s override (fst key) (snd key) of
        Inl h \<Rightarrow> h
      | Inr d \<Rightarrow> dependencies_health (effective e s None (stack @ [key])) (map (dependency_target (fst key)) (required_capabilities d)))"
  by pat_completeness auto
termination
proof (relation "measure (\<lambda>(e, s, ov, stack, key). card (declared_keys e - set stack))", goal_cases)
  case (2 e s ov stack key d k)
  then have "key \<in> declared_keys e" using own_health_declared by (metis prod.collapse)
  with 2(1) have "declared_keys e - set (stack @ [key]) \<subset> declared_keys e - set stack" by auto
  then show ?case by (simp add: psubset_card_mono)
qed simp

declare effective.simps [simp del]

section \<open>Preparing a run\<close>

definition check_CapabilityHealth :: "cap_health \<Rightarrow> unit res" where
  "check_CapabilityHealth h = ensure (snd h \<noteq> Some []) ValueError"

text \<open>The state read before the first wait: the validated manifest, the run and its state.\<close>

definition prepare_begin :: "lifecycle_env \<Rightarrow> string \<Rightarrow> module_manifest \<Rightarrow> resolver \<Rightarrow> (module_manifest \<times> run_ref \<times> lifecycle_state) res" where
  "prepare_begin e mid m s =
     rbind (validate_module 0 m) (\<lambda>m'.
     rbind (runtime s) (\<lambda>_.
     rbind (registered_manifest e mid) (\<lambda>reg.
     rbind (ensure (reg = m') ValueError) (\<lambda>_.
     rbind (lifecycle_state_of e mid) (\<lambda>st.
     case identity st of
       None \<Rightarrow> Inl RuntimeError
     | Some r \<Rightarrow> rbind (ensure (lifecycle st = STARTING \<and> report st \<noteq> None) RuntimeError) (\<lambda>_. Inr (m', r, st)))))))"

definition next_generation :: "string \<Rightarrow> string \<Rightarrow> resolver \<Rightarrow> int" where
  "next_generation mid src s = (case source_generations s (mid, src) of None \<Rightarrow> 0 | Some g \<Rightarrow> g) + 1"

text \<open>The loop over the declared sources: the generations in the table and in the run.\<close>

definition reserve_source ::
  "string \<Rightarrow> string \<Rightarrow> resolver \<times> (string \<rightharpoonup> int) \<times> (string \<rightharpoonup> cap_health) \<Rightarrow> resolver \<times> (string \<rightharpoonup> int) \<times> (string \<rightharpoonup> cap_health)" where
  "reserve_source mid src = (\<lambda>(s, gens, srcs). let g = next_generation mid src s in
     (s\<lparr>source_generations := (source_generations s)((mid, src) \<mapsto> g)\<rparr>, gens(src \<mapsto> g), srcs(src \<mapsto> UNKNOWN_SOURCE)))"

definition initial_revisions :: "module_manifest \<Rightarrow> lifecycle_state \<Rightarrow> string \<rightharpoonup> int" where
  "initial_revisions m st = map_of (map (\<lambda>c. (cap_id c,
     max 0 (case Option.bind (report_revisions st) (\<lambda>rs. rs (cap_id c)) of None \<Rightarrow> 0 | Some n \<Rightarrow> n))) (capabilities m))"

record reservation =
  resv_run :: nat
  resv_generations :: "string \<rightharpoonup> int"
  resv_config :: "int option"

definition prepare_reserve ::
  "lifecycle_env \<Rightarrow> string \<Rightarrow> module_manifest \<Rightarrow> run_ref \<Rightarrow> lifecycle_state \<Rightarrow> resolver \<Rightarrow> (resolver \<times> reservation) res" where
  "prepare_reserve e mid m r st s =
     rbind (ensure (same_run e mid r True) RuntimeError) (\<lambda>_.
     rbind (ensure (case runs s mid of None \<Rightarrow> True | Some (_, run) \<Rightarrow> \<not> is_same (health_identity run) r) RuntimeError) (\<lambda>_.
     let (s', gens, srcs) = fold (reserve_source mid) (source_ids m) (s, Map.empty, Map.empty);
         run = \<lparr>health_identity = r, health_sources = srcs, health_generations = gens, health_revisions = initial_revisions m st,
                last_health = Map.empty\<rparr> in
     Inr (s'\<lparr>runs := (runs s')(mid \<mapsto> (next_run s, run)), next_run := next_run s + 1\<rparr>,
          \<lparr>resv_run = next_run s, resv_generations = gens, resv_config = map_option ready_revision (configs s mid)\<rparr>)))"

text \<open>Updates of the run object of a module.\<close>

definition update_run :: "string \<Rightarrow> (run_health \<Rightarrow> run_health) \<Rightarrow> resolver \<Rightarrow> resolver" where
  "update_run mid f s = (case runs s mid of None \<Rightarrow> s | Some (a, run) \<Rightarrow> s\<lparr>runs := (runs s)(mid \<mapsto> (a, f run))\<rparr>)"

definition prepare_config :: "string \<Rightarrow> module_manifest \<Rightarrow> reservation \<Rightarrow> config_snapshot option \<Rightarrow> resolver \<Rightarrow> resolver res" where
  "prepare_config mid m v loaded s = (case loaded of
     Some c \<Rightarrow>
       if (case configs s mid of None \<Rightarrow> True | Some k \<Rightarrow> ready_revision k \<le> config_revision c)
       then rbind (readiness mid m c) (\<lambda>r. Inr (s\<lparr>configs := (configs s)(mid \<mapsto> r)\<rparr>)) else Inr s
   | None \<Rightarrow>
       if config_fields m \<noteq> [] \<and> (case configs s mid of None \<Rightarrow> True | Some k \<Rightarrow> Some (ready_revision k) = resv_config v)
       then Inr (s\<lparr>configs := (configs s)(mid \<mapsto>
              \<lparr>ready_revision = (case configs s mid of None \<Rightarrow> 1 | Some k \<Rightarrow> ready_revision k),
               ready_fields = (\<lambda>n. map_option (\<lambda>_. UNKNOWN_CONFIG) (declarations m n))\<rparr>)\<rparr>)
       else Inr s)"

definition prepare_sources :: "string \<Rightarrow> reservation \<Rightarrow> (string \<times> cap_health) list \<Rightarrow> resolver \<Rightarrow> resolver" where
  "prepare_sources mid v = fold (\<lambda>(src, h) s.
     if source_generations s (mid, src) = resv_generations v src then update_run mid (\<lambda>run. run\<lparr>health_sources := (health_sources run)(src \<mapsto> h)\<rparr>) s
     else s)"

text \<open>\<open>_prime_health\<close>: a malformed entry of the report ends the loop with the entries before it kept.\<close>

fun prime_health :: "lifecycle_env \<Rightarrow> string \<Rightarrow> (string \<times> cap_health) list \<Rightarrow> resolver \<Rightarrow> resolver \<times> unit res" where
  "prime_health e mid [] s = (s, Inr ())"
| "prime_health e mid ((cid, base) # hs) s = (case check_CapabilityHealth base of
     Inl x \<Rightarrow> (s, Inl x)
   | Inr _ \<Rightarrow> prime_health e mid hs
       (update_run mid (\<lambda>run. run\<lparr>last_health := (last_health run)(cid \<mapsto> effective e s (Some base) [] (mid, cid))\<rparr>) s))"

definition prepare_publish ::
  "lifecycle_env \<Rightarrow> string \<Rightarrow> module_manifest \<Rightarrow> run_ref \<Rightarrow> lifecycle_state \<Rightarrow> reservation \<Rightarrow> config_snapshot option \<Rightarrow>
    (string \<times> cap_health) list \<Rightarrow> resolver \<Rightarrow> resolver \<times> unit res" where
  "prepare_publish e mid m r st v loaded sources s =
     (if \<not> same_run e mid r True then (s, Inr ())
      else if map_option fst (runs s mid) \<noteq> Some (resv_run v) then (s, Inr ())
      else case prepare_config mid m v loaded s of
        Inl x \<Rightarrow> (s, Inl x)
      | Inr s1 \<Rightarrow> prime_health e mid (case report st of None \<Rightarrow> [] | Some rep \<Rightarrow> capability_health rep) (prepare_sources mid v sources s1))"

section \<open>Publishing configuration and sources\<close>

text \<open>A capability whose facts changed: its revision is raised and its health recorded.\<close>

definition bump :: "lifecycle_env \<Rightarrow> string \<Rightarrow> string \<Rightarrow> resolver \<Rightarrow> resolver" where
  "bump e mid cid s = update_run mid (\<lambda>run. run\<lparr>
     health_revisions := (health_revisions run)(cid \<mapsto> (case health_revisions run cid of None \<Rightarrow> 0 | Some n \<Rightarrow> n) + 1),
     last_health := (last_health run)(cid \<mapsto> effective e s None [] (mid, cid))\<rparr>) s"

definition merged_readiness :: "config_readiness option \<Rightarrow> string list \<Rightarrow> config_readiness \<Rightarrow> config_readiness" where
  "merged_readiness previous changed r = (case previous of
     None \<Rightarrow> r
   | Some p \<Rightarrow> r\<lparr>ready_fields := (\<lambda>n. if n \<in> set changed \<and> ready_fields r n \<noteq> None then ready_fields r n else ready_fields p n)\<rparr>)"

definition publish_config ::
  "lifecycle_env \<Rightarrow> string \<Rightarrow> config_snapshot \<Rightarrow> string list \<Rightarrow> resolver \<Rightarrow> (resolver \<times> string list) res" where
  "publish_config e mid c changed s =
     rbind (validate_ConfigSnapshot c) (\<lambda>c'.
     rbind (runtime s) (\<lambda>_.
     rbind (registered_manifest e mid) (\<lambda>m.
     rbind (ensure (case target c' of None \<Rightarrow> False | Some t \<Rightarrow> target_module t = mid) ValueError) (\<lambda>_.
     rbind (ensure (set changed \<subseteq> set (map cfg_name (config_fields m))) ValueError) (\<lambda>_.
     rbind (ensure (case configs s mid of None \<Rightarrow> True
              | Some p \<Rightarrow> \<not> (config_revision c' < ready_revision p \<or> changed \<noteq> [] \<and> config_revision c' = ready_revision p)) ValueError) (\<lambda>_.
     rbind (readiness mid m c') (\<lambda>r.
     let s1 = s\<lparr>configs := (configs s)(mid \<mapsto> merged_readiness (configs s mid) changed r)\<rparr> in
     case runs s mid of
       None \<Rightarrow> Inr (s1, [])
     | Some _ \<Rightarrow>
         (let affected = map cap_id (filter (\<lambda>d. list_ex (\<lambda>f. f \<in> set changed) (required_config d)) (capabilities m)) in
          Inr (fold (bump e mid) affected s1, affected)))))))))"

text \<open>\<open>refresh_source\<close>: before the lock, in its first section and in its second; \<open>None\<close> and \<open>False\<close> end it.\<close>

definition refresh_begin :: "lifecycle_env \<Rightarrow> string \<Rightarrow> string \<Rightarrow> resolver \<Rightarrow> (module_manifest \<times> run_ref) option res" where
  "refresh_begin e mid src s =
     rbind (runtime s) (\<lambda>_.
     rbind (registered_manifest e mid) (\<lambda>m.
     if src \<notin> set (source_ids m) then Inr None
     else rbind (lifecycle_state_of e mid) (\<lambda>st.
       Inr (case identity st of None \<Rightarrow> None | Some r \<Rightarrow> if lifecycle st \<in> {STARTING, ACTIVE} then Some (m, r) else None))))"

definition refresh_reserve :: "lifecycle_env \<Rightarrow> string \<Rightarrow> string \<Rightarrow> run_ref \<Rightarrow> resolver \<Rightarrow> resolver \<times> int option" where
  "refresh_reserve e mid src r s =
     (if \<not> same_run e mid r True then (s, None)
      else (let g = next_generation mid src s; s1 = s\<lparr>source_generations := (source_generations s)((mid, src) \<mapsto> g)\<rparr> in
        case runs s mid of
          None \<Rightarrow> (s1, None)
        | Some (_, run) \<Rightarrow>
            if \<not> is_same (health_identity run) r then (s1, None)
            else (update_run mid (\<lambda>run. run\<lparr>health_generations := (health_generations run)(src \<mapsto> g)\<rparr>) s1, Some g)))"

definition refresh_publish ::
  "lifecycle_env \<Rightarrow> string \<Rightarrow> string \<Rightarrow> module_manifest \<Rightarrow> run_ref \<Rightarrow> int \<Rightarrow> cap_health \<Rightarrow> resolver \<Rightarrow> resolver \<times> bool" where
  "refresh_publish e mid src m r g h s =
     (if \<not> same_run e mid r True then (s, False)
      else if source_generations s (mid, src) \<noteq> Some g then (s, False)
      else case runs s mid of
        None \<Rightarrow> (s, False)
      | Some (_, run) \<Rightarrow>
          if \<not> is_same (health_identity run) r then (s, False)
          else (let previous = (case health_sources run src of None \<Rightarrow> UNKNOWN_SOURCE | Some h \<Rightarrow> h);
                    s1 = update_run mid (\<lambda>run. run\<lparr>health_sources := (health_sources run)(src \<mapsto> h)\<rparr>) s in
                (if previous \<noteq> h then fold (bump e mid) (map cap_id (filter (\<lambda>d. src \<in> set (required_sources d)) (capabilities m))) s1 else s1, True)))"

section \<open>Queries\<close>

definition query ::
  "lifecycle_env \<Rightarrow> string \<Rightarrow> string \<Rightarrow> cap_health \<Rightarrow> int \<Rightarrow> resolver \<Rightarrow> (resolver \<times> cap_health \<times> int) res" where
  "query e mid cid base lr s =
     rbind (check_CapabilityHealth base) (\<lambda>_.
     rbind (runtime s) (\<lambda>_.
     rbind (ensure (0 \<le> lr) ValueError) (\<lambda>_.
     let h = effective e s (Some base) [] (mid, cid) in
     Inr (case runs s mid of
         None \<Rightarrow> (s, h, lr)
       | Some (_, run) \<Rightarrow>
           if \<not> opt_is (current_identity e mid) (health_identity run) then (s, h, lr)
           else (let rv = max (case health_revisions run cid of None \<Rightarrow> lr | Some n \<Rightarrow> n) lr in
             case last_health run cid of
               None \<Rightarrow> (update_run mid (\<lambda>run. run\<lparr>last_health := (last_health run)(cid \<mapsto> h)\<rparr>) s, h, rv)
             | Some p \<Rightarrow>
                 if p \<noteq> h then (update_run mid (\<lambda>run. run\<lparr>health_revisions := (health_revisions run)(cid \<mapsto> rv + 1),
                     last_health := (last_health run)(cid \<mapsto> h)\<rparr>) s, h, rv + 1)
                 else (update_run mid (\<lambda>run. run\<lparr>health_revisions := (health_revisions run)(cid \<mapsto> rv)\<rparr>) s, h, rv))))))"

definition current_health :: "lifecycle_env \<Rightarrow> string \<Rightarrow> string \<Rightarrow> resolver \<Rightarrow> (resolver \<times> cap_health \<times> int) res" where
  "current_health e mid cid s =
     rbind (runtime s) (\<lambda>_.
     rbind (lifecycle_state_of e mid) (\<lambda>st.
     case report st of
       None \<Rightarrow> Inr (s, (UNKNOWN, Some ''health_not_prepared''), 0)
     | Some rep \<Rightarrow>
         (case (map_of (capability_health rep) cid, Option.bind (report_revisions st) (\<lambda>rs. rs cid)) of
            (Some h, Some n) \<Rightarrow> query e mid cid h n s
          | _ \<Rightarrow> Inr (s, (UNKNOWN, Some ''health_not_declared''), 0))))"

end
