(* ===== verification/Health_Correct.thy ===== *)
theory Health_Correct
  imports Health
begin

text \<open>
  The health a capability reports is the least fixed point of its facts and dependencies, an
  overtaken probe of a source is never published, and a revision identifies a health.
\<close>

section \<open>Effective health\<close>

text \<open>What speaks for a capability apart from its dependencies.\<close>

definition config_ready :: "resolver \<Rightarrow> string \<Rightarrow> string \<Rightarrow> bool" where
  "config_ready s mid f \<longleftrightarrow> (\<exists>c w. configs s mid = Some c \<and> ready_fields c f = Some (AVAILABLE, w))"

definition source_ready :: "resolver \<Rightarrow> string \<Rightarrow> run_ref \<Rightarrow> string \<Rightarrow> bool" where
  "source_ready s mid r n \<longleftrightarrow> (\<exists>a run w. runs s mid = Some (a, run) \<and> health_identity run = r \<and> health_sources run n = Some (AVAILABLE, w))"

definition facts_ready :: "lifecycle_env \<Rightarrow> resolver \<Rightarrow> string \<times> string \<Rightarrow> capability_descriptor \<Rightarrow> bool" where
  "facts_ready e s k d \<longleftrightarrow> (\<exists>m st r rep w.
     map_of (snapshot_modules (lc_registry e)) (fst k) = Some m \<and> enabled (contents m)
     \<and> find (\<lambda>c. cap_id c = snd k) (capabilities (manifest (contents m))) = Some d
     \<and> lc_states e (fst k) = Some st \<and> lifecycle st = ACTIVE \<and> identity st = Some r \<and> run_epoch (contents r) = epoch (contents m)
     \<and> report st = Some rep \<and> map_of (capability_health rep) (snd k) = Some (AVAILABLE, w)
     \<and> list_all (config_ready s (fst k)) (required_config d) \<and> list_all (source_ready s (fst k) r) (required_sources d))"

text \<open>A capability is ready when its facts are and so are, in turn, the capabilities it requires.\<close>

inductive ready :: "lifecycle_env \<Rightarrow> resolver \<Rightarrow> string \<times> string \<Rightarrow> bool" for e s where
  readyI: "facts_ready e s k d \<Longrightarrow> (\<forall>t \<in> set (required_capabilities d). ready e s (dependency_target (fst k) t)) \<Longrightarrow> ready e s k"

lemma health_consts [simp]:
  "fst UNKNOWN_CONFIG = UNKNOWN" "fst MISSING_CONFIG = UNAVAILABLE" "fst UNKNOWN_SOURCE = UNKNOWN"
  "fst UNKNOWN_DEPENDENCY = UNKNOWN" "fst UNAVAILABLE_DEPENDENCY = UNAVAILABLE"
  by (simp_all add: UNKNOWN_CONFIG_def MISSING_CONFIG_def UNKNOWN_SOURCE_def UNKNOWN_DEPENDENCY_def UNAVAILABLE_DEPENDENCY_def)

lemma available_pair: "fst h = AVAILABLE \<longleftrightarrow> (\<exists>w. h = (AVAILABLE, w))"
  by (cases h) simp

lemma config_results_available: "list_all (\<lambda>h. fst h = AVAILABLE) (config_results s mid d) \<longleftrightarrow> list_all (config_ready s mid) (required_config d)"
proof -
  have "fst (case configs s mid of None \<Rightarrow> UNKNOWN_CONFIG | Some c \<Rightarrow> (case ready_fields c n of None \<Rightarrow> MISSING_CONFIG | Some h \<Rightarrow> h)) = AVAILABLE
      \<longleftrightarrow> config_ready s mid n" for n
    by (auto simp: config_ready_def available_pair [symmetric] split: option.split)
  then show ?thesis unfolding config_results_def list.pred_map comp_def by presburger
qed

lemma source_results_available:
  "list_all (\<lambda>h. fst h = AVAILABLE) (source_results s mid r d) \<longleftrightarrow> list_all (source_ready s mid r) (required_sources d)"
proof -
  have "fst (case runs s mid of None \<Rightarrow> UNKNOWN_SOURCE | Some (_, run) \<Rightarrow> if \<not> is_same (health_identity run) r then UNKNOWN_SOURCE
      else (case health_sources run n of None \<Rightarrow> UNKNOWN_SOURCE | Some h \<Rightarrow> h)) = AVAILABLE \<longleftrightarrow> source_ready s mid r n" for n
    by (auto simp: source_ready_def is_same_def available_pair [symmetric] split: option.split)
  then show ?thesis unfolding source_results_def list.pred_map comp_def by presburger
qed

lemma none_against:
  "find (\<lambda>h. fst h = UNAVAILABLE) hs = None \<and> \<not> list_ex (\<lambda>h. fst h = UNKNOWN) hs \<longleftrightarrow> list_all (\<lambda>h. fst h = AVAILABLE) (hs :: cap_health list)"
proof -
  have "st = AVAILABLE \<longleftrightarrow> st \<noteq> UNAVAILABLE \<and> st \<noteq> UNKNOWN" for st :: health_status by (cases st) auto
  then show ?thesis by (auto simp: find_None_iff list_ex_iff list_all_iff)
qed

text \<open>The decisive tail of \<open>own_health\<close>.\<close>

lemma decide_facts:
  "(case find (\<lambda>h. fst h = UNAVAILABLE) hs of Some h \<Rightarrow> Inl h
    | None \<Rightarrow> if list_ex (\<lambda>h. fst h = UNKNOWN) hs then Inl u else Inr d') = Inr d
   \<longleftrightarrow> list_all (\<lambda>h. fst h = AVAILABLE) (hs :: cap_health list) \<and> d' = d"
  unfolding none_against [symmetric] by (auto split: option.splits)

lemma own_health_ready: "own_health e s None mid cid = Inr d \<longleftrightarrow> facts_ready e s (mid, cid) d"
proof (cases "map_of (snapshot_modules (lc_registry e)) mid")
  case None
  then show ?thesis by (simp add: own_health_def snapshot_module_def facts_ready_def)
next
  case m: (Some m)
  show ?thesis
  proof (cases "find (\<lambda>c. cap_id c = cid) (capabilities (manifest (contents m)))")
    case None
    then show ?thesis using m by (simp add: own_health_def snapshot_module_def facts_ready_def)
  next
    case d': (Some d')
    show ?thesis
    proof (cases "lc_states e mid")
      case None
      then show ?thesis using m d' by (simp add: own_health_def snapshot_module_def facts_ready_def lifecycle_state_of_def Let_def)
    next
      case st: (Some st)
      show ?thesis
      proof (cases "enabled (contents m) \<and> lifecycle st = ACTIVE \<and> (\<exists>r. identity st = Some r \<and> run_epoch (contents r) = epoch (contents m))")
        case False
        then show ?thesis using m d' st
          by (cases "identity st") (auto simp: own_health_def snapshot_module_def facts_ready_def lifecycle_state_of_def Let_def)
      next
        case True
        then obtain r where r: "enabled (contents m)" "lifecycle st = ACTIVE" "identity st = Some r" "run_epoch (contents r) = epoch (contents m)" by blast
        have base: "Option.bind (report st) (\<lambda>rep. map_of (capability_health rep) cid) = Some (AVAILABLE, w)
            \<longleftrightarrow> (\<exists>rep. report st = Some rep \<and> map_of (capability_health rep) cid = Some (AVAILABLE, w))" for w
          by (cases "report st") simp_all
        show ?thesis
        proof (cases "\<exists>w. Option.bind (report st) (\<lambda>rep. map_of (capability_health rep) cid) = Some (AVAILABLE, w)")
          case False
          then have "own_health e s None mid cid \<noteq> Inr d" using m d' st r
            by (cases "Option.bind (report st) (\<lambda>rep. map_of (capability_health rep) cid)")
              (auto simp: own_health_def snapshot_module_def lifecycle_state_of_def available_pair Let_def)
          then show ?thesis using False base st by (auto simp: facts_ready_def)
        next
          case True
          then obtain w where w: "Option.bind (report st) (\<lambda>rep. map_of (capability_health rep) cid) = Some (AVAILABLE, w)" by blast
          then have "own_health e s None mid cid = Inr d \<longleftrightarrow> list_all (\<lambda>h. fst h = AVAILABLE) (config_results s mid d' @ source_results s mid r d') \<and> d' = d"
            using m d' st r by (simp add: own_health_def snapshot_module_def lifecycle_state_of_def Let_def decide_facts)
          also have "\<dots> \<longleftrightarrow> facts_ready e s (mid, cid) d"
            using m d' st r w base [of w] by (auto simp: facts_ready_def config_results_available source_results_available)
          finally show ?thesis .
        qed
      qed
    qed
  qed
qed

lemma dependencies_available: "fst (dependencies_health f ks) = AVAILABLE \<longleftrightarrow> (\<forall>k \<in> set ks. fst (f k) = AVAILABLE)"
  by (induction ks) (auto split: health_status.splits)

lemma available_ready: "fst (effective e s ov stack k) = AVAILABLE \<Longrightarrow> ov = None \<Longrightarrow> ready e s k"
proof (induction e s ov stack k rule: effective.induct)
  case (1 e s ov stack k)
  have out: "k \<notin> set stack" using "1.prems"(1) by (auto simp: effective.simps [of e s ov stack k])
  show ?case
  proof (cases "own_health e s ov (fst k) (snd k)")
    case (Inl h)
    then have "fst h = AVAILABLE" using "1.prems"(1) out by (simp add: effective.simps [of e s ov stack k])
    moreover have "fst h \<noteq> AVAILABLE" using Inl "1.prems"(2) unfolding own_health_def Let_def
      by (auto simp: find_Some_iff split: sum.splits option.splits if_splits)
    ultimately show ?thesis by simp
  next
    case (Inr d)
    then have dep: "fst (effective e s None (stack @ [k]) t) = AVAILABLE"
      if "t \<in> set (map (dependency_target (fst k)) (required_capabilities d))" for t
      using "1.prems"(1) out that unfolding effective.simps [of e s ov stack k] by (simp add: dependencies_available del: set_map)
    have "facts_ready e s k d" using Inr "1.prems"(2) own_health_ready [of e s "fst k" "snd k" d] by simp
    then show ?thesis
    proof (rule readyI, intro ballI)
      fix t assume "t \<in> set (required_capabilities d)"
      then have t: "dependency_target (fst k) t \<in> set (map (dependency_target (fst k)) (required_capabilities d))" by simp
      show "ready e s (dependency_target (fst k) t)" by (rule "1.IH" [OF out Inr t dep [OF t] refl])
    qed
  qed
qed

text \<open>The capabilities a ready one requires cannot lead back to it.\<close>

definition required_by :: "lifecycle_env \<Rightarrow> resolver \<Rightarrow> string \<times> string \<Rightarrow> string \<times> string \<Rightarrow> bool" where
  "required_by e s t k \<longleftrightarrow> (\<exists>d. facts_ready e s k d \<and> t \<in> dependency_target (fst k) ` set (required_capabilities d))"

lemma facts_ready_unique: "facts_ready e s k d \<Longrightarrow> facts_ready e s k d' \<Longrightarrow> d = d'"
  using own_health_ready [of e s "fst k" "snd k" d] own_health_ready [of e s "fst k" "snd k" d'] by simp

lemma ready_acc: "ready e s k \<Longrightarrow> Wellfounded.accp (required_by e s) k"
proof (induction rule: ready.induct)
  case (readyI k d)
  show ?case
  proof (rule accpI)
    fix t assume "required_by e s t k"
    then obtain d' where d': "facts_ready e s k d'" "t \<in> dependency_target (fst k) ` set (required_capabilities d')"
      unfolding required_by_def by blast
    with facts_ready_unique [OF readyI(1)] readyI(2) show "Wellfounded.accp (required_by e s) t" by auto
  qed
qed

lemma acc_no_cycle:
  assumes "Wellfounded.accp R x"
  shows "\<not> R\<^sup>+\<^sup>+ x x"
  using assms
proof (induction rule: accp.induct)
  case (accI x)
  show ?case
  proof
    assume "R\<^sup>+\<^sup>+ x x"
    then obtain y where y: "R\<^sup>*\<^sup>* x y" "R y x" by (blast dest: tranclp_into_rtranclp elim: tranclp.cases)
    from y(2,1) have "R\<^sup>+\<^sup>+ y y" by (rule rtranclp_into_tranclp2)
    with accI(2) y(2) show False by blast
  qed
qed

lemma ready_available:
  "ready e s k \<Longrightarrow> (\<forall>k' \<in> set stack. \<not> (required_by e s)\<^sup>*\<^sup>* k' k) \<Longrightarrow> fst (effective e s None stack k) = AVAILABLE"
proof (induction arbitrary: stack rule: ready.induct)
  case (readyI k d)
  have "ready e s k" using readyI(1,2) by (intro ready.readyI) auto
  then have acyc: "\<not> (required_by e s)\<^sup>+\<^sup>+ k k" by (intro acc_no_cycle ready_acc)
  have dep: "fst (effective e s None (stack @ [k]) t) = AVAILABLE" if t: "t \<in> dependency_target (fst k) ` set (required_capabilities d)" for t
  proof -
    have req: "required_by e s t k" using readyI(1) t unfolding required_by_def by blast
    from t obtain x where x: "x \<in> set (required_capabilities d)" "t = dependency_target (fst k) x" by blast
    have "\<not> (required_by e s)\<^sup>*\<^sup>* k' t" if "k' \<in> set (stack @ [k])" for k'
    proof
      assume "(required_by e s)\<^sup>*\<^sup>* k' t"
      with req have "(required_by e s)\<^sup>+\<^sup>+ k' k" by (simp add: rtranclp_into_tranclp1)
      with that acyc readyI(3) show False by (auto dest: tranclp_into_rtranclp)
    qed
    with readyI(2) x show ?thesis by blast
  qed
  have "k \<notin> set stack" using readyI(3) by blast
  moreover have "own_health e s None (fst k) (snd k) = Inr d" using readyI(1) own_health_ready [of e s "fst k" "snd k" d] by simp
  ultimately show ?case using dep by (simp add: effective.simps [of e s None stack k] dependencies_available)
qed

lemma effective_ready: "fst (effective e s None [] k) = AVAILABLE \<longleftrightarrow> ready e s k"
  using available_ready [of e s None "[]" k] ready_available [of e s k "[]"] by auto

section \<open>Steps of the resolver\<close>

text \<open>The sections between two waits; \<open>P\<close> restricts which runs' preparations end.\<close>

inductive health_step :: "(nat \<Rightarrow> bool) \<Rightarrow> resolver \<Rightarrow> resolver \<Rightarrow> bool" for P where
  h_bind: "bind_runtime same s = Inr t \<Longrightarrow> health_step P s t"
| h_reserve: "prepare_reserve e mid m r st s = Inr (t, v) \<Longrightarrow> health_step P s t"
| h_prepared: "prepare_publish e mid m r st v loaded sources s = (t, x) \<Longrightarrow> P (resv_run v) \<Longrightarrow> health_step P s t"
| h_config: "publish_config e mid c changed s = Inr (t, affected) \<Longrightarrow> health_step P s t"
| h_refresh: "refresh_reserve e mid src r s = (t, g) \<Longrightarrow> health_step P s t"
| h_probe: "refresh_publish e mid src m r k h s = (t, b) \<Longrightarrow> health_step P s t"
| h_query: "query e mid cid base lr s = Inr (t, h, rv) \<Longrightarrow> health_step P s t"

lemma update_run_simps [simp]:
  "source_generations (update_run mid f s) = source_generations s" "next_run (update_run mid f s) = next_run s"
  "runs (update_run mid f s) k = (if k = mid then map_option (map_prod id f) (runs s mid) else runs s k)"
  by (auto simp: update_run_def split: option.split)

text \<open>The addresses of the runs, which only a new preparation changes.\<close>

definition run_address :: "resolver \<Rightarrow> string \<rightharpoonup> nat" where
  "run_address s mid = map_option fst (runs s mid)"

definition same_runs :: "resolver \<Rightarrow> resolver \<Rightarrow> bool" where
  "same_runs s t \<longleftrightarrow> run_address t = run_address s \<and> next_run t = next_run s \<and> source_generations t = source_generations s"

lemma same_runs_refl [simp]: "same_runs s s" by (simp add: same_runs_def)

lemma same_runs_trans: "same_runs s t \<Longrightarrow> same_runs t u \<Longrightarrow> same_runs s u" by (simp add: same_runs_def)

lemma same_runs_update [simp]: "same_runs s (update_run mid f s')  \<longleftrightarrow> same_runs s s'"
proof -
  have "run_address (update_run mid f s') = run_address s'"
    by (auto simp: run_address_def fun_eq_iff option.map_comp intro!: option.map_cong)
  then show ?thesis by (simp add: same_runs_def)
qed

lemma same_runs_configs [simp]: "same_runs s (s'\<lparr>configs := c\<rparr>) \<longleftrightarrow> same_runs s s'"
  by (simp add: same_runs_def run_address_def fun_eq_iff)

lemma same_runs_bump: "same_runs s (fold (bump e mid) cs s') \<longleftrightarrow> same_runs s s'"
  by (induction cs arbitrary: s') (simp_all add: bump_def)

lemma same_runs_prime: "same_runs s (fst (prime_health e mid hs s')) \<longleftrightarrow> same_runs s s'"
  by (induction e mid hs s' rule: prime_health.induct) (auto split: sum.split)

lemma same_runs_sources: "same_runs s (prepare_sources mid v sources s') \<longleftrightarrow> same_runs s s'"
proof (induction sources arbitrary: s')
  case (Cons x xs)
  then show ?case by (cases x) (simp add: prepare_sources_def)
qed (simp add: prepare_sources_def)

lemma prepare_config_cases: "prepare_config mid m v loaded s = Inr t \<Longrightarrow> \<exists>c. t = s\<lparr>configs := c\<rparr>"
  by (auto simp: prepare_config_def rbind_eq_Inr split: option.splits if_splits intro: exI [of _ "configs s"])

lemma same_runs_prepare_publish: "same_runs s (fst (prepare_publish e mid m r st v loaded sources s))"
  by (auto simp: prepare_publish_def same_runs_prime same_runs_sources split: sum.split dest: prepare_config_cases)

lemma same_runs_refresh_publish: "same_runs s (fst (refresh_publish e mid src m r k h s))"
  by (auto simp: refresh_publish_def Let_def same_runs_bump split: option.split)

lemma publish_config_cases:
  assumes "publish_config e mid c changed s = Inr (t, affected)"
  obtains cs k where "t = fold (bump e mid) cs (s\<lparr>configs := k\<rparr>)"
proof -
  show ?thesis
  proof (cases "runs s mid")
    case None
    with assms have "\<exists>k. t = s\<lparr>configs := k\<rparr>"
      by (simp add: publish_config_def Let_def rbind_eq_Inr) blast
    then show ?thesis using that [of "[]"] by auto
  next
    case (Some x)
    with assms have "\<exists>cs k. t = fold (bump e mid) cs (s\<lparr>configs := k\<rparr>)"
      by (simp add: publish_config_def Let_def rbind_eq_Inr) blast
    then show ?thesis using that by blast
  qed
qed

lemma query_cases:
  assumes "query e mid cid base lr s = Inr (t, h, rv)"
  obtains (other) "t = s" "\<forall>a run. runs s mid = Some (a, run) \<longrightarrow> \<not> opt_is (current_identity e mid) (health_identity run)"
  | (first) a run where "runs s mid = Some (a, run)" "last_health run cid = None"
      "t = update_run mid (\<lambda>run. run\<lparr>last_health := (last_health run)(cid \<mapsto> h)\<rparr>) s"
  | (same) a run n where "runs s mid = Some (a, run)" "last_health run cid = Some h" "n = rv"
      "\<forall>k. health_revisions run cid = Some k \<longrightarrow> k \<le> rv"
      "t = update_run mid (\<lambda>run. run\<lparr>health_revisions := (health_revisions run)(cid \<mapsto> rv)\<rparr>) s"
  | (changed) a run p where "runs s mid = Some (a, run)" "last_health run cid = Some p" "p \<noteq> h"
      "\<forall>k. health_revisions run cid = Some k \<longrightarrow> k < rv"
      "t = update_run mid (\<lambda>run. run\<lparr>health_revisions := (health_revisions run)(cid \<mapsto> rv),
         last_health := (last_health run)(cid \<mapsto> h)\<rparr>) s"
proof (cases "runs s mid")
  case None
  then show ?thesis using assms by (intro other) (auto simp: query_def Let_def rbind_eq_Inr)
next
  case (Some ar)
  obtain a run where ar: "ar = (a, run)" by (cases ar)
  show ?thesis
  proof (cases "opt_is (current_identity e mid) (health_identity run)")
    case False
    then show ?thesis using assms Some ar by (intro other) (auto simp: query_def Let_def rbind_eq_Inr)
  next
    case True
    note run = Some [unfolded ar]
    show ?thesis
    proof (cases "last_health run cid")
      case None
      then show ?thesis using assms run True by (intro first [OF run]) (auto simp: query_def Let_def rbind_eq_Inr)
    next
      case (Some p)
      show ?thesis
      proof (cases "p = effective e s (Some base) [] (mid, cid)")
        case same': True
        then show ?thesis using assms run True Some by (intro same [OF run]) (auto simp: query_def Let_def rbind_eq_Inr)
      next
        case changed': False
        then show ?thesis using assms run True Some by (intro changed [OF run Some]) (auto simp: query_def Let_def rbind_eq_Inr)
      qed
    qed
  qed
qed

lemma same_runs_query: "query e mid cid base lr s = Inr (t, h, rv) \<Longrightarrow> same_runs s t"
  by (erule query_cases) simp_all

section \<open>Generations of a source\<close>

definition newer :: "resolver \<Rightarrow> resolver \<Rightarrow> bool" where
  "newer s t \<longleftrightarrow> (\<forall>k g. source_generations s k = Some g \<longrightarrow> (\<exists>g' \<ge> g. source_generations t k = Some g'))"

lemma newer_refl: "newer s s" by (auto simp: newer_def)

lemma newer_trans: "newer s t \<Longrightarrow> newer t u \<Longrightarrow> newer s u"
  unfolding newer_def by (meson order.trans)


lemma newer_generation:
  "source_generations t = (source_generations s)((mid, src) \<mapsto> next_generation mid src s) \<Longrightarrow> newer s t"
  by (auto simp: newer_def next_generation_def)

lemma reserve_sources:
  "newer s (fst (fold (reserve_source mid) srcs (s, gs, hs))) \<and> runs (fst (fold (reserve_source mid) srcs (s, gs, hs))) = runs s
     \<and> next_run (fst (fold (reserve_source mid) srcs (s, gs, hs))) = next_run s"
proof (induction srcs arbitrary: s gs hs)
  case (Cons x xs)
  let ?s = "s\<lparr>source_generations := (source_generations s)((mid, x) \<mapsto> next_generation mid x s)\<rparr>"
  have step: "reserve_source mid x (s, gs, hs) = (?s, gs(x \<mapsto> next_generation mid x s), hs(x \<mapsto> UNKNOWN_SOURCE))"
    by (simp add: reserve_source_def Let_def)
  let ?r = "fst (fold (reserve_source mid) xs (?s, gs(x \<mapsto> next_generation mid x s), hs(x \<mapsto> UNKNOWN_SOURCE)))"
  have "newer s ?s" by (rule newer_generation) simp
  have IH: "newer ?s ?r \<and> runs ?r = runs ?s \<and> next_run ?r = next_run ?s" by (rule Cons.IH)
  have "newer s ?r" by (rule newer_trans [OF \<open>newer s ?s\<close>]) (rule IH [THEN conjunct1])
  moreover have old: "runs ?s = runs s" "next_run ?s = next_run s" by simp_all
  have "runs ?r = runs s \<and> next_run ?r = next_run s" using IH unfolding old by (rule conjunct2)
  ultimately show ?case unfolding fold_simps step by blast
qed (simp add: newer_refl)

lemma prepare_reserve_cases:
  assumes "prepare_reserve e mid m r st s = Inr (t, v)"
  obtains s' run where "newer s s'" "runs s' = runs s" "next_run s' = next_run s"
    "t = s'\<lparr>runs := (runs s)(mid \<mapsto> (next_run s, run)), next_run := next_run s + 1\<rparr>"
proof -
  obtain s' gens srcs where f: "fold (reserve_source mid) (source_ids m) (s, Map.empty, Map.empty) = (s', gens, srcs)"
    by (cases "fold (reserve_source mid) (source_ids m) (s, Map.empty, Map.empty)")
  with reserve_sources [of s mid "source_ids m" Map.empty Map.empty] have "newer s s'" "runs s' = runs s" "next_run s' = next_run s" by auto
  with assms f show ?thesis by (auto simp: prepare_reserve_def rbind_eq_Inr Let_def intro: that)
qed

lemma refresh_reserve_cases:
  assumes "refresh_reserve e mid src r s = (t, g)"
  obtains "t = s" "g = None" | f where "t = update_run mid f (s\<lparr>source_generations := (source_generations s)((mid, src) \<mapsto> next_generation mid src s)\<rparr>)"
      "\<And>run. health_revisions (f run) = health_revisions run \<and> last_health (f run) = last_health run"
      "g = None \<or> g = Some (next_generation mid src s)"
proof -
  have id: "update_run mid (\<lambda>x. x) u = u" for u by (auto simp: update_run_def fun_upd_idem split: option.split)
  show ?thesis
  proof (cases "same_run e mid r True")
    case True
    have "t = update_run mid (\<lambda>x. x) (s\<lparr>source_generations := (source_generations s)((mid, src) \<mapsto> next_generation mid src s)\<rparr>) \<and> g = None
      \<or> t = update_run mid (\<lambda>run. run\<lparr>health_generations := (health_generations run)(src \<mapsto> next_generation mid src s)\<rparr>)
          (s\<lparr>source_generations := (source_generations s)((mid, src) \<mapsto> next_generation mid src s)\<rparr>) \<and> g = Some (next_generation mid src s)"
      using assms True unfolding id by (auto simp: refresh_reserve_def Let_def split: option.splits if_splits)
    then show ?thesis by (elim disjE conjE) (auto intro: that(2))
  qed (use assms that(1) in \<open>simp add: refresh_reserve_def\<close>)
qed



section \<open>Revisions of a capability\<close>

text \<open>What the run object at address \<open>a\<close> records of a capability.\<close>

definition recorded :: "resolver \<Rightarrow> string \<Rightarrow> nat \<Rightarrow> string \<Rightarrow> (int option \<times> cap_health option) option" where
  "recorded s mid a cid = (case runs s mid of
     Some (b, run) \<Rightarrow> if b = a then Some (health_revisions run cid, last_health run cid) else None | None \<Rightarrow> None)"

definition moved_on :: "int \<Rightarrow> cap_health \<Rightarrow> (int option \<times> cap_health option) option \<Rightarrow> bool" where
  "moved_on n h cur \<longleftrightarrow> (\<forall>n' h'. cur = Some (n', h') \<longrightarrow> (\<exists>k p. n' = Some k \<and> h' = Some p \<and> (n < k \<or> n = k \<and> p = h)))"

definition runs_ok :: "resolver \<Rightarrow> bool" where
  "runs_ok s \<longleftrightarrow> (\<forall>mid a. run_address s mid = Some a \<longrightarrow> a < next_run s)"

lemma recorded_address: "recorded s mid a cid \<noteq> None \<longleftrightarrow> run_address s mid = Some a"
  by (auto simp: recorded_def run_address_def split: option.split)

lemma recorded_update_run:
  "recorded (update_run m f s) mid a cid = (if m = mid \<and> run_address s mid = Some a
     then Some (health_revisions (f (snd (the (runs s mid)))) cid, last_health (f (snd (the (runs s mid)))) cid) else recorded s mid a cid)"
  by (auto simp: recorded_def run_address_def split: option.split)

lemma recorded_simps [simp]:
  "recorded (s\<lparr>configs := c\<rparr>) mid a cid = recorded s mid a cid" "recorded (s\<lparr>source_generations := g\<rparr>) mid a cid = recorded s mid a cid"
  by (simp_all add: recorded_def)

lemma moved_on_None [simp]: "moved_on n h None" by (simp add: moved_on_def)

lemma moved_on_Some: "moved_on n h (Some (n', h')) \<longleftrightarrow> (\<exists>k p. n' = Some k \<and> h' = Some p \<and> (n < k \<or> n = k \<and> p = h))"
  by (simp add: moved_on_def)

text \<open>Updates that keep the record, or raise the revision with it.\<close>

lemma moved_on_update:
  assumes "moved_on n h (recorded s mid a cid)"
    and "\<And>run. m = mid \<Longrightarrow> runs s mid = Some (a, run) \<Longrightarrow> moved_on n h (Some (health_revisions run cid, last_health run cid)) \<Longrightarrow>
      moved_on n h (Some (health_revisions (f run) cid, last_health (f run) cid))"
  shows "moved_on n h (recorded (update_run m f s) mid a cid)"
  using assms by (cases "runs s mid") (auto simp: recorded_def split: if_splits)

lemma moved_on_bump: "moved_on n h (recorded s mid a cid) \<Longrightarrow> moved_on n h (recorded (bump e m c s) mid a cid)"
  unfolding bump_def by (rule moved_on_update) (auto simp: moved_on_Some)

lemma moved_on_bumps: "moved_on n h (recorded s mid a cid) \<Longrightarrow> moved_on n h (recorded (fold (bump e m) cs s) mid a cid)"
  by (induction cs arbitrary: s) (auto intro: moved_on_bump)

lemma moved_on_query:
  assumes "query e m c base lr s = Inr (t, p, rv)" "moved_on n h (recorded s mid a cid)"
  shows "moved_on n h (recorded t mid a cid)"
  using assms(1)
proof (cases rule: query_cases)
  case (first b run)
  then show ?thesis using assms(2) by (auto simp: moved_on_Some intro!: moved_on_update)
next
  case (same b run k)
  then show ?thesis using assms(2) by (auto simp: moved_on_Some intro!: moved_on_update)
next
  case (changed b run q)
  then show ?thesis using assms(2) by (auto simp: moved_on_Some intro!: moved_on_update)
qed (use assms(2) in simp)

text \<open>A preparation of another run does not touch the record.\<close>

lemma recorded_prime: "m \<noteq> mid \<Longrightarrow> recorded (fst (prime_health e m hs s)) mid a cid = recorded s mid a cid"
  by (induction e m hs s rule: prime_health.induct) (auto simp: recorded_update_run split: sum.split)

lemma recorded_sources: "m \<noteq> mid \<Longrightarrow> recorded (prepare_sources m v sources s) mid a cid = recorded s mid a cid"
proof (induction sources arbitrary: s)
  case (Cons x xs)
  then show ?case by (cases x) (simp add: prepare_sources_def recorded_update_run)
qed (simp add: prepare_sources_def)

lemma recorded_prepare_publish:
  assumes "run_address s mid = Some a" "resv_run v \<noteq> a"
  shows "recorded (fst (prepare_publish e m mf r st v loaded sources s)) mid a cid = recorded s mid a cid"
proof (cases "same_run e m r True \<and> map_option fst (runs s m) = Some (resv_run v)")
  case True
  then have "m \<noteq> mid" using assms by (auto simp: run_address_def)
  then show ?thesis using True
    by (auto simp: prepare_publish_def recorded_prime recorded_sources split: sum.split dest: prepare_config_cases)
qed (auto simp: prepare_publish_def)

lemma step_runs_ok:
  assumes "health_step P s t" "runs_ok s"
  shows "runs_ok t \<and> next_run s \<le> next_run t \<and> (\<forall>mid a. a < next_run s \<longrightarrow> run_address t mid = Some a \<longrightarrow> run_address s mid = Some a)"
  using assms
proof (induction rule: health_step.induct)
  case (h_bind same s t)
  then have "same_runs s t" by (auto simp: bind_runtime_def rbind_eq_Inr same_runs_def run_address_def fun_eq_iff)
  then show ?case using h_bind(2) by (simp add: same_runs_def runs_ok_def)
next
  case (h_reserve e mid m r st s t v)
  from h_reserve(1) obtain s' run where "newer s s'" "runs s' = runs s" "next_run s' = next_run s"
    "t = s'\<lparr>runs := (runs s)(mid \<mapsto> (next_run s, run)), next_run := next_run s + 1\<rparr>" by (rule prepare_reserve_cases)
  then show ?case using h_reserve(2) by (auto simp: runs_ok_def run_address_def less_Suc_eq)
next
  case (h_prepared e mid m r st v loaded sources s t x)
  then show ?case using same_runs_prepare_publish [of s e mid m r st v loaded sources] by (simp add: same_runs_def runs_ok_def)
next
  case (h_config e mid c changed s t affected)
  from h_config(1) obtain cs k where "t = fold (bump e mid) cs (s\<lparr>configs := k\<rparr>)" by (rule publish_config_cases)
  then have "same_runs s t" by (simp add: same_runs_bump)
  then show ?case using h_config(2) by (simp add: same_runs_def runs_ok_def)
next
  case (h_refresh e mid src r s t g)
  have "run_address t = run_address s \<and> next_run t = next_run s"
    using h_refresh(1) by (rule refresh_reserve_cases) (auto simp: run_address_def fun_eq_iff option.map_comp intro!: option.map_cong)
  then show ?case using h_refresh(2) by (simp add: runs_ok_def)
next
  case (h_probe e mid src m r k h s t b)
  then show ?case using same_runs_refresh_publish [of s e mid src m r k h] by (simp add: same_runs_def runs_ok_def)
next
  case (h_query e mid cid base lr s t h rv)
  then show ?case using same_runs_query by (auto simp: same_runs_def runs_ok_def)
qed

lemma step_moved_on:
  assumes "health_step (\<lambda>b. b \<noteq> a) s t" "runs_ok s" "run_address s mid = Some a" "moved_on n h (recorded s mid a cid)"
  shows "moved_on n h (recorded t mid a cid)"
  using assms
proof (induction rule: health_step.induct)
  case (h_bind same s t)
  then show ?case by (auto simp: bind_runtime_def rbind_eq_Inr recorded_def)
next
  case (h_reserve e m mf r st s t v)
  from h_reserve(1) obtain s' run where t: "newer s s'" "runs s' = runs s" "next_run s' = next_run s"
    "t = s'\<lparr>runs := (runs s)(m \<mapsto> (next_run s, run)), next_run := next_run s + 1\<rparr>" by (rule prepare_reserve_cases)
  have "a \<noteq> next_run s" using h_reserve(2,3) by (auto simp: runs_ok_def)
  then show ?case using h_reserve(4) t by (auto simp: recorded_def)
next
  case (h_prepared e m mf r st v loaded sources s t x)
  then show ?case using recorded_prepare_publish [OF h_prepared(4,2), of e m mf r st loaded sources cid] by simp
next
  case (h_config e m c changed s t affected)
  from h_config(1) obtain cs k where "t = fold (bump e m) cs (s\<lparr>configs := k\<rparr>)" by (rule publish_config_cases)
  then show ?case using h_config(4) by (auto intro: moved_on_bumps)
next
  case (h_refresh e m src r s t g)
  from h_refresh(1) show ?case
    by (rule refresh_reserve_cases) (use h_refresh(4) in \<open>auto intro!: moved_on_update\<close>)
next
  case (h_probe e m src mf r k h' s t b)
  let ?f = "\<lambda>run. run\<lparr>health_sources := (health_sources run)(src \<mapsto> h')\<rparr>"
  have "moved_on n h (recorded (update_run m ?f s) mid a cid)" using h_probe(4) by (auto intro!: moved_on_update)
  then show ?case using h_probe(1,4) by (auto simp: refresh_publish_def Let_def split: if_splits option.splits intro: moved_on_bumps)
next
  case (h_query e m c base lr s t p rv)
  then show ?case using moved_on_query by blast
qed

lemma run_moved_on:
  assumes "(health_step (\<lambda>b. b \<noteq> a))\<^sup>*\<^sup>* s t" "runs_ok s" "a < next_run s" "moved_on n h (recorded s mid a cid)"
  shows "runs_ok t \<and> a < next_run t \<and> moved_on n h (recorded t mid a cid)"
  using assms
proof (induction rule: rtranclp_induct)
  case (step t u)
  then have t: "runs_ok t" "a < next_run t" "moved_on n h (recorded t mid a cid)" by auto
  from step_runs_ok [OF step(2) t(1)] t(2) have u: "runs_ok u" "a < next_run u"
    "run_address u mid = Some a \<longrightarrow> run_address t mid = Some a" by auto
  have "moved_on n h (recorded u mid a cid)"
  proof (cases "run_address u mid = Some a")
    case True
    then show ?thesis using step_moved_on [OF step(2) t(1) _ t(3)] u(3) by blast
  next
    case False
    then have "recorded u mid a cid = None" using recorded_address by blast
    then show ?thesis by simp
  qed
  with u show ?case by blast
qed simp

interpretation health: transition_system "\<lambda>s. s = resolver_init" "health_step P" runs_ok for P
proof
  show "runs_ok s" if "s = resolver_init" for s using that by (simp add: runs_ok_def resolver_init_def run_address_def)
  show "runs_ok t" if "health_step P s t" "runs_ok s" for s t using step_runs_ok that by blast
qed

text \<open>What a query answers is what the run then records.\<close>

lemma query_records:
  assumes "query e mid cid base lr s = Inr (t, h, rv)" "runs s mid = Some (a, run)" "last_health run cid \<noteq> None"
    and "opt_is (current_identity e mid) (health_identity run)"
  shows "recorded t mid a cid = Some (Some rv, Some h)"
  using assms(1)
proof (cases rule: query_cases)
  case (same b run' k)
  then show ?thesis using assms(2) by (auto simp: recorded_def)
next
  case (changed b run' p)
  then show ?thesis using assms(2) by (auto simp: recorded_def)
qed (use assms(2-4) in auto)

section \<open>An example\<close>

definition hl_module :: module_manifest where
  "hl_module = example_module\<lparr>capabilities := [example_capability\<lparr>required_sources := [''s'']\<rparr>], source_ids := [''s'']\<rparr>"

definition hl_run :: run_ref where "hl_run = Obj 7 \<lparr>runtime_id = ''rt'', run_module = ''p/m'', run_epoch = 1\<rparr>"

definition hl_lifecycle :: lifecycle_state where
  "hl_lifecycle = \<lparr>lifecycle_enabled = True, lifecycle = ACTIVE, lifecycle_epoch = 1, registry_revision = 1, reason_code = None, work_scope = None,
     identity = Some hl_run,
     report = Some \<lparr>capability_health = [(''q'', AVAILABLE, None)]\<rparr>, report_revisions = Some [''q'' \<mapsto> 1], cleanup_pending = False\<rparr>"

definition hl_env :: lifecycle_env where
  "hl_env = \<lparr>lc_registry = \<lparr>revision = 1, snapshot_modules = [(''p/m'', Obj 0 \<lparr>module_id = ''p/m'', manifest = hl_module,
       handlers = \<lparr>capability_handlers = [], collectors = [], evaluators = [], event_composers = [], event_projectors = [], job_handlers = []\<rparr>,
       enabled = True, epoch = 1\<rparr>)], routes = [], tool_index = []\<rparr>,
     lc_states = [''p/m'' \<mapsto> hl_lifecycle]\<rparr>"

definition hl_bound :: resolver where "hl_bound = resolver_init\<lparr>bound := True\<rparr>"

definition hl_prepared :: resolver where
  "hl_prepared = hl_bound\<lparr>source_generations := [(''p/m'', ''s'') \<mapsto> 1],
     runs := [''p/m'' \<mapsto> (0, \<lparr>health_identity = hl_run, health_sources = [''s'' \<mapsto> UNKNOWN_SOURCE], health_generations = [''s'' \<mapsto> 1],
       health_revisions = [''q'' \<mapsto> 1], last_health = Map.empty\<rparr>)], next_run := 1\<rparr>"

definition hl_queried :: resolver where
  "hl_queried = update_run ''p/m'' (\<lambda>run. run\<lparr>last_health := (last_health run)(''q'' \<mapsto> UNKNOWN_SOURCE)\<rparr>) hl_prepared"

definition hl_refreshing :: resolver where
  "hl_refreshing = fst (refresh_reserve hl_env ''p/m'' ''s'' hl_run hl_queried)"

definition hl_refreshed :: resolver where
  "hl_refreshed = fst (refresh_publish hl_env ''p/m'' ''s'' hl_module hl_run 2 (AVAILABLE, None) hl_refreshing)"

lemmas hl_basic = hl_env_def hl_lifecycle_def hl_run_def lifecycle_state_of_def snapshot_module_def same_run_def is_same_def opt_is_def Let_def

lemma hl_same_run: "same_run hl_env ''p/m'' hl_run True"
  by (simp add: hl_basic)

lemma hl_state: "lifecycle_state_of hl_env ''p/m'' = Inr hl_lifecycle"
  by (simp add: hl_basic)

lemma hl_reserve: "\<exists>v. prepare_reserve hl_env ''p/m'' hl_module hl_run hl_lifecycle hl_bound = Inr (hl_prepared, v)"
  by (simp add: prepare_reserve_def hl_same_run hl_bound_def resolver_init_def hl_module_def reserve_source_def next_generation_def Let_def
      hl_prepared_def initial_revisions_def hl_lifecycle_def example_module_def example_capability_def)

text \<open>The facts of the only capability, before and after its source became available.\<close>

lemma hl_effective:
  assumes "runs s ''p/m'' = Some (a, run)" "health_identity run = hl_run" "configs s = Map.empty" "ov = None \<or> ov = Some (AVAILABLE, None)"
  shows "effective hl_env s ov [] (''p/m'', ''q'') = (case health_sources run ''s'' of
     Some (AVAILABLE, _) \<Rightarrow> (AVAILABLE, None) | Some (UNAVAILABLE, w) \<Rightarrow> (UNAVAILABLE, w) | _ \<Rightarrow> UNKNOWN_SOURCE)"
proof -
  let ?d = "example_capability\<lparr>required_sources := [''s'']\<rparr>"
  obtain m where m: "snapshot_module (lc_registry hl_env) ''p/m'' = Inr m" "enabled (contents m)" "epoch (contents m) = 1"
    "find (\<lambda>c. cap_id c = ''q'') (capabilities (manifest (contents m))) = Some ?d"
    by (simp add: snapshot_module_def hl_env_def hl_module_def example_capability_def)
  have st: "lifecycle hl_lifecycle = ACTIVE" "identity hl_lifecycle = Some hl_run" "run_epoch (contents hl_run) = 1"
    "Option.bind (report hl_lifecycle) (\<lambda>rep. map_of (capability_health rep) ''q'') = Some (AVAILABLE, None)"
    by (simp_all add: hl_lifecycle_def hl_run_def)
  have res: "config_results s ''p/m'' ?d = []" "source_results s ''p/m'' hl_run ?d = [case health_sources run ''s'' of None \<Rightarrow> UNKNOWN_SOURCE | Some h \<Rightarrow> h]"
    using assms(1,2) by (simp_all add: config_results_def source_results_def example_capability_def)
  have "own_health hl_env s ov ''p/m'' ''q'' = (case health_sources run ''s'' of
      Some (AVAILABLE, _) \<Rightarrow> Inr ?d | Some (UNAVAILABLE, w) \<Rightarrow> Inl (UNAVAILABLE, w) | _ \<Rightarrow> Inl UNKNOWN_SOURCE)"
    using assms(4) unfolding own_health_def
    by (elim disjE) (simp_all add: m hl_state st res Let_def split: option.split health_status.split prod.split)
  then show ?thesis
    by (simp add: effective.simps [of hl_env s ov "[]"] example_capability_def split: option.split health_status.split prod.split)
qed

lemma hl_prepared_run:
  "runs hl_prepared ''p/m'' = Some (0, \<lparr>health_identity = hl_run, health_sources = [''s'' \<mapsto> UNKNOWN_SOURCE], health_generations = [''s'' \<mapsto> 1],
       health_revisions = [''q'' \<mapsto> 1], last_health = Map.empty\<rparr>)"
  "configs hl_prepared = Map.empty" "bound hl_prepared" "source_generations hl_prepared (''p/m'', ''s'') = Some 1"
  by (simp_all add: hl_prepared_def hl_bound_def resolver_init_def)

lemma update_run_other [simp]: "configs (update_run m f s) = configs s" "bound (update_run m f s) = bound s"
  by (simp_all add: update_run_def split: option.split)

lemma hl_identity: "opt_is (current_identity hl_env ''p/m'') hl_run"
  by (simp add: current_identity_def hl_env_def hl_lifecycle_def)

lemma hl_query1: "query hl_env ''p/m'' ''q'' (AVAILABLE, None) 1 hl_prepared = Inr (hl_queried, UNKNOWN_SOURCE, 1)"
  by (simp add: query_def check_CapabilityHealth_def runtime_def hl_prepared_run hl_effective [OF hl_prepared_run(1)] hl_identity Let_def
      hl_queried_def UNKNOWN_SOURCE_def)

lemma hl_queried_run:
  "runs hl_queried ''p/m'' = Some (0, \<lparr>health_identity = hl_run, health_sources = [''s'' \<mapsto> UNKNOWN_SOURCE], health_generations = [''s'' \<mapsto> 1],
       health_revisions = [''q'' \<mapsto> 1], last_health = [''q'' \<mapsto> UNKNOWN_SOURCE]\<rparr>)"
  "configs hl_queried = Map.empty" "bound hl_queried" "source_generations hl_queried (''p/m'', ''s'') = Some 1"
  by (simp_all add: hl_queried_def hl_prepared_run)

lemma hl_reserve_probe: "refresh_reserve hl_env ''p/m'' ''s'' hl_run hl_queried = (hl_refreshing, Some 2)"
  by (simp add: hl_refreshing_def refresh_reserve_def hl_same_run next_generation_def hl_queried_run Let_def)

lemma hl_refreshing_run:
  "runs hl_refreshing ''p/m'' = Some (0, \<lparr>health_identity = hl_run, health_sources = [''s'' \<mapsto> UNKNOWN_SOURCE], health_generations = [''s'' \<mapsto> 2],
       health_revisions = [''q'' \<mapsto> 1], last_health = [''q'' \<mapsto> UNKNOWN_SOURCE]\<rparr>)"
  "configs hl_refreshing = Map.empty" "bound hl_refreshing" "source_generations hl_refreshing (''p/m'', ''s'') = Some 2"
  by (simp_all add: hl_refreshing_def refresh_reserve_def hl_same_run next_generation_def hl_queried_run Let_def)

lemma hl_publish_probe: "refresh_publish hl_env ''p/m'' ''s'' hl_module hl_run 2 (AVAILABLE, None) hl_refreshing = (hl_refreshed, True)"
  by (simp add: hl_refreshed_def refresh_publish_def hl_same_run hl_refreshing_run Let_def)

lemma hl_refreshed_run:
  "runs hl_refreshed ''p/m'' = Some (0, \<lparr>health_identity = hl_run, health_sources = [''s'' \<mapsto> (AVAILABLE, None)], health_generations = [''s'' \<mapsto> 2],
       health_revisions = [''q'' \<mapsto> 2], last_health = [''q'' \<mapsto> (AVAILABLE, None)]\<rparr>)"
  "configs hl_refreshed = Map.empty" "bound hl_refreshed"
proof -
  let ?s = "update_run ''p/m'' (\<lambda>run. run\<lparr>health_sources := (health_sources run)(''s'' \<mapsto> (AVAILABLE, None))\<rparr>) hl_refreshing"
  have runs: "runs ?s ''p/m'' = Some (0, \<lparr>health_identity = hl_run, health_sources = [''s'' \<mapsto> (AVAILABLE, None)], health_generations = [''s'' \<mapsto> 2],
       health_revisions = [''q'' \<mapsto> 1], last_health = [''q'' \<mapsto> UNKNOWN_SOURCE]\<rparr>)"
    by (simp add: hl_refreshing_run)
  have caps: "map cap_id (filter (\<lambda>d. ''s'' \<in> set (required_sources d)) (capabilities hl_module)) = [''q'']"
    by (simp add: hl_module_def example_capability_def)
  have step: "hl_refreshed = bump hl_env ''p/m'' ''q'' ?s"
    unfolding hl_refreshed_def refresh_publish_def
    by (simp add: hl_same_run hl_refreshing_run caps Let_def UNKNOWN_SOURCE_def)
  have eff: "effective hl_env ?s None [] (''p/m'', ''q'') = (AVAILABLE, None)"
    using hl_effective [OF runs, of None] by (simp add: hl_refreshing_run)
  show "runs hl_refreshed ''p/m'' = Some (0, \<lparr>health_identity = hl_run, health_sources = [''s'' \<mapsto> (AVAILABLE, None)], health_generations = [''s'' \<mapsto> 2],
       health_revisions = [''q'' \<mapsto> 2], last_health = [''q'' \<mapsto> (AVAILABLE, None)]\<rparr>)"
    "configs hl_refreshed = Map.empty" "bound hl_refreshed"
    unfolding step bump_def eff by (simp_all add: hl_refreshing_run)
qed

lemma hl_query2: "query hl_env ''p/m'' ''q'' (AVAILABLE, None) 1 hl_refreshed
    = Inr (update_run ''p/m'' (\<lambda>run. run\<lparr>health_revisions := (health_revisions run)(''q'' \<mapsto> 2)\<rparr>) hl_refreshed, (AVAILABLE, None), 2)"
  by (simp add: query_def check_CapabilityHealth_def runtime_def hl_refreshed_run hl_effective [OF hl_refreshed_run(1)] hl_identity Let_def)

lemma hl_reaches: "(health_step (\<lambda>_. True))\<^sup>*\<^sup>* resolver_init hl_queried"
proof -
  have bind: "bind_runtime True resolver_init = Inr hl_bound" by (simp add: bind_runtime_def hl_bound_def resolver_init_def)
  obtain v where v: "prepare_reserve hl_env ''p/m'' hl_module hl_run hl_lifecycle hl_bound = Inr (hl_prepared, v)" using hl_reserve by blast
  have "health_step (\<lambda>_. True) resolver_init hl_bound" by (rule h_bind [OF bind])
  moreover have "health_step (\<lambda>_. True) hl_bound hl_prepared" by (rule h_reserve [OF v])
  moreover have "health_step (\<lambda>_. True) hl_prepared hl_queried" by (rule h_query [OF hl_query1])
  ultimately show ?thesis by (meson converse_rtranclp_into_rtranclp r_into_rtranclp)
qed

section \<open>Properties\<close>

text \<open>A report's own health as the base is what the lifecycle's state gives.\<close>

lemma effective_reported:
  assumes "lifecycle_state_of e mid = Inr st" "report st = Some rep" "map_of (capability_health rep) cid = Some h"
  shows "effective e s (Some h) [] (mid, cid) = effective e s None [] (mid, cid)"
proof -
  have base: "Option.bind (report st) (\<lambda>rep. map_of (capability_health rep) cid) = Some h" using assms(2,3) by simp
  have "own_health e s (Some h) mid cid = own_health e s None mid cid"
    unfolding own_health_def assms(1) sum.case base option.case by (rule refl)
  then show ?thesis by (simp add: effective.simps [of e s _ "[]" "(mid, cid)"])
qed

text \<open>C29: a capability is reported available exactly when it is ready: its module is registered,
  enabled and active in a run of the registered epoch, the lifecycle reports it available, all its
  configuration fields and sources are available, and so on for every capability it requires,
  without a cycle.\<close>

theorem available_iff_ready:
  assumes "current_health e mid cid s = Inr (t, h, rv)" "lc_states e mid = Some st" "report_revisions st = Some rs" "rs cid \<noteq> None"
  shows "fst h = AVAILABLE \<longleftrightarrow> ready e s (mid, cid)"
proof -
  from assms(1,2) obtain m st' where m: "map_of (snapshot_modules (lc_registry e)) mid = Some m"
    and st': "lifecycle_state_of e mid = Inr st'" "report st' = report st" "report_revisions st' = report_revisions st"
    by (cases "map_of (snapshot_modules (lc_registry e)) mid")
      (auto simp: current_health_def rbind_eq_Inr lifecycle_state_of_def snapshot_module_def Let_def)
  show ?thesis
  proof (cases "Option.bind (report st) (\<lambda>rep. map_of (capability_health rep) cid)")
    case None
    then have "fst h \<noteq> AVAILABLE" using assms st' by (auto simp: current_health_def rbind_eq_Inr split: option.splits)
    moreover have "\<not> ready e s (mid, cid)" using None assms(2) by (auto elim!: ready.cases simp: facts_ready_def)
    ultimately show ?thesis by simp
  next
    case (Some base)
    then obtain rep where rep: "report st' = Some rep" "map_of (capability_health rep) cid = Some base"
      using st'(2) by (cases "report st") auto
    obtain n where "rs cid = Some n" using assms(4) by blast
    moreover have "report st' = Some rep" "report_revisions st' = Some rs" using rep st' assms(3) by simp_all
    ultimately have "query e mid cid base n s = Inr (t, h, rv)"
      using assms(1) st'(1) rep(2) by (simp add: current_health_def rbind_eq_Inr)
    then have "h = effective e s (Some base) [] (mid, cid)"
      by (auto simp: query_def Let_def rbind_eq_Inr split: option.splits if_splits)
    then show ?thesis using effective_ready [of e s "(mid, cid)"] effective_reported [OF st'(1) rep] by simp
  qed
qed

theorem available_iff_ready_witness:
  "fst UNKNOWN_SOURCE \<noteq> AVAILABLE \<and> \<not> ready hl_env hl_prepared (''p/m'', ''q'') \<and> ready hl_env hl_refreshed (''p/m'', ''q'')"
proof -
  have st: "lc_states hl_env ''p/m'' = Some hl_lifecycle" "report_revisions hl_lifecycle = Some [''q'' \<mapsto> 1]"
    "report hl_lifecycle = Some \<lparr>capability_health = [(''q'', AVAILABLE, None)]\<rparr>" by (simp_all add: hl_env_def hl_lifecycle_def)
  have now: "current_health hl_env ''p/m'' ''q'' s = query hl_env ''p/m'' ''q'' (AVAILABLE, None) 1 s" if "bound s" for s
    using that st by (simp add: current_health_def runtime_def hl_state)
  have "current_health hl_env ''p/m'' ''q'' hl_prepared = Inr (hl_queried, UNKNOWN_SOURCE, 1)"
    using now [OF hl_prepared_run(3)] hl_query1 by simp
  from available_iff_ready [OF this st(1,2)] have "\<not> ready hl_env hl_prepared (''p/m'', ''q'')" by simp
  moreover from now [OF hl_refreshed_run(3)] hl_query2 obtain u where "current_health hl_env ''p/m'' ''q'' hl_refreshed = Inr (u, (AVAILABLE, None), 2)" by simp
  from available_iff_ready [OF this st(1,2)] have "ready hl_env hl_refreshed (''p/m'', ''q'')" by simp
  ultimately show ?thesis by simp
qed



text \<open>Within a run that has been prepared, a revision identifies a health: of two queries of a
  capability with any steps in between, the later one answers no smaller revision, and with the
  same revision the same health.\<close>

theorem revision_identifies_health:
  assumes "(health_step Q)\<^sup>*\<^sup>* resolver_init s"
    and "runs s mid = Some (a, run)" "opt_is (current_identity e mid) (health_identity run)" "last_health run cid \<noteq> None"
    and "query e mid cid base lr s = Inr (s1, h1, r1)" "(health_step (\<lambda>b. b \<noteq> a))\<^sup>*\<^sup>* s1 s2"
    and "runs s2 mid = Some (a, run2)" "opt_is (current_identity e2 mid) (health_identity run2)"
    and "query e2 mid cid base2 lr2 s2 = Inr (s3, h2, r2)"
  shows "r1 \<le> r2 \<and> (r1 = r2 \<longrightarrow> h1 = h2)"
proof -
  have ok: "runs_ok s" using health.reachable_inv [of resolver_init Q s] assms(1) by simp
  have sub: "same_runs s s1" by (rule same_runs_query [OF assms(5)])
  have ok1: "runs_ok s1" "a < next_run s1" using ok assms(2) sub by (auto simp: runs_ok_def same_runs_def run_address_def)
  have rec1: "recorded s1 mid a cid = Some (Some r1, Some h1)" by (rule query_records [OF assms(5,2,4,3)])
  have "moved_on r1 h1 (recorded s1 mid a cid)" by (simp add: rec1 moved_on_Some)
  from run_moved_on [OF assms(6) ok1 this] have m2: "moved_on r1 h1 (recorded s2 mid a cid)" by blast
  then have "last_health run2 cid \<noteq> None" using assms(7) by (auto simp: recorded_def moved_on_Some)
  then have "recorded s3 mid a cid = Some (Some r2, Some h2)" by (rule query_records [OF assms(9,7) _ assms(8)])
  with moved_on_query [OF assms(9) m2] show ?thesis by (auto simp: moved_on_Some)
qed

theorem revision_identifies_health_witness:
  "\<exists>s s3. query hl_env ''p/m'' ''q'' (AVAILABLE, None) 1 hl_queried = Inr (s, UNKNOWN_SOURCE, 1)
     \<and> query hl_env ''p/m'' ''q'' (AVAILABLE, None) 1 hl_refreshed = Inr (s3, (AVAILABLE, None), 2) \<and> (1::int) \<le> 2"
proof -
  have same: "update_run ''p/m'' (\<lambda>run. run\<lparr>health_revisions := (health_revisions run)(''q'' \<mapsto> 1)\<rparr>) hl_queried = hl_queried"
    by (auto simp: update_run_def hl_queried_run fun_eq_iff intro!: resolver.equality)
  have q: "query hl_env ''p/m'' ''q'' (AVAILABLE, None) 1 hl_queried = Inr (hl_queried, UNKNOWN_SOURCE, 1)"
    by (simp add: query_def check_CapabilityHealth_def runtime_def hl_queried_run hl_effective [OF hl_queried_run(1)] hl_identity Let_def same
        UNKNOWN_SOURCE_def)
  have run: "(health_step (\<lambda>b. b \<noteq> 0))\<^sup>*\<^sup>* hl_queried hl_refreshed"
    using h_refresh [OF hl_reserve_probe] h_probe [OF hl_publish_probe] by (meson converse_rtranclp_into_rtranclp r_into_rtranclp)
  have "(1::int) \<le> 2 \<and> (1 = (2::int) \<longrightarrow> UNKNOWN_SOURCE = (AVAILABLE, None))"
    by (rule revision_identifies_health [OF hl_reaches hl_queried_run(1) _ _ q run hl_refreshed_run(1) _ hl_query2])
      (simp_all add: hl_identity)
  with q hl_query2 show ?thesis by blast
qed

end
