(* ===== verification/Request_Budget.thy ===== *)
theory Request_Budget
  imports Schema
begin

text \<open>
  The budgets of requests to a source: the persistent ledger shared by all callers
  (\<open>services/source_request_budget.py\<close> over the tables of migration
  \<open>0170_source_request_budget.sql\<close>), and the quota an HTTP client keeps in memory without
  it (\<open>_reserve_quota\<close> of \<open>infrastructure/http.py\<close>).  The clock's reading is an argument.
  A transaction that returns keeps its changes even when the caller then raises.
\<close>

section \<open>Declarations and tables\<close>

record source_declaration =
  source_id :: string
  source_host :: string
  requests_per_minute :: nat
  requests_per_hour :: "nat option"
  request_budget_config :: "string option"

record ledger =
  attempts :: "(string \<times> rat) list"
  cooldowns :: "string \<rightharpoonup> rat"

record budget_status =
  status_source :: string
  status_limit :: "nat option"
  used :: nat
  remaining :: "nat option"
  next_available :: "rat option"

definition rejected :: exn where
  "rejected = SourceHttpError ''request_rejected'' None None"

section \<open>Time\<close>

definition budget_now :: "pyfloat \<Rightarrow> rat res" where
  "budget_now clock = (case clock of Fin q \<Rightarrow> if q < 0 then Inl rejected else Inr q | _ \<Rightarrow> Inl rejected)"

text \<open>\<open>datetime.fromtimestamp(t, UTC)\<close>: microseconds, ties to even, up to the year 9999.\<close>

definition round_half_even :: "rat \<Rightarrow> int" where
  "round_half_even q = (let n = \<lfloor>q\<rfloor>; f = q - of_int n in
     if f < 1/2 then n else if 1/2 < f then n + 1 else if even n then n else n + 1)"

definition fromtimestamp :: "rat \<Rightarrow> rat res" where
  "fromtimestamp t = (let us = round_half_even (t * 1000000) in
     if us \<ge> 253402300800 * 1000000 then Inl ValueError else Inr (of_int us / 1000000))"

section \<open>The ledger\<close>

text \<open>\<open>xs[len(xs) - n]\<close> under the guard \<open>len(xs) >= n\<close>.\<close>

definition from_end :: "rat list \<Rightarrow> nat \<Rightarrow> rat res" where
  "from_end xs n = (if n = 0 then Inl IndexError else Inr (xs ! (length xs - n)))"

definition times_of :: "ledger \<Rightarrow> string \<Rightarrow> rat \<Rightarrow> rat list" where
  "times_of l h now = sort (map snd (filter (\<lambda>(k, t). k = h \<and> now - 3600 < t) (attempts l)))"

definition hour_due :: "nat option \<Rightarrow> rat list \<Rightarrow> rat \<Rightarrow> rat res" where
  "hour_due limit ts due = (case limit of
     None \<Rightarrow> Inr due
   | Some n \<Rightarrow> if n \<le> length ts then rbind (from_end ts n) (\<lambda>t. Inr (max due (t + 3600))) else Inr due)"

definition minute_due :: "nat \<Rightarrow> rat list \<Rightarrow> rat \<Rightarrow> rat res" where
  "minute_due rpm minute due =
     (if rpm \<le> length minute then rbind (from_end minute rpm) (\<lambda>t. Inr (max due (t + 60))) else Inr due)"

definition ledger_status :: "ledger \<Rightarrow> source_declaration \<Rightarrow> nat option \<Rightarrow> rat \<Rightarrow> budget_status res" where
  "ledger_status l d limit now =
     (let ts = times_of l (source_host d) now;
          cool = (case cooldowns l (source_host d) of None \<Rightarrow> now | Some u \<Rightarrow> u) in
      rbind (hour_due limit ts (max now cool)) (\<lambda>due1.
      let minute = filter (\<lambda>t. now - 60 < t) ts in
      rbind (minute_due (requests_per_minute d) minute due1) (\<lambda>due.
      rbind (if now < due then rbind (fromtimestamp due) (\<lambda>t. Inr (Some t)) else Inr None) (\<lambda>next.
      Inr \<lparr>status_source = source_id d, status_limit = limit, used = length ts,
           remaining = map_option (\<lambda>n. n - length ts) limit, next_available = next\<rparr>))))"

definition budget_status_of :: "pyfloat \<Rightarrow> source_declaration \<Rightarrow> nat option \<Rightarrow> ledger \<Rightarrow> budget_status res" where
  "budget_status_of clock d limit l = rbind (budget_now clock) (\<lambda>now. ledger_status l d limit now)"

definition retry_after :: "rat \<Rightarrow> rat \<Rightarrow> int" where
  "retry_after now t = min 86400 (max 1 \<lceil>t - now\<rceil>)"

definition reserve :: "pyfloat \<Rightarrow> source_declaration \<Rightarrow> nat option \<Rightarrow> ledger \<Rightarrow> ledger \<times> unit res" where
  "reserve clock d limit l = (case budget_now clock of
     Inl x \<Rightarrow> (l, Inl x)
   | Inr now \<Rightarrow>
       (let l1 = l\<lparr>attempts := filter (\<lambda>(_, t). \<not> t \<le> now - 3600) (attempts l)\<rparr> in
        case ledger_status l1 d limit now of
          Inl x \<Rightarrow> (l, Inl x)
        | Inr st \<Rightarrow> (case next_available st of
            Some t \<Rightarrow> (l1, Inl (SourceHttpError ''rate_limited'' (Some (retry_after now t)) (Some t)))
          | None \<Rightarrow> (l1\<lparr>attempts := attempts l1 @ [(source_host d, now)]\<rparr>, Inr ()))))"

definition cool_down :: "pyfloat \<Rightarrow> source_declaration \<Rightarrow> rat \<Rightarrow> ledger \<Rightarrow> ledger \<times> unit res" where
  "cool_down clock d seconds l = (case budget_now clock of
     Inl x \<Rightarrow> (l, Inl x)
   | Inr now \<Rightarrow>
       (let until = now + max 1 (min 86400 seconds) in
        (l\<lparr>cooldowns := (cooldowns l)(source_host d \<mapsto>
             (case cooldowns l (source_host d) of None \<Rightarrow> until | Some u \<Rightarrow> max u until))\<rparr>, Inr ())))"

section \<open>The client's limits\<close>

text \<open>\<open>_hourly_limit\<close>: the configured value when there is one, else the declared one.\<close>

definition hourly_limit :: "source_declaration \<Rightarrow> (string \<rightharpoonup> pyval) option \<Rightarrow> nat option res" where
  "hourly_limit d config = (case (request_budget_config d, config) of
     (Some name, Some vals) \<Rightarrow> (case vals name of
         None \<Rightarrow> Inr (requests_per_hour d)
       | Some v \<Rightarrow>
           if v = VNone \<or> v = VStr [] then Inr (requests_per_hour d)
           else (case v of VInt n \<Rightarrow> if 1 \<le> n \<and> n \<le> 1000000 then Inr (Some (nat n)) else Inl rejected
                 | _ \<Rightarrow> Inl rejected))
   | _ \<Rightarrow> Inr (requests_per_hour d))"

text \<open>\<open>_reserve_quota\<close> on the times of one source; the lock makes it one step.\<close>

definition reserve_quota :: "pyfloat \<Rightarrow> source_declaration \<Rightarrow> rat list \<Rightarrow> rat list \<times> unit res" where
  "reserve_quota clock d ts = (case clock of
     Fin now \<Rightarrow>
       (let kept = dropWhile (\<lambda>t. t \<le> now - 60) ts in
        if requests_per_minute d \<le> length kept then (kept, Inl (SourceHttpError ''rate_limited'' None None))
        else (kept @ [now], Inr ()))
   | _ \<Rightarrow> (ts, Inl rejected))"

end
