(* ===== verification/Request_Budget_Correct.thy ===== *)
theory Request_Budget_Correct
  imports Request_Budget
begin

text \<open>
  Both budgets are sliding windows: whatever the order of attempts, cool-downs and refusals,
  the granted attempts never exceed the quota in any window.  The interface \<open>rate_limiter\<close>
  has the argument once; the ledger (per minute and per hour) and the client's quota are its
  instances.
\<close>

section \<open>Sliding windows\<close>

definition spaced :: "rat \<Rightarrow> nat \<Rightarrow> rat list \<Rightarrow> bool" where
  "spaced w n ts \<longleftrightarrow> sorted ts \<and> (\<forall>a. length (filter (\<lambda>t. a < t \<and> t \<le> a + w) ts) \<le> n)"

lemma length_filter_mono: "(\<And>x. P x \<Longrightarrow> Q x) \<Longrightarrow> length (filter P xs) \<le> length (filter Q xs)"
  by (induction xs) auto

lemma spaced_snoc:
  assumes "spaced w n ts" "\<forall>t \<in> set ts. t \<le> now" "length (filter (\<lambda>t. now - w < t) ts) < n"
  shows "spaced w n (ts @ [now])"
  unfolding spaced_def
proof (intro conjI allI)
  show "sorted (ts @ [now])" using assms(1,2) by (simp add: spaced_def sorted_append)
  fix a
  show "length (filter (\<lambda>t. a < t \<and> t \<le> a + w) (ts @ [now])) \<le> n"
  proof (cases "a < now \<and> now \<le> a + w")
    case True
    then have "length (filter (\<lambda>t. a < t \<and> t \<le> a + w) ts) \<le> length (filter (\<lambda>t. now - w < t) ts)"
      by (intro length_filter_mono) linarith
    then show ?thesis using True assms(3) by simp
  next
    case False
    then show ?thesis using assms(1) by (auto simp: spaced_def)
  qed
qed

lemma filter_sorted_dropWhile: "sorted ts \<Longrightarrow> dropWhile (\<lambda>t. t \<le> a) ts = filter (\<lambda>t. a < t) (ts :: rat list)"
proof (induction ts)
  case (Cons x xs)
  show ?case
  proof (cases "x \<le> a")
    case False
    then have "\<forall>t \<in> set xs. a < t" using Cons.prems by auto
    then show ?thesis using False by simp
  qed (use Cons in auto)
qed simp

text \<open>Events with the clock's reading, and the times at which the tracked attempts were granted.\<close>

fun granted :: "(rat \<Rightarrow> 'e \<Rightarrow> 's \<Rightarrow> 's \<times> bool) \<Rightarrow> (rat \<times> 'e) list \<Rightarrow> 's \<Rightarrow> rat list" where
  "granted step [] s = []"
| "granted step ((now, e) # es) s = (if snd (step now e s) then [now] else []) @ granted step es (fst (step now e s))"

locale rate_limiter =
  fixes step :: "rat \<Rightarrow> 'e \<Rightarrow> 's \<Rightarrow> 's \<times> bool"
    and tracks :: "rat list \<Rightarrow> rat \<Rightarrow> 's \<Rightarrow> bool"
    and permitted :: "'e \<Rightarrow> bool"
    and w :: rat and n :: nat
  assumes tracks_past: "tracks ts prev s \<Longrightarrow> t \<in> set ts \<Longrightarrow> t \<le> prev"
    and tracks_step: "tracks ts prev s \<Longrightarrow> prev \<le> now \<Longrightarrow> tracks (if snd (step now e s) then ts @ [now] else ts) now (fst (step now e s))"
    and step_room: "tracks ts prev s \<Longrightarrow> prev \<le> now \<Longrightarrow> permitted e \<Longrightarrow> snd (step now e s) \<Longrightarrow>
      length (filter (\<lambda>t. now - w < t) ts) < n"
begin

lemma granted_spaced:
  assumes "tracks ts prev s" "spaced w n ts" "sorted (prev # map fst es)" "\<forall>e \<in> set es. permitted (snd e)"
  shows "spaced w n (ts @ granted step es s)"
  using assms
proof (induction es arbitrary: ts prev s)
  case (Cons e es)
  obtain now x where e: "e = (now, x)" by (cases e)
  let ?ts = "if snd (step now x s) then ts @ [now] else ts"
  have le: "prev \<le> now" and rest: "sorted (now # map fst es)" using Cons.prems(3) e by auto
  have "spaced w n ?ts"
  proof (cases "snd (step now x s)")
    case True
    have "\<forall>t \<in> set ts. t \<le> now" using tracks_past [OF Cons.prems(1)] le by fastforce
    moreover have "permitted x" using Cons.prems(4) e by simp
    ultimately show ?thesis using spaced_snoc [OF Cons.prems(2)] step_room [OF Cons.prems(1) le _ True] True by simp
  qed (use Cons.prems(2) in simp)
  from Cons.IH [OF tracks_step [OF Cons.prems(1) le] this rest] Cons.prems(4)
  have "spaced w n (?ts @ granted step es (fst (step now x s)))" by simp
  then show ?case by (cases "snd (step now x s)") (simp_all add: e)
qed simp

end

section \<open>The client's quota\<close>

definition quota_step :: "rat \<Rightarrow> source_declaration \<Rightarrow> rat list \<Rightarrow> rat list \<times> bool" where
  "quota_step now d ts = (case reserve_quota (Fin now) d ts of (ts', r) \<Rightarrow> (ts', r = Inr ()))"

definition quota_tracks :: "rat list \<Rightarrow> rat \<Rightarrow> rat list \<Rightarrow> bool" where
  "quota_tracks ts prev s \<longleftrightarrow> sorted ts \<and> (\<forall>t \<in> set ts. t \<le> prev) \<and> (\<exists>old \<le> prev - 60. s = filter (\<lambda>t. old < t) ts)"

lemma filter_later: "old \<le> a \<Longrightarrow> filter (\<lambda>t. a < t) (filter (\<lambda>t. old < t) ts) = filter (\<lambda>t. a < t) (ts :: rat list)"
  by (induction ts) auto

lemma quota_kept:
  assumes "quota_tracks ts prev s" "prev \<le> now"
  shows "dropWhile (\<lambda>t. t \<le> now - 60) s = filter (\<lambda>t. now - 60 < t) ts"
proof -
  from assms obtain old where c: "old \<le> prev - 60" "s = filter (\<lambda>t. old < t) ts" "sorted ts" unfolding quota_tracks_def by blast
  have "sorted s" using c(2,3) by (simp add: sorted_filter [where f = "\<lambda>x. x", simplified])
  then show ?thesis using filter_sorted_dropWhile [of s] filter_later [of old "now - 60" ts] c assms(2) by simp
qed

interpretation client: rate_limiter quota_step quota_tracks "\<lambda>d. requests_per_minute d \<le> n" 60 n for n
proof
  fix ts prev s t assume "quota_tracks ts prev s" "t \<in> set ts"
  then show "t \<le> prev" by (simp add: quota_tracks_def)
next
  fix ts s :: "rat list" and prev now :: rat and d :: source_declaration assume t: "quota_tracks ts prev s" "prev \<le> now"
  have past: "\<forall>t \<in> set ts. t \<le> now" "sorted ts" using t unfolding quota_tracks_def by auto
  have "filter (\<lambda>t. now - 60 < t) (ts @ [now]) = filter (\<lambda>t. now - 60 < t) ts @ [now]" by simp
  with past show "quota_tracks (if snd (quota_step now d s) then ts @ [now] else ts) now (fst (quota_step now d s))"
    by (auto simp: quota_step_def reserve_quota_def Let_def quota_kept [OF t] quota_tracks_def sorted_append intro!: exI [of _ "now - 60"])
  show "length (filter (\<lambda>t. now - 60 < t) ts) < n" if "requests_per_minute d \<le> n" "snd (quota_step now d s)"
    using that by (simp add: quota_step_def reserve_quota_def Let_def quota_kept [OF t] split: if_splits)
qed

section \<open>The ledger\<close>

text \<open>A run of the ledger mixes attempts and cool-downs of all hosts; the attempts of one host are tracked.\<close>

datatype budget_event = Attempt source_declaration "nat option" | Cool source_declaration rat

definition ledger_step :: "string \<Rightarrow> rat \<Rightarrow> budget_event \<Rightarrow> ledger \<Rightarrow> ledger \<times> bool" where
  "ledger_step h now e l = (case e of
     Attempt d limit \<Rightarrow> (case reserve (Fin now) d limit l of (l', r) \<Rightarrow> (l', source_host d = h \<and> r = Inr ()))
   | Cool d seconds \<Rightarrow> (fst (cool_down (Fin now) d seconds l), False))"

definition host_times :: "ledger \<Rightarrow> string \<Rightarrow> rat list" where
  "host_times l h = map snd (filter (\<lambda>(k, _). k = h) (attempts l))"

definition ledger_tracks :: "string \<Rightarrow> rat list \<Rightarrow> rat \<Rightarrow> ledger \<Rightarrow> bool" where
  "ledger_tracks h ts prev l \<longleftrightarrow> sorted ts \<and> (\<forall>t \<in> set ts. t \<le> prev)
     \<and> (\<exists>old \<le> prev - 3600. host_times l h = filter (\<lambda>t. old < t) ts)"

definition swept :: "rat \<Rightarrow> ledger \<Rightarrow> ledger" where
  "swept now l = l\<lparr>attempts := filter (\<lambda>(_, t). \<not> t \<le> now - 3600) (attempts l)\<rparr>"

lemma swept_simps [simp]:
  "cooldowns (swept now l) = cooldowns l" "host_times (swept now l) h = filter (\<lambda>t. now - 3600 < t) (host_times l h)"
proof -
  have "map snd (filter (\<lambda>(k, _). k = h) (filter (\<lambda>(_, t). \<not> t \<le> now - 3600) xs))
      = filter (\<lambda>t. now - 3600 < t) (map snd (filter (\<lambda>(k, _). k = h) xs))" for xs :: "(string \<times> rat) list"
    by (induction xs) auto
  then show "host_times (swept now l) h = filter (\<lambda>t. now - 3600 < t) (host_times l h)" by (simp add: host_times_def swept_def)
qed (simp add: swept_def)

lemma times_of_eq: "times_of l h now = sort (filter (\<lambda>t. now - 3600 < t) (host_times l h))"
proof -
  have "map snd (filter (\<lambda>(k, t). k = h \<and> now - 3600 < t) xs) = filter (\<lambda>t. now - 3600 < t) (map snd (filter (\<lambda>(k, _). k = h) xs))"
    for xs :: "(string \<times> rat) list" by (induction xs) auto
  then show ?thesis by (simp add: times_of_def host_times_def)
qed

lemma sorted_times_of: "sorted (times_of l h now)"
  by (simp add: times_of_eq)

text \<open>The outcomes of an attempt.\<close>

lemma budget_errors:
  "hour_due limit ts due = Inl x \<Longrightarrow> x = IndexError" "minute_due n ts due = Inl x \<Longrightarrow> x = IndexError" "fromtimestamp t = Inl x \<Longrightarrow> x = ValueError"
  by (auto simp: hour_due_def minute_due_def from_end_def fromtimestamp_def Let_def split: option.splits if_splits)

lemma reserve_cases:
  assumes "reserve (Fin now) d limit l = (l', r)"
  obtains (failed) x where "l' = l" "r = Inl x" "x = rejected \<or> x = IndexError \<or> x = ValueError"
  | (refused) st t where "0 \<le> now" "ledger_status (swept now l) d limit now = Inr st" "next_available st = Some t" "l' = swept now l"
      "r = Inl (SourceHttpError ''rate_limited'' (Some (retry_after now t)) (Some t))"
  | (granted) st where "0 \<le> now" "ledger_status (swept now l) d limit now = Inr st" "next_available st = None" "r = Inr ()"
      "l' = (swept now l)\<lparr>attempts := attempts (swept now l) @ [(source_host d, now)]\<rparr>"
proof -
  have err: "x = IndexError \<or> x = ValueError" if "ledger_status (swept now l) d limit now = Inl x" for x
    using that budget_errors unfolding ledger_status_def Let_def by (auto simp: rbind_eq_Inl split: if_splits)
  show thesis
  proof (cases "now < 0")
    case True
    then show ?thesis using assms by (intro failed [of rejected]) (simp_all add: reserve_def budget_now_def)
  next
    case False
    have r: "reserve (Fin now) d limit l = (case ledger_status (swept now l) d limit now of Inl x \<Rightarrow> (l, Inl x)
        | Inr st \<Rightarrow> (case next_available st of
            Some t \<Rightarrow> (swept now l, Inl (SourceHttpError ''rate_limited'' (Some (retry_after now t)) (Some t)))
          | None \<Rightarrow> ((swept now l)\<lparr>attempts := attempts (swept now l) @ [(source_host d, now)]\<rparr>, Inr ())))"
      using False unfolding reserve_def budget_now_def Let_def swept_def by simp
    show ?thesis
    proof (cases "ledger_status (swept now l) d limit now")
      case (Inl x)
      then show ?thesis using assms err [OF Inl] unfolding r by (intro failed [of x]) simp_all
    next
      case (Inr st)
      then show ?thesis using assms False unfolding r
        by (cases "next_available st") (auto intro: granted refused)
    qed
  qed
qed

text \<open>The instant from which the host is available again.\<close>

lemma status_due:
  fixes l d now
  defines "ts \<equiv> times_of l (source_host d) now"
  defines "ms \<equiv> filter (\<lambda>t. now - 60 < t) ts"
  assumes "ledger_status l d limit now = Inr st"
  obtains due where "now \<le> due" "\<forall>u. cooldowns l (source_host d) = Some u \<longrightarrow> u \<le> due"
    "\<forall>n. limit = Some n \<longrightarrow> n \<le> length ts \<longrightarrow> 0 < n \<and> ts ! (length ts - n) + 3600 \<le> due"
    "requests_per_minute d \<le> length ms \<longrightarrow> 0 < requests_per_minute d \<and> ms ! (length ms - requests_per_minute d) + 60 \<le> due"
    "case next_available st of None \<Rightarrow> due = now | Some t \<Rightarrow> fromtimestamp due = Inr t"
proof -
  let ?cool = "case cooldowns l (source_host d) of None \<Rightarrow> now | Some u \<Rightarrow> u"
  from assms(3) obtain d1 due nx where d1: "hour_due limit ts (max now ?cool) = Inr d1" and due: "minute_due (requests_per_minute d) ms d1 = Inr due"
    and nx: "(if now < due then rbind (fromtimestamp due) (\<lambda>t. Inr (Some t)) else Inr None) = Inr nx" "next_available st = nx"
    by (auto simp: ledger_status_def Let_def rbind_eq_Inr ts_def ms_def)
  have h: "max now ?cool \<le> d1" "\<forall>n. limit = Some n \<longrightarrow> n \<le> length ts \<longrightarrow> 0 < n \<and> ts ! (length ts - n) + 3600 \<le> d1"
    using d1 by (auto simp: hour_due_def from_end_def split: option.splits if_splits)
  have m: "d1 \<le> due" "requests_per_minute d \<le> length ms \<longrightarrow> 0 < requests_per_minute d \<and> ms ! (length ms - requests_per_minute d) + 60 \<le> due"
    using due by (auto simp: minute_due_def from_end_def split: if_splits)
  show thesis
  proof (rule that [of due])
    show "now \<le> due" using h(1) m(1) by simp
    show "\<forall>u. cooldowns l (source_host d) = Some u \<longrightarrow> u \<le> due" using h(1) m(1) by auto
    show "\<forall>n. limit = Some n \<longrightarrow> n \<le> length ts \<longrightarrow> 0 < n \<and> ts ! (length ts - n) + 3600 \<le> due" using h(2) m(1) by auto
    show "case next_available st of None \<Rightarrow> due = now | Some t \<Rightarrow> fromtimestamp due = Inr t"
      unfolding nx(2) using nx(1) h(1) m(1) by (auto simp: rbind_eq_Inr split: if_splits)
  qed (rule m(2))
qed

lemma status_available:
  assumes "ledger_status l d limit now = Inr st" "next_available st = None"
  shows "length (filter (\<lambda>t. now - 60 < t) (times_of l (source_host d) now)) < requests_per_minute d"
    and "limit = Some n \<Longrightarrow> length (times_of l (source_host d) now) < n"
    and "cooldowns l (source_host d) = Some u \<Longrightarrow> u \<le> now"
proof -
  let ?ts = "times_of l (source_host d) now"
  let ?ms = "filter (\<lambda>t. now - 60 < t) ?ts"
  from assms(1) obtain due where "now \<le> due" and cool: "\<forall>u. cooldowns l (source_host d) = Some u \<longrightarrow> u \<le> due"
    and hour: "\<forall>n. limit = Some n \<longrightarrow> n \<le> length ?ts \<longrightarrow> 0 < n \<and> ?ts ! (length ?ts - n) + 3600 \<le> due"
    and minute: "requests_per_minute d \<le> length ?ms \<longrightarrow> 0 < requests_per_minute d \<and> ?ms ! (length ?ms - requests_per_minute d) + 60 \<le> due"
    and now: "case next_available st of None \<Rightarrow> due = now | Some t \<Rightarrow> fromtimestamp due = Inr t"
    by (rule status_due)
  have [simp]: "due = now" using now assms(2) by simp
  show "length ?ms < requests_per_minute d"
  proof (rule ccontr)
    assume "\<not> length ?ms < requests_per_minute d"
    with minute have m: "0 < requests_per_minute d" "requests_per_minute d \<le> length ?ms" "?ms ! (length ?ms - requests_per_minute d) + 60 \<le> now" by auto
    then have "?ms ! (length ?ms - requests_per_minute d) \<in> set ?ms" by (intro nth_mem) linarith
    with m(3) show False by auto
  qed
  show "length ?ts < n" if "limit = Some n"
  proof (rule ccontr)
    assume "\<not> length ?ts < n"
    with hour that have m: "0 < n" "n \<le> length ?ts" "?ts ! (length ?ts - n) + 3600 \<le> now" by auto
    then have "?ts ! (length ?ts - n) \<in> set ?ts" by (intro nth_mem) linarith
    with m(3) show False by (auto simp: times_of_eq)
  qed
  show "u \<le> now" if "cooldowns l (source_host d) = Some u" using cool that by simp
qed

text \<open>What the ledger keeps of the tracked host.\<close>

lemma tracked_times:
  assumes "ledger_tracks h ts prev l" "prev \<le> now"
  shows "times_of (swept now l) h now = filter (\<lambda>t. now - 3600 < t) ts"
proof -
  from assms(1) obtain old where o: "old \<le> prev - 3600" "host_times l h = filter (\<lambda>t. old < t) ts" "sorted ts"
    unfolding ledger_tracks_def by blast
  have "sorted (filter (\<lambda>t. now - 3600 < t) ts)" using o(3) by (simp add: sorted_filter [where f = "\<lambda>x. x", simplified])
  then show ?thesis using filter_later [of old "now - 3600" ts] o assms(2) by (simp add: times_of_eq sort_key_id_if_sorted)
qed

lemma host_times_add:
  "host_times (l\<lparr>attempts := attempts l @ [(k, t)]\<rparr>) h = host_times l h @ (if k = h then [t] else [])"
  by (simp add: host_times_def)

lemma tracks_swept:
  assumes "ledger_tracks h ts prev l" "prev \<le> now"
  shows "host_times (swept now l) h = filter (\<lambda>t. now - 3600 < t) ts"
proof -
  from assms(1) obtain old where "old \<le> prev - 3600" "host_times l h = filter (\<lambda>t. old < t) ts" unfolding ledger_tracks_def by blast
  then show ?thesis using filter_later [of old "now - 3600" ts] assms(2) by simp
qed

lemma tracks_later:
  assumes "ledger_tracks h ts prev l" "prev \<le> now"
  shows "\<forall>t \<in> set ts. t \<le> now" "sorted ts" "attempts l' = attempts l \<Longrightarrow> ledger_tracks h ts now l'" "ledger_tracks h ts now (swept now l)"
proof -
  from assms show base: "\<forall>t \<in> set ts. t \<le> now" "sorted ts" unfolding ledger_tracks_def by auto
  from assms(1) obtain old where "old \<le> prev - 3600" "host_times l h = filter (\<lambda>t. old < t) ts" unfolding ledger_tracks_def by blast
  then have "\<exists>old \<le> now - 3600. host_times l h = filter (\<lambda>t. old < t) ts" using assms(2) by (intro exI [of _ old]) simp
  with base show "ledger_tracks h ts now l'" if "attempts l' = attempts l"
    using that unfolding ledger_tracks_def host_times_def by auto
  from base tracks_swept [OF assms] show "ledger_tracks h ts now (swept now l)" unfolding ledger_tracks_def by blast
qed

lemma ledger_tracks_step:
  assumes "ledger_tracks h ts prev l" "prev \<le> now"
  shows "ledger_tracks h (if snd (ledger_step h now e l) then ts @ [now] else ts) now (fst (ledger_step h now e l))"
proof (cases e)
  case (Attempt d limit)
  obtain l' r where r: "reserve (Fin now) d limit l = (l', r)" by (cases "reserve (Fin now) d limit l")
  then show ?thesis
  proof (cases rule: reserve_cases)
    case (granted st)
    note base = tracks_later(1,2) [OF assms]
    have "host_times l' h = filter (\<lambda>t. now - 3600 < t) (if source_host d = h then ts @ [now] else ts)"
      unfolding granted(5) host_times_add using tracks_swept [OF assms] by simp
    with base have "ledger_tracks h (if source_host d = h then ts @ [now] else ts) now l'"
      unfolding ledger_tracks_def by (auto simp: sorted_append intro!: exI [of _ "now - 3600"])
    then show ?thesis using Attempt r granted(4) by (simp add: ledger_step_def)
  qed (use tracks_later(3,4) [OF assms] Attempt r in \<open>simp_all add: ledger_step_def\<close>)
next
  case (Cool d seconds)
  have "attempts (fst (cool_down (Fin now) d seconds l)) = attempts l" by (simp add: cool_down_def budget_now_def Let_def)
  then show ?thesis using tracks_later(3) [OF assms] Cool by (simp add: ledger_step_def)
qed

lemma ledger_granted:
  assumes "snd (ledger_step h now e l)"
  obtains d limit st where "e = Attempt d limit" "source_host d = h" "ledger_status (swept now l) d limit now = Inr st" "next_available st = None"
proof (cases e)
  case (Attempt d limit)
  obtain l' r where r: "reserve (Fin now) d limit l = (l', r)" by (cases "reserve (Fin now) d limit l")
  with assms Attempt have "source_host d = h" "r = Inr ()" by (simp_all add: ledger_step_def)
  with r show ?thesis by (cases rule: reserve_cases) (use that [OF Attempt] in auto)
qed (use assms in \<open>simp add: ledger_step_def\<close>)

definition minute_quota :: "string \<Rightarrow> nat \<Rightarrow> budget_event \<Rightarrow> bool" where
  "minute_quota h n e = (case e of Attempt d _ \<Rightarrow> source_host d = h \<longrightarrow> requests_per_minute d \<le> n | _ \<Rightarrow> True)"

definition hour_quota :: "string \<Rightarrow> nat \<Rightarrow> budget_event \<Rightarrow> bool" where
  "hour_quota h n e = (case e of Attempt d limit \<Rightarrow> source_host d = h \<longrightarrow> (\<exists>m \<le> n. limit = Some m) | _ \<Rightarrow> True)"

interpretation minute: rate_limiter "ledger_step h" "ledger_tracks h" "minute_quota h n" 60 n for h n
proof
  show "t \<le> prev" if "ledger_tracks h ts prev l" "t \<in> set ts" for ts prev l t using that by (simp add: ledger_tracks_def)
  show "length (filter (\<lambda>t. now - 60 < t) ts) < n"
    if t: "ledger_tracks h ts prev l" "prev \<le> now" and p: "minute_quota h n e" and g: "snd (ledger_step h now e l)" for ts prev now l e
  proof -
    from g obtain d limit st where e: "e = Attempt d limit" "source_host d = h" "ledger_status (swept now l) d limit now = Inr st"
      "next_available st = None" by (rule ledger_granted)
    have "filter (\<lambda>t. now - 60 < t) (filter (\<lambda>t. now - 3600 < t) ts) = filter (\<lambda>t. now - 60 < t) ts" by (rule filter_later) simp
    then show ?thesis using status_available(1) [OF e(3,4)] p e(1,2) tracked_times [OF t] by (simp add: minute_quota_def)
  qed
qed (rule ledger_tracks_step)

interpretation hour: rate_limiter "ledger_step h" "ledger_tracks h" "hour_quota h n" 3600 n for h n
proof
  show "t \<le> prev" if "ledger_tracks h ts prev l" "t \<in> set ts" for ts prev l t using that by (simp add: ledger_tracks_def)
  show "length (filter (\<lambda>t. now - 3600 < t) ts) < n"
    if t: "ledger_tracks h ts prev l" "prev \<le> now" and p: "hour_quota h n e" and g: "snd (ledger_step h now e l)" for ts prev now l e
  proof -
    from g obtain d limit st where e: "e = Attempt d limit" "source_host d = h" "ledger_status (swept now l) d limit now = Inr st"
      "next_available st = None" by (rule ledger_granted)
    from p e(1,2) obtain m where m: "m \<le> n" "limit = Some m" by (auto simp: hour_quota_def)
    then show ?thesis using status_available(2) [OF e(3,4) m(2)] tracked_times [OF t] e(2) by simp
  qed
qed (rule ledger_tracks_step)

section \<open>Waiting\<close>

lemma round_half_even_close: "q - 1/2 \<le> of_int (round_half_even q)"
  unfolding round_half_even_def Let_def by (auto simp: field_simps) linarith+

lemma fromtimestamp_close: "fromtimestamp t = Inr u \<Longrightarrow> t \<le> u + 1/1000000"
  using round_half_even_close [of "t * 1000000"] by (auto simp: fromtimestamp_def Let_def field_simps split: if_splits)

lemma few_later:
  assumes "sorted xs" "0 < n" "n \<le> length xs" "xs ! (length xs - n) \<le> (a :: rat)"
  shows "length (filter (\<lambda>t. a < t) xs) < n"
proof -
  let ?k = "Suc (length xs - n)"
  have "x \<le> a" if "x \<in> set (take ?k xs)" for x
  proof -
    from that obtain i where i: "i < ?k" "i < length xs" "x = xs ! i" by (auto simp: in_set_conv_nth)
    then have "x \<le> xs ! (length xs - n)" using assms(1-3) by (auto intro!: sorted_nth_mono)
    then show ?thesis using assms(4) by simp
  qed
  then have "filter (\<lambda>t. a < t) (take ?k xs) = []" by (auto simp: filter_empty_conv not_less)
  then have "filter (\<lambda>t. a < t) xs = filter (\<lambda>t. a < t) (drop ?k xs)"
    using filter_append [of "\<lambda>t. a < t" "take ?k xs" "drop ?k xs"] by simp
  then have "length (filter (\<lambda>t. a < t) xs) \<le> length (drop ?k xs)" by (simp only: length_filter_le)
  then show ?thesis using assms(2,3) by simp
qed

lemma times_of_later:
  assumes "now \<le> later"
  shows "times_of (swept later l) h later = filter (\<lambda>t. later - 3600 < t) (times_of l h now)"
proof -
  have "filter (\<lambda>t. later - 3600 < t) (filter (\<lambda>t. now - 3600 < t) (host_times l h)) = filter (\<lambda>t. later - 3600 < t) (host_times l h)"
    using assms by (intro filter_later) simp
  then show ?thesis unfolding times_of_eq filter_sort swept_simps by (simp only: filter_later [OF order.refl])
qed

lemma reserve_when_due:
  assumes st: "ledger_status l d limit now = Inr st" "next_available st = Some t" and later: "t + 1/1000000 \<le> later" and pos: "0 \<le> now"
  shows "snd (reserve (Fin later) d limit l) = Inr ()"
proof -
  let ?h = "source_host d"
  let ?ts = "times_of l ?h now"
  let ?ms = "filter (\<lambda>t. now - 60 < t) ?ts"
  let ?ts' = "times_of (swept later l) ?h later"
  let ?ms' = "filter (\<lambda>t. later - 60 < t) ?ts'"
  from st(1) obtain due where due: "now \<le> due" and cool: "\<forall>u. cooldowns l ?h = Some u \<longrightarrow> u \<le> due"
    and hour: "\<forall>n. limit = Some n \<longrightarrow> n \<le> length ?ts \<longrightarrow> 0 < n \<and> ?ts ! (length ?ts - n) + 3600 \<le> due"
    and minute: "requests_per_minute d \<le> length ?ms \<longrightarrow> 0 < requests_per_minute d \<and> ?ms ! (length ?ms - requests_per_minute d) + 60 \<le> due"
    and next': "case next_available st of None \<Rightarrow> due = now | Some t \<Rightarrow> fromtimestamp due = Inr t"
    by (rule status_due)
  have le: "due \<le> later" using fromtimestamp_close [of due t] next' st(2) later by simp
  then have now: "now \<le> later" using due by simp
  note ts' = times_of_later [OF now, of l ?h]
  have hours: "length ?ts' < n" if "limit = Some n" for n
  proof (cases "n \<le> length ?ts")
    case True
    with hour that have "0 < n" "?ts ! (length ?ts - n) \<le> later - 3600" using le by force+
    then show ?thesis unfolding ts' by (intro few_later [OF sorted_times_of _ True])
  next
    case False
    then show ?thesis unfolding ts' using length_filter_le [of "\<lambda>t. later - 3600 < t" ?ts] by linarith
  qed
  have ms': "?ms' = filter (\<lambda>t. later - 60 < t) ?ms" unfolding ts'
    using now by (simp add: filter_later [of "later - 3600" "later - 60"] filter_later [of "now - 60" "later - 60"] del: filter_filter)
  have minutes: "length ?ms' < requests_per_minute d"
  proof (cases "requests_per_minute d \<le> length ?ms")
    case True
    with minute have "0 < requests_per_minute d" "?ms ! (length ?ms - requests_per_minute d) \<le> later - 60" using le by force+
    moreover have "sorted ?ms" using sorted_times_of by (simp add: sorted_filter [where f = "\<lambda>x. x", simplified])
    ultimately show ?thesis unfolding ms' using True by (intro few_later)
  next
    case False
    then show ?thesis unfolding ms' using length_filter_le [of "\<lambda>t. later - 60 < t" ?ms] by linarith
  qed
  have "max later (case cooldowns l ?h of None \<Rightarrow> later | Some u \<Rightarrow> u) = later" using cool le by (auto split: option.split intro: max_absorb1)
  then have "hour_due limit ?ts' (max later (case cooldowns l ?h of None \<Rightarrow> later | Some u \<Rightarrow> u)) = Inr later"
    using hours by (auto simp: hour_due_def not_le split: option.split)
  moreover have "minute_due (requests_per_minute d) ?ms' later = Inr later" using minutes by (simp add: minute_due_def)
  ultimately have "\<exists>st'. ledger_status (swept later l) d limit later = Inr st' \<and> next_available st' = None"
    by (simp add: ledger_status_def Let_def)
  then show ?thesis using now pos by (auto simp: reserve_def budget_now_def swept_def [symmetric] Let_def)
qed

lemma cooldown_kept:
  assumes "cooldowns l h = Some u"
  shows "\<exists>u' \<ge> u. cooldowns (fst (ledger_step g now e l)) h = Some u'"
proof (cases e)
  case (Attempt d limit)
  obtain l' r where r: "reserve (Fin now) d limit l = (l', r)" by (cases "reserve (Fin now) d limit l")
  then have "cooldowns l' = cooldowns l" by (cases rule: reserve_cases) auto
  then show ?thesis using assms Attempt r by (simp add: ledger_step_def)
next
  case (Cool d seconds)
  then show ?thesis using assms by (auto simp: ledger_step_def cool_down_def budget_now_def Let_def)
qed

lemma granted_after_cooldown:
  assumes "cooldowns l h = Some u" "t \<in> set (granted (ledger_step h) es l)"
  shows "u \<le> t"
  using assms
proof (induction es arbitrary: l u)
  case (Cons e es)
  obtain now x where e: "e = (now, x)" by (cases e)
  from cooldown_kept [OF Cons.prems(1), of h now x] obtain u' where u': "u \<le> u'" "cooldowns (fst (ledger_step h now x l)) h = Some u'" by blast
  show ?case
  proof (cases "t \<in> set (granted (ledger_step h) es (fst (ledger_step h now x l)))")
    case True
    then show ?thesis using Cons.IH [OF u'(2)] u'(1) by fastforce
  next
    case False
    then have t: "t = now" "snd (ledger_step h now x l)" using Cons.prems(2) e by (auto split: if_splits)
    from t(2) obtain d limit st where "x = Attempt d limit" "source_host d = h" "ledger_status (swept now l) d limit now = Inr st"
      "next_available st = None" by (rule ledger_granted)
    then show ?thesis using status_available(3) Cons.prems(1) t(1) by fastforce
  qed
qed simp

section \<open>Properties\<close>

definition demo_source :: source_declaration where
  "demo_source = \<lparr>source_id = ''s'', source_host = ''h'', requests_per_minute = 1, requests_per_hour = Some 2, request_budget_config = None\<rparr>"

definition demo_ledger :: ledger where
  "demo_ledger = \<lparr>attempts = [], cooldowns = (\<lambda>_. None)\<rparr>"

lemmas demo_budget = demo_source_def demo_ledger_def reserve_def cool_down_def budget_now_def ledger_status_def times_of_def
  hour_due_def minute_due_def from_end_def fromtimestamp_def round_half_even_def ledger_step_def Let_def

text \<open>C30: the shared ledger is a sliding window: whatever attempts and cool-downs of all hosts arrive,
  with a clock that does not run backwards, the attempts granted for a host never exceed the
  largest per-minute quota of its declarations in any 60 seconds, nor the largest hourly limit
  in any 3600 seconds.\<close>

theorem request_rate_bounded:
  assumes "attempts l = []" "sorted (map fst es)"
    and "\<forall>e \<in> set es. minute_quota h n (snd e) \<and> hour_quota h m (snd e)"
  shows "length (filter (\<lambda>t. a < t \<and> t \<le> a + 60) (granted (ledger_step h) es l)) \<le> n
    \<and> length (filter (\<lambda>t. a < t \<and> t \<le> a + 3600) (granted (ledger_step h) es l)) \<le> m"
proof -
  define start where "start = (case es of [] \<Rightarrow> 0 | e # _ \<Rightarrow> fst e)"
  have ord: "sorted (start # map fst es)" using assms(2) by (cases es) (simp_all add: start_def)
  have tr: "ledger_tracks h [] start l" using assms(1) by (auto simp: ledger_tracks_def host_times_def)
  have none: "spaced w k []" for w k by (simp add: spaced_def)
  have "spaced 60 n ([] @ granted (ledger_step h) es l)"
    by (rule minute.granted_spaced [OF tr none ord]) (use assms(3) in simp)
  moreover have "spaced 3600 m ([] @ granted (ledger_step h) es l)"
    by (rule hour.granted_spaced [OF tr none ord]) (use assms(3) in simp)
  ultimately show ?thesis by (simp add: spaced_def)
qed

theorem request_rate_bounded_witness:
  "granted (ledger_step ''h'') [(100, Attempt demo_source (Some 2)), (130, Attempt demo_source (Some 2)), (160, Attempt demo_source (Some 2))]
      demo_ledger = [100, 160]
   \<and> length (filter (\<lambda>t. 100 < t \<and> t \<le> 100 + 60) (granted (ledger_step ''h'')
      [(100, Attempt demo_source (Some 2)), (130, Attempt demo_source (Some 2)), (160, Attempt demo_source (Some 2))] demo_ledger)) \<le> 1"
proof
  show "granted (ledger_step ''h'') [(100, Attempt demo_source (Some 2)), (130, Attempt demo_source (Some 2)), (160, Attempt demo_source (Some 2))]
      demo_ledger = [100, 160]" by (simp add: demo_budget)
  show "length (filter (\<lambda>t. 100 < t \<and> t \<le> 100 + 60) (granted (ledger_step ''h'')
      [(100, Attempt demo_source (Some 2)), (130, Attempt demo_source (Some 2)), (160, Attempt demo_source (Some 2))] demo_ledger)) \<le> 1"
    by (rule request_rate_bounded [where m = 2, THEN conjunct1])
      (simp_all add: demo_ledger_def minute_quota_def hour_quota_def demo_source_def)
qed

text \<open>C37: the advice of a refused attempt is right: when an attempt is refused with the instant at which
  the source is next available, the same attempt succeeds at any later time, one microsecond of
  rounding allowed for.\<close>

theorem retry_time_suffices:
  assumes "reserve (Fin now) d limit l = (l', Inl (SourceHttpError ''rate_limited'' advice (Some t)))"
    and "t + 1/1000000 \<le> later"
  shows "snd (reserve (Fin later) d limit l') = Inr ()"
  using assms(1)
proof (cases rule: reserve_cases)
  case (failed x)
  then show ?thesis by (auto simp: rejected_def)
next
  case (refused st t')
  then show ?thesis using reserve_when_due [of "swept now l" d limit now st t later] assms(2) by simp
qed simp

theorem retry_time_suffices_witness:
  "reserve (Fin 130) demo_source None (demo_ledger\<lparr>attempts := [(''h'', 100)]\<rparr>)
     = (demo_ledger\<lparr>attempts := [(''h'', 100)]\<rparr>, Inl (SourceHttpError ''rate_limited'' (Some 30) (Some 160)))
   \<and> snd (reserve (Fin 161) demo_source None (demo_ledger\<lparr>attempts := [(''h'', 100)]\<rparr>)) = Inr ()"
proof -
  have "reserve (Fin 130) demo_source None (demo_ledger\<lparr>attempts := [(''h'', 100)]\<rparr>)
     = (demo_ledger\<lparr>attempts := [(''h'', 100)]\<rparr>, Inl (SourceHttpError ''rate_limited'' (Some 30) (Some 160)))"
    by (simp add: demo_budget retry_after_def)
  then show ?thesis using retry_time_suffices [of 130 demo_source None "demo_ledger\<lparr>attempts := [(''h'', 100)]\<rparr>"
      "demo_ledger\<lparr>attempts := [(''h'', 100)]\<rparr>" "Some 30" 160 161] by simp
qed

text \<open>a cool-down is respected: after a source answered that it is overloaded, no attempt for its host
  is granted before the requested delay (at least one second, at most a day) has passed, whatever
  else happens to the ledger.\<close>

theorem cooldown_respected:
  assumes "cool_down (Fin now) d seconds l = (l', Inr ())" "t \<in> set (granted (ledger_step (source_host d)) es l')"
  shows "now + max 1 (min 86400 seconds) \<le> t"
proof -
  from assms(1) have "l' = fst (cool_down (Fin now) d seconds l)" "\<not> now < 0" by (auto simp: cool_down_def budget_now_def split: if_splits)
  then have "\<exists>u \<ge> now + max 1 (min 86400 seconds). cooldowns l' (source_host d) = Some u"
    by (simp add: cool_down_def budget_now_def Let_def split: option.split)
  then obtain u where "now + max 1 (min 86400 seconds) \<le> u" "cooldowns l' (source_host d) = Some u" by blast
  then show ?thesis using granted_after_cooldown [OF _ assms(2)] by force
qed

theorem cooldown_respected_witness:
  "granted (ledger_step ''h'') [(110, Attempt demo_source None), (140, Attempt demo_source None)] (fst (cool_down (Fin 100) demo_source 30 demo_ledger)) = [140]
   \<and> (100::rat) + max 1 (min 86400 30) \<le> 140"
proof -
  have g: "granted (ledger_step ''h'') [(110, Attempt demo_source None), (140, Attempt demo_source None)]
      (fst (cool_down (Fin 100) demo_source 30 demo_ledger)) = [140]" by (simp add: demo_budget)
  have "cool_down (Fin 100) demo_source 30 demo_ledger = (fst (cool_down (Fin 100) demo_source 30 demo_ledger), Inr ())"
    by (simp add: demo_budget)
  from cooldown_respected [OF this, of 140] g show ?thesis by (simp add: demo_source_def)
qed

text \<open>the quota an HTTP client keeps in memory is a sliding window as well: with a clock that does
  not run backwards, in any 60 seconds at most the declared number of requests is granted.\<close>

theorem client_quota_bounded:
  assumes "sorted (map fst es)" "\<forall>e \<in> set es. requests_per_minute (snd e) \<le> n"
  shows "length (filter (\<lambda>t. a < t \<and> t \<le> a + 60) (granted quota_step es [])) \<le> n"
proof -
  define start where "start = (case es of [] \<Rightarrow> 0 | e # _ \<Rightarrow> fst e)"
  have ord: "sorted (start # map fst es)" using assms(1) by (cases es) (simp_all add: start_def)
  have tr: "quota_tracks [] start []" by (auto simp: quota_tracks_def)
  have "spaced 60 n ([] @ granted quota_step es [])"
    using assms(2) by (intro client.granted_spaced [OF tr _ ord]) (auto simp: spaced_def)
  then show ?thesis by (simp add: spaced_def)
qed

theorem client_quota_bounded_witness:
  "granted quota_step [(0, demo_source), (59, demo_source), (60, demo_source)] [] = [0, 60]
   \<and> length (filter (\<lambda>t. 0 < t \<and> t \<le> 0 + 60) (granted quota_step [(0, demo_source), (59, demo_source), (60, demo_source)] [])) \<le> 1"
proof
  show "granted quota_step [(0, demo_source), (59, demo_source), (60, demo_source)] [] = [0, 60]"
    by (simp add: quota_step_def reserve_quota_def demo_source_def)
  show "length (filter (\<lambda>t. 0 < t \<and> t \<le> 0 + 60) (granted quota_step [(0, demo_source), (59, demo_source), (60, demo_source)] [])) \<le> 1"
    by (rule client_quota_bounded) (simp_all add: demo_source_def)
qed

end
