(* ===== verification/Spec2Isabelle.thy ===== *)
theory Spec2Isabelle
  imports Lifecycle_Properties Task_Scope_Correct Root_Outputs_Correct Delivery_Service_Correct Jobs_Properties Health_Correct Request_Budget_Correct
begin

text \<open>
  Verification of the core of the Yomihime game link plugin: a host that loads packages of
  modules, decides which calls into a module are permitted, and keeps long-running jobs in a
  database.  This theory imports the whole development.

  \<^bold>\<open>The program.\<close>  A package declares modules with their capabilities, commands, pages
  and tools (\<open>core/contracts/manifests.py\<close>) and the schemas of their parameters
  (\<open>core/contracts/schema.py\<close>, \<open>validation.py\<close>).  The registry (\<open>core/registry.py\<close>)
  publishes revisions of the set of registered modules.  A call into a module is represented by an
  invocation view that only the issuer (\<open>core/context_issuer.py\<close>) makes; views form trees, and
  releasing one releases its descendants and tells observers.  The admission controller
  (\<open>core/admission.py\<close>) holds one gate per module and turns a view, a scheduled run, a job or a
  delivery into a lease that must pass a check before every effect; it observes the issuer so that
  a released view loses its lease.  The lifecycle coordinator (\<open>core/lifecycle.py\<close>) installs,
  starts, quiesces and stops the instance of a module: it gives every run an epoch and an identity
  object, opens and closes the gate of the run, and publishes the intent to the registry.  The
  health resolver (\<open>core/health.py\<close>) turns the state of the runs into the health of each
  capability.  Durable jobs (\<open>infrastructure/sqlite/repositories_jobs.py\<close>)
  are rows with a run token that fences workers which lost their run.  The sends of root results
  are claimed in a table with growing generations, so that a retry does not send twice.  The events of
  subscriptions (\<open>repositories_subscriptions.py\<close>) are delivered by a service
  (\<open>services/delivery.py\<close>) that claims an event before it sends and records how the attempt ended.

  \<^bold>\<open>The theories.\<close>
  \<^item> \<open>Prelude\<close>: exceptions and results (an exception of the code is \<open>Inl\<close>), objects with
    identity (the code's \<open>is\<close> compares addresses), strings, and the interfaces
    \<open>transition_system\<close>, \<open>revisioned_system\<close> and \<open>simulation\<close> of the components.
  \<^item> \<open>Schema\<close>, \<open>Schema_Correct\<close>: Python values, \<open>freeze_value\<close>, \<open>freeze_input_schema\<close>,
    \<open>freeze_json\<close> and \<open>validate_parameters\<close>; validation accepts exactly the parameters that
    conform to a reference definition, frozen schemas are well-formed and fixed points, and errors
    name schema paths only.
  \<^item> \<open>Text\<close>, \<open>Manifests\<close>: the regular expressions of identifiers and versions, the data
    classes of the SDK and the checks of a manifest, with the invocation policy
    (\<open>core/policy.py\<close>); an accepted tool or page reaches only what the policy permits.
  \<^item> \<open>Registry\<close>, \<open>Registry_Correct\<close>: every operation of \<open>Registry\<close> on a record of the
    published snapshot; lookups are sound, a revision identifies a snapshot, lifecycle publication
    is a compare-and-swap.
  \<^item> \<open>Issuer\<close>, \<open>Issuer_Correct\<close>: every operation of \<open>ContextIssuer\<close>, the execution
    budgets (\<open>core/invocation_budget.py\<close>) and collection contexts
    (\<open>core/collection_context.py\<close>); a view is accepted exactly while it and its ancestors are
    the issued objects, a released one never again, and derived views never widen.
  \<^item> \<open>Admission\<close>, \<open>Admission_Correct\<close>: every operation of \<open>AdmissionController\<close> over
    the registry and issuer models, with the leases and permits of \<open>core/ports.py\<close>; an exact
    characterisation of the check, fencing by closed gates and released views, the tables of
    controller and issuer agree, and a send either schedules its permit or aborts its claim.
  \<^item> \<open>Json_Text\<close>: the texts of integers and strings in canonical JSON, for jobs and deliveries.
  \<^item> \<open>Jobs\<close>, \<open>Jobs_Correct\<close>, \<open>Jobs_Properties\<close>: canonical JSON and every transaction of
    \<open>SQLiteJobRepository\<close> over its three tables; every run refines the life cycle of a job, stale
    runs cannot write, capacity limits hold, submission is idempotent, results are read back in
    order.
  \<^item> \<open>Effects\<close>: operations on a state that may raise after they changed it, with
    \<open>ecatch\<close> for the handlers of the code and \<open>wp\<close>, the postcondition of both ways to end.
  \<^item> \<open>Lifecycle\<close>, \<open>Lifecycle_Correct\<close>, \<open>Lifecycle_Run\<close>,
    \<open>Lifecycle_Properties\<close>: every operation of \<open>LifecycleCoordinator\<close>.  A coroutine is cut at
    its awaits: each part is an operation, the local variables that live across an await are a
    frame (\<open>start_frame\<close>, \<open>start_point\<close>, \<open>stop_point\<close>), and the outcome of the awaited task
    and the answers of module code are arguments.  \<open>life_step\<close> interleaves the parts freely.
    The epochs of a module grow, a quiesced run stays behind its fence, publication is the one way
    to become active, an undisturbed start succeeds, a failing one is contained, and operations
    exclude each other.  \<open>Lifecycle_Run\<close> is a concrete run that the witnesses share.
  \<^item> \<open>Task_Scope\<close>, \<open>Task_Scope_Correct\<close>: every operation of \<open>TaskScope\<close>
    (\<open>core/task_scope.py\<close>) together with the tasks it starts, cut at their awaits; a cancelled
    scope accepts nothing, a stopped one has no unfinished task, the history is complete within its
    bound, and the loops that wait for cancelled tasks end (the interface \<open>timed_loop\<close>).
  \<^item> \<open>Timestamps\<close>: the ISO texts of UTC instants through the Gregorian calendar; the order of
    the texts is the order of the instants, and reading a written text gives the instant.
  \<^item> \<open>Root_Outputs\<close>, \<open>Root_Outputs_Correct\<close>: every transaction of
    \<open>SQLiteRootOutputRepository\<close> (\<open>repositories_output.py\<close>) with the claims of
    \<open>core/ports.py\<close>, comparing the texts of the columns as the statements do; every
    transaction is a sequence of changes of single rows that moves an abstract claim machine, stored
    rows read back as valid claims, a root is sent at most once within the retention, and an
    overtaken claim is dead.
  \<^item> \<open>Deliveries\<close>, \<open>Deliveries_Correct\<close>, \<open>Deliveries_Properties\<close>: the events and
    attempts of \<open>core/contracts/subscriptions.py\<close>, every transaction of
    \<open>SQLiteDeliveryRepository\<close> on them, the insertion of events and the reading of the gates that
    fence them.  Every transaction is a sequence of changes of single events (\<open>event_change\<close>) and moves
    an abstract machine of phases and attempt numbers; the ledger of attempts agrees with the events, at
    most one attempt of an event may have been sent, a settled event never changes, a claim succeeds
    exactly when \<open>may_send\<close> allows it, and recovery resolves the stale sends.
  \<^item> \<open>Delivery_Service\<close>, \<open>Delivery_Service_Correct\<close>: the last check before a send, every
    end of an attempt and the scan of due events of \<open>DeliveryService\<close>, as operations with effects over
    the store.  They are runs of its transactions; an approved event is current, a lost claim leaves
    nothing in flight, and the scan ends and misses no due event.  How the wait for a claim ends is an
    argument (\<open>answer\<close>), and so is what a dispatch does to the store during a scan.
  \<^item> \<open>Health\<close>, \<open>Health_Correct\<close>: every operation of \<open>HealthResolver\<close>
    (\<open>core/health.py\<close>) with the contracts of configuration snapshots, over the state of
    the lifecycle; the health of a capability is the least fixed point of its facts and
    dependencies, an overtaken probe is not published, and a revision identifies a health.
  \<^item> \<open>Request_Budget\<close>, \<open>Request_Budget_Correct\<close>: the ledger of requests per host
    (\<open>services/source_request_budget.py\<close>) and the quota of an HTTP client
    (\<open>infrastructure/http.py\<close>); both are sliding windows, instances of the interface
    \<open>rate_limiter\<close>, the advised waiting time suffices and cool-downs are respected.

  \<^bold>\<open>State, steps and time.\<close>  A component's state is a record, an operation returns the new
  state or an exception.  Step relations (\<open>reg_step\<close>, \<open>iss_step\<close>, \<open>sys_step\<close>,
  \<open>jobs_step\<close>, \<open>health_step\<close>, \<open>life_step\<close>, \<open>scope_step\<close>,
  \<open>output_step\<close>, \<open>delivery_step\<close>) take one operation at a time: the code runs them on one event loop or in one
  immediate transaction.  An operation of the health resolver that waits is one step per section
  under its lock.  That a module whose gate is open is active is no invariant of the lifecycle:
  a stop that waited while a newer run was published can still mark the newer run as failed.
  Values an operation reads from outside (the clock, random identifiers,
  proofs and callbacks, the hash and the text of a float) are its arguments.

  \<^bold>\<open>Loops.\<close>  The walk from a view to its root is a recursion with fuel equal to the number of
  the next view: a parent is older than its child, so the fuel suffices, and the characterisation
  of \<open>require_view\<close> shows that it returns.  The walk along the dependencies of a capability
  is total because its stack holds distinct declared capabilities.  The waits of a task scope
  look at the clock in every round and end once it passes their bound.  The scan of due events
  has fuel for its rounds: its cursor grows, so more rounds than there are events suffice.  All other recursions are
  structural or decrease a size.

  \<^bold>\<open>Idealisations.\<close>  Characters are Latin-1, so that a text of the code outside it is not
  represented; seconds and finite floats are rational numbers, without rounding; a test of a
  value's Python class is expressed by its type where the model's types decide it.  Random
  identifiers are not assumed to be fresh where the code checks them, and are described by a
  predicate in the step relations where it does not.  A JSON column of deliveries holds the record its
  text stands for; reading it runs the checks of the record, and the documents, contributions and
  commentary inside are opaque texts.  The transactions of \<open>delivery_step\<close> record attempts from the
  states the service expects (pending, failed or being sent); the projection of digests and the
  revocation of grants, which also write events, are not among them.

  \<^bold>\<open>Not modelled.\<close>  The other services, adapters, the remaining repositories and the digests
  of the subscription store, presentation and the bundled game module; cancel requests to tasks, of which only the outcome is seen; the own checks of sources, diagnostics,
  schedules, subscriptions and collections in a manifest.
\<close>

end
